(* ===== verification/Prelude.thy ===== *)
theory Prelude
  imports Main "HOL-Library.Char_ord" "HOL-Library.List_Lexorder"
begin

text \<open>
  Shared ground of the development: results with errors, keyed tables of rows (the
  shape in which the services see a database table) and the generic lemmas about
  them that the component theories use.

  A Python function that may raise returns \<open>'e + 'a\<close>: \<open>Err e\<close> for the exception,
  \<open>Ok x\<close> for the returned value. A table is a list of rows in primary-key order of
  insertion; \<open>row_get\<close> is \<^verbatim>\<open>session.get(Model, key)\<close> and \<open>row_put\<close> is the flush of one
  changed row. The locale \<open>row_store\<close> states what the services rely on of a table and
  proves once how row invariants and counts move under a write.
\<close>

section \<open>Rules collected for the automation\<close>

named_theorems row_simps \<open>how reads of a table see a write\<close>
named_theorems state_simps \<open>membership facts about the lifecycle states\<close>

section \<open>Results\<close>

abbreviation Err :: "'e \<Rightarrow> 'e + 'a" where "Err \<equiv> Inl"
abbreviation Ok :: "'a \<Rightarrow> 'e + 'a" where "Ok \<equiv> Inr"

text \<open>Sequencing of a statement that may raise.\<close>

definition bindE :: "'e + 'a \<Rightarrow> ('a \<Rightarrow> 'e + 'b) \<Rightarrow> 'e + 'b" where
  "bindE r f = (case r of Inl e \<Rightarrow> Inl e | Inr a \<Rightarrow> f a)"

lemma bindE_simps [simp]: "bindE (Err e) f = Err e" "bindE (Ok a) f = f a"
  by (simp_all add: bindE_def)

lemma bindE_Ok_iff: "bindE r f = Ok b \<longleftrightarrow> (\<exists>a. r = Ok a \<and> f a = Ok b)"
  by (cases r) simp_all

lemma bindE_Err_iff: "bindE r f = Err e \<longleftrightarrow> r = Err e \<or> (\<exists>a. r = Ok a \<and> f a = Err e)"
  by (cases r) auto

text \<open>\<^verbatim>\<open>x or y\<close> on an optional value, and the \<^verbatim>\<open>x or default\<close> of optional integers.\<close>

definition or_else :: "'a option \<Rightarrow> 'a \<Rightarrow> 'a" where
  "or_else x d = (case x of None \<Rightarrow> d | Some v \<Rightarrow> v)"

lemma or_else_simps [simp]: "or_else None d = d" "or_else (Some v) d = v"
  by (simp_all add: or_else_def)

text \<open>Python truthiness of an optional string: \<open>None\<close> and the empty string are false.\<close>

definition truthy_text :: "string option \<Rightarrow> bool" where
  "truthy_text x = (x \<noteq> None \<and> x \<noteq> Some [])"

lemma truthy_text_simps [simp]:
  "\<not> truthy_text None" "truthy_text (Some s) \<longleftrightarrow> s \<noteq> []"
  by (simp_all add: truthy_text_def)

text \<open>\<^verbatim>\<open>a or b\<close> on optional strings.\<close>

definition or_text :: "string option \<Rightarrow> string \<Rightarrow> string" where
  "or_text x d = (if truthy_text x then the x else d)"

lemma or_text_simps [simp]:
  "or_text None d = d" "or_text (Some s) d = (if s \<noteq> [] then s else d)"
  by (simp_all add: or_text_def)

section \<open>Numbers as text\<close>

fun nat_digits :: "nat \<Rightarrow> string" where
  "nat_digits n = (if n < 10 then [char_of (48 + n)]
                   else nat_digits (n div 10) @ [char_of (48 + n mod 10)])"

declare nat_digits.simps [simp del]

definition str_int :: "int \<Rightarrow> string" where
  "str_int i = (if i < 0 then ''-'' @ nat_digits (nat (- i)) else nat_digits (nat i))"

lemma nat_digits_nonempty [simp]: "nat_digits n \<noteq> []"
  by (subst nat_digits.simps) simp

section \<open>Keyed tables\<close>

definition row_get :: "('r \<Rightarrow> 'k) \<Rightarrow> 'r list \<Rightarrow> 'k \<Rightarrow> 'r option" where
  "row_get key tbl k = find (\<lambda>r. key r = k) tbl"

definition row_put :: "('r \<Rightarrow> 'k) \<Rightarrow> 'r list \<Rightarrow> 'r \<Rightarrow> 'r list" where
  "row_put key tbl r = map (\<lambda>x. if key x = key r then r else x) tbl"

definition row_count :: "('r \<Rightarrow> bool) \<Rightarrow> 'r list \<Rightarrow> nat" where
  "row_count P tbl = length (filter P tbl)"

text \<open>
  What a service relies on of a table: reads return the row stored under the key, a
  write of an existing row changes that row and no other, and the count of rows with a
  property moves by at most the row that was written.
\<close>

locale row_store =
  fixes key :: "'r \<Rightarrow> 'k"
    and get :: "'t \<Rightarrow> 'k \<Rightarrow> 'r option"
    and put :: "'t \<Rightarrow> 'r \<Rightarrow> 't"
    and count :: "('r \<Rightarrow> bool) \<Rightarrow> 't \<Rightarrow> nat"
    and wf :: "'t \<Rightarrow> bool"
  assumes get_key: "get t k = Some r \<Longrightarrow> key r = k"
    and get_put: "get (put t r) k =
          (if k = key r \<and> get t k \<noteq> None then Some r else get t k)"
    and wf_put: "wf t \<Longrightarrow> wf (put t r)"
    and count_put: "wf t \<Longrightarrow> get t (key r) = Some old \<Longrightarrow>
          count P (put t r) + (if P old then 1 else 0) = count P t + (if P r then 1 else 0)"
begin

definition all_rows :: "('r \<Rightarrow> bool) \<Rightarrow> 't \<Rightarrow> bool" where
  "all_rows P t \<longleftrightarrow> (\<forall>k r. get t k = Some r \<longrightarrow> P r)"

lemma get_put_same: "get t (key r) = Some old \<Longrightarrow> get (put t r) (key r) = Some r"
  by (simp add: get_put)

lemma get_put_other: "k \<noteq> key r \<Longrightarrow> get (put t r) k = get t k"
  by (simp add: get_put)

lemma all_rows_put: "all_rows P t \<Longrightarrow> P r \<Longrightarrow> all_rows P (put t r)"
  unfolding all_rows_def by (metis get_put option.inject)

lemma all_rowsD: "all_rows P t \<Longrightarrow> get t k = Some r \<Longrightarrow> P r"
  unfolding all_rows_def by blast

lemma count_put_le:
  "wf t \<Longrightarrow> get t (key r) = Some old \<Longrightarrow> (P r \<Longrightarrow> P old) \<Longrightarrow> count P (put t r) \<le> count P t"
  using count_put [of t r old P] by (auto split: if_splits)

lemma count_put_Suc:
  "wf t \<Longrightarrow> get t (key r) = Some old \<Longrightarrow> count P (put t r) \<le> Suc (count P t)"
  using count_put [of t r old P] by (auto split: if_splits)

end

lemma row_get_Some_iff:
  "distinct (map key tbl) \<Longrightarrow> row_get key tbl k = Some r \<longleftrightarrow> r \<in> set tbl \<and> key r = k"
proof (induction tbl)
  case Nil
  then show ?case by (simp add: row_get_def)
next
  case (Cons x xs)
  then show ?case by (force simp: row_get_def)
qed

lemma row_get_key: "row_get key tbl k = Some r \<Longrightarrow> key r = k"
  by (induction tbl) (auto simp: row_get_def split: if_splits)

lemma row_get_mem: "row_get key tbl k = Some r \<Longrightarrow> r \<in> set tbl"
  by (induction tbl) (auto simp: row_get_def split: if_splits)

lemma row_get_put:
  "row_get key (row_put key tbl r) k =
     (if k = key r \<and> row_get key tbl k \<noteq> None then Some r else row_get key tbl k)"
  by (induction tbl) (auto simp: row_get_def row_put_def)

lemma map_key_row_put [simp]: "map key (row_put key tbl r) = map key tbl"
  by (auto simp: row_put_def)

lemma row_put_absent: "key r \<notin> key ` set tbl \<Longrightarrow> row_put key tbl r = tbl"
  by (induction tbl) (auto simp: row_put_def)

lemma row_count_put:
  assumes "distinct (map key tbl)" and "row_get key tbl (key r) = Some old"
  shows "row_count P (row_put key tbl r) + (if P old then 1 else 0)
           = row_count P tbl + (if P r then 1 else 0)"
  using assms
proof (induction tbl)
  case Nil
  then show ?case by (simp add: row_get_def)
next
  case (Cons x xs)
  show ?case
  proof (cases "key x = key r")
    case True
    with Cons.prems have old: "old = x" and abs: "key r \<notin> key ` set xs"
      by (auto simp: row_get_def)
    have "row_put key (x # xs) r = r # xs"
      using True row_put_absent [OF abs] by (simp add: row_put_def)
    then show ?thesis by (simp add: row_count_def old)
  next
    case False
    with Cons.prems have "row_get key xs (key r) = Some old" by (simp add: row_get_def)
    with Cons have "row_count P (row_put key xs r) + (if P old then 1 else 0)
        = row_count P xs + (if P r then 1 else 0)" by simp
    with False show ?thesis by (auto simp: row_count_def row_put_def split: if_splits)
  qed
qed

lemma row_get_append:
  "row_get key (xs @ ys) k = (case row_get key xs k of None \<Rightarrow> row_get key ys k | Some r \<Rightarrow> Some r)"
  by (induction xs) (auto simp: row_get_def)

lemma row_get_single: "row_get key [r] k = (if key r = k then Some r else None)"
  by (simp add: row_get_def)

end
