(* ===== verification/Job_States.thy ===== *)
theory Job_States
  imports Prelude
begin

text \<open>
  The scan job lifecycle of \<^verbatim>\<open>api/services/job_states.py\<close>: seven states kept as strings
  (the column is a plain string), the table of legal moves, and the check every write
  goes through. \<open>InvalidJobTransition\<close> carries the two statuses of the refused move; the
  sets \<open>TERMINAL\<close>, \<open>ACTIVE\<close> and \<open>IN_FLIGHT\<close> are lists, as the code iterates them.
\<close>

section \<open>States and moves\<close>

definition QUEUED :: string where "QUEUED = ''queued''"
definition CLAIMED :: string where "CLAIMED = ''claimed''"
definition RUNNING :: string where "RUNNING = ''running''"
definition SUCCEEDED :: string where "SUCCEEDED = ''succeeded''"
definition FAILED :: string where "FAILED = ''failed''"
definition CANCELLED :: string where "CANCELLED = ''cancelled''"
definition CANCELLING :: string where "CANCELLING = ''cancelling''"

definition TERMINAL :: "string list" where
  "TERMINAL = [SUCCEEDED, FAILED, CANCELLED]"

definition ACTIVE :: "string list" where
  "ACTIVE = [QUEUED, CLAIMED, RUNNING, CANCELLING]"

definition IN_FLIGHT :: "string list" where
  "IN_FLIGHT = [CLAIMED, RUNNING]"

definition TRANSITIONS :: "(string \<times> string list) list" where
  "TRANSITIONS =
     [(QUEUED, [CLAIMED, RUNNING, FAILED, CANCELLED]),
      (CLAIMED, [RUNNING, SUCCEEDED, FAILED, QUEUED, CANCELLING]),
      (RUNNING, [SUCCEEDED, FAILED, QUEUED, CANCELLING]),
      (CANCELLING, [CANCELLED, SUCCEEDED, FAILED]),
      (SUCCEEDED, []),
      (FAILED, []),
      (CANCELLED, [])]"

definition ALL_STATES :: "string list" where
  "ALL_STATES = map fst TRANSITIONS"

definition can_transition :: "string \<Rightarrow> string \<Rightarrow> bool" where
  "can_transition current new =
     (new \<in> set (or_else (map_of TRANSITIONS current) []))"

text \<open>The two refusals of \<open>check_transition\<close>: an unknown status and an illegal move.\<close>

datatype job_error =
    UnknownStatus string string
  | IllegalMove string string string

definition check_transition :: "string \<Rightarrow> string \<Rightarrow> string \<Rightarrow> job_error + unit" where
  "check_transition job_id current new =
     (if new \<notin> set ALL_STATES then Err (UnknownStatus job_id new)
      else if \<not> can_transition current new then Err (IllegalMove job_id current new)
      else Ok ())"

section \<open>Facts the other components use\<close>

lemma status_distinct [simp]:
  "QUEUED \<noteq> CLAIMED" "QUEUED \<noteq> RUNNING" "QUEUED \<noteq> SUCCEEDED" "QUEUED \<noteq> FAILED"
  "QUEUED \<noteq> CANCELLED" "QUEUED \<noteq> CANCELLING"
  "CLAIMED \<noteq> QUEUED" "CLAIMED \<noteq> RUNNING" "CLAIMED \<noteq> SUCCEEDED" "CLAIMED \<noteq> FAILED"
  "CLAIMED \<noteq> CANCELLED" "CLAIMED \<noteq> CANCELLING"
  "RUNNING \<noteq> QUEUED" "RUNNING \<noteq> CLAIMED" "RUNNING \<noteq> SUCCEEDED" "RUNNING \<noteq> FAILED"
  "RUNNING \<noteq> CANCELLED" "RUNNING \<noteq> CANCELLING"
  "SUCCEEDED \<noteq> QUEUED" "SUCCEEDED \<noteq> CLAIMED" "SUCCEEDED \<noteq> RUNNING" "SUCCEEDED \<noteq> FAILED"
  "SUCCEEDED \<noteq> CANCELLED" "SUCCEEDED \<noteq> CANCELLING"
  "FAILED \<noteq> QUEUED" "FAILED \<noteq> CLAIMED" "FAILED \<noteq> RUNNING" "FAILED \<noteq> SUCCEEDED"
  "FAILED \<noteq> CANCELLED" "FAILED \<noteq> CANCELLING"
  "CANCELLED \<noteq> QUEUED" "CANCELLED \<noteq> CLAIMED" "CANCELLED \<noteq> RUNNING" "CANCELLED \<noteq> SUCCEEDED"
  "CANCELLED \<noteq> FAILED" "CANCELLED \<noteq> CANCELLING"
  "CANCELLING \<noteq> QUEUED" "CANCELLING \<noteq> CLAIMED" "CANCELLING \<noteq> RUNNING"
  "CANCELLING \<noteq> SUCCEEDED" "CANCELLING \<noteq> FAILED" "CANCELLING \<noteq> CANCELLED"
  by (simp_all add: QUEUED_def CLAIMED_def RUNNING_def SUCCEEDED_def FAILED_def CANCELLED_def
      CANCELLING_def)

lemma set_TERMINAL [state_simps]: "s \<in> set TERMINAL \<longleftrightarrow> s = SUCCEEDED \<or> s = FAILED \<or> s = CANCELLED"
  by (auto simp: TERMINAL_def)

lemma set_ACTIVE [state_simps]:
  "s \<in> set ACTIVE \<longleftrightarrow> s = QUEUED \<or> s = CLAIMED \<or> s = RUNNING \<or> s = CANCELLING"
  by (auto simp: ACTIVE_def)

lemma set_IN_FLIGHT [state_simps]: "s \<in> set IN_FLIGHT \<longleftrightarrow> s = CLAIMED \<or> s = RUNNING"
  by (auto simp: IN_FLIGHT_def)

lemma set_ALL_STATES [state_simps]:
  "s \<in> set ALL_STATES \<longleftrightarrow> s \<in> set TERMINAL \<or> s \<in> set ACTIVE"
  by (auto simp: ALL_STATES_def TRANSITIONS_def state_simps)

text \<open>The move table, read once as a case distinction on the two statuses.\<close>

lemma can_transition_iff [state_simps]:
  "can_transition cur new \<longleftrightarrow>
     cur = QUEUED \<and> (new = CLAIMED \<or> new = RUNNING \<or> new = FAILED \<or> new = CANCELLED) \<or>
     cur = CLAIMED \<and> (new = RUNNING \<or> new = SUCCEEDED \<or> new = FAILED \<or> new = QUEUED
                       \<or> new = CANCELLING) \<or>
     cur = RUNNING \<and> (new = SUCCEEDED \<or> new = FAILED \<or> new = QUEUED \<or> new = CANCELLING) \<or>
     cur = CANCELLING \<and> (new = CANCELLED \<or> new = SUCCEEDED \<or> new = FAILED)"
  by (auto simp: can_transition_def TRANSITIONS_def)

lemma check_transition_Ok [simp]:
  "check_transition j cur new = Ok u \<longleftrightarrow> can_transition cur new"
  by (auto simp: check_transition_def state_simps)

lemma check_transition_cases:
  "check_transition j cur new = Ok () \<or> (\<exists>e. check_transition j cur new = Err e)"
  by (cases "check_transition j cur new") auto

lemma terminal_stuck: "cur \<in> set TERMINAL \<Longrightarrow> \<not> can_transition cur new"
  by (auto simp: state_simps)

lemma can_transition_known: "can_transition cur new \<Longrightarrow> cur \<in> set ACTIVE \<and> new \<in> set ALL_STATES"
  by (auto simp: state_simps)

end
