(* ===== verification/Py_Text.thy ===== *)
theory Py_Text
  imports Prelude
begin

text \<open>
  The string operations of Python that the modelled code calls. A \<^typ>\<open>string\<close> is a list of
  8-bit characters, read as the code points below 256 of a Python \<^verbatim>\<open>str\<close>: \<^verbatim>\<open>isdigit\<close>,
  \<^verbatim>\<open>strip\<close>, \<^verbatim>\<open>lower\<close> and \<^verbatim>\<open>splitlines\<close> below follow Python on that range, the superscript
  digits and the non-breaking space included. Code points from 256 on are outside the model.
\<close>

section \<open>Character classes\<close>

definition ord_of :: "char \<Rightarrow> int" where
  "ord_of c = of_char c"

definition is_space :: "char \<Rightarrow> bool" where
  "is_space c = (let n = ord_of c in 9 \<le> n \<and> n \<le> 13 \<or> 28 \<le> n \<and> n \<le> 32 \<or> n = 133 \<or> n = 160)"

definition is_line_break :: "char \<Rightarrow> bool" where
  "is_line_break c = (let n = ord_of c in 10 \<le> n \<and> n \<le> 13 \<or> 28 \<le> n \<and> n \<le> 30 \<or> n = 133)"

definition is_ascii_digit :: "char \<Rightarrow> bool" where
  "is_ascii_digit c = (48 \<le> ord_of c \<and> ord_of c \<le> 57)"

text \<open>\<^verbatim>\<open>str.isdigit\<close> also holds of the three superscript digits, which \<^verbatim>\<open>int\<close> refuses.\<close>

definition is_superscript :: "char \<Rightarrow> bool" where
  "is_superscript c = (let n = ord_of c in n = 178 \<or> n = 179 \<or> n = 185)"

definition py_isdigit :: "string \<Rightarrow> bool" where
  "py_isdigit s = (s \<noteq> [] \<and> list_all (\<lambda>c. is_ascii_digit c \<or> is_superscript c) s)"

fun digits_value :: "nat \<Rightarrow> string \<Rightarrow> nat" where
  "digits_value acc [] = acc"
| "digits_value acc (c # cs) = digits_value (acc * 10 + nat (ord_of c - 48)) cs"

text \<open>\<^verbatim>\<open>int(s)\<close> on a string that passed \<^verbatim>\<open>isdigit\<close>: \<open>None\<close> is the \<^verbatim>\<open>ValueError\<close>.\<close>

definition int_of_digits :: "string \<Rightarrow> int option" where
  "int_of_digits s =
     (if s \<noteq> [] \<and> list_all is_ascii_digit s then Some (int (digits_value 0 s)) else None)"

definition lower_char :: "char \<Rightarrow> char" where
  "lower_char c = (let n = ord_of c in
     if 65 \<le> n \<and> n \<le> 90 \<or> 192 \<le> n \<and> n \<le> 222 \<and> n \<noteq> 215 then char_of (nat n + 32) else c)"

definition lower :: "string \<Rightarrow> string" where
  "lower = map lower_char"

text \<open>
  \<^verbatim>\<open>s.upper()\<close> and \<^verbatim>\<open>s.casefold()\<close>: the sharp s becomes two letters. The micro sign and
  the y with diaeresis have their images beyond the range of the model and stay as they are.
\<close>

definition upper_char :: "char \<Rightarrow> string" where
  "upper_char c = (let n = ord_of c in
     if 97 \<le> n \<and> n \<le> 122 \<or> 224 \<le> n \<and> n \<le> 254 \<and> n \<noteq> 247 then [char_of (nat n - 32)]
     else if n = 223 then ''SS'' else [c])"

definition upper :: "string \<Rightarrow> string" where
  "upper s = concat (map upper_char s)"

definition casefold :: "string \<Rightarrow> string" where
  "casefold s = concat (map (\<lambda>c. if ord_of c = 223 then ''ss'' else [lower_char c]) s)"

section \<open>Trimming, prefixes and splitting\<close>

definition lstrip :: "string \<Rightarrow> string" where
  "lstrip s = dropWhile is_space s"

definition rstrip :: "string \<Rightarrow> string" where
  "rstrip s = rev (dropWhile is_space (rev s))"

definition strip :: "string \<Rightarrow> string" where
  "strip s = rstrip (lstrip s)"

text \<open>\<^verbatim>\<open>s.rstrip(chars)\<close> for a given character.\<close>

definition rstrip_char :: "char \<Rightarrow> string \<Rightarrow> string" where
  "rstrip_char c s = rev (dropWhile (\<lambda>x. x = c) (rev s))"

definition startswith :: "string \<Rightarrow> string \<Rightarrow> bool" where
  "startswith s p = (take (length p) s = p)"

definition endswith :: "string \<Rightarrow> string \<Rightarrow> bool" where
  "endswith s p = startswith (rev s) (rev p)"

definition removeprefix :: "string \<Rightarrow> string \<Rightarrow> string" where
  "removeprefix s p = (if startswith s p then drop (length p) s else s)"

text \<open>\<^verbatim>\<open>s.split(c)\<close> for a one-character separator: never empty.\<close>

fun split_on :: "'a \<Rightarrow> 'a list \<Rightarrow> 'a list list" where
  "split_on c [] = [[]]"
| "split_on c (x # xs) =
     (if x = c then [] # split_on c xs
      else (case split_on c xs of [] \<Rightarrow> [[x]] | y # ys \<Rightarrow> (x # y) # ys))"

text \<open>\<^verbatim>\<open>s.split()\<close>: the runs of non-space characters.\<close>

fun split_ws_aux :: "string \<Rightarrow> string \<Rightarrow> string list" where
  "split_ws_aux cur [] = (if cur = [] then [] else [rev cur])"
| "split_ws_aux cur (c # cs) =
     (if is_space c then (if cur = [] then split_ws_aux [] cs else rev cur # split_ws_aux [] cs)
      else split_ws_aux (c # cur) cs)"

definition split_ws :: "string \<Rightarrow> string list" where
  "split_ws s = split_ws_aux [] s"

text \<open>\<^verbatim>\<open>s.splitlines()\<close>: \<^verbatim>\<open>\r\n\<close> is one break and a final break opens no last line.\<close>

fun splitlines_aux :: "string \<Rightarrow> string \<Rightarrow> string list" where
  "splitlines_aux cur [] = (if cur = [] then [] else [rev cur])"
| "splitlines_aux cur [c] = (if is_line_break c then [rev cur] else [rev (c # cur)])"
| "splitlines_aux cur (c # d # cs) =
     (if ord_of c = 13 \<and> ord_of d = 10 then rev cur # splitlines_aux [] cs
      else if is_line_break c then rev cur # splitlines_aux [] (d # cs)
      else splitlines_aux (c # cur) (d # cs))"

definition splitlines :: "string \<Rightarrow> string list" where
  "splitlines s = splitlines_aux [] s"

text \<open>
  \<^verbatim>\<open>s.partition(c)\<close> and \<^verbatim>\<open>s.rpartition(c)\<close>: the head, whether the separator occurs, the
  tail. Without a separator \<^verbatim>\<open>partition\<close> puts the whole string first and \<^verbatim>\<open>rpartition\<close>
  last.
\<close>

definition partition_at :: "char \<Rightarrow> string \<Rightarrow> string \<times> bool \<times> string" where
  "partition_at c s =
     (if c \<in> set s then (takeWhile (\<lambda>x. x \<noteq> c) s, True, tl (dropWhile (\<lambda>x. x \<noteq> c) s))
      else (s, False, []))"

definition rpartition_at :: "char \<Rightarrow> string \<Rightarrow> string \<times> bool \<times> string" where
  "rpartition_at c s =
     (if c \<in> set s
      then (rev (tl (dropWhile (\<lambda>x. x \<noteq> c) (rev s))), True, rev (takeWhile (\<lambda>x. x \<noteq> c) (rev s)))
      else ([], False, s))"

fun join_with :: "'a list \<Rightarrow> 'a list list \<Rightarrow> 'a list" where
  "join_with sep [] = []"
| "join_with sep [x] = x"
| "join_with sep (x # y # ys) = x @ sep @ join_with sep (y # ys)"

section \<open>Lemmas\<close>

lemma split_on_nonempty [simp]: "split_on c xs \<noteq> []"
  by (cases xs) (auto split: list.split)

lemma join_split_on: "join_with [c] (split_on c xs) = xs"
proof (induction xs)
  case Nil
  then show ?case by simp
next
  case (Cons x xs)
  obtain y ys where e: "split_on c xs = y # ys"
    by (cases "split_on c xs") auto
  with Cons.IH have "join_with [c] (y # ys) = xs" by simp
  then show ?case using e by (cases ys) auto
qed

lemma split_on_sep_free: "s \<in> set (split_on c xs) \<Longrightarrow> c \<notin> set s"
  by (induction xs arbitrary: s) (auto split: list.splits if_splits)

lemma split_on_none: "c \<notin> set xs \<Longrightarrow> split_on c xs = [xs]"
  by (induction xs) auto

lemma split_on_append: "c \<notin> set xs \<Longrightarrow> split_on c (xs @ c # ys) = xs # split_on c ys"
  by (induction xs) auto

lemma split_on_join:
  "xss \<noteq> [] \<Longrightarrow> \<forall>s \<in> set xss. c \<notin> set s \<Longrightarrow> split_on c (join_with [c] xss) = xss"
proof (induction xss rule: induct_list012)
  case 1
  then show ?case by simp
next
  case (2 x)
  then show ?case by (simp add: split_on_none)
next
  case (3 x y zs)
  then show ?case by (simp add: split_on_append)
qed

lemma startswith_append [simp]: "startswith (p @ s) p"
  by (simp add: startswith_def)

lemma startswith_iff: "startswith s p \<longleftrightarrow> (\<exists>t. s = p @ t)"
  unfolding startswith_def by (metis append_eq_conv_conj append_take_drop_id)

lemma partition_at_no_sep: "c \<notin> set s \<Longrightarrow> partition_at c s = (s, False, [])"
  by (simp add: partition_at_def)

lemma takeWhile_upto [simp]: "c \<notin> set h \<Longrightarrow> takeWhile (\<lambda>x. x \<noteq> c) (h @ c # t) = h"
  by (induction h) auto

lemma dropWhile_upto [simp]: "c \<notin> set h \<Longrightarrow> dropWhile (\<lambda>x. x \<noteq> c) (h @ c # t) = c # t"
  by (induction h) auto

lemma partition_at_append: "c \<notin> set h \<Longrightarrow> partition_at c (h @ c # t) = (h, True, t)"
  by (simp add: partition_at_def)

lemma rpartition_at_append: "c \<notin> set t \<Longrightarrow> rpartition_at c (h @ c # t) = (h, True, t)"
  by (simp add: rpartition_at_def)

lemma rpartition_at_no_sep: "c \<notin> set s \<Longrightarrow> rpartition_at c s = ([], False, s)"
  by (simp add: rpartition_at_def)

lemma partition_at_cases:
  obtains "c \<notin> set s" "partition_at c s = (s, False, [])"
  | h t where "s = h @ c # t" "c \<notin> set h" "partition_at c s = (h, True, t)"
proof (cases "c \<in> set s")
  case True
  then obtain h t where "s = h @ c # t" "c \<notin> set h" by (meson split_list_first)
  then show ?thesis using that(2) partition_at_append by blast
next
  case False
  then show ?thesis using that(1) partition_at_no_sep by blast
qed

lemma rpartition_at_cases:
  obtains "c \<notin> set s" "rpartition_at c s = ([], False, s)"
  | h t where "s = h @ c # t" "c \<notin> set t" "rpartition_at c s = (h, True, t)"
proof (cases "c \<in> set s")
  case True
  then obtain h t where "s = h @ c # t" "c \<notin> set t" by (meson split_list_last)
  then show ?thesis using that(2) rpartition_at_append by blast
next
  case False
  then show ?thesis using that(1) rpartition_at_no_sep by blast
qed

lemma dropWhile_twice: "dropWhile P (dropWhile P xs) = dropWhile P xs"
  by (induction xs) auto

lemma strip_idem: "strip (strip s) = strip s"
proof -
  have r: "rstrip (rstrip t) = rstrip t" for t
    by (simp add: rstrip_def dropWhile_twice)
  show ?thesis
  proof (cases "lstrip s")
    case Nil
    then have "strip s = []" by (simp add: strip_def rstrip_def)
    moreover have "strip [] = []" by (simp add: strip_def rstrip_def lstrip_def)
    ultimately show ?thesis by simp
  next
    case (Cons c cs)
    then have c: "\<not> is_space c" by (metis lstrip_def dropWhile_eq_Cons_conv)
    have "lstrip (rstrip (lstrip s)) = rstrip (lstrip s)"
    proof (cases "rstrip (lstrip s)")
      case (Cons d ds)
      have "rev (lstrip s) = takeWhile is_space (rev (lstrip s)) @ rev (rstrip (lstrip s))"
        by (simp add: rstrip_def)
      then have "lstrip s = rstrip (lstrip s) @ rev (takeWhile is_space (rev (lstrip s)))"
        by (metis rev_append rev_rev_ident)
      then have "d = c" using \<open>lstrip s = c # cs\<close> Cons by simp
      then show ?thesis using c Cons by (simp add: lstrip_def)
    qed (simp add: lstrip_def)
    then show ?thesis using r by (simp add: strip_def)
  qed
qed

end
