(* ===== verification/Targets.thy ===== *)
theory Targets
  imports Py_Text
begin

text \<open>
  The text of a scan request, \<^verbatim>\<open>api/services/targets.py\<close>: the target lines both scope
  barriers and the scan policy read, and the port tokens the parser accepts.
  \<open>token_ports\<close> is the interval a well-formed token denotes; it is what the properties
  speak about and the scanner receives.
\<close>

definition line_targets :: "string \<Rightarrow> string list" where
  "line_targets raw =
     (let line = strip raw in
      if line = [] \<or> startswith line ''#'' then []
      else filter (\<lambda>part. part \<noteq> [] \<and> \<not> startswith part ''#'')
             (map strip (split_on (CHR '','') line)))"

definition split_target_lines :: "string option \<Rightarrow> string list" where
  "split_target_lines text =
     (case text of None \<Rightarrow> [] | Some t \<Rightarrow> concat (map line_targets (splitlines t)))"

text \<open>
  \<open>_PORT_TOKEN_RE\<close>: an optional \<open>u:\<close>, one to five digits, optionally a dash and one to
  five digits. The two groups, as strings.
\<close>

definition port_group :: "string \<Rightarrow> bool" where
  "port_group s = (1 \<le> length s \<and> length s \<le> 5 \<and> list_all is_ascii_digit s)"

definition match_port_token :: "string \<Rightarrow> (string \<times> string option) option" where
  "match_port_token token =
     (let body = removeprefix token ''u:''; (lo, sep, hi) = partition_at (CHR ''-'') body in
      if port_group lo \<and> (sep \<longrightarrow> port_group hi)
      then Some (lo, if sep then Some hi else None) else None)"

text \<open>The interval of ports a token denotes.\<close>

definition token_ports :: "string \<Rightarrow> (int \<times> int) option" where
  "token_ports token =
     (case match_port_token token of None \<Rightarrow> None
      | Some (lo, hi) \<Rightarrow> Some (int (digits_value 0 lo), int (digits_value 0 (or_else hi lo))))"

definition valid_port_token :: "string \<Rightarrow> bool" where
  "valid_port_token token =
     (case token_ports token of None \<Rightarrow> False
      | Some (start, end) \<Rightarrow>
          1 \<le> start \<and> start \<le> 65535 \<and> 1 \<le> end \<and> end \<le> 65535 \<and> start \<le> end)"

definition normalize_port_token :: "string \<Rightarrow> bool \<Rightarrow> string" where
  "normalize_port_token token udp =
     (if udp \<and> startswith token ''u:'' then drop 2 token else token)"

text \<open>A port is covered by a token.\<close>

definition token_covers :: "string \<Rightarrow> int \<Rightarrow> bool" where
  "token_covers token p =
     (case token_ports token of None \<Rightarrow> False | Some (lo, hi) \<Rightarrow> lo \<le> p \<and> p \<le> hi)"

section \<open>Lemmas\<close>

lemma split_target_lines_None [simp]: "split_target_lines None = []"
  by (simp add: split_target_lines_def)

lemma port_group_digits:
  "port_group s \<Longrightarrow> s \<noteq> [] \<and> list_all is_ascii_digit s"
  by (auto simp: port_group_def)

lemma int_of_digits_group: "port_group s \<Longrightarrow> int_of_digits s = Some (int (digits_value 0 s))"
  by (simp add: int_of_digits_def port_group_digits)

lemma ascii_digit_lower [simp]: "is_ascii_digit c \<Longrightarrow> lower_char c = c"
  by (auto simp: is_ascii_digit_def lower_char_def Let_def)

lemma ascii_digit_not_space [simp]: "is_ascii_digit c \<Longrightarrow> \<not> is_space c"
  by (auto simp: is_ascii_digit_def is_space_def Let_def)

lemma ascii_digit_not [simp]:
  "\<not> is_ascii_digit (CHR ''u'')" "\<not> is_ascii_digit (CHR ''t'')" "\<not> is_ascii_digit (CHR '':'')"
  "\<not> is_ascii_digit (CHR ''-'')" "\<not> is_ascii_digit (CHR ''#'')"
  by (simp_all add: is_ascii_digit_def ord_of_def)

end
