(* ===== verification/Scan_Policy.thy ===== *)
theory Scan_Policy
  imports Targets
begin

text \<open>
  How hard a tenant may be scanned, \<^verbatim>\<open>api/services/scan_policy.py\<close>: the stored policy row, the
  compiled-in floors of a profile, \<open>resolve\<close> (stored row and floor folded), \<open>tighten\<close>
  (a queued job's frozen policy folded with a newer one) and the admission check of a
  scan request. A policy is a set of ceilings: \<open>None\<close> is no limit. The lock-step
  interface \<open>ceiling_meet\<close> says what folding two ceilings promises; it is interpreted on
  the code's \<open>_stricter\<close> and on \<open>tighten\<close>.

  Not modelled: the SHA-256 of \<open>digest\<close> (a parameter \<open>digest\<close> of \<open>snapshot\<close>), metrics
  and log lines. The isinstance checks of the validators are the types of the model.
\<close>

section \<open>Constants\<close>

definition POLICY_VERSION :: int where "POLICY_VERSION = 1"
definition AGENT_CAPABILITY :: string where "AGENT_CAPABILITY = ''scan_policy''"
definition PROFILE_STANDARD :: string where "PROFILE_STANDARD = ''standard''"
definition PROFILE_FRAGILE :: string where "PROFILE_FRAGILE = ''fragile''"
definition PROFILES :: "string list" where "PROFILES = [PROFILE_STANDARD, PROFILE_FRAGILE]"
definition SAFE_MODE :: string where "SAFE_MODE = ''safe''"

definition OT_AVOID_PORTS :: "int list" where
  "OT_AVOID_PORTS =
     [102, 502, 789, 1911, 2222, 2404, 4000, 4911, 9600, 18245, 20000, 44818, 47808]"

record floor =
  fl_safe_only :: bool
  fl_max_discover_rate :: "int option"
  fl_max_port_rate :: "int option"
  fl_max_host_concurrency :: "int option"
  fl_per_host_rate :: "int option"
  fl_skip_service_probe :: bool
  fl_avoid_ports :: "int list"

definition no_floor :: floor where
  "no_floor = \<lparr>fl_safe_only = False, fl_max_discover_rate = None, fl_max_port_rate = None,
     fl_max_host_concurrency = None, fl_per_host_rate = None, fl_skip_service_probe = False,
     fl_avoid_ports = []\<rparr>"

definition PROFILE_FLOORS :: "(string \<times> floor) list" where
  "PROFILE_FLOORS =
     [(PROFILE_STANDARD, no_floor),
      (PROFILE_FRAGILE,
       \<lparr>fl_safe_only = True, fl_max_discover_rate = Some 100, fl_max_port_rate = Some 50,
        fl_max_host_concurrency = Some 1, fl_per_host_rate = Some 25,
        fl_skip_service_probe = True, fl_avoid_ports = OT_AVOID_PORTS\<rparr>)]"

definition RATE_BOUNDS :: "int \<times> int" where "RATE_BOUNDS = (1, 100000)"
definition CONCURRENCY_BOUNDS :: "int \<times> int" where "CONCURRENCY_BOUNDS = (1, 64)"
definition MAX_AVOID_PORTS :: nat where "MAX_AVOID_PORTS = 128"

section \<open>The stored row\<close>

record policy_row =
  p_tenant_id :: string
  p_profile :: string
  p_safe_only :: bool
  p_max_discover_rate :: "int option"
  p_max_port_rate :: "int option"
  p_max_host_concurrency :: "int option"
  p_per_host_rate :: "int option"
  p_avoid_ports :: "int list"
  p_note :: string
  p_updated_at :: int
  p_updated_by :: string

datatype policy_error =
    TenantNotFound string
  | UnknownProfile string
  | OutOfBounds string int
  | TooManyAvoidPorts nat

definition sorted_ports :: "int list \<Rightarrow> int list" where
  "sorted_ports ports = sort (remdups ports)"

definition int_in :: "int \<Rightarrow> string \<Rightarrow> int \<times> int \<Rightarrow> policy_error + int" where
  "int_in value field bounds =
     (if fst bounds \<le> value \<and> value \<le> snd bounds then Ok value else Err (OutOfBounds field value))"

fun each_port_in :: "int list \<Rightarrow> policy_error + unit" where
  "each_port_in [] = Ok ()"
| "each_port_in (p # ps) =
     bindE (int_in p ''avoid_ports entry'' (1, 65535)) (\<lambda>_. each_port_in ps)"

definition validated_ports :: "int list \<Rightarrow> policy_error + int list" where
  "validated_ports value =
     bindE (each_port_in value) (\<lambda>_.
       let ports = sorted_ports value in
       if length ports > MAX_AVOID_PORTS then Err (TooManyAvoidPorts (length ports)) else Ok ports)"

definition opt_int_in :: "int option \<Rightarrow> string \<Rightarrow> int \<times> int \<Rightarrow> policy_error + int option" where
  "opt_int_in given field bounds =
     (case given of None \<Rightarrow> Ok None | Some v \<Rightarrow> bindE (int_in v field bounds) (\<lambda>x. Ok (Some x)))"

text \<open>
  \<open>replace_policy\<close>: \<open>tenants\<close> are the known tenant ids, \<open>tbl\<close> the policy table; the row
  written, the new table and the audited pair of documents.
\<close>

definition replace_policy ::
  "string list \<Rightarrow> int \<Rightarrow> policy_row list \<Rightarrow> string \<Rightarrow> string \<Rightarrow> bool \<Rightarrow> int option \<Rightarrow> int option \<Rightarrow>
   int option \<Rightarrow> int option \<Rightarrow> int list \<Rightarrow> string \<Rightarrow> string \<Rightarrow>
   policy_error + (policy_row \<times> policy_row list \<times> policy_row option)" where
  "replace_policy tenants now tbl tenant_id profile safe_only max_discover_rate max_port_rate
      max_host_concurrency per_host_rate avoid_ports note updated_by =
     (if tenant_id \<notin> set tenants then Err (TenantNotFound tenant_id)
      else if profile \<notin> set PROFILES then Err (UnknownProfile profile)
      else bindE (validated_ports avoid_ports) (\<lambda>ports.
           bindE (opt_int_in max_discover_rate ''max_discover_rate'' RATE_BOUNDS) (\<lambda>dr.
           bindE (opt_int_in max_port_rate ''max_port_rate'' RATE_BOUNDS) (\<lambda>pr.
           bindE (opt_int_in max_host_concurrency ''max_host_concurrency'' CONCURRENCY_BOUNDS) (\<lambda>hc.
           bindE (opt_int_in per_host_rate ''per_host_rate'' RATE_BOUNDS) (\<lambda>ph.
             let row = \<lparr>p_tenant_id = tenant_id, p_profile = profile, p_safe_only = safe_only,
                   p_max_discover_rate = dr, p_max_port_rate = pr, p_max_host_concurrency = hc,
                   p_per_host_rate = ph, p_avoid_ports = ports, p_note = take 500 note,
                   p_updated_at = now, p_updated_by = updated_by\<rparr>;
                 before = row_get p_tenant_id tbl tenant_id
             in Ok (row, (if before = None then tbl @ [row] else row_put p_tenant_id tbl row),
                    before)))))))"

definition clear_policy :: "policy_row list \<Rightarrow> string \<Rightarrow> bool \<times> policy_row list" where
  "clear_policy tbl tenant_id =
     (if row_get p_tenant_id tbl tenant_id = None then (False, tbl)
      else (True, filter (\<lambda>r. p_tenant_id r \<noteq> tenant_id) tbl))"

section \<open>Resolving and tightening\<close>

record resolved_policy =
  policy_version :: int
  profile :: string
  safe_only :: bool
  skip_service_probe :: bool
  avoid_ports :: "int list"
  max_discover_rate :: "int option"
  max_port_rate :: "int option"
  max_host_concurrency :: "int option"
  per_host_rate :: "int option"

definition stricter :: "int option \<Rightarrow> int option \<Rightarrow> int option" where
  "stricter stored floor =
     (case stored of None \<Rightarrow> floor
      | Some s \<Rightarrow> (case floor of None \<Rightarrow> Some s | Some f \<Rightarrow> Some (min s f)))"

definition resolve :: "policy_row option \<Rightarrow> resolved_policy option" where
  "resolve policy =
     (case policy of None \<Rightarrow> None
      | Some p \<Rightarrow>
          (let prof = (if p_profile p \<noteq> [] then p_profile p else PROFILE_STANDARD);
               fl = or_else (map_of PROFILE_FLOORS prof) no_floor
           in Some \<lparr>policy_version = POLICY_VERSION, profile = prof,
                safe_only = (p_safe_only p \<or> fl_safe_only fl),
                skip_service_probe = fl_skip_service_probe fl,
                avoid_ports = sorted_ports (p_avoid_ports p @ fl_avoid_ports fl),
                max_discover_rate = stricter (p_max_discover_rate p) (fl_max_discover_rate fl),
                max_port_rate = stricter (p_max_port_rate p) (fl_max_port_rate fl),
                max_host_concurrency =
                  stricter (p_max_host_concurrency p) (fl_max_host_concurrency fl),
                per_host_rate = stricter (p_per_host_rate p) (fl_per_host_rate fl)\<rparr>))"

text \<open>The empty document \<^verbatim>\<open>{}\<close> a missing policy reads as inside \<open>tighten\<close>.\<close>

definition empty_document :: resolved_policy where
  "empty_document = \<lparr>policy_version = POLICY_VERSION, profile = [], safe_only = False,
     skip_service_probe = False, avoid_ports = [], max_discover_rate = None, max_port_rate = None,
     max_host_concurrency = None, per_host_rate = None\<rparr>"

definition tighten_profile :: "string \<Rightarrow> string \<Rightarrow> string" where
  "tighten_profile frozen resolved =
     (if PROFILE_FRAGILE = frozen \<or> PROFILE_FRAGILE = resolved then PROFILE_FRAGILE
      else if resolved \<noteq> [] then resolved else if frozen \<noteq> [] then frozen else PROFILE_STANDARD)"

definition tighten ::
  "resolved_policy option \<Rightarrow> resolved_policy option \<Rightarrow> resolved_policy option" where
  "tighten frozen resolved =
     (if frozen = None \<and> resolved = None then None
      else let f = or_else frozen empty_document; r = or_else resolved empty_document in
        Some \<lparr>policy_version = POLICY_VERSION,
          profile = tighten_profile (profile f) (profile r),
          safe_only = (safe_only f \<or> safe_only r),
          skip_service_probe = (skip_service_probe f \<or> skip_service_probe r),
          avoid_ports = sorted_ports (avoid_ports f @ avoid_ports r),
          max_discover_rate = stricter (max_discover_rate f) (max_discover_rate r),
          max_port_rate = stricter (max_port_rate f) (max_port_rate r),
          max_host_concurrency = stricter (max_host_concurrency f) (max_host_concurrency r),
          per_host_rate = stricter (per_host_rate f) (per_host_rate r)\<rparr>)"

text \<open>The document stored on a job: the resolved policy and its fingerprint.\<close>

type_synonym policy_snapshot = "resolved_policy \<times> string"

definition snapshot ::
  "(resolved_policy \<Rightarrow> string) \<Rightarrow> resolved_policy option \<Rightarrow> policy_snapshot option" where
  "snapshot digest resolved = map_option (\<lambda>r. (r, digest r)) resolved"

section \<open>Admission of a scan request\<close>

text \<open>
  \<open>_note_port\<close>: \<open>Err ()\<close> is the \<^verbatim>\<open>ValueError\<close> of \<^verbatim>\<open>int\<close> on a superscript digit, which
  \<^verbatim>\<open>isdigit\<close> lets through.
\<close>

definition note_port :: "string \<Rightarrow> int list \<Rightarrow> unit + int list" where
  "note_port item avoid =
     (if CHR ''-'' \<in> set item then
        (let (lo, _, hi) = partition_at (CHR ''-'') item in
         if py_isdigit lo \<and> py_isdigit hi then
           (case (int_of_digits lo, int_of_digits hi) of
              (Some start, Some end) \<Rightarrow>
                if 0 < start \<and> start \<le> end \<and> end \<le> 65535
                then Ok (filter (\<lambda>p. start \<le> p \<and> p \<le> end) avoid) else Ok []
            | _ \<Rightarrow> Err ())
         else Ok [])
      else if py_isdigit item then
        (case int_of_digits item of None \<Rightarrow> Err ()
         | Some n \<Rightarrow> if n \<in> set avoid then Ok [n] else Ok [])
      else Ok [])"

text \<open>The chunks of one entry, up to a trailing comment.\<close>

fun note_chunks :: "string list \<Rightarrow> int list \<Rightarrow> unit + int list" where
  "note_chunks [] avoid = Ok []"
| "note_chunks (chunk # chunks) avoid =
     (if startswith chunk ''#'' then Ok []
      else let item = removeprefix (removeprefix (lower (strip chunk)) ''u:'') ''t:'' in
        if item = [] then note_chunks chunks avoid
        else bindE (note_port item avoid) (\<lambda>named.
             bindE (note_chunks chunks avoid) (\<lambda>more. Ok (named @ more))))"

fun note_entries :: "string list \<Rightarrow> int list \<Rightarrow> unit + int list" where
  "note_entries [] avoid = Ok []"
| "note_entries (entry # entries) avoid =
     bindE (note_chunks (split_ws entry) avoid) (\<lambda>named.
     bindE (note_entries entries avoid) (\<lambda>more. Ok (named @ more)))"

definition forbidden_ports :: "string option \<Rightarrow> int list \<Rightarrow> unit + int list" where
  "forbidden_ports text avoid = note_entries (split_target_lines text) avoid"

datatype admission_error =
    SafeOnly string string
  | AvoidPorts string "int list"
  | PortSyntax

definition assert_scan_admitted ::
  "resolved_policy option \<Rightarrow> string \<Rightarrow> string \<Rightarrow> string option \<Rightarrow> string option \<Rightarrow>
   admission_error + resolved_policy option" where
  "assert_scan_admitted resolved tenant_id mode ports_text ports_udp_text =
     (case resolved of None \<Rightarrow> Ok None
      | Some r \<Rightarrow>
          if safe_only r \<and> mode \<noteq> SAFE_MODE then Err (SafeOnly tenant_id mode)
          else if avoid_ports r = [] then Ok (Some r)
          else (case forbidden_ports ports_text (avoid_ports r) of
                  Inl _ \<Rightarrow> Err PortSyntax
                | Inr tcp \<Rightarrow>
                    (case forbidden_ports ports_udp_text (avoid_ports r) of
                       Inl _ \<Rightarrow> Err PortSyntax
                     | Inr udp \<Rightarrow>
                         let forbidden = sorted_ports (tcp @ udp) in
                         if forbidden \<noteq> [] then Err (AvoidPorts tenant_id forbidden)
                         else Ok (Some r))))"

section \<open>Strictness\<close>

text \<open>
  Folding two restrictions gives the weakest one at least as strict as both. \<open>le a b\<close> reads
  "a is at least as strict as b".
\<close>

locale ceiling_meet =
  fixes le :: "'a \<Rightarrow> 'a \<Rightarrow> bool"
    and meet :: "'a \<Rightarrow> 'a \<Rightarrow> 'a"
  assumes le_refl: "le a a"
    and le_trans: "le a b \<Longrightarrow> le b c \<Longrightarrow> le a c"
    and meet_le1: "le (meet a b) a"
    and meet_le2: "le (meet a b) b"
    and meet_greatest: "le c a \<Longrightarrow> le c b \<Longrightarrow> le c (meet a b)"
begin

lemma meet_mono: "le a a' \<Longrightarrow> le b b' \<Longrightarrow> le (meet a b) (meet a' b')"
  by (meson le_trans meet_greatest meet_le1 meet_le2)

lemma meet_absorb: "le a b \<Longrightarrow> le a (meet a b) \<and> le (meet a b) a"
  by (simp add: le_refl meet_greatest meet_le1)

text \<open>A restriction folded with any number of later ones is as strict as each of them.\<close>

lemma foldl_meet: "le (foldl meet a bs) a \<and> (\<forall>b \<in> set bs. le (foldl meet a bs) b)"
proof (induction bs arbitrary: a)
  case Nil
  then show ?case by (simp add: le_refl)
next
  case (Cons b bs)
  then show ?case by (auto intro: le_trans [OF _ meet_le1] le_trans [OF _ meet_le2])
qed

end

definition ceil_le :: "int option \<Rightarrow> int option \<Rightarrow> bool" where
  "ceil_le a b = (case b of None \<Rightarrow> True | Some y \<Rightarrow> (case a of None \<Rightarrow> False | Some x \<Rightarrow> x \<le> y))"

interpretation ceiling: ceiling_meet ceil_le stricter
  by unfold_locales (auto simp: ceil_le_def stricter_def split: option.splits)

definition policy_le :: "resolved_policy \<Rightarrow> resolved_policy \<Rightarrow> bool" where
  "policy_le p q =
     ((profile q = PROFILE_FRAGILE \<longrightarrow> profile p = PROFILE_FRAGILE)
      \<and> (safe_only q \<longrightarrow> safe_only p) \<and> (skip_service_probe q \<longrightarrow> skip_service_probe p)
      \<and> set (avoid_ports q) \<subseteq> set (avoid_ports p)
      \<and> ceil_le (max_discover_rate p) (max_discover_rate q)
      \<and> ceil_le (max_port_rate p) (max_port_rate q)
      \<and> ceil_le (max_host_concurrency p) (max_host_concurrency q)
      \<and> ceil_le (per_host_rate p) (per_host_rate q))"

text \<open>A missing policy restricts nothing.\<close>

definition opt_policy_le :: "resolved_policy option \<Rightarrow> resolved_policy option \<Rightarrow> bool" where
  "opt_policy_le p q = policy_le (or_else p empty_document) (or_else q empty_document)"

lemma set_sorted_ports [simp]: "set (sorted_ports ps) = set ps"
  by (simp add: sorted_ports_def)

lemma policy_le_refl: "policy_le p p"
  by (simp add: policy_le_def ceiling.le_refl)

lemma policy_le_trans: "policy_le a b \<Longrightarrow> policy_le b c \<Longrightarrow> policy_le a c"
  unfolding policy_le_def by (meson ceiling.le_trans subset_trans)

definition fold_policies :: "resolved_policy \<Rightarrow> resolved_policy \<Rightarrow> resolved_policy" where
  "fold_policies f r = \<lparr>policy_version = POLICY_VERSION,
          profile = tighten_profile (profile f) (profile r),
          safe_only = (safe_only f \<or> safe_only r),
          skip_service_probe = (skip_service_probe f \<or> skip_service_probe r),
          avoid_ports = sorted_ports (avoid_ports f @ avoid_ports r),
          max_discover_rate = stricter (max_discover_rate f) (max_discover_rate r),
          max_port_rate = stricter (max_port_rate f) (max_port_rate r),
          max_host_concurrency = stricter (max_host_concurrency f) (max_host_concurrency r),
          per_host_rate = stricter (per_host_rate f) (per_host_rate r)\<rparr>"

lemma tighten_fold:
  "tighten f r = (if f = None \<and> r = None then None
     else Some (fold_policies (or_else f empty_document) (or_else r empty_document)))"
  by (simp add: tighten_def fold_policies_def Let_def)

lemma tighten_or_else:
  "policy_le (or_else (tighten f r) empty_document)
     (fold_policies (or_else f empty_document) (or_else r empty_document))"
  "policy_le (fold_policies (or_else f empty_document) (or_else r empty_document))
     (or_else (tighten f r) empty_document)"
  by (auto simp: tighten_fold policy_le_refl)
    (auto simp: policy_le_def fold_policies_def empty_document_def tighten_profile_def stricter_def
      ceil_le_def PROFILE_FRAGILE_def PROFILE_STANDARD_def)

lemma fold_policies_le:
  "policy_le (fold_policies f r) f" "policy_le (fold_policies f r) r"
  "policy_le c f \<Longrightarrow> policy_le c r \<Longrightarrow> policy_le c (fold_policies f r)"
  by (auto simp: policy_le_def fold_policies_def tighten_profile_def PROFILE_FRAGILE_def PROFILE_STANDARD_def
      ceiling.meet_le1 ceiling.meet_le2 ceiling.meet_greatest)

interpretation policies: ceiling_meet opt_policy_le tighten
proof unfold_locales
  fix a b c :: "resolved_policy option"
  show "opt_policy_le a a" by (simp add: opt_policy_le_def policy_le_refl)
  show "opt_policy_le a b \<Longrightarrow> opt_policy_le b c \<Longrightarrow> opt_policy_le a c"
    unfolding opt_policy_le_def by (rule policy_le_trans)
  show "opt_policy_le (tighten a b) a" "opt_policy_le (tighten a b) b"
    unfolding opt_policy_le_def using policy_le_trans [OF tighten_or_else(1)] fold_policies_le(1,2) by blast+
  show "opt_policy_le c a \<Longrightarrow> opt_policy_le c b \<Longrightarrow> opt_policy_le c (tighten a b)"
    unfolding opt_policy_le_def using policy_le_trans [OF _ tighten_or_else(2)] fold_policies_le(3) by blast
qed

text \<open>Folding the same policy in again changes nothing.\<close>

lemma sorted_ports_eq: "set a = set b \<Longrightarrow> sorted_ports a = sorted_ports b"
  unfolding sorted_ports_def by (metis sorted_list_of_set_sort_remdups)

lemma stricter_again [simp]: "stricter (stricter a b) b = stricter a b"
  by (simp add: stricter_def split: option.split)

lemma tighten_again: "tighten (tighten f r) r = tighten f r"
proof (cases "f = None \<and> r = None")
  case True
  then show ?thesis by (simp add: tighten_def)
next
  case False
  let ?f = "or_else f empty_document" and ?r = "or_else r empty_document"
  have "sorted_ports (sorted_ports (avoid_ports ?f @ avoid_ports ?r) @ avoid_ports ?r)
      = sorted_ports (avoid_ports ?f @ avoid_ports ?r)"
    by (rule sorted_ports_eq) auto
  moreover have "tighten_profile (tighten_profile x y) y = tighten_profile x y" for x y
    by (auto simp: tighten_profile_def PROFILE_FRAGILE_def PROFILE_STANDARD_def)
  ultimately have "fold_policies (fold_policies ?f ?r) ?r = fold_policies ?f ?r"
    by (simp add: fold_policies_def)
  then show ?thesis using False by (simp add: tighten_fold)
qed

end
