(* ===== verification/Job_Model.thy ===== *)
theory Job_Model
  imports Job_States Scan_Policy
begin

text \<open>
  The data of the job control plane: the settings the job services read, the \<^verbatim>\<open>jobs\<close> row
  of \<^verbatim>\<open>api/db/models.py\<close> with its \<open>scan_options\<close> document, and the other rows the services
  write beside it (tenant ceilings, agents, run publications, audit entries, failure
  events). A database is the record \<open>db\<close>; a transaction reads it once and returns the
  new one, so a Python exception (a rollback) is an \<open>Err\<close> without a database.

  Times are microseconds since an epoch, as integers; a transaction reads the clock once
  and every \<^verbatim>\<open>_now()\<close> in it has that value. The job table is an instance of the
  \<open>row_store\<close> interface.
\<close>

type_synonym time = int

definition seconds :: "int \<Rightarrow> time" where
  "seconds n = n * 1000000"

lemma seconds_mono [simp]: "seconds a \<le> seconds b \<longleftrightarrow> a \<le> b" "seconds a < seconds b \<longleftrightarrow> a < b"
  by (simp_all add: seconds_def)

lemma seconds_pos [simp]: "0 < seconds a \<longleftrightarrow> 0 < a"
  by (simp add: seconds_def)

section \<open>Settings\<close>

text \<open>\<open>scan_queue_local_poll\<close> is the poll interval in microseconds (a float of seconds in Python).\<close>

record settings =
  job_lease_seconds :: int
  job_ingest_lease_seconds :: int
  job_max_attempts :: int
  job_cancel_grace_seconds :: int
  scan_queue_max_depth :: int
  scan_queue_retry_after_seconds :: int
  scan_queue_local_poll :: time
  agent_stale_seconds :: int
  instance_id :: string
  nats_url :: "string option"

definition DEFAULT_TENANT_ID :: string where "DEFAULT_TENANT_ID = ''default''"

section \<open>The job row\<close>

text \<open>
  \<open>scan_options\<close> is a JSON document; the keys the services read are fields. A document is
  present when its field is \<open>Some\<close>; \<open>config_overlay\<close> is a list of setting paths with
  their JSON text (the empty list is the empty document, which Python reads as false). \<open>maintenance_wait\<close> is the calendar's last refusal.
\<close>

record admission =
  adm_allowed :: bool
  adm_reason :: string
  adm_detail :: string
  adm_window_id :: string
  adm_window_name :: string
  adm_retry_at :: "time option"

record scan_options =
  so_mode :: "string option"
  so_delta :: bool
  so_skip_nse :: bool
  so_notify :: bool
  so_export_defectdojo :: bool
  so_surface :: "string option"
  so_surface_source :: "string option"
  so_scan_policy :: "policy_snapshot option"
  so_config_overlay :: "(string \<times> string) list option"
  so_config_overlay_capability :: "string option"
  so_maintenance_wait :: "admission option"
  so_idempotency_digest :: "string option"

record job =
  j_job_id :: string
  j_tenant_id :: string
  j_status :: string
  j_execution :: string
  j_mode :: string
  j_run_id :: "string option"
  j_command :: "string list"
  j_scan_options :: scan_options
  j_target_counts :: "(string \<times> int) list option"
  j_requested_by :: string
  j_assigned_agent_id :: "string option"
  j_agent_group :: "string option"
  j_owner_id :: "string option"
  j_idempotency_key :: "string option"
  j_results_idempotency_key :: "string option"
  j_claimed_until :: "time option"
  j_attempts :: int
  j_ingest_token :: "string option"
  j_ingest_attempt :: "int option"
  j_ingest_agent_id :: "string option"
  j_ingest_started_at :: "time option"
  j_cancel_requested_at :: "time option"
  j_priority :: int
  j_queued_at :: time
  j_started_at :: "time option"
  j_finished_at :: "time option"
  j_exit_code :: "int option"
  j_error :: "string option"
  j_asset_upsert_error :: "string option"
  j_quota_exempt :: bool

definition job_tenant :: "job \<Rightarrow> string" where
  "job_tenant row = (if j_tenant_id row \<noteq> [] then j_tenant_id row else DEFAULT_TENANT_ID)"

section \<open>The rows beside it\<close>

record tenant =
  t_tenant_id :: string
  t_status :: string
  t_max_concurrent_scans :: "int option"
  t_max_queued_scans :: "int option"

record agent =
  a_agent_id :: string
  a_tenant_id :: string
  a_status :: string
  a_capabilities :: "string list"
  a_agent_group :: "string option"
  a_current_job_id :: "string option"
  a_last_seen_at :: "time option"
  a_healthy_since :: "time option"

record publication =
  pub_id :: string
  pub_tenant_id :: string
  pub_job_id :: string
  pub_run_id :: string
  pub_agent_id :: string
  pub_job_status :: string
  pub_risk_assessment :: bool
  pub_exit_code :: int
  pub_scan_error :: "string option"
  pub_surface :: "string option"
  pub_staging_path :: string
  pub_replica :: string
  pub_status :: string
  pub_next_attempt_at :: time
  pub_created_at :: time

text \<open>
  What the services append: audit rows (\<^verbatim>\<open>audit.record\<close> on the caller's session) and the
  \<^verbatim>\<open>scan_failed\<close> events emitted after a commit.
\<close>

datatype audit_entry =
    ScanCancel string string string string
  | CancelIngestDropped string string string
  | ScanPriority string string int int
  | QueueLimitsChanged string "int option \<times> int option" "int option \<times> int option"
  | MaintenanceBlock string string admission
  | ResultsRejectedAudit string string string bool

record failure_event =
  fe_tenant_id :: string
  fe_subject_id :: string
  fe_marker :: string
  fe_run_id :: "string option"
  fe_execution :: string
  fe_mode :: string
  fe_surface :: "string option"
  fe_attempts :: int
  fe_assigned_agent_id :: "string option"
  fe_exit_code :: "int option"
  fe_requested_by :: string
  fe_error :: "string option"

record db =
  jobs :: "job list"
  publications :: "publication list"
  tenants :: "tenant list"
  agents :: "agent list"
  audit_log :: "audit_entry list"
  failure_events :: "failure_event list"
  offers :: "string list"

section \<open>The job table\<close>

abbreviation get_row :: "db \<Rightarrow> string \<Rightarrow> job option" where
  "get_row d \<equiv> row_get j_job_id (jobs d)"

definition put_row :: "db \<Rightarrow> job \<Rightarrow> db" where
  "put_row d r = d\<lparr>jobs := row_put j_job_id (jobs d) r\<rparr>"

definition count_rows :: "(job \<Rightarrow> bool) \<Rightarrow> db \<Rightarrow> nat" where
  "count_rows P d = row_count P (jobs d)"

text \<open>Primary keys are unique.\<close>

definition wf_jobs :: "db \<Rightarrow> bool" where
  "wf_jobs d = distinct (map j_job_id (jobs d))"

definition audit :: "db \<Rightarrow> audit_entry \<Rightarrow> db" where
  "audit d e = d\<lparr>audit_log := audit_log d @ [e]\<rparr>"

definition emit_event :: "db \<Rightarrow> failure_event \<Rightarrow> db" where
  "emit_event d e = d\<lparr>failure_events := failure_events d @ [e]\<rparr>"

definition add_publication :: "db \<Rightarrow> publication option \<Rightarrow> db" where
  "add_publication d p =
     (case p of None \<Rightarrow> d | Some x \<Rightarrow> d\<lparr>publications := publications d @ [x]\<rparr>)"

interpretation job_table: row_store j_job_id get_row put_row count_rows wf_jobs
proof unfold_locales
  fix t :: db and k r
  show "get_row t k = Some r \<Longrightarrow> j_job_id r = k" by (rule row_get_key)
next
  fix t :: db and r k
  show "get_row (put_row t r) k = (if k = j_job_id r \<and> get_row t k \<noteq> None then Some r else get_row t k)"
    by (simp add: put_row_def row_get_put)
next
  fix t :: db and r
  show "wf_jobs t \<Longrightarrow> wf_jobs (put_row t r)"
    by (simp add: wf_jobs_def put_row_def)
next
  fix t :: db and r old and P :: "job \<Rightarrow> bool"
  show "wf_jobs t \<Longrightarrow> get_row t (j_job_id r) = Some old \<Longrightarrow>
    count_rows P (put_row t r) + (if P old then 1 else 0) = count_rows P t + (if P r then 1 else 0)"
    by (simp add: wf_jobs_def put_row_def count_rows_def row_count_put)
qed

text \<open>The other columns of the database do not move under a write of a job row.\<close>

lemma put_row_frame [simp]:
  "publications (put_row d r) = publications d" "tenants (put_row d r) = tenants d"
  "agents (put_row d r) = agents d" "audit_log (put_row d r) = audit_log d"
  "failure_events (put_row d r) = failure_events d" "offers (put_row d r) = offers d"
  by (simp_all add: put_row_def)

lemma log_frame [simp]:
  "jobs (audit d e) = jobs d" "publications (audit d e) = publications d"
  "tenants (audit d e) = tenants d" "agents (audit d e) = agents d"
  "jobs (emit_event d f) = jobs d" "publications (emit_event d f) = publications d"
  "tenants (emit_event d f) = tenants d" "agents (emit_event d f) = agents d"
  "jobs (add_publication d p) = jobs d" "tenants (add_publication d p) = tenants d"
  "agents (add_publication d p) = agents d"
  by (simp_all add: audit_def emit_event_def add_publication_def split: option.split)

lemma get_put_row [row_simps]:
  "get_row (put_row d r) k = (if k = j_job_id r \<and> get_row d k \<noteq> None then Some r else get_row d k)"
  by (rule job_table.get_put)

lemma wf_jobs_frame [simp]:
  "wf_jobs (put_row d r) = wf_jobs d" "wf_jobs (audit d e) = wf_jobs d"
  "wf_jobs (emit_event d f) = wf_jobs d" "wf_jobs (add_publication d p) = wf_jobs d"
  by (simp_all add: wf_jobs_def put_row_def)

lemma count_rows_frame [simp]:
  "count_rows P (audit d e) = count_rows P d" "count_rows P (emit_event d f) = count_rows P d"
  "count_rows P (add_publication d p) = count_rows P d"
  by (simp_all add: count_rows_def)

text \<open>A sweep writes several rows, one after the other.\<close>

definition put_rows :: "db \<Rightarrow> job list \<Rightarrow> db" where
  "put_rows d rs = foldl put_row d rs"

lemma put_rows_simps [simp]:
  "put_rows d [] = d" "put_rows d (r # rs) = put_rows (put_row d r) rs"
  by (simp_all add: put_rows_def)

end
