(* ===== verification/Job_Leases.thy ===== *)
theory Job_Leases
  imports Job_Model
begin

text \<open>
  Leases and the ingest fence, \<^verbatim>\<open>api/services/job_leases.py\<close>: deadlines, the waiting mark of
  a local job, the reservation an upload takes on the row while its archive is
  processed, and the check its terminal write is conditional on. A result of a token is
  passed in (\<^verbatim>\<open>uuid4().hex\<close>); \<open>renewing_lease\<close>, the thread that calls \<open>renew_lease\<close> on a
  timer, is a sequence of \<open>renew_lease\<close> steps.
\<close>

record ingest_lease =
  il_job_id :: string
  il_token :: string
  il_attempt :: int
  il_agent_id :: string

datatype stale_attempt = StaleAttempt string int

definition lease_deadline :: "settings \<Rightarrow> time \<Rightarrow> time" where
  "lease_deadline s now = now + seconds (max (job_lease_seconds s) 1)"

definition ingest_window :: "settings \<Rightarrow> time" where
  "ingest_window s = seconds (max (job_ingest_lease_seconds s) 1)"

definition waiting_mark_lifetime :: "settings \<Rightarrow> time" where
  "waiting_mark_lifetime s =
     max (max (seconds (job_lease_seconds s)) (3 * scan_queue_local_poll s)) (seconds 1)"

text \<open>\<^verbatim>\<open>timedelta / 2\<close> rounds to the microsecond, halves to even.\<close>

definition half_even :: "int \<Rightarrow> int" where
  "half_even x = (if even x \<or> even (x div 2) then x div 2 else x div 2 + 1)"

definition renew_waiting_mark :: "settings \<Rightarrow> time \<Rightarrow> job \<Rightarrow> job" where
  "renew_waiting_mark s now row =
     (let lifetime = waiting_mark_lifetime s in
      case j_claimed_until row of
        None \<Rightarrow> row\<lparr>j_claimed_until := Some (now + lifetime)\<rparr>
      | Some u \<Rightarrow>
          if u - now < half_even lifetime then row\<lparr>j_claimed_until := Some (now + lifetime)\<rparr>
          else row)"

definition extend_lease :: "job \<Rightarrow> time \<Rightarrow> job" where
  "extend_lease row deadline =
     (case j_claimed_until row of
        None \<Rightarrow> row\<lparr>j_claimed_until := Some deadline\<rparr>
      | Some u \<Rightarrow> if u < deadline then row\<lparr>j_claimed_until := Some deadline\<rparr> else row)"

definition open_ingest_lease ::
  "settings \<Rightarrow> time \<Rightarrow> string \<Rightarrow> job \<Rightarrow> string \<Rightarrow> job \<times> ingest_lease" where
  "open_ingest_lease s now token row agent_id =
     (let row1 = row\<lparr>j_ingest_token := Some token, j_ingest_attempt := Some (j_attempts row),
            j_ingest_agent_id := Some agent_id, j_ingest_started_at := Some now\<rparr>;
          row2 = (if j_status row1 \<in> set IN_FLIGHT
                  then extend_lease row1 (now + ingest_window s) else row1)
      in (row2, \<lparr>il_job_id = j_job_id row, il_token = token, il_attempt = j_attempts row,
                 il_agent_id = agent_id\<rparr>))"

definition fence_holds :: "job \<Rightarrow> ingest_lease \<Rightarrow> bool" where
  "fence_holds row fence =
     (j_ingest_token row = Some (il_token fence) \<and> j_attempts row = il_attempt fence
      \<and> j_assigned_agent_id row = Some (il_agent_id fence))"

definition check_ingest_fence :: "job \<Rightarrow> ingest_lease \<Rightarrow> stale_attempt + unit" where
  "check_ingest_fence row fence =
     (if fence_holds row fence then Ok () else Err (StaleAttempt (il_job_id fence) (il_attempt fence)))"

definition clear_ingest :: "job \<Rightarrow> job" where
  "clear_ingest row = row\<lparr>j_ingest_token := None, j_ingest_attempt := None,
     j_ingest_agent_id := None, j_ingest_started_at := None\<rparr>"

definition renew_lease ::
  "settings \<Rightarrow> time \<Rightarrow> db \<Rightarrow> string \<Rightarrow> string option \<Rightarrow> bool \<times> db" where
  "renew_lease s now d jid agent_id =
     (case get_row d jid of None \<Rightarrow> (False, d)
      | Some row \<Rightarrow>
          if j_status row \<notin> set IN_FLIGHT then (False, d)
          else if agent_id \<noteq> None \<and> j_assigned_agent_id row \<noteq> agent_id then (False, d)
          else (True, put_row d (extend_lease row (lease_deadline s now))))"

definition release_ingest_lease :: "settings \<Rightarrow> time \<Rightarrow> db \<Rightarrow> ingest_lease \<Rightarrow> db" where
  "release_ingest_lease s now d fence =
     (case get_row d (il_job_id fence) of None \<Rightarrow> d
      | Some row \<Rightarrow>
          if j_ingest_token row \<noteq> Some (il_token fence) then d
          else let row1 = clear_ingest row in
            put_row d (if j_status row1 \<in> set IN_FLIGHT
                       then row1\<lparr>j_claimed_until := Some (lease_deadline s now)\<rparr> else row1))"

section \<open>What they change\<close>

text \<open>
  Everything but the named columns is kept: the three facts the invariants of the job
  table read off a lease operation.
\<close>

lemma extend_lease_frame [simp]:
  "j_idempotency_key (extend_lease r d) = j_idempotency_key r"
  "j_scan_options (extend_lease r d) = j_scan_options r"
  "j_job_id (extend_lease r d) = j_job_id r" "j_status (extend_lease r d) = j_status r"
  "j_attempts (extend_lease r d) = j_attempts r" "j_tenant_id (extend_lease r d) = j_tenant_id r"
  "j_execution (extend_lease r d) = j_execution r"
  "j_assigned_agent_id (extend_lease r d) = j_assigned_agent_id r"
  "j_ingest_token (extend_lease r d) = j_ingest_token r"
  "j_results_idempotency_key (extend_lease r d) = j_results_idempotency_key r"
  "j_finished_at (extend_lease r d) = j_finished_at r"
  "j_exit_code (extend_lease r d) = j_exit_code r"
  "j_cancel_requested_at (extend_lease r d) = j_cancel_requested_at r"
  by (auto simp: extend_lease_def split: option.split)

lemma renew_waiting_mark_frame [simp]:
  "j_job_id (renew_waiting_mark s n r) = j_job_id r"
  "j_idempotency_key (renew_waiting_mark s n r) = j_idempotency_key r"
  "j_scan_options (renew_waiting_mark s n r) = j_scan_options r"
  "j_status (renew_waiting_mark s n r) = j_status r"
  "j_attempts (renew_waiting_mark s n r) = j_attempts r"
  "j_tenant_id (renew_waiting_mark s n r) = j_tenant_id r"
  "j_execution (renew_waiting_mark s n r) = j_execution r"
  "j_assigned_agent_id (renew_waiting_mark s n r) = j_assigned_agent_id r"
  "j_ingest_token (renew_waiting_mark s n r) = j_ingest_token r"
  "j_finished_at (renew_waiting_mark s n r) = j_finished_at r"
  "j_exit_code (renew_waiting_mark s n r) = j_exit_code r"
  by (auto simp: renew_waiting_mark_def Let_def split: option.split)

lemma clear_ingest_frame [simp]:
  "j_idempotency_key (clear_ingest r) = j_idempotency_key r"
  "j_scan_options (clear_ingest r) = j_scan_options r"
  "j_job_id (clear_ingest r) = j_job_id r" "j_status (clear_ingest r) = j_status r"
  "j_attempts (clear_ingest r) = j_attempts r" "j_tenant_id (clear_ingest r) = j_tenant_id r"
  "j_execution (clear_ingest r) = j_execution r"
  "j_assigned_agent_id (clear_ingest r) = j_assigned_agent_id r"
  "j_claimed_until (clear_ingest r) = j_claimed_until r"
  "j_results_idempotency_key (clear_ingest r) = j_results_idempotency_key r"
  "j_ingest_token (clear_ingest r) = None"
  "j_exit_code (clear_ingest r) = j_exit_code r"
  "j_finished_at (clear_ingest r) = j_finished_at r"
  by (simp_all add: clear_ingest_def)

lemma extend_lease_until:
  "\<exists>u. j_claimed_until (extend_lease r d) = Some u \<and> d \<le> u"
  by (auto simp: extend_lease_def split: option.split)

lemma extend_lease_never_pulls_in:
  "j_claimed_until r = Some u \<Longrightarrow> \<exists>v. j_claimed_until (extend_lease r d) = Some v \<and> u \<le> v"
  by (auto simp: extend_lease_def)

lemma open_ingest_lease_row [simp]:
  "open_ingest_lease s now tok r a = (r', f) \<Longrightarrow>
     j_job_id r' = j_job_id r \<and> j_status r' = j_status r \<and> j_attempts r' = j_attempts r
     \<and> j_tenant_id r' = j_tenant_id r \<and> j_execution r' = j_execution r
     \<and> j_assigned_agent_id r' = j_assigned_agent_id r \<and> j_ingest_token r' = Some tok
     \<and> il_token f = tok \<and> il_attempt f = j_attempts r \<and> il_agent_id f = a
     \<and> il_job_id f = j_job_id r"
  by (auto simp: open_ingest_lease_def Let_def)

lemma open_then_fence_holds:
  "open_ingest_lease s now tok r a = (r', f) \<Longrightarrow> j_assigned_agent_id r = Some a
     \<Longrightarrow> fence_holds r' f"
  by (auto simp: fence_holds_def)

end
