(* ===== verification/Job_Store.thy ===== *)
theory Job_Store
  imports Job_Leases
begin

text \<open>
  The persistence boundary, \<^verbatim>\<open>api/services/job_store.py\<close>: the one function every lifecycle
  write of an executor goes through (\<open>update_job\<close>), the API's view of a row (\<open>to_info\<close>),
  what an agent must declare to be handed a job, the failure event and the queue counts.
  Also \<^verbatim>\<open>overlay_capability\<close> of \<^verbatim>\<open>config_override.py\<close>. Metrics are not modelled.
\<close>

section \<open>Errors of the job services\<close>

datatype service_error =
    JobNotFound
  | NotAgentJob
  | AssignedElsewhere
  | CrossTenant
  | Stale stale_attempt
  | AttemptMismatch int int
  | Transition job_error
  | LocalScanRunning string
  | ResultsConflict string
  | ResultsInFlight string
  | RunIdMismatch
  | RunIdInvalid
  | RunIdRequired
  | ArchiveInvalid string
  | ResultsRejected string string
  | UnknownAgent
  | InputsUnavailable string
  | BadCommand string
  | AgentPolicyUnsupported string
  | AgentOverlayUnsupported string
  | LimitTooLarge string int
  | UnknownTenant string
  | PriorityOutOfRange int
  | PriorityNotPermitted
  | JobNotQueued string
  | QueueFull string int nat

definition lift_err :: "('e \<Rightarrow> 'f) \<Rightarrow> 'e + 'a \<Rightarrow> 'f + 'a" where
  "lift_err f r = (case r of Inl e \<Rightarrow> Inl (f e) | Inr a \<Rightarrow> Inr a)"

lemma lift_err_simps [simp]: "lift_err f (Err e) = Err (f e)" "lift_err f (Ok a) = Ok a"
  by (simp_all add: lift_err_def)

lemma lift_err_Ok_iff [simp]: "lift_err f r = Ok a \<longleftrightarrow> r = Ok a"
  by (cases r) simp_all

section \<open>What an agent must declare\<close>

definition OVERLAY_BASE_CAPABILITY :: string where
  "OVERLAY_BASE_CAPABILITY = ''config_overlay.v1''"

definition overlay_capability :: "scan_options \<Rightarrow> string option" where
  "overlay_capability options =
     (case so_config_overlay options of
        None \<Rightarrow> None
      | Some [] \<Rightarrow> None
      | Some (_ # _) \<Rightarrow> Some (or_text (so_config_overlay_capability options) OVERLAY_BASE_CAPABILITY))"

definition required_capabilities :: "scan_options \<Rightarrow> string list" where
  "required_capabilities options =
     (if so_scan_policy options \<noteq> None then [AGENT_CAPABILITY] else [])
     @ (case overlay_capability options of None \<Rightarrow> []
        | Some overlay \<Rightarrow> if overlay \<noteq> [] then [overlay] else [])"

type_synonym 'k live_map = "('k \<times> string list list) list"

definition sensor_available :: "string \<Rightarrow> scan_options \<Rightarrow> string live_map \<Rightarrow> bool" where
  "sensor_available tid options live =
     list_ex (\<lambda>caps. set (required_capabilities options) \<subseteq> set caps)
       (or_else (map_of live tid) [])"

section \<open>The row as the API reports it\<close>

record job_info =
  info_job_id :: string
  info_status :: string
  info_run_id :: "string option"
  info_mode :: string
  info_command :: "string list"
  info_started_at :: "time option"
  info_finished_at :: "time option"
  info_exit_code :: "int option"
  info_error :: "string option"
  info_requested_by :: string
  info_target_counts :: "(string \<times> int) list option"
  info_execution :: string
  info_assigned_agent_id :: "string option"
  info_tenant_id :: string
  info_asset_upsert_error :: "string option"
  info_attempts :: int
  info_scan_options :: scan_options
  info_surface :: "string option"
  info_surface_source :: "string option"
  info_agent_group :: "string option"
  info_priority :: int
  info_agent_group_unavailable :: bool
  info_sensor_unavailable :: bool

definition to_info ::
  "job \<Rightarrow> (string \<times> string) live_map option \<Rightarrow> string live_map option \<Rightarrow> job_info" where
  "to_info row live_groups live_sensors =
     \<lparr>info_job_id = j_job_id row, info_status = j_status row, info_run_id = j_run_id row,
      info_mode = j_mode row, info_command = j_command row, info_started_at = j_started_at row,
      info_finished_at = j_finished_at row, info_exit_code = j_exit_code row,
      info_error = j_error row, info_requested_by = j_requested_by row,
      info_target_counts = (if j_target_counts row = Some [] then None else j_target_counts row),
      info_execution = j_execution row, info_assigned_agent_id = j_assigned_agent_id row,
      info_tenant_id = job_tenant row, info_asset_upsert_error = j_asset_upsert_error row,
      info_attempts = j_attempts row, info_scan_options = j_scan_options row,
      info_surface = so_surface (j_scan_options row),
      info_surface_source = so_surface_source (j_scan_options row),
      info_agent_group = j_agent_group row, info_priority = j_priority row,
      info_agent_group_unavailable =
        (truthy_text (j_agent_group row) \<and> j_status row = QUEUED \<and> live_groups \<noteq> None
         \<and> \<not> list_ex (\<lambda>caps. set (required_capabilities (j_scan_options row)) \<subseteq> set caps)
               (or_else (map_of (the live_groups) (job_tenant row, the (j_agent_group row))) [])),
      info_sensor_unavailable =
        (\<not> truthy_text (j_agent_group row) \<and> j_execution row = ''agent'' \<and> j_status row = QUEUED
         \<and> live_sensors \<noteq> None
         \<and> \<not> sensor_available (job_tenant row) (j_scan_options row) (the live_sensors))\<rparr>"

definition get_job ::
  "db \<Rightarrow> string \<Rightarrow> (string \<times> string) live_map option \<Rightarrow> string live_map option \<Rightarrow> job_info option" where
  "get_job d jid live_groups live_sensors =
     map_option (\<lambda>row. to_info row live_groups live_sensors) (get_row d jid)"

definition scan_failure_event :: "job \<Rightarrow> failure_event" where
  "scan_failure_event row =
     \<lparr>fe_tenant_id = job_tenant row, fe_subject_id = j_job_id row,
      fe_marker = str_int (j_attempts row), fe_run_id = j_run_id row,
      fe_execution = j_execution row, fe_mode = j_mode row,
      fe_surface = so_surface (j_scan_options row), fe_attempts = j_attempts row,
      fe_assigned_agent_id = j_assigned_agent_id row, fe_exit_code = j_exit_code row,
      fe_requested_by = j_requested_by row,
      fe_error = (case j_error row of None \<Rightarrow> None
                  | Some e \<Rightarrow> if take 1000 e = [] then None else Some (take 1000 e))\<rparr>"

definition count_status :: "string \<Rightarrow> db \<Rightarrow> nat" where
  "count_status st d = count_rows (\<lambda>r. j_status r = st) d"

definition job_counts :: "db \<Rightarrow> nat \<times> nat" where
  "job_counts d =
     (count_status QUEUED d, sum_list (map (\<lambda>st. count_status st d) (IN_FLIGHT @ [CANCELLING])))"

section \<open>The lifecycle write\<close>

text \<open>The keyword arguments a caller of \<open>update_job\<close> passes; \<open>None\<close> is "not passed".\<close>

record job_fields =
  f_status :: "string option"
  f_finished_at :: "time option option"
  f_claimed_until :: "time option option"
  f_exit_code :: "int option option"
  f_run_id :: "string option option"
  f_error :: "string option option"
  f_results_idempotency_key :: "string option option"

definition no_fields :: job_fields where
  "no_fields = \<lparr>f_status = None, f_finished_at = None, f_claimed_until = None, f_exit_code = None,
     f_run_id = None, f_error = None, f_results_idempotency_key = None\<rparr>"

definition set_fields :: "job_fields \<Rightarrow> job \<Rightarrow> job" where
  "set_fields f row = row\<lparr>
     j_status := or_else (f_status f) (j_status row),
     j_finished_at := or_else (f_finished_at f) (j_finished_at row),
     j_claimed_until := or_else (f_claimed_until f) (j_claimed_until row),
     j_exit_code := or_else (f_exit_code f) (j_exit_code row),
     j_run_id := or_else (f_run_id f) (j_run_id row),
     j_error := or_else (f_error f) (j_error row),
     j_results_idempotency_key :=
       or_else (f_results_idempotency_key f) (j_results_idempotency_key row)\<rparr>"

definition terminal_default :: "job_fields \<Rightarrow> job_fields" where
  "terminal_default f =
     (if (\<exists>st \<in> set TERMINAL. f_status f = Some st) \<and> f_claimed_until f = None
      then f\<lparr>f_claimed_until := Some None\<rparr> else f)"

definition update_job ::
  "db \<Rightarrow> string \<Rightarrow> ingest_lease option \<Rightarrow> publication option \<Rightarrow> job_fields \<Rightarrow> service_error + db" where
  "update_job d jid fence publication f =
     (case get_row d jid of None \<Rightarrow> Ok d
      | Some row \<Rightarrow>
          bindE (case fence of None \<Rightarrow> Ok ()
                 | Some fc \<Rightarrow> lift_err Stale (check_ingest_fence row fc)) (\<lambda>_.
          bindE (case f_status f of None \<Rightarrow> Ok ()
                 | Some st \<Rightarrow> lift_err Transition (check_transition jid (j_status row) st)) (\<lambda>_.
            let row1 = set_fields (terminal_default f)
                         (if fence = None then row else clear_ingest row);
                d1 = add_publication (put_row d row1) publication
            in Ok (if f_status f = Some FAILED then emit_event d1 (scan_failure_event row1) else d1))))"

definition force_status :: "db \<Rightarrow> string \<Rightarrow> string \<Rightarrow> job_fields \<Rightarrow> db" where
  "force_status d jid st f =
     (case get_row d jid of None \<Rightarrow> d
      | Some row \<Rightarrow> put_row d (set_fields (f\<lparr>f_status := None\<rparr>) (row\<lparr>j_status := st\<rparr>)))"

section \<open>What the write does\<close>

lemma set_fields_frame [simp]:
  "j_job_id (set_fields f r) = j_job_id r" "j_tenant_id (set_fields f r) = j_tenant_id r"
  "j_execution (set_fields f r) = j_execution r" "j_attempts (set_fields f r) = j_attempts r"
  "j_assigned_agent_id (set_fields f r) = j_assigned_agent_id r"
  "j_ingest_token (set_fields f r) = j_ingest_token r"
  "j_status (set_fields f r) = or_else (f_status f) (j_status r)"
  "j_scan_options (set_fields f r) = j_scan_options r"
  "j_idempotency_key (set_fields f r) = j_idempotency_key r"
  "j_cancel_requested_at (set_fields f r) = j_cancel_requested_at r"
  by (simp_all add: set_fields_def)

lemma terminal_default_frame [simp]:
  "f_status (terminal_default f) = f_status f"
  "f_exit_code (terminal_default f) = f_exit_code f"
  "f_finished_at (terminal_default f) = f_finished_at f"
  by (simp_all add: terminal_default_def)

text \<open>
  A successful write, taken apart once: the row existed, the fence (if any) held on it, a
  status named was a legal move from the row's status, and the row written is the old one
  with the fields set.
\<close>

lemma update_job_OkE:
  assumes "update_job d jid fence p f = Ok d'"
  obtains "get_row d jid = None" "d' = d"
  | row where "get_row d jid = Some row"
      "\<And>fc. fence = Some fc \<Longrightarrow> fence_holds row fc"
      "\<And>st. f_status f = Some st \<Longrightarrow> can_transition (j_status row) st"
      "jobs d' = jobs (put_row d (set_fields (terminal_default f)
                         (if fence = None then row else clear_ingest row)))"
      "publications d' = publications d @ (case p of None \<Rightarrow> [] | Some x \<Rightarrow> [x])"
      "tenants d' = tenants d" "agents d' = agents d"
proof (cases "get_row d jid")
  case None
  then have "d' = d" using assms unfolding update_job_def by simp
  with None show ?thesis by (rule that(1))
next
  case (Some row)
  let ?row1 = "set_fields (terminal_default f) (if fence = None then row else clear_ingest row)"
  let ?d1 = "add_publication (put_row d ?row1) p"
  have r: "bindE (case fence of None \<Rightarrow> Ok ()
                 | Some fc \<Rightarrow> lift_err Stale (check_ingest_fence row fc)) (\<lambda>_.
          bindE (case f_status f of None \<Rightarrow> Ok ()
                 | Some st \<Rightarrow> lift_err Transition (check_transition jid (j_status row) st)) (\<lambda>_.
            Ok (if f_status f = Some FAILED then emit_event ?d1 (scan_failure_event ?row1) else ?d1)))
       = Ok d'" (is "bindE ?F (\<lambda>_. bindE ?T _) = _")
    using assms unfolding update_job_def Some option.case Let_def .
  then have F: "?F = Ok ()" and T: "?T = Ok ()"
    and d': "d' = (if f_status f = Some FAILED then emit_event ?d1 (scan_failure_event ?row1) else ?d1)"
    unfolding bindE_Ok_iff by auto
  have "fence_holds row fc" if "fence = Some fc" for fc
    using F that by (auto simp: check_ingest_fence_def split: if_splits)
  moreover have "can_transition (j_status row) st" if "f_status f = Some st" for st
    using T that by auto
  moreover have "jobs d' = jobs (put_row d ?row1)" "tenants d' = tenants d" "agents d' = agents d"
    unfolding d' by simp_all
  moreover have "publications d' = publications d @ (case p of None \<Rightarrow> [] | Some x \<Rightarrow> [x])"
    unfolding d' by (simp add: add_publication_def split: option.split)
  ultimately show ?thesis using that(2) [OF Some] by blast
qed

end
