(* ===== verification/Scan_Queue.thy ===== *)
theory Scan_Queue
  imports Job_Store "HOL-Library.Product_Lexorder"
begin

text \<open>
  Scan queue policy, \<^verbatim>\<open>api/services/scan_queue.py\<close>: the claim order, who may move a job in
  it, the tenant's ceilings, admission to the queue and the slot a claim takes
  (\<open>hold_slot\<close>). The advisory lock of a claim makes the claims of one tenant a sequence
  of transactions; \<open>lock_free\<close> is the answer of \<^verbatim>\<open>pg_try_advisory_xact_lock\<close> to a
  caller that does not wait. The ordering of job ids is by code point. The calendar
  (\<^verbatim>\<open>queued_maintenance.evaluate\<close>) is a function argument \<open>cal\<close>.
\<close>

section \<open>Bounds and ceilings\<close>

definition PRIORITY_MIN :: int where "PRIORITY_MIN = - 100"
definition PRIORITY_MAX :: int where "PRIORITY_MAX = 100"
definition PRIORITY_DEFAULT :: int where "PRIORITY_DEFAULT = 0"
definition LIMIT_MAX :: int where "LIMIT_MAX = 10000"

definition OCCUPYING :: "string list" where "OCCUPYING = [CLAIMED, RUNNING, CANCELLING]"

record queue_limits =
  ql_tenant_id :: string
  ql_max_concurrent_scans :: "int option"
  ql_max_queued_scans :: "int option"

definition normalise_limit :: "int option \<Rightarrow> int option" where
  "normalise_limit value =
     (case value of None \<Rightarrow> None | Some v \<Rightarrow> if v \<le> 0 then None else Some v)"

abbreviation get_tenant :: "db \<Rightarrow> string \<Rightarrow> tenant option" where
  "get_tenant d \<equiv> row_get t_tenant_id (tenants d)"

section \<open>Order and authority\<close>

definition claim_key :: "job \<Rightarrow> int \<times> time \<times> string" where
  "claim_key r = (- j_priority r, j_queued_at r, j_job_id r)"

definition claim_order :: "job list \<Rightarrow> job list" where
  "claim_order rows = sort_key claim_key rows"

definition check_priority :: "int \<Rightarrow> bool \<Rightarrow> int \<Rightarrow> bool \<Rightarrow> service_error + int" where
  "check_priority prio may_raise current own =
     (if \<not> (PRIORITY_MIN \<le> prio \<and> prio \<le> PRIORITY_MAX) then Err (PriorityOutOfRange prio)
      else if may_raise then Ok prio
      else if \<not> own then Err PriorityNotPermitted
      else if prio > current \<or> current > PRIORITY_DEFAULT then Err PriorityNotPermitted
      else Ok prio)"

definition set_priority ::
  "db \<Rightarrow> string \<Rightarrow> int \<Rightarrow> string option \<Rightarrow> bool \<Rightarrow> string \<Rightarrow> service_error + (db \<times> job_info)" where
  "set_priority d jid prio tid may_raise username =
     (case get_row d jid of None \<Rightarrow> Err JobNotFound
      | Some row \<Rightarrow>
          if tid \<noteq> None \<and> Some (job_tenant row) \<noteq> tid then Err JobNotFound
          else if j_status row \<noteq> QUEUED then Err (JobNotQueued (j_status row))
          else let before = j_priority row in
            bindE (check_priority prio may_raise before
                     (j_requested_by row \<noteq> [] \<and> j_requested_by row = username)) (\<lambda>_.
              if before \<noteq> prio then
                let row1 = row\<lparr>j_priority := prio\<rparr> in
                Ok (audit (put_row d row1) (ScanPriority jid username before prio),
                    to_info row1 None None)
              else Ok (d, to_info row None None)))"

section \<open>Ceilings\<close>

definition get_limits :: "db \<Rightarrow> string \<Rightarrow> queue_limits option" where
  "get_limits d tid =
     map_option (\<lambda>t. \<lparr>ql_tenant_id = tid,
        ql_max_concurrent_scans = normalise_limit (t_max_concurrent_scans t),
        ql_max_queued_scans = normalise_limit (t_max_queued_scans t)\<rparr>) (get_tenant d tid)"

definition over_limit_max :: "int option \<Rightarrow> bool" where
  "over_limit_max value = (case value of None \<Rightarrow> False | Some v \<Rightarrow> v > LIMIT_MAX)"

definition set_limits ::
  "db \<Rightarrow> string \<Rightarrow> int option \<Rightarrow> int option \<Rightarrow> service_error + (db \<times> queue_limits)" where
  "set_limits d tid max_concurrent max_queued =
     (let concurrent = normalise_limit max_concurrent; queued = normalise_limit max_queued in
      if over_limit_max concurrent then Err (LimitTooLarge ''max_concurrent_scans'' (the concurrent))
      else if over_limit_max queued then Err (LimitTooLarge ''max_queued_scans'' (the queued))
      else case get_tenant d tid of None \<Rightarrow> Err (UnknownTenant tid)
      | Some row \<Rightarrow>
          let before = (normalise_limit (t_max_concurrent_scans row),
                        normalise_limit (t_max_queued_scans row));
              after = (concurrent, queued);
              d1 = d\<lparr>tenants := row_put t_tenant_id (tenants d)
                      (row\<lparr>t_max_concurrent_scans := concurrent, t_max_queued_scans := queued\<rparr>)\<rparr>
          in Ok ((if before \<noteq> after then audit d1 (QueueLimitsChanged tid before after) else d1),
                 \<lparr>ql_tenant_id = tid, ql_max_concurrent_scans = concurrent,
                  ql_max_queued_scans = queued\<rparr>))"

definition queued_count :: "db \<Rightarrow> string option \<Rightarrow> nat" where
  "queued_count d tid =
     count_rows (\<lambda>r. j_status r = QUEUED \<and> (tid = None \<or> Some (j_tenant_id r) = tid)) d"

definition tenant_queue_limit :: "db \<Rightarrow> string \<Rightarrow> int option" where
  "tenant_queue_limit d tid =
     normalise_limit (case get_tenant d tid of None \<Rightarrow> None | Some t \<Rightarrow> t_max_queued_scans t)"

definition global_admitted :: "settings \<Rightarrow> db \<Rightarrow> string \<Rightarrow> service_error + unit" where
  "global_admitted s d tid =
     (case normalise_limit (Some (scan_queue_max_depth s)) of None \<Rightarrow> Ok ()
      | Some limit \<Rightarrow>
          if int (queued_count d None) \<ge> limit then Err (QueueFull tid limit (queued_count d None))
          else Ok ())"

definition assert_admitted :: "settings \<Rightarrow> db \<Rightarrow> string \<Rightarrow> bool \<Rightarrow> service_error + unit" where
  "assert_admitted s d tid exempt =
     (if exempt then Ok ()
      else case tenant_queue_limit d tid of
        None \<Rightarrow> global_admitted s d tid
      | Some limit \<Rightarrow>
          if int (queued_count d (Some tid)) \<ge> limit
          then Err (QueueFull tid limit (queued_count d (Some tid)))
          else global_admitted s d tid)"

definition concurrency_limit :: "db \<Rightarrow> string \<Rightarrow> int option" where
  "concurrency_limit d tid =
     normalise_limit (case get_tenant d tid of None \<Rightarrow> None | Some t \<Rightarrow> t_max_concurrent_scans t)"

definition occupying :: "string \<Rightarrow> job \<Rightarrow> bool" where
  "occupying tid r = (j_tenant_id r = tid \<and> j_status r \<in> set OCCUPYING)"

definition lock_claims :: "bool \<Rightarrow> bool \<Rightarrow> bool" where
  "lock_claims wait lock_free = (wait \<or> lock_free)"

definition hold_slot :: "db \<Rightarrow> string \<Rightarrow> bool \<Rightarrow> bool \<Rightarrow> bool" where
  "hold_slot d tid wait lock_free =
     (case concurrency_limit d tid of None \<Rightarrow> True
      | Some limit \<Rightarrow>
          if \<not> lock_claims wait lock_free then False
          else int (count_rows (occupying tid) d) < limit)"

definition better :: "job \<Rightarrow> job \<Rightarrow> bool" where
  "better a row =
     (j_priority a > j_priority row
      \<or> (j_priority a = j_priority row \<and> j_queued_at a < j_queued_at row)
      \<or> (j_priority a = j_priority row \<and> j_queued_at a = j_queued_at row
         \<and> j_job_id a < j_job_id row))"

definition local_job_ahead :: "(job \<Rightarrow> admission) \<Rightarrow> db \<Rightarrow> job \<Rightarrow> bool" where
  "local_job_ahead cal d row =
     list_ex (\<lambda>c. adm_allowed (cal c))
       (claim_order (filter (\<lambda>c. j_execution c = ''local'' \<and> j_status c = QUEUED
           \<and> j_tenant_id c = j_tenant_id row \<and> j_owner_id c = j_owner_id row
           \<and> j_job_id c \<noteq> j_job_id row \<and> better c row) (jobs d)))"

section \<open>Lemmas\<close>

lemma set_OCCUPYING [state_simps]:
  "st \<in> set OCCUPYING \<longleftrightarrow> st = CLAIMED \<or> st = RUNNING \<or> st = CANCELLING"
  by (auto simp: OCCUPYING_def)

lemma better_claim_key: "better a b \<longleftrightarrow> claim_key a < claim_key b"
  by (auto simp: better_def claim_key_def)

lemma claim_order_mem [simp]: "set (claim_order rs) = set rs"
  by (simp add: claim_order_def)

lemma claim_order_sorted: "sorted (map claim_key (claim_order rs))"
  by (simp add: claim_order_def)

lemma normalise_limit_Some [simp]: "normalise_limit v = Some n \<longleftrightarrow> v = Some n \<and> 0 < n"
  by (auto simp: normalise_limit_def split: option.split)

lemma check_priority_Ok:
  "check_priority p may_raise cur own = Ok q \<longleftrightarrow>
     q = p \<and> PRIORITY_MIN \<le> p \<and> p \<le> PRIORITY_MAX
     \<and> (may_raise \<or> own \<and> p \<le> cur \<and> cur \<le> PRIORITY_DEFAULT)"
  by (auto simp: check_priority_def)

lemma hold_slot_room:
  "hold_slot d tid w l \<Longrightarrow> concurrency_limit d tid = Some lim \<Longrightarrow>
     int (count_rows (occupying tid) d) < lim"
  by (auto simp: hold_slot_def split: if_splits)

end
