(* ===== verification/Invocation.thy ===== *)
theory Invocation
  imports Py_Text
begin

text \<open>
  The scanner command line, \<^verbatim>\<open>agent/runtime/invocation.py\<close>: input files as flag/path pairs,
  the strict parser that inverts them, the reader of an accepted command that names the
  inputs a job needs, and \<open>ScanInvocation.argv\<close>. A \<^verbatim>\<open>Mapping\<close> of paths is an association
  list with distinct keys.
\<close>

definition INPUT_FLAGS :: "(string \<times> string) list" where
  "INPUT_FLAGS =
     [(''ranges.txt'', ''--ranges''), (''domains.txt'', ''--domains''),
      (''ports.txt'', ''--ports-file''), (''ports_udp.txt'', ''--ports-udp-file''),
      (''scan_scope.json'', ''--scan-scope''), (''scan_policy.json'', ''--scan-policy''),
      (''config_overlay.json'', ''--config-overlay''),
      (''promoted_domains.txt'', ''--promoted-domains'')]"

datatype invocation_error =
    UnsupportedInputs "string list"
  | RangesWithoutDomains
  | OddArguments
  | BadInputFlag string
  | MissingInputPath string
  | UnsupportedMode string

type_synonym input_paths = "(string \<times> string) list"

definition input_arguments :: "input_paths \<Rightarrow> invocation_error + string list" where
  "input_arguments paths =
     (let unknown = filter (\<lambda>n. n \<notin> set (map fst INPUT_FLAGS)) (map fst paths) in
      if unknown \<noteq> [] then Err (UnsupportedInputs unknown)
      else if (''ranges.txt'' \<in> set (map fst paths)) \<noteq> (''domains.txt'' \<in> set (map fst paths))
      then Err RangesWithoutDomains
      else Ok (concat (map (\<lambda>(name, flag).
                 case map_of paths name of None \<Rightarrow> [] | Some path \<Rightarrow> [flag, path]) INPUT_FLAGS)))"

definition reverse_flags :: "(string \<times> string) list" where
  "reverse_flags = map (\<lambda>(name, flag). (flag, name)) INPUT_FLAGS"

fun parse_pairs :: "string list \<Rightarrow> input_paths \<Rightarrow> invocation_error + input_paths" where
  "parse_pairs (flag # path # rest) acc =
     (case map_of reverse_flags flag of None \<Rightarrow> Err (BadInputFlag flag)
      | Some name \<Rightarrow>
          if name \<in> set (map fst acc) then Err (BadInputFlag flag)
          else parse_pairs rest (acc @ [(name, path)]))"
| "parse_pairs _ acc = Ok acc"

definition paths_from_arguments :: "string list \<Rightarrow> invocation_error + input_paths" where
  "paths_from_arguments arguments =
     (if odd (length arguments) then Err OddArguments
      else bindE (parse_pairs arguments []) (\<lambda>paths.
           bindE (input_arguments paths) (\<lambda>_. Ok paths)))"

definition scalar_flags :: "string list" where
  "scalar_flags = map fst reverse_flags @ [''--config'', ''--mode'', ''--run-id'']"

fun required_input_names :: "string list \<Rightarrow> invocation_error + string list" where
  "required_input_names [] = Ok []"
| "required_input_names [token] =
     (if map_of reverse_flags token \<noteq> None then Err (MissingInputPath token) else Ok [])"
| "required_input_names (token # value # rest) =
     (if token \<in> set scalar_flags then
        bindE (required_input_names rest) (\<lambda>more.
          Ok (case map_of reverse_flags token of None \<Rightarrow> more | Some name \<Rightarrow> name # more))
      else required_input_names (value # rest))"

record scan_invocation =
  inv_config :: string
  inv_mode :: string
  inv_run_id :: "string option"
  inv_delta :: bool
  inv_skip_nse :: bool
  inv_notify :: bool
  inv_export_defectdojo :: bool
  inv_inputs :: input_paths

definition switch :: "bool \<Rightarrow> string \<Rightarrow> string list" where
  "switch on flag = (if on then [flag] else [])"

definition argv :: "scan_invocation \<Rightarrow> string \<Rightarrow> invocation_error + string list" where
  "argv scan executable =
     (if inv_mode scan \<notin> {''safe'', ''balanced'', ''fast''} then Err (UnsupportedMode (inv_mode scan))
      else bindE (input_arguments (inv_inputs scan)) (\<lambda>inputs.
        Ok ([executable, ''-m'', ''scanner.main'', ''--config'', inv_config scan, ''--mode'', inv_mode scan]
            @ switch (inv_delta scan) ''--delta'' @ switch (inv_skip_nse scan) ''--skip-nse''
            @ switch (inv_notify scan) ''--notify''
            @ switch (inv_export_defectdojo scan) ''--export-defectdojo''
            @ (if truthy_text (inv_run_id scan) then [''--run-id'', the (inv_run_id scan)] else [])
            @ inputs)))"

section \<open>Lemmas\<close>

lemma reverse_flags_inverse:
  "(name, flag) \<in> set INPUT_FLAGS \<Longrightarrow> map_of reverse_flags flag = Some name"
  by (auto simp: INPUT_FLAGS_def reverse_flags_def)

lemma distinct_INPUT_FLAGS: "distinct (map fst INPUT_FLAGS)" "distinct (map snd INPUT_FLAGS)"
  by (simp_all add: INPUT_FLAGS_def)

text \<open>The arguments of a table of flags, in its order, and the paths in that order.\<close>

definition args_of :: "(string \<times> string) list \<Rightarrow> input_paths \<Rightarrow> string list" where
  "args_of tbl paths = concat (map (\<lambda>(name, flag).
     case map_of paths name of None \<Rightarrow> [] | Some path \<Rightarrow> [flag, path]) tbl)"

definition ordered_paths :: "(string \<times> string) list \<Rightarrow> input_paths \<Rightarrow> input_paths" where
  "ordered_paths tbl paths = concat (map (\<lambda>(name, flag).
     case map_of paths name of None \<Rightarrow> [] | Some path \<Rightarrow> [(name, path)]) tbl)"

lemma even_args_of: "even (length (args_of tbl paths))"
  by (induction tbl) (auto simp: args_of_def split: option.split)

lemma parse_args_of:
  "set tbl \<subseteq> set INPUT_FLAGS \<Longrightarrow> distinct (map fst tbl)
     \<Longrightarrow> fst ` set acc \<inter> fst ` set tbl = {}
     \<Longrightarrow> parse_pairs (args_of tbl paths) acc = Ok (acc @ ordered_paths tbl paths)"
proof (induction tbl arbitrary: acc)
  case Nil
  then show ?case by (simp add: args_of_def ordered_paths_def)
next
  case (Cons nf tbl)
  obtain name flag where nf: "nf = (name, flag)" by force
  have rev: "map_of reverse_flags flag = Some name"
    using Cons.prems(1) reverse_flags_inverse by (simp add: nf)
  show ?case
  proof (cases "map_of paths name")
    case None
    then have "args_of (nf # tbl) paths = args_of tbl paths"
      "ordered_paths (nf # tbl) paths = ordered_paths tbl paths"
      by (simp_all add: args_of_def ordered_paths_def nf)
    with Cons show ?thesis by auto
  next
    case (Some path)
    then have "args_of (nf # tbl) paths = flag # path # args_of tbl paths"
      "ordered_paths (nf # tbl) paths = (name, path) # ordered_paths tbl paths"
      by (simp_all add: args_of_def ordered_paths_def nf)
    moreover have "parse_pairs (args_of tbl paths) (acc @ [(name, path)])
        = Ok ((acc @ [(name, path)]) @ ordered_paths tbl paths)"
      using Cons.prems by (intro Cons.IH) (auto simp: nf)
    moreover have "name \<notin> fst ` set acc" using Cons.prems(3) by (auto simp: nf)
    ultimately show ?thesis by (simp add: rev)
  qed
qed

lemma ordered_paths_simps [simp]:
  "ordered_paths [] paths = []"
  "ordered_paths ((name, flag) # tbl) paths =
     (case map_of paths name of None \<Rightarrow> ordered_paths tbl paths
      | Some path \<Rightarrow> (name, path) # ordered_paths tbl paths)"
  by (simp_all add: ordered_paths_def split: option.split)

lemma map_of_ordered_paths:
  "map_of (ordered_paths tbl paths) n = (if n \<in> fst ` set tbl then map_of paths n else None)"
proof (induction tbl)
  case Nil
  then show ?case by simp
next
  case (Cons nf tbl)
  then show ?case by (cases nf) (auto split: option.split)
qed

lemma fst_ordered_paths:
  "fst ` set (ordered_paths tbl paths) = fst ` set tbl \<inter> fst ` set paths"
proof -
  have "n \<in> fst ` set (ordered_paths tbl paths) \<longleftrightarrow> n \<in> fst ` set tbl \<inter> fst ` set paths" for n
    using map_of_ordered_paths [of tbl paths n]
      map_of_eq_None_iff [of "ordered_paths tbl paths" n] map_of_eq_None_iff [of paths n]
    by (auto simp del: map_of_eq_None_iff split: if_splits)
  then show ?thesis by blast
qed

text \<open>
  The parser inverts the printer: the arguments of an accepted set of inputs parse back
  to the same paths.
\<close>

lemma input_arguments_args_of:
  "input_arguments paths = Ok args \<Longrightarrow> args = args_of INPUT_FLAGS paths"
  by (auto simp: input_arguments_def args_of_def Let_def split: if_splits)

lemma paths_from_input_arguments:
  assumes "input_arguments paths = Ok args"
  shows "paths_from_arguments args = Ok (ordered_paths INPUT_FLAGS paths)"
proof -
  have args: "args = args_of INPUT_FLAGS paths" using assms by (rule input_arguments_args_of)
  have known: "fst ` set paths \<subseteq> fst ` set INPUT_FLAGS"
    and pair: "(''ranges.txt'' \<in> fst ` set paths) = (''domains.txt'' \<in> fst ` set paths)"
    using assms by (auto simp: input_arguments_def Let_def filter_empty_conv split: if_splits)
  have names: "fst ` set (ordered_paths INPUT_FLAGS paths) = fst ` set paths"
    using known by (auto simp: fst_ordered_paths)
  have "\<exists>xs. input_arguments (ordered_paths INPUT_FLAGS paths) = Ok xs"
    using known pair names by (auto simp: input_arguments_def Let_def filter_empty_conv)
  then show ?thesis
    unfolding args paths_from_arguments_def
    using parse_args_of [of INPUT_FLAGS "[]" paths] distinct_INPUT_FLAGS(1) even_args_of
    by auto
qed

text \<open>Reading the required files off a command line, token by token.\<close>

lemma map_of_reverse_None: "t \<notin> set scalar_flags \<Longrightarrow> map_of reverse_flags t = None"
  by (auto simp: scalar_flags_def map_of_eq_None_iff)

lemma required_switch: "t \<notin> set scalar_flags \<Longrightarrow> required_input_names (t # rest) = required_input_names rest"
  by (cases rest) (simp_all add: map_of_reverse_None)

lemma bindE_Ok_right: "bindE r Ok = r"
  by (cases r) simp_all

lemma required_option:
  "t \<in> set scalar_flags \<Longrightarrow> map_of reverse_flags t = None \<Longrightarrow>
     required_input_names (t # v # rest) = required_input_names rest"
  by (cases "required_input_names rest") simp_all

lemma required_input:
  "map_of reverse_flags t = Some name \<Longrightarrow>
     required_input_names (t # v # rest) = bindE (required_input_names rest) (\<lambda>xs. Ok (name # xs))"
  by (force simp: scalar_flags_def dest: map_of_SomeD)

lemma required_args_of:
  assumes "set tbl \<subseteq> set INPUT_FLAGS" and "required_input_names rest = Ok later"
  shows "\<exists>names. required_input_names (args_of tbl paths @ rest) = Ok names
    \<and> set names = fst ` set tbl \<inter> fst ` set paths \<union> set later"
  using assms(1)
proof (induction tbl)
  case Nil
  then show ?case using assms(2) by (simp add: args_of_def)
next
  case (Cons nf tbl)
  obtain name flag where nf: "nf = (name, flag)" by force
  have rev: "map_of reverse_flags flag = Some name"
    using Cons.prems reverse_flags_inverse by (simp add: nf)
  obtain names where names: "required_input_names (args_of tbl paths @ rest) = Ok names"
    "set names = fst ` set tbl \<inter> fst ` set paths \<union> set later"
    using Cons by auto
  show ?case
  proof (cases "map_of paths name")
    case None
    then have "args_of (nf # tbl) paths = args_of tbl paths" by (simp add: args_of_def nf)
    moreover have "name \<notin> fst ` set paths" using None by (simp add: map_of_eq_None_iff)
    ultimately show ?thesis using names by (auto simp: nf)
  next
    case (Some path)
    then have "args_of (nf # tbl) paths @ rest = flag # path # (args_of tbl paths @ rest)"
      by (simp add: args_of_def nf)
    then have "required_input_names (args_of (nf # tbl) paths @ rest) = Ok (name # names)"
      using required_input [OF rev, of path "args_of tbl paths @ rest"] names(1) by simp
    moreover have "name \<in> fst ` set paths" using map_of_SomeD [OF Some] by force
    ultimately show ?thesis using names(2) by (intro exI [of _ "name # names"]) (auto simp: nf)
  qed
qed

lemma switch_flags:
  "''--delta'' \<notin> set scalar_flags" "''--skip-nse'' \<notin> set scalar_flags" "''--notify'' \<notin> set scalar_flags"
  "''--export-defectdojo'' \<notin> set scalar_flags" "''-m'' \<notin> set scalar_flags" "''scanner.main'' \<notin> set scalar_flags"
  by (simp_all add: scalar_flags_def reverse_flags_def INPUT_FLAGS_def)

lemma option_flags:
  "f \<in> {''--config'', ''--mode'', ''--run-id''} \<Longrightarrow> f \<in> set scalar_flags \<and> map_of reverse_flags f = None"
  by (auto simp: scalar_flags_def reverse_flags_def INPUT_FLAGS_def)

lemma required_switches:
  "set ts \<inter> set scalar_flags = {} \<Longrightarrow> required_input_names (ts @ rest) = required_input_names rest"
  by (induction ts) (auto simp: required_switch)

lemma argv_OkE:
  assumes "argv scan executable = Ok cmd"
  obtains args sw where "input_arguments (inv_inputs scan) = Ok args" "set sw \<inter> set scalar_flags = {}"
    "cmd = [executable, ''-m'', ''scanner.main'', ''--config'', inv_config scan, ''--mode'', inv_mode scan] @ sw
       @ (if truthy_text (inv_run_id scan) then [''--run-id'', the (inv_run_id scan)] else []) @ args"
proof -
  obtain args where args: "input_arguments (inv_inputs scan) = Ok args"
    using assms by (auto simp: argv_def bindE_Ok_iff split: if_splits)
  let ?sw = "switch (inv_delta scan) ''--delta'' @ switch (inv_skip_nse scan) ''--skip-nse''
      @ switch (inv_notify scan) ''--notify'' @ switch (inv_export_defectdojo scan) ''--export-defectdojo''"
  have "set ?sw \<inter> set scalar_flags = {}" using switch_flags by (auto simp: switch_def)
  then show ?thesis using that [OF args, of ?sw] args assms by (simp add: argv_def split: if_splits)
qed

text \<open>The files a scanner command needs are the inputs it was built from, whatever follows it.\<close>

lemma argv_required:
  assumes "argv scan executable = Ok cmd" and "executable \<notin> set scalar_flags"
    and "required_input_names rest = Ok later"
  shows "\<exists>names. required_input_names (cmd @ rest) = Ok names
    \<and> set names = fst ` set (inv_inputs scan) \<union> set later"
  using assms(1)
proof (cases rule: argv_OkE)
  case (1 args sw)
  have known: "fst ` set (inv_inputs scan) \<subseteq> fst ` set INPUT_FLAGS"
    using 1(1) by (auto simp: input_arguments_def Let_def filter_empty_conv split: if_splits)
  obtain names where names: "required_input_names (args @ rest) = Ok names"
    "set names = fst ` set INPUT_FLAGS \<inter> fst ` set (inv_inputs scan) \<union> set later"
    using required_args_of [OF subset_refl assms(3)] input_arguments_args_of [OF 1(1)] by blast
  have "required_input_names (cmd @ rest) = required_input_names (args @ rest)"
    unfolding 1(3) using assms(2) switch_flags option_flags required_switches [OF 1(2)]
    by (simp add: required_switch required_option bindE_Ok_right)
  with names known show ?thesis by auto
qed

end
