(* ===== verification/Job_Control.thy ===== *)
theory Job_Control
  imports Scan_Queue Invocation
begin

text \<open>
  Agent-side job control, \<^verbatim>\<open>api/services/job_control.py\<close>: holding queued jobs to a newer
  policy, the claim, the heartbeat and the operator's stop; with the calendar gate of
  \<^verbatim>\<open>queued_maintenance.py\<close> and \<open>touch_job\<close> of \<^verbatim>\<open>agents.py\<close>.

  Arguments that stand for what is outside the job table: \<open>cal\<close> the maintenance
  calendar's answer for a row at this moment, \<open>store\<close> the input files of a job
  (\<open>None\<close> when they cannot be fetched), \<open>locked\<close> the job ids another transaction holds
  (the rows \<^verbatim>\<open>SKIP LOCKED\<close> passes over), \<open>minted\<close> a fresh run id, \<open>policy_path\<close> the path of a
  job's policy document. Writing input files is not modelled.
\<close>

section \<open>The calendar gate\<close>

definition set_wait :: "admission option \<Rightarrow> job \<Rightarrow> job" where
  "set_wait w row = row\<lparr>j_scan_options := (j_scan_options row)\<lparr>so_maintenance_wait := w\<rparr>\<rparr>"

definition admitted :: "(job \<Rightarrow> admission) \<Rightarrow> db \<Rightarrow> job \<Rightarrow> bool \<times> db \<times> job" where
  "admitted cal d row =
     (let adm = cal row; previous = so_maintenance_wait (j_scan_options row) in
      if adm_allowed adm then
        (let row1 = (if previous \<noteq> None then set_wait None row else row)
         in (True, put_row d row1, row1))
      else if previous \<noteq> Some adm then
        (let row1 = set_wait (Some adm) row
         in (False, audit (put_row d row1)
                      (MaintenanceBlock (j_job_id row)
                         (if j_requested_by row \<noteq> [] then j_requested_by row else ''system'') adm), row1))
      else (False, d, row))"

section \<open>A policy written after a job was queued\<close>

definition hold_command :: "string \<Rightarrow> bool \<Rightarrow> string list \<Rightarrow> string list" where
  "hold_command path skip command =
     (let c1 = (if ''--scan-policy'' \<in> set command then command
                else command @ [''--scan-policy'', path])
      in if skip \<and> ''--skip-nse'' \<notin> set c1 then c1 @ [''--skip-nse''] else c1)"

definition hold_row ::
  "(resolved_policy \<Rightarrow> string) \<Rightarrow> (string \<Rightarrow> string) \<Rightarrow> resolved_policy \<Rightarrow> job \<Rightarrow> job option" where
  "hold_row digest policy_path resolved row =
     (let frozen = so_scan_policy (j_scan_options row);
          merged = snapshot digest (tighten (map_option fst frozen) (Some resolved))
      in case merged of None \<Rightarrow> None
         | Some m \<Rightarrow>
             if merged = frozen then None
             else Some (row\<lparr>
               j_scan_options := (j_scan_options row)\<lparr>so_scan_policy := Some m,
                  so_skip_nse := (skip_service_probe (fst m) \<or> so_skip_nse (j_scan_options row))\<rparr>,
               j_command := hold_command (policy_path (j_job_id row))
                              (skip_service_probe (fst m)) (j_command row)\<rparr>))"

definition apply_policy_to_queued ::
  "(resolved_policy \<Rightarrow> string) \<Rightarrow> (string \<Rightarrow> string) \<Rightarrow> db \<Rightarrow> string \<Rightarrow> resolved_policy option
     \<Rightarrow> nat \<times> db" where
  "apply_policy_to_queued digest policy_path d tid resolved =
     (case resolved of None \<Rightarrow> (0, d)
      | Some r \<Rightarrow>
          let rows = filter (\<lambda>row. j_tenant_id row = tid \<and> j_status row = QUEUED) (jobs d);
              held = List.map_filter (hold_row digest policy_path r) rows
          in (length held, put_rows d held))"

section \<open>The claim\<close>

record claim_response =
  cl_job_id :: string
  cl_run_id :: "string option"
  cl_mode :: string
  cl_delta :: bool
  cl_skip_nse :: bool
  cl_notify :: bool
  cl_export_defectdojo :: bool
  cl_inputs :: "(string \<times> string) list"
  cl_tenant_id :: string
  cl_attempt :: int

type_synonym input_store = "string \<Rightarrow> (string \<times> string) list option"

definition read_job_inputs ::
  "input_store \<Rightarrow> string \<Rightarrow> string list \<Rightarrow> service_error + (string \<times> string) list" where
  "read_job_inputs store jid required =
     (case store jid of None \<Rightarrow> Err (InputsUnavailable jid)
      | Some out \<Rightarrow>
          if set required \<subseteq> set (map fst out) then Ok out else Err (InputsUnavailable jid))"

lemma read_job_inputs_Ok: "read_job_inputs store jid required = Ok out \<Longrightarrow> set required \<subseteq> fst ` set out"
  by (simp add: read_job_inputs_def split: option.splits if_splits)

text \<open>
  The SQL predicates of the claim. \<open>overlay_needed\<close> is the \<^verbatim>\<open>coalesce\<close> of the statement;
  it differs from \<open>overlay_capability\<close> on an empty document and on an empty string.
\<close>

definition overlay_needed :: "scan_options \<Rightarrow> string" where
  "overlay_needed options = or_else (so_config_overlay_capability options) OVERLAY_BASE_CAPABILITY"

definition runnable :: "string list \<Rightarrow> job \<Rightarrow> bool" where
  "runnable capabilities row =
     ((so_config_overlay (j_scan_options row) = None
       \<or> overlay_needed (j_scan_options row) \<in> set capabilities)
      \<and> (AGENT_CAPABILITY \<in> set capabilities \<or> so_scan_policy (j_scan_options row) = None))"

definition blocked :: "string list \<Rightarrow> job \<Rightarrow> bool" where
  "blocked capabilities row =
     ((so_config_overlay (j_scan_options row) \<noteq> None
       \<and> overlay_needed (j_scan_options row) \<notin> set capabilities)
      \<or> (AGENT_CAPABILITY \<notin> set capabilities \<and> so_scan_policy (j_scan_options row) \<noteq> None))"

definition group_reach :: "agent \<Rightarrow> job \<Rightarrow> bool" where
  "group_reach ag row =
     (if \<not> truthy_text (a_agent_group ag) then j_agent_group row = None
      else j_agent_group row = None \<or> j_agent_group row = a_agent_group ag)"

definition eligible :: "agent \<Rightarrow> string \<Rightarrow> string option \<Rightarrow> job \<Rightarrow> bool" where
  "eligible ag tid named row =
     (j_execution row = ''agent'' \<and> j_status row = QUEUED \<and> j_assigned_agent_id row = None
      \<and> j_tenant_id row = tid \<and> group_reach ag row
      \<and> (truthy_text named \<longrightarrow> Some (j_job_id row) = named))"

fun next_admitted ::
  "(job \<Rightarrow> admission) \<Rightarrow> input_store \<Rightarrow> bool \<Rightarrow> db \<Rightarrow> job list \<Rightarrow>
   service_error + (db \<times> (job \<times> (string \<times> string) list) option)" where
  "next_admitted cal store named d [] = Ok (d, None)"
| "next_admitted cal store named d (cand # cands) =
     (case admitted cal d cand of (allowed, d1, row1) \<Rightarrow>
        if \<not> allowed then next_admitted cal store named d1 cands
        else case required_input_names (j_command cand) of
               Inl e \<Rightarrow> Err (BadCommand (j_job_id cand))
             | Inr required \<Rightarrow>
                 (case read_job_inputs store (j_job_id cand) required of
                    Inr inputs \<Rightarrow> Ok (d1, Some (row1, inputs))
                  | Inl e \<Rightarrow> if named then Err e else next_admitted cal store named d1 cands))"

text \<open>\<open>touch_job\<close>: one UPDATE of the agent's row.\<close>

definition touch_agent :: "settings \<Rightarrow> time \<Rightarrow> string option \<Rightarrow> string \<Rightarrow> agent \<Rightarrow> agent" where
  "touch_agent s now jid st ag =
     ag\<lparr>a_last_seen_at := Some now,
        a_healthy_since :=
          (case (a_healthy_since ag, a_last_seen_at ag) of
             (Some h, Some seen) \<Rightarrow>
               if seen < now - seconds (agent_stale_seconds s) then Some now else Some h
           | _ \<Rightarrow> Some now),
        a_current_job_id := jid,
        a_status := (if truthy_text jid then st else ''idle'')\<rparr>"

definition touch_job :: "settings \<Rightarrow> time \<Rightarrow> db \<Rightarrow> string \<Rightarrow> string option \<Rightarrow> string \<Rightarrow> db" where
  "touch_job s now d agent_id jid st =
     d\<lparr>agents := map (\<lambda>ag. if a_agent_id ag = agent_id then touch_agent s now jid st ag else ag)
                  (agents d)\<rparr>"

text \<open>The two refusals after a row was selected, then the hand-out.\<close>

definition claim_refusal :: "agent \<Rightarrow> job \<Rightarrow> service_error + unit" where
  "claim_refusal ag row =
     (if so_scan_policy (j_scan_options row) \<noteq> None \<and> AGENT_CAPABILITY \<notin> set (a_capabilities ag)
      then Err (AgentPolicyUnsupported (a_agent_id ag))
      else case overlay_capability (j_scan_options row) of None \<Rightarrow> Ok ()
           | Some needed \<Rightarrow>
               if needed \<noteq> [] \<and> needed \<notin> set (a_capabilities ag)
               then Err (AgentOverlayUnsupported needed) else Ok ())"

definition hand_out :: "settings \<Rightarrow> time \<Rightarrow> string \<Rightarrow> string \<Rightarrow> job \<Rightarrow> service_error + job" where
  "hand_out s now minted agent_id row =
     bindE (lift_err Transition (check_transition (j_job_id row) (j_status row) CLAIMED)) (\<lambda>_.
       Ok (row\<lparr>j_status := CLAIMED, j_assigned_agent_id := Some agent_id, j_started_at := None,
               j_claimed_until := Some (lease_deadline s now), j_attempts := j_attempts row + 1,
               j_run_id := (if truthy_text (j_run_id row) then j_run_id row else Some minted)\<rparr>))"

definition claim_of :: "job \<Rightarrow> (string \<times> string) list \<Rightarrow> claim_response" where
  "claim_of row inputs =
     (let opts = j_scan_options row in
      \<lparr>cl_job_id = j_job_id row, cl_run_id = j_run_id row,
       cl_mode = (if j_mode row \<noteq> [] then j_mode row else or_text (so_mode opts) ''balanced''),
       cl_delta = so_delta opts, cl_skip_nse = so_skip_nse opts, cl_notify = so_notify opts,
       cl_export_defectdojo = so_export_defectdojo opts, cl_inputs = inputs,
       cl_tenant_id = job_tenant row, cl_attempt = j_attempts row\<rparr>)"

definition candidates ::
  "string list \<Rightarrow> agent \<Rightarrow> string \<Rightarrow> string option \<Rightarrow> (job \<Rightarrow> bool) \<Rightarrow> db \<Rightarrow> job list" where
  "candidates locked ag tid named P d =
     claim_order (filter (\<lambda>row. eligible ag tid named row \<and> P row \<and> j_job_id row \<notin> set locked)
                    (jobs d))"

definition claim_job ::
  "settings \<Rightarrow> time \<Rightarrow> (job \<Rightarrow> admission) \<Rightarrow> input_store \<Rightarrow> string list \<Rightarrow> string \<Rightarrow> db \<Rightarrow>
   string \<Rightarrow> string option \<Rightarrow> string option \<Rightarrow> service_error + (db \<times> claim_response option)" where
  "claim_job s now cal store locked minted d agent_id named tid_arg =
     (case row_get a_agent_id (agents d) agent_id of None \<Rightarrow> Err UnknownAgent
      | Some ag \<Rightarrow>
          let tid = or_text tid_arg (a_tenant_id ag); caps = a_capabilities ag in
          if \<not> hold_slot d tid True True then Ok (d, None)
          else
            bindE (next_admitted cal store (truthy_text named) d
                     (candidates locked ag tid named (runnable caps) d)) (\<lambda>(d1, found).
            bindE (case found of Some x \<Rightarrow> Ok (d1, Some x)
                   | None \<Rightarrow> next_admitted cal store (truthy_text named) d1
                       (candidates locked ag tid named (blocked caps) d1)) (\<lambda>(d2, found2).
              case found2 of None \<Rightarrow> Ok (d2, None)
              | Some (row, inputs) \<Rightarrow>
                  bindE (claim_refusal ag row) (\<lambda>_.
                  bindE (hand_out s now minted agent_id row) (\<lambda>row1.
                    Ok (touch_job s now (put_row d2 row1) agent_id (Some (j_job_id row1)) ''busy'',
                        Some (claim_of row1 inputs)))))))"

section \<open>Heartbeat and stop\<close>

definition mark_running :: "settings \<Rightarrow> time \<Rightarrow> db \<Rightarrow> string \<Rightarrow> string \<Rightarrow> bool \<times> db" where
  "mark_running s now d jid agent_id =
     (case get_row d jid of None \<Rightarrow> (False, d)
      | Some row \<Rightarrow>
          if j_assigned_agent_id row \<noteq> Some agent_id then (False, d)
          else if j_status row = CANCELLING then (True, d)
          else if j_status row \<notin> set IN_FLIGHT then (False, d)
          else let row1 = extend_lease row (lease_deadline s now) in
            if j_status row1 \<noteq> CLAIMED then (False, put_row d row1)
            else (False, put_row d (row1\<lparr>j_status := RUNNING,
                    j_started_at := (if j_started_at row1 = None then Some now
                                     else j_started_at row1)\<rparr>)))"

definition stop_requested :: "db \<Rightarrow> string \<Rightarrow> string \<Rightarrow> string \<Rightarrow> bool" where
  "stop_requested d jid agent_id tid =
     (case get_row d jid of None \<Rightarrow> False
      | Some row \<Rightarrow> j_assigned_agent_id row = Some agent_id \<and> j_tenant_id row = tid
                    \<and> j_status row = CANCELLING)"

definition stalled_ingest :: "settings \<Rightarrow> time \<Rightarrow> job \<Rightarrow> bool" where
  "stalled_ingest s now row =
     (case j_ingest_started_at row of None \<Rightarrow> False | Some t \<Rightarrow> now - t > ingest_window s)"

definition cancel_row :: "time \<Rightarrow> string \<Rightarrow> string \<Rightarrow> job \<Rightarrow> job" where
  "cancel_row now username target row =
     (if target = CANCELLING
      then row\<lparr>j_status := target, j_cancel_requested_at := Some now, j_claimed_until := None,
               j_error := Some (take 2000 (''Cancellation requested by '' @ username))\<rparr>
      else row\<lparr>j_status := target, j_finished_at := Some now, j_claimed_until := None,
               j_error := Some (take 2000 (''Cancelled by '' @ username))\<rparr>)"

definition cancel_job ::
  "settings \<Rightarrow> time \<Rightarrow> db \<Rightarrow> string \<Rightarrow> string \<Rightarrow> string option \<Rightarrow> service_error + (db \<times> job)" where
  "cancel_job s now d jid username tid =
     (case get_row d jid of None \<Rightarrow> Err JobNotFound
      | Some row \<Rightarrow>
          if tid \<noteq> None \<and> Some (job_tenant row) \<noteq> tid then Err CrossTenant
          else let before = j_status row in
          if before = CANCELLING then
            (if stalled_ingest s now row then
               (let row1 = clear_ingest row
                in Ok (audit (put_row d row1) (CancelIngestDropped jid (job_tenant row) username), row1))
             else Ok (d, row))
          else if before \<in> set IN_FLIGHT \<and> j_execution row \<noteq> ''agent'' then Err (LocalScanRunning before)
          else let target = (if before \<in> set IN_FLIGHT then CANCELLING else CANCELLED) in
            bindE (lift_err Transition (check_transition jid before target)) (\<lambda>_.
              let row1 = cancel_row now username target row in
              Ok (audit (put_row d row1) (ScanCancel jid before target username), row1)))"

end
