(* ===== verification/Job_Results.thy ===== *)
theory Job_Results
  imports Job_Control
begin

text \<open>
  Result ingestion, \<^verbatim>\<open>api/services/job_results.py\<close>, with \<^verbatim>\<open>run_ids.confirm\<close>,
  \<^verbatim>\<open>scanner/pipeline/run_ids.validate\<close> and \<^verbatim>\<open>run_publisher.new_publication\<close>.

  \<open>complete_job\<close> is two transactions with an ingest between them that runs outside any:
  \<open>open_upload\<close> checks the upload against the locked row and takes the ingest lease,
  \<open>finish_upload\<close> does what the code does with the archive's verdict: the fenced terminal
  write, or the clean-up of the exception handler. \<open>complete_job\<close> composes them around an
  arbitrary interference \<open>others\<close>, the writes other transactions commit meanwhile. The
  verdict (signature, schema and extraction of the archive, \<^verbatim>\<open>result_integrity\<close> and
  \<^verbatim>\<open>results_ingest\<close>) is an argument. Publishing the run is \<open>Pub_Model\<close>.
\<close>

section \<open>Run ids\<close>

definition run_id_char :: "char \<Rightarrow> bool" where
  "run_id_char c = (let n = ord_of c in
     48 \<le> n \<and> n \<le> 57 \<or> 65 \<le> n \<and> n \<le> 90 \<or> 97 \<le> n \<and> n \<le> 122)"

definition valid_run_id :: "string \<Rightarrow> bool" where
  "valid_run_id v =
     (case v of [] \<Rightarrow> False
      | c # cs \<Rightarrow> run_id_char c \<and> length cs \<le> 63
          \<and> list_all (\<lambda>x. run_id_char x \<or> x = CHR ''_'' \<or> x = CHR ''-'') cs)"

definition confirm :: "string option \<Rightarrow> string option \<Rightarrow> service_error + string option" where
  "confirm expected offered =
     (if truthy_text expected \<and> truthy_text offered \<and> offered \<noteq> expected then Err RunIdMismatch
      else let resolved = (if truthy_text expected then expected else offered) in
        if truthy_text resolved \<and> \<not> valid_run_id (the resolved) then Err RunIdInvalid
        else Ok resolved)"

section \<open>Pieces of the upload protocol\<close>

definition LATE_ARCHIVE_RESERVATION :: string where
  "LATE_ARCHIVE_RESERVATION = ''late-archive:unkeyed''"

definition release_results_reservation :: "db \<Rightarrow> string \<Rightarrow> string \<Rightarrow> bool \<Rightarrow> db" where
  "release_results_reservation d jid key late =
     (case get_row d jid of None \<Rightarrow> d
      | Some row \<Rightarrow>
          if (late \<or> j_status row \<notin> set TERMINAL) \<and> j_results_idempotency_key row = Some key
          then put_row d (row\<lparr>j_results_idempotency_key := None\<rparr>) else d)"

definition accepts_late_archive :: "settings \<Rightarrow> time \<Rightarrow> job \<Rightarrow> bool \<Rightarrow> bool \<Rightarrow> bool" where
  "accepts_late_archive s now row cancelled has_archive =
     (if \<not> (cancelled \<and> has_archive) then False
      else if j_status row \<noteq> CANCELLED \<or> j_cancel_requested_at row = None then False
      else if j_exit_code row \<noteq> None \<or> j_results_idempotency_key row \<noteq> None then False
      else case j_finished_at row of None \<Rightarrow> False
           | Some t \<Rightarrow> now - t \<le> seconds (max (job_cancel_grace_seconds s) 1))"

fun has_text :: "string \<Rightarrow> string \<Rightarrow> bool" where
  "has_text note [] = (note = [])"
| "has_text note (c # cs) = (startswith (c # cs) note \<or> has_text note cs)"

definition late_note :: "string \<Rightarrow> string" where
  "late_note agent_id = ''; partial results uploaded late by agent '' @ agent_id"

definition record_late_cancellation_archive ::
  "db \<Rightarrow> string \<Rightarrow> string \<Rightarrow> string option \<Rightarrow> ingest_lease \<Rightarrow> publication option \<Rightarrow> service_error + db" where
  "record_late_cancellation_archive d jid agent_id rid fence publication =
     (case get_row d jid of None \<Rightarrow> Ok d
      | Some row \<Rightarrow>
          bindE (lift_err Stale (check_ingest_fence row fence)) (\<lambda>_.
            let row1 = clear_ingest row;
                row2 = (if truthy_text rid \<and> \<not> truthy_text (j_run_id row1)
                        then row1\<lparr>j_run_id := rid\<rparr> else row1);
                err = or_text (j_error row2) [];
                row3 = (if has_text (late_note agent_id) err then row2
                        else row2\<lparr>j_error := Some (take 2000 (err @ late_note agent_id))\<rparr>)
            in Ok (add_publication (put_row d row3) publication)))"

text \<open>\<open>_classify_replay\<close>: \<open>Ok True\<close> is a replay, \<open>Ok False\<close> is "not a replay question".\<close>

definition classify_replay :: "job \<Rightarrow> int \<Rightarrow> string option \<Rightarrow> service_error + bool" where
  "classify_replay row exit_code key =
     (if j_status row = CANCELLED then
        Ok (truthy_text key \<and> j_results_idempotency_key row = key)
      else if truthy_text key then
        (if j_results_idempotency_key row = key then Ok True
         else if truthy_text (j_results_idempotency_key row) then Err (ResultsConflict (j_job_id row))
         else Ok False)
      else Ok (j_exit_code row = Some exit_code))"

definition merge_cancellation_reason :: "string option \<Rightarrow> string option \<Rightarrow> string option" where
  "merge_cancellation_reason requested reported =
     (let parts = map the (filter truthy_text [requested, reported]);
          merged = take 2000 (join_with ''; '' parts)
      in if merged = [] then None else Some merged)"

definition new_publication ::
  "settings \<Rightarrow> time \<Rightarrow> string \<Rightarrow> string \<Rightarrow> string \<Rightarrow> string \<Rightarrow> string \<Rightarrow> string \<Rightarrow> int \<Rightarrow>
   string option \<Rightarrow> string option \<Rightarrow> string \<Rightarrow> publication" where
  "new_publication s now pid jid rid tid st agent_id exit_code err surface staging =
     \<lparr>pub_id = pid, pub_tenant_id = tid, pub_job_id = jid, pub_run_id = rid, pub_agent_id = agent_id,
      pub_job_status = st, pub_risk_assessment = (st = ''succeeded''), pub_exit_code = exit_code,
      pub_scan_error = err, pub_surface = surface, pub_staging_path = staging,
      pub_replica = instance_id s, pub_status = ''pending'', pub_next_attempt_at = now,
      pub_created_at = now\<rparr>"

section \<open>The first transaction\<close>

record upload =
  up_job_id :: string
  up_agent_id :: string
  up_exit_code :: int
  up_error :: "string option"
  up_run_id :: "string option"
  up_archive :: "string option"
  up_tenant_id :: "string option"
  up_idempotency_key :: "string option"
  up_attempt :: "int option"
  up_cancelled :: bool

record opened =
  op_fence :: ingest_lease
  op_status :: string
  op_late :: bool
  op_run_id :: "string option"
  op_requested_reason :: "string option"
  op_surface :: "string option"
  op_tenant :: string

datatype upload_answer = Replayed job_info | Opened opened

definition check_uploader :: "job \<Rightarrow> upload \<Rightarrow> service_error + unit" where
  "check_uploader row u =
     (if j_execution row \<noteq> ''agent'' then Err NotAgentJob
      else if j_assigned_agent_id row \<noteq> Some (up_agent_id u) then Err AssignedElsewhere
      else if up_tenant_id u \<noteq> None \<and> up_tenant_id u \<noteq> Some (job_tenant row) then Err CrossTenant
      else if up_attempt u \<noteq> None \<and> up_attempt u \<noteq> Some (j_attempts row)
      then Err (AttemptMismatch (the (up_attempt u)) (j_attempts row))
      else Ok ())"

definition upload_status :: "job \<Rightarrow> upload \<Rightarrow> string" where
  "upload_status row u =
     (let st = (if up_exit_code u = 0 then SUCCEEDED else FAILED) in
      if up_cancelled u
      then (if j_status row \<in> {CANCELLING, CANCELLED} then CANCELLED else st) else st)"

datatype reservation = IsReplay | LateArchive job | Proceed job

definition reserve :: "settings \<Rightarrow> time \<Rightarrow> job \<Rightarrow> upload \<Rightarrow> service_error + reservation" where
  "reserve s now row u =
     (let key = up_idempotency_key u in
      if j_status row \<in> set TERMINAL then
        bindE (classify_replay row (up_exit_code u) key) (\<lambda>replay.
          Ok (if replay then IsReplay
              else if accepts_late_archive s now row (up_cancelled u) (truthy_text (up_archive u))
              then LateArchive (row\<lparr>j_results_idempotency_key :=
                                   Some (or_text key LATE_ARCHIVE_RESERVATION)\<rparr>)
              else Proceed row))
      else if truthy_text key then
        (if j_results_idempotency_key row = key then Err (ResultsInFlight (j_job_id row))
         else Ok (Proceed (row\<lparr>j_results_idempotency_key := key\<rparr>)))
      else Ok (Proceed row))"

definition opened_of :: "job \<Rightarrow> upload \<Rightarrow> bool \<Rightarrow> string option \<Rightarrow> ingest_lease \<Rightarrow> opened" where
  "opened_of row u late rid fence =
     \<lparr>op_fence = fence, op_status = upload_status row u, op_late = late, op_run_id = rid,
      op_requested_reason = (if upload_status row u = CANCELLED then j_error row else None),
      op_surface = so_surface (j_scan_options row), op_tenant = job_tenant row\<rparr>"

definition open_upload ::
  "settings \<Rightarrow> time \<Rightarrow> string \<Rightarrow> db \<Rightarrow> upload \<Rightarrow> service_error + (db \<times> upload_answer)" where
  "open_upload s now token d u =
     (case get_row d (up_job_id u) of None \<Rightarrow> Err JobNotFound
      | Some row \<Rightarrow>
          bindE (check_uploader row u) (\<lambda>_.
          bindE (reserve s now row u) (\<lambda>res.
          bindE (case res of
                   Proceed _ \<Rightarrow> lift_err Transition
                     (check_transition (up_job_id u) (j_status row) (upload_status row u))
                 | _ \<Rightarrow> Ok ()) (\<lambda>_.
          bindE (confirm (j_run_id row) (up_run_id u)) (\<lambda>rid.
            case res of
              IsReplay \<Rightarrow> Ok (d, Replayed (to_info row None None))
            | LateArchive row1 \<Rightarrow>
                (case open_ingest_lease s now token row1 (up_agent_id u) of (row2, fence) \<Rightarrow>
                   Ok (put_row d row2, Opened (opened_of row u True rid fence)))
            | Proceed row1 \<Rightarrow>
                (case open_ingest_lease s now token row1 (up_agent_id u) of (row2, fence) \<Rightarrow>
                   Ok (put_row d row2, Opened (opened_of row u False rid fence))))))))"

section \<open>The ingest's outcome\<close>

datatype verdict = Accepted string | Rejected string string | BadArchive string

definition fail_rejected_upload ::
  "time \<Rightarrow> db \<Rightarrow> upload \<Rightarrow> opened \<Rightarrow> string \<Rightarrow> string \<Rightarrow> service_error + db" where
  "fail_rejected_upload now d u op code reason =
     update_job d (up_job_id u) (Some (op_fence op)) None
       (no_fields\<lparr>f_status := Some (if op_status op = SUCCEEDED then FAILED else op_status op),
          f_finished_at := Some (Some now),
          f_exit_code := Some (Some (if up_exit_code u \<noteq> 0 then up_exit_code u else 1)),
          f_run_id := Some (op_run_id op),
          f_error := Some (merge_cancellation_reason (op_requested_reason op)
             (Some (''results rejected ('' @ code @ ''): '' @ reason))),
          f_results_idempotency_key :=
            Some (if truthy_text (up_idempotency_key u) then up_idempotency_key u else None)\<rparr>)"

definition outcome_fields :: "time \<Rightarrow> upload \<Rightarrow> opened \<Rightarrow> job_fields" where
  "outcome_fields now u op =
     no_fields\<lparr>f_status := Some (op_status op), f_finished_at := Some (Some now),
       f_exit_code := Some (Some (up_exit_code u)),
       f_run_id := Some (if truthy_text (op_run_id op) then op_run_id op else None),
       f_error := Some (merge_cancellation_reason (op_requested_reason op) (up_error u)),
       f_results_idempotency_key :=
         Some (if truthy_text (up_idempotency_key u) then up_idempotency_key u else None)\<rparr>"

definition write_outcome ::
  "time \<Rightarrow> db \<Rightarrow> upload \<Rightarrow> opened \<Rightarrow> publication option \<Rightarrow> service_error + db" where
  "write_outcome now d u op publication =
     (if op_late op then
        record_late_cancellation_archive d (up_job_id u) (up_agent_id u)
          (if truthy_text (op_run_id op) then op_run_id op else None) (op_fence op) publication
      else update_job d (up_job_id u) (Some (op_fence op)) publication (outcome_fields now u op))"

text \<open>The body of the \<^verbatim>\<open>try\<close>: the database it leaves and what it raised, if anything.\<close>

definition try_outcome ::
  "settings \<Rightarrow> time \<Rightarrow> verdict \<Rightarrow> db \<Rightarrow> upload \<Rightarrow> opened \<Rightarrow> db \<times> service_error option" where
  "try_outcome s now v d u op =
     (let attempt_write = (\<lambda>d1 p. case write_outcome now d1 u op p of
                              Inl e \<Rightarrow> (d1, Some e) | Inr d2 \<Rightarrow> (d2, None)) in
      if \<not> truthy_text (up_archive u) then attempt_write d None
      else if \<not> truthy_text (op_run_id op) then (d, Some RunIdRequired)
      else case v of
        Rejected code reason \<Rightarrow>
          (let d1 = audit d (ResultsRejectedAudit (up_job_id u) (up_agent_id u) code (op_late op)) in
           if op_late op then (d1, Some (ResultsRejected code reason))
           else (case fail_rejected_upload now d1 u op code reason of
                   Inl e \<Rightarrow> (d1, Some e)
                 | Inr d2 \<Rightarrow> (d2, Some (ResultsRejected code reason))))
      | BadArchive reason \<Rightarrow> (d, Some (ArchiveInvalid reason))
      | Accepted staging \<Rightarrow>
          attempt_write d (Some (new_publication s now (il_token (op_fence op)) (up_job_id u)
             (the (op_run_id op)) (op_tenant op) (op_status op) (up_agent_id u) (up_exit_code u)
             (up_error u) (op_surface op) staging)))"

text \<open>The key the clean-up gives back.\<close>

definition held_key :: "upload \<Rightarrow> opened \<Rightarrow> string option" where
  "held_key u op =
     (if truthy_text (up_idempotency_key u) then up_idempotency_key u
      else if op_late op then Some LATE_ARCHIVE_RESERVATION else None)"

definition abort_upload :: "settings \<Rightarrow> time \<Rightarrow> db \<Rightarrow> upload \<Rightarrow> opened \<Rightarrow> db" where
  "abort_upload s now d u op =
     release_ingest_lease s now
       (case held_key u op of None \<Rightarrow> d
        | Some key \<Rightarrow> release_results_reservation d (up_job_id u) key (op_late op))
       (op_fence op)"

definition finish_upload ::
  "settings \<Rightarrow> time \<Rightarrow> verdict \<Rightarrow> db \<Rightarrow> upload \<Rightarrow> opened \<Rightarrow> db \<times> service_error option" where
  "finish_upload s now v d u op =
     (case try_outcome s now v d u op of
        (d1, Some e) \<Rightarrow> (abort_upload s now d1 u op, Some e)
      | (d1, None) \<Rightarrow> (touch_job s now d1 (up_agent_id u) None ''idle'', None))"

text \<open>The whole handler; \<open>others\<close> is what other transactions commit during the ingest.\<close>

datatype completion = Refused service_error | ReplayAnswer job_info | Raised service_error | Done

definition complete_job ::
  "settings \<Rightarrow> time \<Rightarrow> time \<Rightarrow> string \<Rightarrow> verdict \<Rightarrow> (db \<Rightarrow> db) \<Rightarrow> db \<Rightarrow> upload \<Rightarrow> db \<times> completion" where
  "complete_job s now1 now2 token v others d u =
     (case open_upload s now1 token d u of
        Inl e \<Rightarrow> (d, Refused e)
      | Inr (d1, Replayed info) \<Rightarrow> (d1, ReplayAnswer info)
      | Inr (d1, Opened op) \<Rightarrow>
          (case finish_upload s now2 v (others d1) u op of
             (d2, Some e) \<Rightarrow> (d2, Raised e) | (d2, None) \<Rightarrow> (d2, Done)))"

end
