(* ===== verification/Job_Reaper.thy ===== *)
theory Job_Reaper
  imports Job_Store
begin

text \<open>
  The background sweeps, \<^verbatim>\<open>api/services/job_reaper.py\<close>: jobs whose executor stopped
  renewing, stops nobody confirmed, the reaper's tick with its counters, and the restart
  reconciliation of \<^verbatim>\<open>job_repository.load_jobs\<close>. \<open>locked\<close> are the rows another transaction
  holds (\<^verbatim>\<open>SKIP LOCKED\<close>). A refused transition aborts the whole sweep, as the exception does.
\<close>

section \<open>Expired leases\<close>

definition never_asked :: "settings \<Rightarrow> time \<Rightarrow> time" where
  "never_asked s now = now - seconds (max (job_lease_seconds s) 1)"

definition lapsed :: "time \<Rightarrow> job \<Rightarrow> bool" where
  "lapsed now row = (case j_claimed_until row of None \<Rightarrow> False | Some u \<Rightarrow> u < now)"

definition lease_expired :: "settings \<Rightarrow> time \<Rightarrow> job \<Rightarrow> bool" where
  "lease_expired s now row =
     ((j_status row \<in> set IN_FLIGHT \<and> lapsed now row)
      \<or> (j_execution row = ''local'' \<and> j_status row = QUEUED
         \<and> (lapsed now row \<or> j_claimed_until row = None \<and> j_queued_at row < never_asked s now)))"

definition retriable :: "settings \<Rightarrow> job \<Rightarrow> bool" where
  "retriable s row = (j_execution row = ''agent'' \<and> j_attempts row < job_max_attempts s)"

definition expiry_error :: "job \<Rightarrow> string" where
  "expiry_error row =
     (if j_status row = QUEUED then
        ''Waited for a scan slot on replica '' @ or_text (j_owner_id row) ''unknown''
        @ '', which stopped reporting; the scan never started''
      else ''Lease expired after '' @ str_int (j_attempts row) @ '' attempt(s): the ''
        @ j_execution row @ '' executor stopped reporting and never returned'')"

definition requeue_row :: "job \<Rightarrow> job" where
  "requeue_row row = (clear_ingest row)\<lparr>j_status := QUEUED, j_assigned_agent_id := None,
     j_claimed_until := None, j_started_at := None\<rparr>"

definition expire_row :: "time \<Rightarrow> job \<Rightarrow> job" where
  "expire_row now row = (clear_ingest row)\<lparr>j_status := FAILED, j_finished_at := Some now,
     j_claimed_until := None, j_error := Some (expiry_error row)\<rparr>"

record sweep =
  sw_db :: db
  sw_requeued :: "string list"
  sw_failed :: "job list"

definition reap_row :: "settings \<Rightarrow> time \<Rightarrow> sweep \<Rightarrow> job \<Rightarrow> service_error + sweep" where
  "reap_row s now sw row =
     (if retriable s row then
        bindE (lift_err Transition (check_transition (j_job_id row) (j_status row) QUEUED)) (\<lambda>_.
          Ok (sw\<lparr>sw_db := put_row (sw_db sw) (requeue_row row),
                 sw_requeued := sw_requeued sw @ [j_job_id row]\<rparr>))
      else
        bindE (lift_err Transition (check_transition (j_job_id row) (j_status row) FAILED)) (\<lambda>_.
          Ok (sw\<lparr>sw_db := put_row (sw_db sw) (expire_row now row),
                 sw_failed := sw_failed sw @ [expire_row now row]\<rparr>)))"

fun reap_rows :: "settings \<Rightarrow> time \<Rightarrow> sweep \<Rightarrow> job list \<Rightarrow> service_error + sweep" where
  "reap_rows s now sw [] = Ok sw"
| "reap_rows s now sw (row # rows) =
     bindE (reap_row s now sw row) (\<lambda>sw1. reap_rows s now sw1 rows)"

definition reap_expired_leases ::
  "settings \<Rightarrow> time \<Rightarrow> string list \<Rightarrow> db \<Rightarrow> service_error + (db \<times> nat \<times> nat)" where
  "reap_expired_leases s now locked d =
     bindE (reap_rows s now \<lparr>sw_db = d, sw_requeued = [], sw_failed = []\<rparr>
              (filter (\<lambda>row. lease_expired s now row \<and> j_job_id row \<notin> set locked) (jobs d))) (\<lambda>sw.
       let d1 = foldl emit_event (sw_db sw) (map scan_failure_event (sw_failed sw));
           d2 = (if truthy_text (nats_url s) then d1\<lparr>offers := offers d1 @ sw_requeued sw\<rparr> else d1)
       in Ok (d2, length (sw_requeued sw), length (sw_failed sw)))"

section \<open>Stops nobody confirmed\<close>

definition stale_cancellation :: "settings \<Rightarrow> time \<Rightarrow> job \<Rightarrow> bool" where
  "stale_cancellation s now row =
     (j_status row = CANCELLING
      \<and> (case j_cancel_requested_at row of None \<Rightarrow> False
         | Some t \<Rightarrow> t < now - seconds (max (job_cancel_grace_seconds s) 1))
      \<and> (case j_ingest_started_at row of None \<Rightarrow> True
         | Some t \<Rightarrow> t < now - ingest_window s))"

definition unconfirmed_error :: "settings \<Rightarrow> job \<Rightarrow> string" where
  "unconfirmed_error s row =
     take 2000 (or_text (j_error row) ''Cancellation requested'' @ ''; agent ''
       @ or_text (j_assigned_agent_id row) ''unknown'' @ '' did not confirm within ''
       @ str_int (job_cancel_grace_seconds s) @ ''s'')"

definition give_up_row :: "settings \<Rightarrow> time \<Rightarrow> job \<Rightarrow> job" where
  "give_up_row s now row = row\<lparr>j_status := CANCELLED, j_finished_at := Some now,
     j_claimed_until := None, j_error := Some (unconfirmed_error s row)\<rparr>"

fun give_up_rows :: "settings \<Rightarrow> time \<Rightarrow> db \<Rightarrow> job list \<Rightarrow> service_error + db" where
  "give_up_rows s now d [] = Ok d"
| "give_up_rows s now d (row # rows) =
     bindE (lift_err Transition (check_transition (j_job_id row) (j_status row) CANCELLED)) (\<lambda>_.
       give_up_rows s now (put_row d (give_up_row s now row)) rows)"

definition reap_stale_cancellations ::
  "settings \<Rightarrow> time \<Rightarrow> string list \<Rightarrow> db \<Rightarrow> service_error + (db \<times> nat)" where
  "reap_stale_cancellations s now locked d =
     (let rows = filter (\<lambda>row. stale_cancellation s now row \<and> j_job_id row \<notin> set locked) (jobs d)
      in bindE (give_up_rows s now d rows) (\<lambda>d1. Ok (d1, length rows)))"

section \<open>The worker's tick\<close>

record reaper_stats =
  st_ticks :: nat
  st_requeued :: nat
  st_failed :: nat
  st_cancelled :: nat
  st_errors :: nat

text \<open>One round of \<open>_run\<close>: a failing sweep is counted, and what committed before it stays.\<close>

definition tick ::
  "settings \<Rightarrow> time \<Rightarrow> string list \<Rightarrow> reaper_stats \<times> db \<Rightarrow> reaper_stats \<times> db" where
  "tick s now locked st_d =
     (case st_d of (st0, d) \<Rightarrow>
      let st1 = st0\<lparr>st_ticks := st_ticks st0 + 1\<rparr> in
      case reap_expired_leases s now locked d of
        Inl _ \<Rightarrow> (st1\<lparr>st_errors := st_errors st1 + 1\<rparr>, d)
      | Inr (d1, requeued, failed) \<Rightarrow>
          let st2 = st1\<lparr>st_requeued := st_requeued st1 + requeued,
                        st_failed := st_failed st1 + failed\<rparr> in
          (case reap_stale_cancellations s now locked d1 of
             Inl _ \<Rightarrow> (st2\<lparr>st_errors := st_errors st2 + 1\<rparr>, d1)
           | Inr (d2, cancelled) \<Rightarrow> (st2\<lparr>st_cancelled := st_cancelled st2 + cancelled\<rparr>, d2)))"

section \<open>Restart reconciliation\<close>

definition orphan :: "settings \<Rightarrow> job \<Rightarrow> bool" where
  "orphan s row =
     (j_execution row = ''local'' \<and> (j_status row = QUEUED \<or> j_status row = RUNNING)
      \<and> (j_owner_id row = Some (instance_id s) \<or> j_owner_id row = None))"

definition interrupted_row :: "time \<Rightarrow> job \<Rightarrow> job" where
  "interrupted_row now row = row\<lparr>j_status := FAILED, j_finished_at := Some now,
     j_claimed_until := None,
     j_error := Some ''Interrupted by API process restart before completion''\<rparr>"

fun fail_orphans :: "time \<Rightarrow> db \<Rightarrow> job list \<Rightarrow> service_error + db" where
  "fail_orphans now d [] = Ok d"
| "fail_orphans now d (row # rows) =
     bindE (lift_err Transition (check_transition (j_job_id row) (j_status row) FAILED)) (\<lambda>_.
       fail_orphans now (put_row d (interrupted_row now row)) rows)"

definition load_jobs :: "settings \<Rightarrow> time \<Rightarrow> db \<Rightarrow> service_error + db" where
  "load_jobs s now d = fail_orphans now d (filter (orphan s) (jobs d))"

end
