(* ===== verification/Local_Runner.thy ===== *)
theory Local_Runner
  imports Job_Control
begin

text \<open>
  The local executor, \<^verbatim>\<open>api/services/local_job_runner.py\<close>: \<open>start\<close> is the local job's claim
  (\<^verbatim>\<open>_start\<close>), \<open>finish_run\<close> the terminal write after the scanner returned, \<open>crash_run\<close> the
  handler of an exception in between. \<open>lock_free\<close> is the try-lock's answer,
  \<open>publication\<close> the row \<^verbatim>\<open>_publication\<close> prepared from the file system.
\<close>

definition start ::
  "settings \<Rightarrow> time \<Rightarrow> (job \<Rightarrow> admission) \<Rightarrow> bool \<Rightarrow> db \<Rightarrow> string \<Rightarrow> service_error + (db \<times> bool)" where
  "start s now cal lock_free d jid =
     (case get_row d jid of None \<Rightarrow> Err JobNotFound
      | Some row \<Rightarrow>
          let tid = j_tenant_id row; slot = hold_slot d tid False lock_free in
          bindE (lift_err Transition (check_transition jid (j_status row) RUNNING)) (\<lambda>_.
            case admitted cal d row of (allowed, d1, row1) \<Rightarrow>
              if \<not> allowed then Ok (put_row d1 (renew_waiting_mark s now row1), False)
              else if \<not> slot \<or> (concurrency_limit d1 tid \<noteq> None \<and> local_job_ahead cal d1 row1)
              then Ok (put_row d1 (renew_waiting_mark s now row1), False)
              else Ok (put_row d1 (row1\<lparr>j_status := RUNNING, j_started_at := Some now,
                         j_claimed_until := Some (lease_deadline s now), j_attempts := 1\<rparr>), True)))"

definition run_error :: "int \<Rightarrow> string \<Rightarrow> string \<Rightarrow> string option" where
  "run_error returncode stderr stdout =
     (if returncode = 0 then None
      else Some (take 2000 (if stderr \<noteq> [] then stderr else if stdout \<noteq> [] then stdout
                            else ''exit '' @ str_int returncode)))"

definition finish_run ::
  "time \<Rightarrow> db \<Rightarrow> string \<Rightarrow> publication option \<Rightarrow> int \<Rightarrow> string \<Rightarrow> string \<Rightarrow> string option \<Rightarrow> service_error + db" where
  "finish_run now d jid publication returncode stderr stdout rid =
     update_job d jid None publication
       (no_fields\<lparr>f_status := Some (if returncode = 0 then SUCCEEDED else FAILED),
          f_finished_at := Some (Some now), f_exit_code := Some (Some returncode),
          f_run_id := Some (if truthy_text rid then rid else None),
          f_error := Some (run_error returncode stderr stdout)\<rparr>)"

definition crash_run :: "time \<Rightarrow> db \<Rightarrow> string \<Rightarrow> string \<Rightarrow> service_error + db" where
  "crash_run now d jid message =
     (case update_job d jid None None
             (no_fields\<lparr>f_status := Some FAILED, f_finished_at := Some (Some now),
                f_error := Some (Some (take 2000 message))\<rparr>) of
        Inl (Transition _) \<Rightarrow>
          update_job d jid None None (no_fields\<lparr>f_error := Some (Some (take 2000 message))\<rparr>)
      | r \<Rightarrow> r)"

end
