(* ===== verification/Job_Evolution.thy ===== *)
theory Job_Evolution
  imports Job_Results Job_Reaper Local_Runner
begin

text \<open>
  How the operations of the job services move the rows of the table. \<open>row_step\<close> lists the
  elementary changes a row can undergo, and \<open>evolves R\<close> says that every row of one
  database is related by \<open>R\<close> to the row at the same place of another. Each operation is
  shown once to be a sequence of \<open>row_step\<close>s on the rows it writes; invariants of the
  table are then proved over the few cases of \<open>row_step\<close>, not over the operations.
\<close>

section \<open>Databases that evolve row by row\<close>

definition evolves :: "(job \<Rightarrow> job \<Rightarrow> bool) \<Rightarrow> db \<Rightarrow> db \<Rightarrow> bool" where
  "evolves R d d' = list_all2 R (jobs d) (jobs d')"

lemma evolves_refl: "(\<And>x. R x x) \<Longrightarrow> evolves R d d"
  by (simp add: evolves_def list_all2_same)

lemma evolves_jobs: "jobs d' = jobs d \<Longrightarrow> (\<And>x. R x x) \<Longrightarrow> evolves R d d'"
  by (simp add: evolves_def list_all2_same)

lemma evolves_trans:
  "(\<And>a b c. R a b \<Longrightarrow> R b c \<Longrightarrow> R a c) \<Longrightarrow> evolves R d e \<Longrightarrow> evolves R e f \<Longrightarrow> evolves R d f"
  unfolding evolves_def by (rule list_all2_trans)

lemma evolves_mono: "evolves R d d' \<Longrightarrow> (\<And>a b. R a b \<Longrightarrow> S a b) \<Longrightarrow> evolves S d d'"
  unfolding evolves_def by (rule list_all2_mono)

lemma list_all2_row_put:
  "distinct (map key xs) \<Longrightarrow> row_get key xs (key r') = Some r \<Longrightarrow> R r r' \<Longrightarrow> (\<And>x. R x x)
     \<Longrightarrow> list_all2 R xs (row_put key xs r')"
proof (induction xs)
  case Nil
  then show ?case by (simp add: row_put_def)
next
  case (Cons x xs)
  show ?case
  proof (cases "key x = key r'")
    case True
    with Cons.prems have "r = x" "key r' \<notin> key ` set xs" by (auto simp: row_get_def)
    with True Cons.prems row_put_absent [of key r' xs] show ?thesis
      by (simp add: row_put_def list_all2_same)
  next
    case False
    with Cons show ?thesis by (simp add: row_put_def row_get_def)
  qed
qed

lemma evolves_put:
  "wf_jobs d \<Longrightarrow> get_row d (j_job_id r') = Some r \<Longrightarrow> R r r' \<Longrightarrow> (\<And>x. R x x)
     \<Longrightarrow> evolves R d (put_row d r')"
  unfolding evolves_def put_row_def wf_jobs_def by (simp add: list_all2_row_put)

text \<open>What evolution says of one row, of all rows and of a count of rows.\<close>

lemma evolves_ids: "evolves R d d' \<Longrightarrow> (\<And>a b. R a b \<Longrightarrow> j_job_id b = j_job_id a)
    \<Longrightarrow> map j_job_id (jobs d') = map j_job_id (jobs d)"
  unfolding evolves_def by (induction rule: list_all2_induct) auto

lemma row_get_list_all2:
  "list_all2 R xs ys \<Longrightarrow> (\<And>a b. R a b \<Longrightarrow> key b = key a) \<Longrightarrow> row_get key xs k = Some r
     \<Longrightarrow> \<exists>r'. row_get key ys k = Some r' \<and> R r r'"
  by (induction arbitrary: r rule: list_all2_induct) (auto simp: row_get_def split: if_splits)

lemma evolves_get:
  "evolves R d d' \<Longrightarrow> (\<And>a b. R a b \<Longrightarrow> j_job_id b = j_job_id a) \<Longrightarrow> get_row d k = Some r
     \<Longrightarrow> \<exists>r'. get_row d' k = Some r' \<and> R r r'"
  unfolding evolves_def by (rule row_get_list_all2)

lemma evolves_count:
  "evolves R d d' \<Longrightarrow> (\<And>a b. R a b \<Longrightarrow> P b \<Longrightarrow> P a) \<Longrightarrow> count_rows P d' \<le> count_rows P d"
  unfolding evolves_def count_rows_def row_count_def
  by (induction rule: list_all2_induct) (auto simp: le_Suc_eq)

lemma evolves_all:
  "evolves R d d' \<Longrightarrow> (\<And>a b. R a b \<Longrightarrow> Q a \<Longrightarrow> Q b) \<Longrightarrow> \<forall>r \<in> set (jobs d). Q r
     \<Longrightarrow> \<forall>r \<in> set (jobs d'). Q r"
  unfolding evolves_def by (induction rule: list_all2_induct) auto

section \<open>Sweeps\<close>

text \<open>
  A sweep writes \<open>f row\<close> for each selected row. The selected rows are rows of the table
  with distinct ids, so each write meets the row it was computed from.
\<close>

lemma get_put_rows:
  "distinct (map j_job_id rows) \<Longrightarrow> (\<And>r. j_job_id (f r) = j_job_id r)
     \<Longrightarrow> \<forall>r \<in> set rows. get_row d (j_job_id r) = Some r
     \<Longrightarrow> get_row (put_rows d (map f rows)) k =
           (case get_row d k of None \<Rightarrow> None
            | Some r \<Rightarrow> if r \<in> set rows then Some (f r) else Some r)"
proof (induction rows arbitrary: d)
  case Nil
  then show ?case by (simp split: option.split)
next
  case (Cons x rows)
  let ?d = "put_row d (f x)"
  have id: "j_job_id (f x) = j_job_id x" and x: "get_row d (j_job_id x) = Some x"
    using Cons.prems by auto
  have "j_job_id x \<notin> j_job_id ` set rows" using Cons.prems(1) by simp
  then have neq: "j_job_id r \<noteq> j_job_id x" if "r \<in> set rows" for r
    using that by (metis imageI)
  have "get_row (put_rows ?d (map f rows)) k =
           (case get_row ?d k of None \<Rightarrow> None
            | Some r \<Rightarrow> if r \<in> set rows then Some (f r) else Some r)"
    using Cons.prems neq id by (intro Cons.IH) (auto simp: get_put_row)
  also have "\<dots> = (case get_row d k of None \<Rightarrow> None
            | Some r \<Rightarrow> if r \<in> set (x # rows) then Some (f r) else Some r)"
  proof (cases "k = j_job_id x")
    case True
    have "f x \<notin> set rows" using neq id by fastforce
    with True x id show ?thesis by (simp add: get_put_row)
  next
    case False
    then have "get_row ?d k = get_row d k" by (simp add: get_put_row id)
    moreover have "r \<noteq> x" if "get_row d k = Some r" for r
      using False that row_get_key by fastforce
    ultimately show ?thesis by (auto split: option.split)
  qed
  finally show ?case by simp
qed

lemma evolves_put_rows:
  assumes "wf_jobs d" and "\<And>x. R x x" and "\<And>a b c. R a b \<Longrightarrow> R b c \<Longrightarrow> R a c"
    and "distinct (map j_job_id rows)" and "\<And>r. j_job_id (f r) = j_job_id r"
    and "\<forall>r \<in> set rows. get_row d (j_job_id r) = Some r \<and> R r (f r)"
  shows "evolves R d (put_rows d (map f rows))"
  using assms(1,4,6)
proof (induction rows arbitrary: d)
  case Nil
  then show ?case using assms(2) by (simp add: evolves_refl)
next
  case (Cons x rows)
  let ?d = "put_row d (f x)"
  have e1: "evolves R d ?d"
    using Cons.prems assms(2,5) by (intro evolves_put [of d "f x" x R]) auto
  have "j_job_id x \<notin> j_job_id ` set rows" using Cons.prems(2) by simp
  then have "j_job_id r \<noteq> j_job_id (f x)" if "r \<in> set rows" for r
    unfolding assms(5) using that by (metis imageI)
  then have "\<forall>r \<in> set rows. get_row ?d (j_job_id r) = Some r \<and> R r (f r)"
    using Cons.prems(3) by (metis job_table.get_put_other list.set_intros(2))
  then have "evolves R ?d (put_rows ?d (map f rows))"
    using Cons.prems(1,2) by (intro Cons.IH) simp_all
  then show ?case using evolves_trans [OF assms(3) e1] by simp
qed

lemma wf_put_rows [simp]: "wf_jobs (put_rows d rs) = wf_jobs d"
  by (induction rs arbitrary: d) auto

lemma selected_rows:
  assumes "wf_jobs d"
  shows "distinct (map j_job_id (filter P (jobs d)))"
    and "\<forall>r \<in> set (filter P (jobs d)). get_row d (j_job_id r) = Some r"
  using assms by (auto simp: wf_jobs_def distinct_map_filter row_get_Some_iff)

section \<open>Elementary changes of a row\<close>

definition same_row :: "job \<Rightarrow> job \<Rightarrow> bool" where
  "same_row r r' = (j_job_id r' = j_job_id r \<and> j_tenant_id r' = j_tenant_id r
     \<and> j_execution r' = j_execution r \<and> j_idempotency_key r' = j_idempotency_key r
     \<and> so_idempotency_digest (j_scan_options r') = so_idempotency_digest (j_scan_options r))"

text \<open>The lifecycle columns are kept, and a recorded results key is not erased.\<close>

definition same_life :: "job \<Rightarrow> job \<Rightarrow> bool" where
  "same_life r r' = (same_row r r' \<and> j_status r' = j_status r \<and> j_attempts r' = j_attempts r
     \<and> j_assigned_agent_id r' = j_assigned_agent_id r \<and> j_finished_at r' = j_finished_at r
     \<and> j_exit_code r' = j_exit_code r
     \<and> (j_status r \<in> set TERMINAL \<and> j_results_idempotency_key r \<noteq> None
          \<longrightarrow> j_results_idempotency_key r' \<noteq> None))"

text \<open>
  \<open>L\<close> are the jobs whose late-archive reservation the operation may give back, \<open>H\<close> says whether it
  may start a job.
\<close>

inductive row_step :: "settings \<Rightarrow> string set \<Rightarrow> bool \<Rightarrow> job \<Rightarrow> job \<Rightarrow> bool"
  for s :: settings and L :: "string set" and H :: bool where
  keep: "same_life r r' \<Longrightarrow> row_step s L H r r'"
| unreserve: "j_job_id r \<in> L \<Longrightarrow> same_row r r' \<Longrightarrow> j_status r = CANCELLED \<Longrightarrow> j_status r' = CANCELLED \<Longrightarrow>
    j_exit_code r = None \<Longrightarrow> j_exit_code r' = None \<Longrightarrow> j_finished_at r' = j_finished_at r \<Longrightarrow>
    j_attempts r' = j_attempts r \<Longrightarrow> row_step s L H r r'"
| hand_out: "H \<Longrightarrow> same_row r r' \<Longrightarrow> j_execution r = ''agent'' \<Longrightarrow> j_status r = QUEUED \<Longrightarrow>
    j_assigned_agent_id r = None \<Longrightarrow> j_status r' = CLAIMED \<Longrightarrow>
    j_attempts r' = j_attempts r + 1 \<Longrightarrow> row_step s L H r r'"
| local_start: "H \<Longrightarrow> same_row r r' \<Longrightarrow> j_execution r = ''local'' \<Longrightarrow> j_status r = QUEUED \<or> j_status r = CLAIMED \<Longrightarrow>
    j_status r' = RUNNING \<Longrightarrow> j_attempts r' = 1 \<Longrightarrow> row_step s L H r r'"
| promote: "same_row r r' \<Longrightarrow> j_status r = CLAIMED \<Longrightarrow> j_status r' = RUNNING \<Longrightarrow>
    j_attempts r' = j_attempts r \<Longrightarrow> row_step s L H r r'"
| requeue: "same_row r r' \<Longrightarrow> j_status r \<in> set IN_FLIGHT \<Longrightarrow> retriable s r \<Longrightarrow>
    j_status r' = QUEUED \<Longrightarrow> j_attempts r' = j_attempts r \<Longrightarrow> row_step s L H r r'"
| ask_stop: "same_row r r' \<Longrightarrow> j_status r \<in> set IN_FLIGHT \<Longrightarrow> j_status r' = CANCELLING \<Longrightarrow>
    j_attempts r' = j_attempts r \<Longrightarrow> row_step s L H r r'"
| conclude: "same_row r r' \<Longrightarrow> can_transition (j_status r) (j_status r') \<Longrightarrow>
    j_status r' \<in> set TERMINAL \<Longrightarrow> j_attempts r' = j_attempts r \<Longrightarrow> row_step s L H r r'"

inductive_cases row_stepE: "row_step s L H r r'"

abbreviation row_steps :: "settings \<Rightarrow> string set \<Rightarrow> bool \<Rightarrow> job \<Rightarrow> job \<Rightarrow> bool" where
  "row_steps s L H \<equiv> (row_step s L H)\<^sup>*\<^sup>*"

lemma row_step_same_row: "row_step s L H r r' \<Longrightarrow> same_row r r'"
  by (erule row_stepE) (auto simp: same_life_def)

lemma row_step_id: "row_step s L H r r' \<Longrightarrow> j_job_id r' = j_job_id r"
  using row_step_same_row by (auto simp: same_row_def)

lemma row_steps_same_row: "row_steps s L H r r' \<Longrightarrow> same_row r r'"
  by (induction rule: rtranclp_induct) (auto simp: same_row_def dest!: row_step_same_row)

lemma row_steps_id: "row_steps s L H r r' \<Longrightarrow> j_job_id r' = j_job_id r"
  using row_steps_same_row by (auto simp: same_row_def)

text \<open>An evolution by \<open>row_steps\<close>, and how one write gives it.\<close>

abbreviation progress :: "settings \<Rightarrow> string set \<Rightarrow> bool \<Rightarrow> db \<Rightarrow> db \<Rightarrow> bool" where
  "progress s L H \<equiv> evolves (row_steps s L H)"

lemma progress_trans: "progress s L H d e \<Longrightarrow> progress s L H e f \<Longrightarrow> progress s L H d f"
  by (rule evolves_trans [of "row_steps s L H"]) auto

lemma progress_same_jobs: "jobs d' = jobs d \<Longrightarrow> progress s L H d d'"
  by (rule evolves_jobs) auto

lemma progress_refl [simp]: "progress s L H d d"
  by (rule progress_same_jobs) simp

lemma progress_put:
  "wf_jobs d \<Longrightarrow> get_row d k = Some r \<Longrightarrow> row_step s L H r r' \<Longrightarrow> progress s L H d (put_row d r')"
  using row_get_key [of j_job_id "jobs d" k r] row_step_id [of s L H r r']
  by (intro evolves_put [of d r' r]) auto

lemma progress_put_rows:
  "wf_jobs d \<Longrightarrow> (\<And>r. j_job_id (f r) = j_job_id r) \<Longrightarrow> (\<And>r. P r \<Longrightarrow> row_step s L H r (f r))
     \<Longrightarrow> progress s L H d (put_rows d (map f (filter P (jobs d))))"
  by (intro evolves_put_rows) (auto simp: selected_rows row_get_Some_iff wf_jobs_def distinct_map_filter)

lemma progress_cong: "progress s L H d e \<Longrightarrow> jobs e' = jobs e \<Longrightarrow> progress s L H d e'"
  by (simp add: evolves_def)

lemma progress_wf: "progress s L H d d' \<Longrightarrow> wf_jobs d \<Longrightarrow> wf_jobs d'"
  using evolves_ids [of "row_steps s L H" d d'] row_steps_id by (metis wf_jobs_def)

section \<open>The operations are sequences of these changes\<close>

lemma same_life_refl [simp]: "same_life r r"
  by (simp add: same_life_def same_row_def)

lemma keep_same [simp]: "row_step s L H r r"
  by (rule keep) simp

lemma same_life_lease [simp]:
  "same_life r (extend_lease r t)" "same_life r (renew_waiting_mark s n r)"
  by (auto simp: extend_lease_def renew_waiting_mark_def same_life_def same_row_def Let_def
      split: option.split)

lemma same_life_clear [simp]: "same_life r (clear_ingest r)"
  by (simp add: same_life_def same_row_def)

lemma same_life_wait [simp]: "same_life r (set_wait w r)"
  by (simp add: same_life_def same_row_def set_wait_def)

lemma same_life_claimed_until [simp]: "same_life r (r'\<lparr>j_claimed_until := u\<rparr>) = same_life r r'"
  by (simp add: same_life_def same_row_def)

lemma row_step_keep [simp]:
  "row_step s L H r (extend_lease r t)" "row_step s L H r (renew_waiting_mark s' n r)"
  "row_step s L H r (clear_ingest r)" "row_step s L H r (set_wait w r)"
  "row_step s L H r ((clear_ingest r)\<lparr>j_claimed_until := u\<rparr>)"
  by (rule keep, simp)+

lemma progress_renew_lease:
  "wf_jobs d \<Longrightarrow> renew_lease s now d jid a = (b, d') \<Longrightarrow> progress s L H d d'"
  unfolding renew_lease_def
  by (auto split: option.splits if_splits intro!: progress_put)

lemma progress_release_ingest_lease:
  assumes "wf_jobs d"
  shows "progress s L H d (release_ingest_lease s now d fence)"
proof (cases "get_row d (il_job_id fence)")
  case None
  then show ?thesis by (simp add: release_ingest_lease_def)
next
  case (Some row)
  then show ?thesis using assms
    by (auto simp: release_ingest_lease_def Let_def intro!: progress_put)
qed

lemma progress_mark_running:
  assumes "wf_jobs d" and "mark_running s now d jid a = (b, d')"
  shows "progress s L H d d'"
proof (cases "get_row d jid")
  case None
  then show ?thesis using assms by (simp add: mark_running_def)
next
  case (Some row)
  have "row_step s L H row ((extend_lease row t)\<lparr>j_status := RUNNING, j_started_at := u\<rparr>)"
    "row_step s L H row ((extend_lease row t)\<lparr>j_status := RUNNING\<rparr>)"
    if "j_status row = CLAIMED" for t u
    using that by (auto intro!: promote simp: same_row_def)
  then show ?thesis using Some assms
    by (auto simp: mark_running_def Let_def split: if_splits
        intro!: progress_put)
qed

lemma cancel_row_cases:
  "j_status (cancel_row now u st r) = st \<and> same_row r (cancel_row now u st r)
     \<and> j_attempts (cancel_row now u st r) = j_attempts r"
  by (simp add: cancel_row_def same_row_def)

lemma row_step_cancel:
  assumes "can_transition (j_status r) st"
    and "st = (if j_status r \<in> set IN_FLIGHT then CANCELLING else CANCELLED)"
  shows "row_step s L H r (cancel_row now u st r)"
proof (cases "j_status r \<in> set IN_FLIGHT")
  case True
  then show ?thesis using assms cancel_row_cases [of now u st r] by (intro ask_stop) auto
next
  case False
  then show ?thesis using assms cancel_row_cases [of now u st r]
    by (intro conclude) (auto simp: state_simps)
qed

lemma progress_cancel_job:
  assumes "wf_jobs d" and "cancel_job s now d jid u tid = Ok (d', r)"
  shows "progress s L H d d'"
proof (cases "get_row d jid")
  case None
  then show ?thesis using assms by (simp add: cancel_job_def)
next
  case (Some row)
  show ?thesis using Some assms
    by (auto simp: cancel_job_def Let_def bindE_Ok_iff split: if_splits
        intro!: progress_cong [OF progress_put] row_step_cancel)
qed

section \<open>Uploads\<close>

lemma row_step_set_fields:
  assumes "can_transition (j_status r) st" and "st \<in> set TERMINAL" and "f_status f = Some st"
  shows "row_step s L H r (set_fields f r)" and "row_step s L H r (set_fields f (clear_ingest r))"
  using assms by (auto intro!: conclude simp: same_row_def)

lemma progress_update_job:
  assumes "wf_jobs d" and "f_status f = Some st" and "st \<in> set TERMINAL"
    and "update_job d jid fence p f = Ok d'"
  shows "progress s L H d d'"
  using assms(4)
proof (cases rule: update_job_OkE)
  case 1
  then show ?thesis by simp
next
  case (2 row)
  have "row_step s L H row (set_fields (terminal_default f) (if fence = None then row else clear_ingest row))"
    using row_step_set_fields [of row st "terminal_default f"] 2(3) assms(2,3) by simp
  then show ?thesis
    by (rule progress_cong [OF progress_put [OF assms(1) 2(1)] 2(4)])
qed

lemma progress_error_note:
  assumes "wf_jobs d"
    and "update_job d jid None None (no_fields\<lparr>f_error := e\<rparr>) = Ok d'"
  shows "progress s L H d d'"
  using assms(2)
proof (cases rule: update_job_OkE)
  case 1
  then show ?thesis by simp
next
  case (2 row)
  have "row_step s L H row (set_fields (terminal_default (no_fields\<lparr>f_error := e\<rparr>)) row)"
    by (intro keep) (simp add: same_life_def same_row_def set_fields_def terminal_default_def no_fields_def)
  with 2(4) show ?thesis
    by (intro progress_cong [OF progress_put [OF assms(1) 2(1)]]) auto
qed

text \<open>The late archive's record: the run id, a note, and the publication.\<close>

definition late_row :: "job \<Rightarrow> string \<Rightarrow> string option \<Rightarrow> job" where
  "late_row row agent_id rid =
     (let row1 = clear_ingest row;
          row2 = (if truthy_text rid \<and> \<not> truthy_text (j_run_id row1)
                  then row1\<lparr>j_run_id := rid\<rparr> else row1);
          err = or_text (j_error row2) []
      in if has_text (late_note agent_id) err then row2
         else row2\<lparr>j_error := Some (take 2000 (err @ late_note agent_id))\<rparr>)"

lemma record_late_OkE:
  assumes "record_late_cancellation_archive d jid a rid fence p = Ok d'"
  obtains "get_row d jid = None" "d' = d"
  | row where "get_row d jid = Some row" "fence_holds row fence"
      "d' = add_publication (put_row d (late_row row a rid)) p"
proof (cases "get_row d jid")
  case None
  then have "d' = d" using assms unfolding record_late_cancellation_archive_def by simp
  with None show ?thesis by (rule that(1))
next
  case (Some row)
  have "fence_holds row fence" "d' = add_publication (put_row d (late_row row a rid)) p"
    using assms Some
    by (auto simp: record_late_cancellation_archive_def check_ingest_fence_def late_row_def Let_def
        split: if_splits)
  then show ?thesis using that(2) Some by blast
qed

lemma same_life_late [simp]: "same_life r (late_row r a rid)"
  by (auto simp: late_row_def same_life_def same_row_def Let_def)

lemma progress_record_late:
  assumes "wf_jobs d" and "record_late_cancellation_archive d jid a rid fence p = Ok d'"
  shows "progress s L H d d'"
  using assms(2)
proof (cases rule: record_late_OkE)
  case 1
  then show ?thesis by simp
next
  case (2 row)
  have "row_step s L H row (late_row row a rid)" by (rule keep) simp
  then show ?thesis unfolding 2(3)
    by (intro progress_cong [OF progress_put [OF assms(1) 2(1)]]) auto
qed

lemma progress_release_results:
  assumes "wf_jobs d"
    and "\<And>row. late \<Longrightarrow> get_row d jid = Some row \<Longrightarrow> j_status row = CANCELLED \<and> j_exit_code row = None"
    and "late \<Longrightarrow> jid \<in> L"
  shows "progress s L H d (release_results_reservation d jid key late)"
proof (cases "get_row d jid")
  case None
  then show ?thesis by (simp add: release_results_reservation_def)
next
  case (Some row)
  let ?r = "row\<lparr>j_results_idempotency_key := None\<rparr>"
  have "row_step s L H row ?r" if "late"
    using assms(2) [OF that Some] assms(3) [OF that] row_get_key [OF Some]
    by (intro unreserve) (simp_all add: same_row_def)
  moreover have "row_step s L H row ?r" if "j_status row \<notin> set TERMINAL"
    using that by (intro keep) (simp add: same_life_def same_row_def)
  ultimately show ?thesis using Some assms(1)
    by (auto simp: release_results_reservation_def intro!: progress_put)
qed

lemma open_ingest_same_life:
  assumes "open_ingest_lease s now tok r a = (r', f)"
  shows "same_life r r'" and "j_results_idempotency_key r' = j_results_idempotency_key r"
proof -
  let ?r1 = "r\<lparr>j_ingest_token := Some tok, j_ingest_attempt := Some (j_attempts r),
            j_ingest_agent_id := Some a, j_ingest_started_at := Some now\<rparr>"
  have r': "r' = (if j_status r \<in> set IN_FLIGHT then extend_lease ?r1 (now + ingest_window s) else ?r1)"
    using assms unfolding open_ingest_lease_def Let_def by simp
  show "same_life r r'" "j_results_idempotency_key r' = j_results_idempotency_key r"
    unfolding r' by (simp_all add: same_life_def same_row_def)
qed

text \<open>A successful first transaction, taken apart.\<close>

lemma open_upload_OkE:
  assumes "open_upload s now tok d u = Ok (d', ans)"
  obtains row info where "get_row d (up_job_id u) = Some row" "d' = d" "ans = Replayed info"
      "j_status row \<in> set TERMINAL" "reserve s now row u = Ok IsReplay"
  | row row1 row2 fence rid where "get_row d (up_job_id u) = Some row"
      "check_uploader row u = Ok ()" "reserve s now row u = Ok (LateArchive row1)"
      "open_ingest_lease s now tok row1 (up_agent_id u) = (row2, fence)"
      "confirm (j_run_id row) (up_run_id u) = Ok rid"
      "d' = put_row d row2" "ans = Opened (opened_of row u True rid fence)"
  | row row1 row2 fence rid where "get_row d (up_job_id u) = Some row"
      "check_uploader row u = Ok ()" "reserve s now row u = Ok (Proceed row1)"
      "can_transition (j_status row) (upload_status row u)"
      "open_ingest_lease s now tok row1 (up_agent_id u) = (row2, fence)"
      "confirm (j_run_id row) (up_run_id u) = Ok rid"
      "d' = put_row d row2" "ans = Opened (opened_of row u False rid fence)"
proof -
  obtain row where row: "get_row d (up_job_id u) = Some row"
    using assms by (cases "get_row d (up_job_id u)") (auto simp: open_upload_def)
  obtain res where chk: "check_uploader row u = Ok ()" and res: "reserve s now row u = Ok res"
    and tr: "(case res of Proceed _ \<Rightarrow> lift_err Transition
                     (check_transition (up_job_id u) (j_status row) (upload_status row u))
                 | _ \<Rightarrow> Ok ()) = Ok ()"
    using assms row by (auto simp: open_upload_def bindE_Ok_iff)
  obtain rid where rid: "confirm (j_run_id row) (up_run_id u) = Ok rid"
    using assms row res by (auto simp: open_upload_def bindE_Ok_iff)
  note facts = assms [unfolded open_upload_def row option.case chk res rid bindE_simps tr]
  show ?thesis
  proof (cases res)
    case IsReplay
    then have "j_status row \<in> set TERMINAL"
      using res by (auto simp: reserve_def Let_def bindE_Ok_iff split: if_splits)
    then show ?thesis using that(1) row facts res IsReplay by (auto simp: rid)
  next
    case (LateArchive row1)
    then show ?thesis using that(2) row facts res chk rid
      by (auto split: prod.splits)
  next
    case (Proceed row1)
    then show ?thesis using that(3) row facts res chk rid tr
      by (auto split: prod.splits)
  qed
qed

lemma reserve_same_life:
  assumes "reserve s now row u = Ok res"
  shows "res = LateArchive row1 \<Longrightarrow> same_life row row1"
    and "res = Proceed row1 \<Longrightarrow> j_status row \<notin> set TERMINAL \<Longrightarrow> same_life row row1"
    and "res = LateArchive row1 \<Longrightarrow> j_status row = CANCELLED \<and> j_exit_code row = None
           \<and> j_results_idempotency_key row = None \<and> j_results_idempotency_key row1 \<noteq> None"
  using assms
  by (auto simp: reserve_def accepts_late_archive_def same_life_def same_row_def Let_def bindE_Ok_iff
      split: if_splits)

lemma same_life_trans: "same_life a b \<Longrightarrow> same_life b c \<Longrightarrow> same_life a c"
  by (auto simp: same_life_def same_row_def)

lemma progress_open_upload:
  assumes "wf_jobs d" and "open_upload s now tok d u = Ok (d', ans)"
  shows "progress s L H d d'"
  using assms(2)
proof (cases rule: open_upload_OkE)
  case 1
  then show ?thesis by simp
next
  case (2 row row1 row2 fence rid)
  have "same_life row row2"
    using reserve_same_life(1) [OF 2(3) refl] open_ingest_same_life(1) [OF 2(4)] same_life_trans by blast
  then show ?thesis unfolding 2(6) by (intro progress_put [OF assms(1) 2(1)] keep)
next
  case (3 row row1 row2 fence rid)
  have "j_status row \<notin> set TERMINAL" using 3(4) terminal_stuck by blast
  then have "same_life row row2"
    using reserve_same_life(2) [OF 3(3) refl] open_ingest_same_life(1) [OF 3(5)] same_life_trans by blast
  then show ?thesis unfolding 3(7) by (intro progress_put [OF assms(1) 3(1)] keep)
qed

text \<open>
  The statuses an opened upload can carry: the late path records on a cancelled row, every
  other upload was a legal move to a terminal state when it was opened.
\<close>

lemma upload_status_terminal [simp]: "upload_status row u \<in> set TERMINAL"
  by (auto simp: upload_status_def state_simps Let_def)

lemma outcome_fields_status [simp]: "f_status (outcome_fields now u op) = Some (op_status op)"
  "f_exit_code (outcome_fields now u op) = Some (Some (up_exit_code u))"
  by (simp_all add: outcome_fields_def)

lemma progress_write_outcome:
  assumes "wf_jobs d" and "op_status op \<in> set TERMINAL" and "write_outcome now d u op p = Ok d'"
  shows "progress s L H d d'"
proof (cases "op_late op")
  case True
  with assms show ?thesis by (auto simp: write_outcome_def intro: progress_record_late)
next
  case False
  with assms(3) have "update_job d (up_job_id u) (Some (op_fence op)) p (outcome_fields now u op) = Ok d'"
    by (simp add: write_outcome_def)
  then show ?thesis using assms(1,2) progress_update_job by (metis outcome_fields_status(1))
qed

lemma progress_fail_rejected:
  assumes "wf_jobs d" and "op_status op \<in> set TERMINAL"
    and "fail_rejected_upload now d u op code reason = Ok d'"
  shows "progress s L H d d'"
proof -
  have st: "(if op_status op = SUCCEEDED then FAILED else op_status op) \<in> set TERMINAL"
    using assms(2) by (auto simp: state_simps)
  show ?thesis
    using assms(3) unfolding fail_rejected_upload_def
    by (rule progress_update_job [OF assms(1) _ st, rotated]) simp
qed

lemma progress_try_outcome:
  assumes "wf_jobs d" and "op_status op \<in> set TERMINAL" and "try_outcome s now v d u op = (d', e)"
  shows "progress s L H d d'"
proof -
  have w: "progress s L H d d1" if "(case write_outcome now d u op p of
            Inl e \<Rightarrow> (d, Some e) | Inr d2 \<Rightarrow> (d2, None)) = (d1, e1)" for p d1 e1
    using that progress_write_outcome [OF assms(1,2)]
    by (cases "write_outcome now d u op p") auto
  have r: "progress s L H d d1" if "(case fail_rejected_upload now (audit d a) u op code reason of
            Inl e \<Rightarrow> (audit d b, Some e) | Inr d2 \<Rightarrow> (d2, Some x)) = (d1, e1)" for a b code reason x d1 e1
  proof (cases "fail_rejected_upload now (audit d a) u op code reason")
    case (Inl e2)
    then show ?thesis using that by (auto intro: progress_same_jobs)
  next
    case (Inr d2)
    have "progress s L H d (audit d a)" by (rule progress_same_jobs) simp
    moreover have "progress s L H (audit d a) d2"
      using progress_fail_rejected [OF _ assms(2) Inr] assms(1) by simp
    ultimately show ?thesis using that Inr progress_trans by auto
  qed
  show ?thesis using assms(3)
    by (auto simp: try_outcome_def Let_def split: if_splits verdict.splits
        intro: progress_same_jobs w r)
qed

lemma progress_finish_upload:
  assumes "wf_jobs d" and "op_status op \<in> set TERMINAL"
    and "\<And>row. op_late op \<Longrightarrow> get_row d (up_job_id u) = Some row
            \<Longrightarrow> j_status row = CANCELLED \<and> j_exit_code row = None"
    and "op_late op \<Longrightarrow> up_job_id u \<in> L"
    and "finish_upload s now v d u op = (d', e)"
  shows "progress s L H d d'"
proof -
  obtain d1 e1 where t: "try_outcome s now v d u op = (d1, e1)" by fastforce
  have p1: "progress s L H d d1" using progress_try_outcome [OF assms(1,2) t] .
  have wf1: "wf_jobs d1" using progress_wf [OF p1 assms(1)] .
  show ?thesis
  proof (cases e1)
    case None
    then show ?thesis using assms(5) t p1
      by (auto simp: finish_upload_def touch_job_def intro: progress_cong)
  next
    case (Some err)
    have late: "j_status row = CANCELLED \<and> j_exit_code row = None"
      if "op_late op" "get_row d1 (up_job_id u) = Some row" for row
    proof -
      have "jobs d1 = jobs d"
        using t that(1) Some
        by (auto simp: try_outcome_def write_outcome_def Let_def split: if_splits verdict.splits sum.splits)
      then show ?thesis using assms(3) that by simp
    qed
    have "progress s L H d1 (abort_upload s now d1 u op)"
    proof (cases "held_key u op")
      case None
      then show ?thesis by (simp add: abort_upload_def progress_release_ingest_lease wf1)
    next
      case (Some key)
      let ?d2 = "release_results_reservation d1 (up_job_id u) key (op_late op)"
      have "progress s L H d1 ?d2" using progress_release_results [OF wf1 late assms(4)] .
      moreover from this have "progress s L H ?d2 (release_ingest_lease s now ?d2 (op_fence op))"
        using progress_release_ingest_lease progress_wf [OF _ wf1] by blast
      ultimately show ?thesis using Some by (simp add: abort_upload_def) (rule progress_trans)
    qed
    then have "progress s L H d (abort_upload s now d1 u op)" by (rule progress_trans [OF p1])
    then show ?thesis using assms(5) t Some by (simp add: finish_upload_def)
  qed
qed

section \<open>Sweeps, the queue and the local runner\<close>

definition reaped :: "settings \<Rightarrow> time \<Rightarrow> job \<Rightarrow> job" where
  "reaped s now r = (if retriable s r then requeue_row r else expire_row now r)"

lemma reaped_frame [simp]:
  "j_job_id (reaped s now r) = j_job_id r" "same_row r (reaped s now r)"
  "j_attempts (reaped s now r) = j_attempts r"
  by (simp_all add: reaped_def requeue_row_def expire_row_def same_row_def)

lemma reap_rows_put:
  "reap_rows s now sw rows = Ok sw' \<Longrightarrow>
     sw_db sw' = put_rows (sw_db sw) (map (reaped s now) rows)
     \<and> sw_requeued sw' = sw_requeued sw @ map j_job_id (filter (retriable s) rows)
     \<and> sw_failed sw' = sw_failed sw @ map (expire_row now) (filter (\<lambda>r. \<not> retriable s r) rows)"
proof (induction rows arbitrary: sw)
  case Nil
  then show ?case by simp
next
  case (Cons r rows)
  then obtain sw1 where "reap_row s now sw r = Ok sw1" "reap_rows s now sw1 rows = Ok sw'"
    by (auto simp: bindE_Ok_iff)
  with Cons.IH [of sw1] show ?case
    by (auto simp: reap_row_def reaped_def bindE_Ok_iff split: if_splits)
qed

text \<open>The sweep never raises: every selected row may make the move chosen for it.\<close>

lemma lease_expired_move:
  "lease_expired s now r \<Longrightarrow> can_transition (j_status r) (j_status (reaped s now r))"
  by (auto simp: lease_expired_def reaped_def requeue_row_def expire_row_def retriable_def state_simps)

lemma reap_rows_total:
  "\<forall>r \<in> set rows. lease_expired s now r \<Longrightarrow> \<exists>sw'. reap_rows s now sw rows = Ok sw'"
proof (induction rows arbitrary: sw)
  case Nil
  then show ?case by simp
next
  case (Cons r rows)
  have "can_transition (j_status r) (j_status (reaped s now r))"
    using Cons.prems lease_expired_move by simp
  then have "\<exists>sw1. reap_row s now sw r = Ok sw1"
    by (auto simp: reap_row_def reaped_def requeue_row_def expire_row_def bindE_def lift_err_def
        check_transition_def can_transition_known split: if_splits)
  with Cons show ?case by auto
qed

lemma foldl_emit_jobs [simp]: "jobs (foldl emit_event d es) = jobs d"
  by (induction es arbitrary: d) auto

lemma foldl_emit_frame [simp]:
  "publications (foldl emit_event d es) = publications d"
  "tenants (foldl emit_event d es) = tenants d" "agents (foldl emit_event d es) = agents d"
  by (induction es arbitrary: d) auto

lemma put_rows_frame [simp]:
  "publications (put_rows d rs) = publications d" "tenants (put_rows d rs) = tenants d"
  "agents (put_rows d rs) = agents d"
  by (induction rs arbitrary: d) auto

abbreviation expired_rows :: "settings \<Rightarrow> time \<Rightarrow> string list \<Rightarrow> db \<Rightarrow> job list" where
  "expired_rows s now locked d \<equiv>
     filter (\<lambda>row. lease_expired s now row \<and> j_job_id row \<notin> set locked) (jobs d)"

lemma reap_expired_Ok:
  "\<exists>d' n m. reap_expired_leases s now locked d = Ok (d', n, m)
     \<and> jobs d' = jobs (put_rows d (map (reaped s now) (expired_rows s now locked d)))
     \<and> publications d' = publications d \<and> tenants d' = tenants d"
proof -
  have "\<forall>r \<in> set (expired_rows s now locked d). lease_expired s now r" by simp
  from reap_rows_total [OF this] obtain sw' where
    sw: "reap_rows s now \<lparr>sw_db = d, sw_requeued = [], sw_failed = []\<rparr>
           (expired_rows s now locked d) = Ok sw'" by blast
  from reap_rows_put [OF this] show ?thesis
    by (auto simp: reap_expired_leases_def sw Let_def)
qed

lemma row_step_reaped:
  assumes "lease_expired s now r"
  shows "row_step s L H r (reaped s now r)"
proof (cases "retriable s r")
  case True
  then have "j_status r \<in> set IN_FLIGHT"
    using assms by (auto simp: lease_expired_def retriable_def)
  with True show ?thesis
    by (intro requeue) (simp_all, simp add: reaped_def requeue_row_def)
next
  case False
  with lease_expired_move [OF assms] show ?thesis
    by (intro conclude) (auto simp: reaped_def expire_row_def same_row_def state_simps)
qed

lemma progress_reap_expired:
  assumes "wf_jobs d" and "reap_expired_leases s now locked d = Ok (d', n, m)"
  shows "progress s L H d d'"
proof -
  have "progress s L H d (put_rows d (map (reaped s now) (expired_rows s now locked d)))"
    using assms(1) by (intro progress_put_rows) (auto simp: row_step_reaped)
  then show ?thesis
    using reap_expired_Ok [of s now locked d] assms(2) progress_cong by auto
qed

lemma give_up_rows_put:
  "give_up_rows s now d rows = Ok d' \<Longrightarrow> d' = put_rows d (map (give_up_row s now) rows)"
  by (induction rows arbitrary: d) (auto simp: bindE_Ok_iff)

lemma give_up_rows_total:
  "\<forall>r \<in> set rows. j_status r = CANCELLING \<Longrightarrow>
     give_up_rows s now d rows = Ok (put_rows d (map (give_up_row s now) rows))"
  by (induction rows arbitrary: d)
    (auto simp: check_transition_def state_simps)

lemma reap_stale_cancellations_Ok:
  "reap_stale_cancellations s now locked d =
     (let rows = filter (\<lambda>row. stale_cancellation s now row \<and> j_job_id row \<notin> set locked) (jobs d)
      in Ok (put_rows d (map (give_up_row s now) rows), length rows))"
  unfolding reap_stale_cancellations_def Let_def
  by (subst give_up_rows_total) (auto simp: stale_cancellation_def)

lemma sweep_ids [simp]:
  "j_job_id (give_up_row s now r) = j_job_id r" "j_job_id (interrupted_row now r) = j_job_id r"
  by (simp_all add: give_up_row_def interrupted_row_def)

lemma row_step_give_up:
  "stale_cancellation s now r \<Longrightarrow> row_step s L H r (give_up_row s now r)"
  by (intro conclude) (auto simp: stale_cancellation_def give_up_row_def same_row_def state_simps)

lemma progress_reap_stale:
  "wf_jobs d \<Longrightarrow> reap_stale_cancellations s now locked d = Ok (d', n) \<Longrightarrow> progress s L H d d'"
  unfolding reap_stale_cancellations_Ok Let_def
  by (auto intro!: progress_put_rows simp: row_step_give_up)

lemma fail_orphans_put:
  "fail_orphans now d rows = Ok d' \<Longrightarrow> d' = put_rows d (map (interrupted_row now) rows)"
  by (induction rows arbitrary: d) (auto simp: bindE_Ok_iff)

lemma row_step_interrupted: "orphan s' r \<Longrightarrow> row_step s L H r (interrupted_row now r)"
  by (intro conclude) (auto simp: orphan_def interrupted_row_def same_row_def state_simps)

lemma progress_load_jobs:
  "wf_jobs d \<Longrightarrow> load_jobs s' now d = Ok d' \<Longrightarrow> progress s L H d d'"
  unfolding load_jobs_def
  by (auto intro!: progress_put_rows simp: row_step_interrupted
      dest!: fail_orphans_put)

lemma progress_set_priority:
  assumes "wf_jobs d" and "set_priority d jid p tid mr u = Ok (d', info)"
  shows "progress s L H d d'"
proof -
  have "row_step s L H r (r\<lparr>j_priority := p\<rparr>)" for r
    by (rule keep) (simp add: same_life_def same_row_def)
  then show ?thesis using assms
    by (auto simp: set_priority_def Let_def bindE_Ok_iff split: option.splits if_splits
        intro!: progress_cong [OF progress_put])
qed

lemma map_filter_conv:
  "List.map_filter f xs = map (\<lambda>x. the (f x)) (filter (\<lambda>x. f x \<noteq> None) xs)"
  by (induction xs) (auto simp: List.map_filter_simps split: option.split)

lemma hold_row_life: "hold_row digest path pol r = Some r' \<Longrightarrow> same_life r r'"
  by (auto simp: hold_row_def Let_def same_life_def same_row_def split: option.splits if_splits)

lemma progress_apply_policy:
  assumes "wf_jobs d" and "apply_policy_to_queued digest path d tid pol = (n, d')"
  shows "progress s L H d d'"
proof (cases pol)
  case None
  then show ?thesis using assms(2) by (simp add: apply_policy_to_queued_def)
next
  case (Some p)
  let ?f = "\<lambda>r. case hold_row digest path p r of None \<Rightarrow> r | Some r' \<Rightarrow> r'"
  let ?P = "\<lambda>r. (j_tenant_id r = tid \<and> j_status r = QUEUED) \<and> hold_row digest path p r \<noteq> None"
  have life: "same_life r (?f r)" for r by (simp add: hold_row_life split: option.split)
  have "List.map_filter (hold_row digest path p)
          (filter (\<lambda>r. j_tenant_id r = tid \<and> j_status r = QUEUED) (jobs d))
        = map ?f (filter ?P (jobs d))"
    unfolding map_filter_conv filter_filter by (intro map_cong) (auto intro: filter_cong)
  then have "d' = put_rows d (map ?f (filter ?P (jobs d)))"
    using assms(2) Some by (simp add: apply_policy_to_queued_def Let_def)
  moreover have "j_job_id (?f r) = j_job_id r" for r using life [of r] by (simp add: same_life_def same_row_def)
  ultimately show ?thesis
    using life by (auto intro!: progress_put_rows [OF assms(1)] keep)
qed

lemma row_put_same: "distinct (map key xs) \<Longrightarrow> row_get key xs (key r) = Some r \<Longrightarrow> row_put key xs r = xs"
proof (induction xs)
  case Nil
  then show ?case by (simp add: row_put_def)
next
  case (Cons x xs)
  show ?case
  proof (cases "key x = key r")
    case True
    with Cons.prems row_put_absent [of key r xs] show ?thesis by (simp add: row_get_def row_put_def)
  next
    case False
    with Cons show ?thesis by (simp add: row_get_def row_put_def)
  qed
qed

lemma put_row_same: "wf_jobs d \<Longrightarrow> get_row d k = Some r \<Longrightarrow> jobs (put_row d r) = jobs d"
  using row_put_same [of j_job_id "jobs d" r] row_get_key [of j_job_id "jobs d" k r]
  by (simp add: put_row_def wf_jobs_def)

lemma set_wait_frame [simp]:
  "j_job_id (set_wait w r) = j_job_id r" "j_status (set_wait w r) = j_status r"
  "j_tenant_id (set_wait w r) = j_tenant_id r" "j_execution (set_wait w r) = j_execution r"
  "j_attempts (set_wait w r) = j_attempts r" "j_command (set_wait w r) = j_command r"
  "j_assigned_agent_id (set_wait w r) = j_assigned_agent_id r"
  "j_idempotency_key (set_wait w r) = j_idempotency_key r"
  "so_idempotency_digest (j_scan_options (set_wait w r)) = so_idempotency_digest (j_scan_options r)"
  "so_scan_policy (j_scan_options (set_wait w r)) = so_scan_policy (j_scan_options r)"
  "so_config_overlay (j_scan_options (set_wait w r)) = so_config_overlay (j_scan_options r)"
  "so_config_overlay_capability (j_scan_options (set_wait w r))
     = so_config_overlay_capability (j_scan_options r)"
  by (simp_all add: set_wait_def)

text \<open>
  The calendar gate writes at most the waiting reason of the row it was asked about, and
  lets it pass exactly when the calendar allows it.
\<close>

lemma admitted_facts:
  assumes "wf_jobs d" and "get_row d (j_job_id row) = Some row"
    and "admitted cal d row = (b, d1, row1)"
  shows "b = adm_allowed (cal row)" and "\<exists>w. row1 = set_wait w row"
    and "jobs d1 = jobs (put_row d row1)"
    and "publications d1 = publications d" "tenants d1 = tenants d" "agents d1 = agents d"
proof -
  have id: "row = set_wait (so_maintenance_wait (j_scan_options row)) row"
    by (simp add: set_wait_def)
  have "b = adm_allowed (cal row) \<and> (\<exists>w. row1 = set_wait w row)
      \<and> jobs d1 = jobs (put_row d row1)
      \<and> publications d1 = publications d \<and> tenants d1 = tenants d \<and> agents d1 = agents d"
    using assms(3) put_row_same [OF assms(1,2)] id
    unfolding admitted_def Let_def by (auto split: if_splits)
  then show "b = adm_allowed (cal row)" "\<exists>w. row1 = set_wait w row"
    "jobs d1 = jobs (put_row d row1)" "publications d1 = publications d" "tenants d1 = tenants d"
    "agents d1 = agents d"
    by auto
qed

lemma progress_start:
  assumes "wf_jobs d" and "H" and "start s now cal free d jid = Ok (d', b)"
    and "\<And>row. get_row d jid = Some row \<Longrightarrow> j_execution row = ''local''"
  shows "progress s L H d d'"
proof -
  obtain row where row: "get_row d jid = Some row"
    using assms(3) by (cases "get_row d jid") (auto simp: start_def)
  have id: "j_job_id row = jid" using row row_get_key by fastforce
  obtain allowed d1 row1 where adm: "admitted cal d row = (allowed, d1, row1)"
    by (metis prod_cases3)
  have tr: "can_transition (j_status row) RUNNING"
    using assms(3) row by (auto simp: start_def Let_def bindE_Ok_iff)
  note f = admitted_facts [OF assms(1) _ adm, unfolded id, OF row]
  obtain w where w: "row1 = set_wait w row" using f(2) by blast
  have p1: "progress s L H d d1"
    using progress_cong [OF progress_put [OF assms(1) row] f(3)] by (simp add: w)
  have wf1: "wf_jobs d1" using progress_wf [OF p1 assms(1)] .
  have row1: "get_row d1 jid = Some row1"
    using f(3) row by (simp add: get_put_row w id)
  have "row_step s L H row1 (row1\<lparr>j_status := RUNNING, j_started_at := Some now,
                         j_claimed_until := Some t, j_attempts := 1\<rparr>)" for t
    using assms(2) assms(4) [OF row] tr by (intro local_start) (auto simp: same_row_def w state_simps)
  then have "progress s L H d1 d'"
    using assms(3) row wf1 row1
    by (auto simp: start_def adm Let_def bindE_Ok_iff split: if_splits intro!: progress_put [of _ jid])
  then show ?thesis by (rule progress_trans [OF p1])
qed

lemma progress_finish_run:
  assumes "wf_jobs d" and "finish_run now d jid p rc err out rid = Ok d'"
  shows "progress s L H d d'"
proof -
  have st: "(if rc = 0 then SUCCEEDED else FAILED) \<in> set TERMINAL" by (simp add: state_simps)
  show ?thesis using assms(2) unfolding finish_run_def
    by (rule progress_update_job [OF assms(1) _ st, rotated]) simp
qed

lemma progress_crash_run:
  assumes "wf_jobs d" and "crash_run now d jid msg = Ok d'"
  shows "progress s L H d d'"
proof -
  let ?f = "no_fields\<lparr>f_status := Some FAILED, f_finished_at := Some (Some now),
                f_error := Some (Some (take 2000 msg))\<rparr>"
  have st: "FAILED \<in> set TERMINAL" by (simp add: state_simps)
  show ?thesis
  proof (cases "update_job d jid None None ?f")
    case (Inr d1)
    then have "d' = d1" using assms(2) by (simp add: crash_run_def)
    then show ?thesis using progress_update_job [OF assms(1) _ st Inr] by simp
  next
    case (Inl e)
    then have "update_job d jid None None (no_fields\<lparr>f_error := Some (Some (take 2000 msg))\<rparr>) = Ok d'"
      using assms(2) by (auto simp: crash_run_def split: service_error.splits)
    then show ?thesis by (rule progress_error_note [OF assms(1)])
  qed
qed

end
