(* ===== verification/Job_Claim.thy ===== *)
theory Job_Claim
  imports Job_Evolution
begin

text \<open>
  What a claim promises: the loop over the candidates returns the first one the calendar
  and the stored inputs let through and touches nothing but waiting reasons on the way;
  the job handed out is one the agent may run and the best of those, and an empty answer
  means there was none.
\<close>

section \<open>The candidate loop\<close>

definition waits :: "job \<Rightarrow> job \<Rightarrow> bool" where
  "waits r r' = (\<exists>w. r' = set_wait w r)"

lemma waits_refl [simp]: "waits r r"
  unfolding waits_def by (rule exI [of _ "so_maintenance_wait (j_scan_options r)"])
    (simp add: set_wait_def)

lemma waits_trans: "waits a b \<Longrightarrow> waits b c \<Longrightarrow> waits a c"
  by (auto simp: waits_def set_wait_def)

lemma waits_steps: "waits r r' \<Longrightarrow> row_steps s L H r r'"
  by (auto simp: waits_def)

lemma evolves_waits_trans: "evolves waits d e \<Longrightarrow> evolves waits e f \<Longrightarrow> evolves waits d f"
  by (rule evolves_trans [OF waits_trans])

definition inputs_of :: "input_store \<Rightarrow> job \<Rightarrow> (string \<times> string) list option" where
  "inputs_of store c =
     (case required_input_names (j_command c) of Inl _ \<Rightarrow> None
      | Inr req \<Rightarrow> (case read_job_inputs store (j_job_id c) req of Inl _ \<Rightarrow> None | Inr i \<Rightarrow> Some i))"

text \<open>A row the calendar and its inputs let through.\<close>

definition servable :: "(job \<Rightarrow> admission) \<Rightarrow> input_store \<Rightarrow> job \<Rightarrow> bool" where
  "servable cal store c = (adm_allowed (cal c) \<and> inputs_of store c \<noteq> None)"

definition same_frame :: "db \<Rightarrow> db \<Rightarrow> bool" where
  "same_frame d d' = (publications d' = publications d \<and> tenants d' = tenants d \<and> agents d' = agents d)"

lemma next_admitted_step:
  assumes "wf_jobs d" and "get_row d (j_job_id c) = Some c"
    and "admitted cal d c = (b, d1, c1)"
  shows "evolves waits d d1" and "get_row d1 (j_job_id c) = Some c1" and "waits c c1"
    and "b = adm_allowed (cal c)" and "same_frame d d1"
    and "k \<noteq> j_job_id c \<Longrightarrow> get_row d1 k = get_row d k" and "wf_jobs d1"
proof -
  note f = admitted_facts [OF assms]
  obtain w where w: "c1 = set_wait w c" using f(2) by blast
  have "evolves waits d (put_row d c1)"
    using assms(1,2) by (intro evolves_put [of d c1 c]) (auto simp: waits_def w)
  then show "evolves waits d d1" using f(3) by (simp add: evolves_def)
  show "get_row d1 (j_job_id c) = Some c1" using f(3) assms(2) by (simp add: get_put_row w)
  show "waits c c1" using w by (auto simp: waits_def)
  show "b = adm_allowed (cal c)" by (rule f(1))
  show "same_frame d d1" using f by (simp add: same_frame_def)
  show "k \<noteq> j_job_id c \<Longrightarrow> get_row d1 k = get_row d k" using f(3) by (simp add: get_put_row w)
  show "wf_jobs d1" using assms(1) f(3) by (simp add: wf_jobs_def put_row_def)
qed

lemma next_admitted_facts:
  assumes "wf_jobs d" and "\<forall>c \<in> set cs. get_row d (j_job_id c) = Some c"
    and "distinct (map j_job_id cs)" and "next_admitted cal store named d cs = Ok (d', found)"
  shows "evolves waits d d' \<and> same_frame d d'
     \<and> (\<forall>k. k \<notin> j_job_id ` set cs \<longrightarrow> get_row d' k = get_row d k)
     \<and> (case found of
          None \<Rightarrow> \<forall>c \<in> set cs. \<not> servable cal store c
        | Some (row, inputs) \<Rightarrow>
            (\<exists>pre c post. cs = pre @ c # post \<and> waits c row \<and> get_row d' (j_job_id c) = Some row
               \<and> servable cal store c \<and> inputs_of store c = Some inputs
               \<and> (\<forall>x \<in> set pre. \<not> servable cal store x)))"
  using assms
proof (induction cs arbitrary: d)
  case Nil
  then show ?case by (simp add: evolves_refl same_frame_def)
next
  case (Cons c cs)
  obtain b d1 c1 where adm: "admitted cal d c = (b, d1, c1)" by (metis prod_cases3)
  have c: "get_row d (j_job_id c) = Some c" using Cons.prems(2) by simp
  note st = next_admitted_step [OF Cons.prems(1) c adm]
  have notin: "j_job_id c \<notin> j_job_id ` set cs" using Cons.prems(3) by simp
  have keep: "\<forall>x \<in> set cs. get_row d1 (j_job_id x) = Some x"
    using Cons.prems(2) notin st(6) by (metis image_eqI list.set_intros(2))
  have skip: ?case if "next_admitted cal store named d1 cs = Ok (d', found)" "\<not> servable cal store c"
  proof -
    note IH = Cons.IH [OF st(7) keep _ that(1)]
    have dist: "distinct (map j_job_id cs)" using Cons.prems(3) by simp
    have e: "evolves waits d d'" using IH [OF dist] evolves_waits_trans [OF st(1)] by blast
    have fr: "same_frame d d'" using IH [OF dist] st(5) by (auto simp: same_frame_def)
    have other: "get_row d' k = get_row d k" if "k \<notin> j_job_id ` set (c # cs)" for k
      using IH [OF dist] st(6) that by auto
    have found: "case found of
          None \<Rightarrow> \<forall>c \<in> set (c # cs). \<not> servable cal store c
        | Some (row, inputs) \<Rightarrow>
            (\<exists>pre x post. c # cs = pre @ x # post \<and> waits x row \<and> get_row d' (j_job_id x) = Some row
               \<and> servable cal store x \<and> inputs_of store x = Some inputs
               \<and> (\<forall>y \<in> set pre. \<not> servable cal store y))"
      using IH [OF dist] that(2)
      by (auto split: option.splits) (metis append_Cons set_ConsD)
    show ?thesis using e fr other found by blast
  qed
  show ?case
  proof (cases "servable cal store c")
    case True
    then obtain req inputs where ri: "adm_allowed (cal c)" "required_input_names (j_command c) = Ok req"
      "read_job_inputs store (j_job_id c) req = Ok inputs" "inputs_of store c = Some inputs"
      by (auto simp: servable_def inputs_of_def split: sum.splits)
    then have "d' = d1" "found = Some (c1, inputs)"
      using Cons.prems(4) st(4) by (simp_all add: adm)
    moreover have "\<exists>pre x post. c # cs = pre @ x # post \<and> waits x c1 \<and> get_row d1 (j_job_id x) = Some c1
               \<and> servable cal store x \<and> inputs_of store x = Some inputs
               \<and> (\<forall>y \<in> set pre. \<not> servable cal store y)"
      using st(2,3) True ri(4) by (intro exI [of _ "[]"] exI [of _ c] exI [of _ cs]) simp
    moreover have "get_row d1 k = get_row d k" if "k \<notin> j_job_id ` set (c # cs)" for k
      using st(6) that by auto
    ultimately show ?thesis using st(1,5) by simp
  next
    case False
    have "next_admitted cal store named d1 cs = Ok (d', found)"
      using Cons.prems(4) False st(4)
      by (auto simp: adm servable_def inputs_of_def split: if_splits sum.splits)
    then show ?thesis using skip False by blast
  qed
qed

section \<open>The candidates\<close>

lemma set_candidates:
  "set (candidates locked ag tid named P d)
     = {r \<in> set (jobs d). eligible ag tid named r \<and> P r \<and> j_job_id r \<notin> set locked}"
  by (auto simp: candidates_def)

lemma candidates_facts:
  assumes "wf_jobs d"
  shows "\<forall>c \<in> set (candidates locked ag tid named P d). get_row d (j_job_id c) = Some c"
    and "distinct (map j_job_id (candidates locked ag tid named P d))"
    and "sorted (map claim_key (candidates locked ag tid named P d))"
proof -
  show "\<forall>c \<in> set (candidates locked ag tid named P d). get_row d (j_job_id c) = Some c"
    using assms by (auto simp: set_candidates wf_jobs_def row_get_Some_iff)
  have "distinct (jobs d)" and inj: "inj_on j_job_id (set (jobs d))"
    using assms by (auto simp: wf_jobs_def distinct_map)
  then show "distinct (map j_job_id (candidates locked ag tid named P d))"
    unfolding distinct_map
    by (auto simp: candidates_def claim_order_def intro: inj_on_subset)
  show "sorted (map claim_key (candidates locked ag tid named P d))"
    by (simp add: candidates_def claim_order_sorted)
qed

lemma runnable_or_blocked: "blocked caps r \<longleftrightarrow> \<not> runnable caps r"
  by (auto simp: blocked_def runnable_def)

lemma waits_eligible:
  "waits r r' \<Longrightarrow> eligible ag tid named r' = eligible ag tid named r \<and> runnable caps r' = runnable caps r
     \<and> claim_key r' = claim_key r \<and> j_job_id r' = j_job_id r"
  by (auto simp: waits_def eligible_def runnable_def claim_key_def group_reach_def overlay_needed_def
      set_wait_def)

lemma first_servable_best:
  assumes "sorted (map claim_key (pre @ c # post))" and "\<forall>x \<in> set pre. \<not> Q x"
    and "x \<in> set (pre @ c # post)" and "Q x"
  shows "claim_key c \<le> claim_key x"
  using assms by (auto simp: sorted_append)

section \<open>The claim, taken apart\<close>

text \<open>Rows the second query sees are rows the first one did not touch.\<close>

lemma blocked_untouched:
  assumes "wf_jobs d" and "evolves waits d d1"
    and "\<forall>k. k \<notin> j_job_id ` set (candidates locked ag tid named (runnable caps) d)
            \<longrightarrow> get_row d1 k = get_row d k"
    and "c \<in> set (candidates locked ag tid named (blocked caps) d1)"
  shows "get_row d (j_job_id c) = Some c"
proof -
  have wf1: "wf_jobs d1"
    using progress_wf [OF evolves_mono [OF assms(2) waits_steps] assms(1)] .
  have c: "get_row d1 (j_job_id c) = Some c" "\<not> runnable caps c"
    using assms(4) candidates_facts(1) [OF wf1] by (auto simp: set_candidates runnable_or_blocked)
  have "j_job_id c \<notin> j_job_id ` set (candidates locked ag tid named (runnable caps) d)"
  proof
    assume "j_job_id c \<in> j_job_id ` set (candidates locked ag tid named (runnable caps) d)"
    then obtain r where r: "get_row d (j_job_id c) = Some r" "runnable caps r"
      using candidates_facts(1) [OF assms(1)] by (fastforce simp: set_candidates)
    then obtain r' where "get_row d1 (j_job_id c) = Some r'" "waits r r'"
      using evolves_get [OF assms(2)] waits_eligible by blast
    then show False using c r(2) waits_eligible by fastforce
  qed
  then show ?thesis using assms(3) c(1) by simp
qed

lemma blocked_candidates_iff:
  assumes "wf_jobs d" and "evolves waits d d1"
    and "\<forall>k. k \<notin> j_job_id ` set (candidates locked ag tid named (runnable caps) d)
            \<longrightarrow> get_row d1 k = get_row d k"
  shows "set (candidates locked ag tid named (blocked caps) d1)
           = set (candidates locked ag tid named (blocked caps) d)"
proof -
  have wf1: "wf_jobs d1"
    using progress_wf [OF evolves_mono [OF assms(2) waits_steps] assms(1)] .
  have "c \<in> set (jobs d)" if "c \<in> set (candidates locked ag tid named (blocked caps) d1)" for c
    using blocked_untouched [OF assms that] row_get_mem by fastforce
  moreover have "c \<in> set (jobs d1)" if c: "c \<in> set (candidates locked ag tid named (blocked caps) d)" for c
  proof -
    have "j_job_id c \<notin> j_job_id ` set (candidates locked ag tid named (runnable caps) d)"
      using c assms(1) by (auto simp: set_candidates runnable_or_blocked wf_jobs_def distinct_map inj_on_def)
    then have "get_row d1 (j_job_id c) = Some c"
      using assms(3) candidates_facts(1) [OF assms(1)] c by auto
    then show ?thesis by (rule row_get_mem)
  qed
  ultimately show ?thesis by (auto simp: set_candidates)
qed

lemma claim_none:
  assumes "wf_jobs d" and "row_get a_agent_id (agents d) aid = Some ag"
    and "tid = or_text tid_arg (a_tenant_id ag)"
    and "claim_job s now cal store locked minted d aid named tid_arg = Ok (d', None)"
  shows "evolves waits d d' \<and> same_frame d d'"
    and "hold_slot d tid True True \<Longrightarrow>
           \<forall>r \<in> set (jobs d). eligible ag tid named r \<and> j_job_id r \<notin> set locked
              \<longrightarrow> \<not> servable cal store r"
proof -
  let ?N = "truthy_text named"
  let ?C = "\<lambda>P d. candidates locked ag tid named P d"
  let ?caps = "a_capabilities ag"
  note case_defs = claim_job_def assms(2) option.case Let_def assms(3) [symmetric]
  have main: "evolves waits d d' \<and> same_frame d d' \<and>
     (\<forall>r \<in> set (jobs d). eligible ag tid named r \<and> j_job_id r \<notin> set locked \<longrightarrow> \<not> servable cal store r)"
    if slot: "hold_slot d tid True True"
  proof -
    obtain d1 f1 where n1: "next_admitted cal store ?N d (?C (runnable ?caps) d) = Ok (d1, f1)"
      using assms(4) slot by (auto simp: case_defs bindE_Ok_iff)
    have f1: "f1 = None"
      using assms(4) slot n1 by (cases f1) (auto simp: case_defs bindE_Ok_iff)
    then obtain d2 f2 where n: "next_admitted cal store ?N d1 (?C (blocked ?caps) d1) = Ok (d2, f2)"
      using assms(4) slot n1 by (auto simp: case_defs bindE_Ok_iff)
    then have n2: "next_admitted cal store ?N d1 (?C (blocked ?caps) d1) = Ok (d', None)"
      using assms(4) slot n1 f1 by (cases f2) (auto simp: case_defs bindE_Ok_iff)
    note c1 = next_admitted_facts [OF assms(1) candidates_facts(1,2) [OF assms(1)] n1]
    have wf1: "wf_jobs d1"
      using progress_wf [OF evolves_mono [OF _ waits_steps] assms(1)] c1 by blast
    note c2 = next_admitted_facts [OF wf1 candidates_facts(1,2) [OF wf1] n2]
    have "set (?C (blocked ?caps) d1) = set (?C (blocked ?caps) d)"
      using blocked_candidates_iff [OF assms(1)] c1 by blast
    then have "\<forall>r \<in> set (?C (runnable ?caps) d) \<union> set (?C (blocked ?caps) d). \<not> servable cal store r"
      using c1 c2 f1 by auto
    then have "\<forall>r \<in> set (jobs d). eligible ag tid named r \<and> j_job_id r \<notin> set locked
                 \<longrightarrow> \<not> servable cal store r"
      by (auto simp: set_candidates runnable_or_blocked)
    then show ?thesis using c1 c2 evolves_waits_trans by (auto simp: same_frame_def)
  qed
  have "evolves waits d d' \<and> same_frame d d'" if "\<not> hold_slot d tid True True"
    using assms(4) that by (auto simp: case_defs evolves_refl same_frame_def)
  with main show "evolves waits d d' \<and> same_frame d d'"
    and "hold_slot d tid True True \<Longrightarrow>
           \<forall>r \<in> set (jobs d). eligible ag tid named r \<and> j_job_id r \<notin> set locked
              \<longrightarrow> \<not> servable cal store r"
    by blast+
qed

lemma claim_someE:
  assumes "wf_jobs d" and "row_get a_agent_id (agents d) aid = Some ag"
    and "tid = or_text tid_arg (a_tenant_id ag)"
    and "claim_job s now cal store locked minted d aid named tid_arg = Ok (d', Some resp)"
  obtains c row d2 inputs row1 where
    "hold_slot d tid True True" "get_row d (j_job_id c) = Some c"
    "eligible ag tid named c" "j_job_id c \<notin> set locked" "servable cal store c"
    "inputs_of store c = Some inputs" "waits c row" "evolves waits d d2" "same_frame d d2"
    "get_row d2 (j_job_id c) = Some row" "claim_refusal ag row = Ok ()"
    "hand_out s now minted aid row = Ok row1"
    "d' = touch_job s now (put_row d2 row1) aid (Some (j_job_id row1)) ''busy''"
    "resp = claim_of row1 inputs"
    "\<forall>x \<in> set (jobs d). eligible ag tid named x \<and> runnable (a_capabilities ag) x
        \<and> j_job_id x \<notin> set locked \<and> servable cal store x
        \<longrightarrow> runnable (a_capabilities ag) c \<and> claim_key c \<le> claim_key x"
proof -
  let ?N = "truthy_text named"
  let ?C = "\<lambda>P d. candidates locked ag tid named P d"
  let ?caps = "a_capabilities ag"
  note case_defs = claim_job_def assms(2) option.case Let_def assms(3) [symmetric]
  have slot: "hold_slot d tid True True"
    using assms(4) by (auto simp: case_defs split: if_splits)
  obtain d1 f1 where n1: "next_admitted cal store ?N d (?C (runnable ?caps) d) = Ok (d1, f1)"
    using assms(4) slot by (auto simp: case_defs bindE_Ok_iff)
  note c1 = next_admitted_facts [OF assms(1) candidates_facts(1,2) [OF assms(1)] n1]
  have wf1: "wf_jobs d1"
    using progress_wf [OF evolves_mono [OF _ waits_steps] assms(1)] c1 by blast
  have e1: "evolves waits d d1" "same_frame d d1" using c1 by auto
  show ?thesis
  proof (cases f1)
    case (Some ri)
    obtain row inputs where ri: "ri = (row, inputs)" by force
    obtain pre c post where cs: "?C (runnable ?caps) d = pre @ c # post" and c: "waits c row"
      "get_row d1 (j_job_id c) = Some row" "servable cal store c" "inputs_of store c = Some inputs"
      "\<forall>x \<in> set pre. \<not> servable cal store x"
      using c1 Some ri by auto
    have mem: "c \<in> set (?C (runnable ?caps) d)" using cs by simp
    obtain row1 where fin: "claim_refusal ag row = Ok ()" "hand_out s now minted aid row = Ok row1"
      "d' = touch_job s now (put_row d1 row1) aid (Some (j_job_id row1)) ''busy''"
      "resp = claim_of row1 inputs"
      using assms(4) slot n1 Some ri by (auto simp: case_defs bindE_Ok_iff)
    have best: "\<forall>x \<in> set (jobs d). eligible ag tid named x \<and> runnable ?caps x
        \<and> j_job_id x \<notin> set locked \<and> servable cal store x
        \<longrightarrow> runnable ?caps c \<and> claim_key c \<le> claim_key x"
    proof (intro ballI impI conjI)
      fix x assume x: "x \<in> set (jobs d)" "eligible ag tid named x \<and> runnable ?caps x
        \<and> j_job_id x \<notin> set locked \<and> servable cal store x"
      show "runnable ?caps c" using mem by (simp add: set_candidates)
      have "x \<in> set (pre @ c # post)" using x by (simp add: cs [symmetric] set_candidates)
      then show "claim_key c \<le> claim_key x"
        using first_servable_best [OF _ c(5)] candidates_facts(3) [OF assms(1)] x cs by metis
    qed
    show ?thesis
      using that [OF slot _ _ _ c(3,4,1) e1 c(2) fin best] mem candidates_facts(1) [OF assms(1)]
      by (auto simp: set_candidates)
  next
    case None
    obtain d2 f2 where n2: "next_admitted cal store ?N d1 (?C (blocked ?caps) d1) = Ok (d2, f2)"
      using assms(4) slot n1 None by (auto simp: case_defs bindE_Ok_iff)
    note c2 = next_admitted_facts [OF wf1 candidates_facts(1,2) [OF wf1] n2]
    obtain row inputs where f2: "f2 = Some (row, inputs)"
      using assms(4) slot n1 None n2 by (cases f2) (auto simp: case_defs bindE_Ok_iff)
    obtain pre c post where cs: "?C (blocked ?caps) d1 = pre @ c # post" and c': "waits c row"
      "get_row d2 (j_job_id c) = Some row" "servable cal store c" "inputs_of store c = Some inputs"
      using c2 f2 by auto
    have c: "c \<in> set (?C (blocked ?caps) d1)" "waits c row"
      "get_row d2 (j_job_id c) = Some row" "servable cal store c" "inputs_of store c = Some inputs"
      using cs c' by simp_all
    obtain row1 where fin: "claim_refusal ag row = Ok ()" "hand_out s now minted aid row = Ok row1"
      "d' = touch_job s now (put_row d2 row1) aid (Some (j_job_id row1)) ''busy''"
      "resp = claim_of row1 inputs"
      using assms(4) slot n1 None n2 f2 by (auto simp: case_defs bindE_Ok_iff)
    have g: "get_row d (j_job_id c) = Some c"
      using blocked_untouched [OF assms(1) e1(1) _ c(1)] c1 by blast
    have e2: "evolves waits d d2" "same_frame d d2"
      using e1 c2 evolves_waits_trans by (auto simp: same_frame_def)
    have best: "\<forall>x \<in> set (jobs d). eligible ag tid named x \<and> runnable ?caps x
        \<and> j_job_id x \<notin> set locked \<and> servable cal store x
        \<longrightarrow> runnable ?caps c \<and> claim_key c \<le> claim_key x"
      using c1 None by (auto simp: set_candidates)
    show ?thesis
      using that [OF slot g _ _ c(4,5,2) e2 c(3) fin best] c(1) by (auto simp: set_candidates)
  qed
qed

section \<open>What a claim gives\<close>

lemma hand_out_row:
  assumes "hand_out s now minted aid row = Ok row1"
  shows "j_status row = QUEUED" and "j_status row1 = CLAIMED" and "same_row row row1"
    and "j_assigned_agent_id row1 = Some aid" and "j_attempts row1 = j_attempts row + 1"
    and "j_claimed_until row1 = Some (lease_deadline s now)" and "j_job_id row1 = j_job_id row"
    and "j_run_id row1 \<noteq> None"
  using assms
  by (auto simp: hand_out_def bindE_Ok_iff same_row_def state_simps truthy_text_def)

lemma claim_refusal_Ok:
  "claim_refusal ag row = Ok u \<Longrightarrow> set (required_capabilities (j_scan_options row)) \<subseteq> set (a_capabilities ag)"
  by (auto simp: claim_refusal_def required_capabilities_def split: if_splits option.splits)

lemma required_capabilities_wait [simp]:
  "required_capabilities (j_scan_options (set_wait w c)) = required_capabilities (j_scan_options c)"
  by (simp add: set_wait_def required_capabilities_def overlay_capability_def
      split: option.split list.split)

lemma waits_caps: "waits c row \<Longrightarrow>
    required_capabilities (j_scan_options row) = required_capabilities (j_scan_options c)
    \<and> same_row c row \<and> j_status row = j_status c \<and> j_assigned_agent_id row = j_assigned_agent_id c
    \<and> j_attempts row = j_attempts c"
  by (auto simp: waits_def same_row_def)

lemma touch_job_frame [simp]:
  "jobs (touch_job s now d a j st) = jobs d" "publications (touch_job s now d a j st) = publications d"
  "tenants (touch_job s now d a j st) = tenants d"
  by (simp_all add: touch_job_def)

lemma progress_claim_job:
  assumes "wf_jobs d" and "claim_job s now cal store locked minted d aid named tid_arg = Ok (d', ans)"
  shows "progress s L True d d'" and "publications d' = publications d" and "tenants d' = tenants d"
proof -
  obtain ag where ag: "row_get a_agent_id (agents d) aid = Some ag"
    using assms(2) by (auto simp: claim_job_def split: option.splits)
  have "progress s L True d d' \<and> publications d' = publications d \<and> tenants d' = tenants d"
  proof (cases ans)
    case None
    then have "evolves waits d d' \<and> same_frame d d'"
      using claim_none(1) [OF assms(1) ag refl] assms(2) by simp
    then show ?thesis using evolves_mono [of waits d d' "row_steps s L True"] waits_steps
      by (simp add: same_frame_def)
  next
    case (Some resp)
    with assms(2) have eq: "claim_job s now cal store locked minted d aid named tid_arg = Ok (d', Some resp)"
      by simp
    show ?thesis
    proof (cases rule: claim_someE [OF assms(1) ag refl eq, case_names claim])
      case (claim c row d2 inputs row1)
      note h = hand_out_row [OF claim(12)]
      have p: "progress s L True d d2" using evolves_mono [OF claim(8) waits_steps] .
      have "row_step s L True row row1"
        using h waits_caps [OF claim(7)] claim(3) by (intro hand_out) (auto simp: eligible_def same_row_def)
      then have "progress s L True d2 (put_row d2 row1)"
        by (rule progress_put [OF progress_wf [OF p assms(1)] claim(10)])
      then have "progress s L True d2 d'" by (rule progress_cong) (simp add: claim(13))
      then show ?thesis using progress_trans [OF p] claim(9) by (simp add: same_frame_def claim(13))
    qed
  qed
  then show "progress s L True d d'" "publications d' = publications d" "tenants d' = tenants d" by auto
qed

lemma claim_occupancy:
  assumes "wf_jobs d" and "claim_job s now cal store locked minted d aid named tid_arg = Ok (d', ans)"
    and "concurrency_limit d t = Some lim"
  shows "int (count_rows (occupying t) d') \<le> max lim (int (count_rows (occupying t) d))"
proof -
  obtain ag where ag: "row_get a_agent_id (agents d) aid = Some ag"
    using assms(2) by (auto simp: claim_job_def split: option.splits)
  let ?tid = "or_text tid_arg (a_tenant_id ag)"
  have w: "count_rows (occupying t) e \<le> count_rows (occupying t) d" if "evolves waits d e" for e
    using that by (rule evolves_count) (auto simp: waits_def occupying_def)
  show ?thesis
  proof (cases ans)
    case None
    then show ?thesis using claim_none(1) [OF assms(1) ag refl] assms(2) w by fastforce
  next
    case (Some resp)
    with assms(2) have eq: "claim_job s now cal store locked minted d aid named tid_arg = Ok (d', Some resp)"
      by simp
    show ?thesis
    proof (cases rule: claim_someE [OF assms(1) ag refl eq, case_names claim])
      case (claim c row d2 inputs row1)
      note h = hand_out_row [OF claim(12)]
      have wf2: "wf_jobs d2" using progress_wf [OF evolves_mono [OF claim(8) waits_steps] assms(1)] .
      have id: "j_job_id row1 = j_job_id c"
        using h(7) waits_caps [OF claim(7)] by (simp add: same_row_def)
      have tid: "j_tenant_id row1 = ?tid"
        using h(3) waits_caps [OF claim(7)] claim(3) by (simp add: same_row_def eligible_def)
      have cnt: "count_rows (occupying t) d' = count_rows (occupying t) (put_row d2 row1)"
        by (simp add: claim(13) count_rows_def)
      have "get_row d2 (j_job_id row1) = Some row" using claim(10) id by simp
      note put = job_table.count_put_Suc [OF wf2 this, of "occupying t"]
        job_table.count_put_le [OF wf2 this, of "occupying t"]
      show ?thesis
      proof (cases "t = ?tid")
        case True
        then have "int (count_rows (occupying t) d) < lim" using hold_slot_room claim(1) assms(3) by blast
        then show ?thesis using put(1) w [OF claim(8)] cnt by linarith
      next
        case False
        then have "\<not> occupying t row1" using tid by (simp add: occupying_def)
        then show ?thesis using put(2) w [OF claim(8)] cnt by force
      qed
    qed
  qed
qed

end
