(* ===== verification/Job_Submission.thy ===== *)
theory Job_Submission
  imports Job_Store
begin

text \<open>
  The durable part of \<^verbatim>\<open>api/services/job_submission.py\<close>: what a client's idempotency key is
  compared on, the lookup of an existing job, the row \<open>start_scan\<close> inserts, and the insert
  transaction with its refusals (inactive tenant, unknown agent group, a key already
  used). Admission has decided the fields of \<open>submission\<close> before; SHA-256 over the
  canonical payload is the argument \<open>sha\<close>. The primary key, the unique index
  \<^verbatim>\<open>uq_jobs_tenant_idempotency_key\<close> and the foreign key on the tenant are the database's.
\<close>

section \<open>What a key stands for\<close>

record scan_request =
  rq_mode :: string
  rq_intent :: "string option"
  rq_delta :: bool
  rq_skip_nse :: bool
  rq_notify :: bool
  rq_export_defectdojo :: bool
  rq_surface :: "string option"
  rq_wordlist_id :: "string option"
  rq_agent_group :: "string option"
  rq_ranges :: "string option"
  rq_domains :: "string option"
  rq_ports :: "string option"
  rq_ports_udp :: "string option"
  rq_priority :: int

definition normalised_target_text :: "string option \<Rightarrow> string option" where
  "normalised_target_text text =
     map_option (\<lambda>t. join_with [CHR 0x0A] (map strip (filter (\<lambda>l. strip l \<noteq> []) (splitlines t)))) text"

text \<open>The fields of the payload: the plain ones of the request, the targets normalised.\<close>

definition idempotency_payload :: "scan_request \<Rightarrow> scan_request" where
  "idempotency_payload r = r\<lparr>
     rq_ranges := normalised_target_text (rq_ranges r),
     rq_domains := normalised_target_text (rq_domains r),
     rq_ports := normalised_target_text (rq_ports r),
     rq_ports_udp := normalised_target_text (rq_ports_udp r), rq_priority := 0\<rparr>"

definition idempotency_digest :: "(scan_request \<Rightarrow> string) \<Rightarrow> scan_request \<Rightarrow> string" where
  "idempotency_digest sha r = sha (idempotency_payload r)"

datatype submit_error =
    TenantNotActive string
  | UnknownAgentGroup string string
  | IdempotencyMismatch job_info
  | IdempotentReplay job_info
  | IntegrityError

definition find_by_idempotency_key ::
  "(scan_request \<Rightarrow> string) \<Rightarrow> db \<Rightarrow> string \<Rightarrow> string \<Rightarrow> scan_request option \<Rightarrow> submit_error + job_info option" where
  "find_by_idempotency_key sha d tid key request =
     (if key = [] then Ok None
      else case find (\<lambda>r. j_tenant_id r = tid \<and> j_idempotency_key r = Some key) (jobs d) of
        None \<Rightarrow> Ok None
      | Some row \<Rightarrow>
          let info = to_info row None None; stored = so_idempotency_digest (j_scan_options row) in
          (case request of None \<Rightarrow> Ok (Some info)
           | Some rq \<Rightarrow>
               if truthy_text stored \<and> stored \<noteq> Some (idempotency_digest sha rq)
               then Err (IdempotencyMismatch info) else Ok (Some info)))"

section \<open>The row and its insert\<close>

record submission =
  sb_job_id :: string
  sb_tenant_id :: string
  sb_execution :: string
  sb_mode :: string
  sb_delta :: bool
  sb_skip_nse :: bool
  sb_run_id :: "string option"
  sb_command :: "string list"
  sb_policy_snapshot :: "policy_snapshot option"
  sb_overlay :: "(string \<times> string) list option"
  sb_overlay_capability :: string
  sb_surface :: "string option"
  sb_agent_group :: "string option"
  sb_target_counts :: "(string \<times> int) list option"
  sb_username :: string
  sb_quota_exempt :: bool

definition has_overlay :: "submission \<Rightarrow> bool" where
  "has_overlay sb = (sb_overlay sb \<noteq> None \<and> sb_overlay sb \<noteq> Some [])"

definition new_scan_options ::
  "(scan_request \<Rightarrow> string) \<Rightarrow> submission \<Rightarrow> scan_request \<Rightarrow> string option \<Rightarrow> scan_options" where
  "new_scan_options sha sb rq key =
     \<lparr>so_mode = Some (sb_mode sb), so_delta = sb_delta sb,
      so_skip_nse = (sb_skip_nse sb \<or>
        (case sb_policy_snapshot sb of None \<Rightarrow> False | Some p \<Rightarrow> skip_service_probe (fst p))),
      so_notify = rq_notify rq, so_export_defectdojo = rq_export_defectdojo rq,
      so_surface = sb_surface sb,
      so_surface_source = (if truthy_text (rq_surface rq) then Some ''operator''
                           else if truthy_text (sb_surface sb) then Some ''derived'' else None),
      so_scan_policy = sb_policy_snapshot sb,
      so_config_overlay = (if has_overlay sb then sb_overlay sb else None),
      so_config_overlay_capability =
        (if has_overlay sb then Some (sb_overlay_capability sb) else None),
      so_maintenance_wait = None,
      so_idempotency_digest = (if truthy_text key then Some (idempotency_digest sha rq) else None)\<rparr>"

definition new_job_row ::
  "settings \<Rightarrow> time \<Rightarrow> (scan_request \<Rightarrow> string) \<Rightarrow> submission \<Rightarrow> scan_request \<Rightarrow> string option \<Rightarrow> job" where
  "new_job_row s now sha sb rq key =
     \<lparr>j_job_id = sb_job_id sb, j_tenant_id = sb_tenant_id sb, j_status = QUEUED,
      j_execution = sb_execution sb, j_mode = sb_mode sb, j_run_id = sb_run_id sb,
      j_command = sb_command sb, j_scan_options = new_scan_options sha sb rq key,
      j_target_counts = sb_target_counts sb, j_requested_by = sb_username sb,
      j_assigned_agent_id = None, j_agent_group = sb_agent_group sb,
      j_owner_id = (if sb_execution sb = ''local'' then Some (instance_id s) else None),
      j_idempotency_key = (if truthy_text key then key else None),
      j_results_idempotency_key = None, j_claimed_until = None, j_attempts = 0,
      j_ingest_token = None, j_ingest_attempt = None, j_ingest_agent_id = None,
      j_ingest_started_at = None, j_cancel_requested_at = None, j_priority = rq_priority rq,
      j_queued_at = now, j_started_at = None, j_finished_at = None, j_exit_code = None,
      j_error = None, j_asset_upsert_error = None, j_quota_exempt = sb_quota_exempt sb\<rparr>"

definition key_taken :: "db \<Rightarrow> job \<Rightarrow> bool" where
  "key_taken d row =
     list_ex (\<lambda>r. j_job_id r = j_job_id row
        \<or> (j_idempotency_key row \<noteq> None \<and> j_tenant_id r = j_tenant_id row
           \<and> j_idempotency_key r = j_idempotency_key row)) (jobs d)"

definition insert_job ::
  "settings \<Rightarrow> time \<Rightarrow> (scan_request \<Rightarrow> string) \<Rightarrow> (string \<times> string) list \<Rightarrow> db \<Rightarrow> submission \<Rightarrow>
   scan_request \<Rightarrow> string option \<Rightarrow> submit_error + (db \<times> job_info)" where
  "insert_job s now sha groups d sb rq key =
     (let tid = sb_tenant_id sb; row = new_job_row s now sha sb rq key;
          known = row_get t_tenant_id (tenants d) tid in
      if known \<noteq> None \<and> t_status (the known) \<noteq> ''active'' then Err (TenantNotActive tid)
      else if truthy_text (sb_agent_group sb) \<and> (tid, the (sb_agent_group sb)) \<notin> set groups
      then Err (UnknownAgentGroup tid (the (sb_agent_group sb)))
      else if known = None \<or> key_taken d row then
        (case find_by_idempotency_key sha d tid (or_text key []) (Some rq) of
           Inl e \<Rightarrow> Err e
         | Inr None \<Rightarrow> Err IntegrityError
         | Inr (Some info) \<Rightarrow> Err (IdempotentReplay info))
      else Ok (d\<lparr>jobs := jobs d @ [row]\<rparr>, to_info row None None))"

section \<open>Lemmas\<close>

text \<open>Two jobs of one tenant never share a client key.\<close>

definition unique_keys :: "db \<Rightarrow> bool" where
  "unique_keys d \<longleftrightarrow> (\<forall>a \<in> set (jobs d). \<forall>b \<in> set (jobs d).
     j_tenant_id a = j_tenant_id b \<and> j_idempotency_key a \<noteq> None
       \<and> j_idempotency_key a = j_idempotency_key b \<longrightarrow> a = b)"

lemma insert_job_OkE:
  assumes "insert_job s now sha groups d sb rq key = Ok (d', info)"
  obtains "d' = d\<lparr>jobs := jobs d @ [new_job_row s now sha sb rq key]\<rparr>"
    "\<not> key_taken d (new_job_row s now sha sb rq key)"
  using assms
  by (auto simp: insert_job_def Let_def split: option.splits if_splits sum.splits)

lemma wf_insert_job:
  assumes "wf_jobs d" and "insert_job s now sha groups d sb rq key = Ok (d', info)"
  shows "wf_jobs d'"
  using assms(2)
proof (cases rule: insert_job_OkE)
  case 1
  then show ?thesis using assms(1)
    by (auto simp: wf_jobs_def key_taken_def list_ex_iff)
qed

lemma new_job_row_simps [simp]:
  "j_job_id (new_job_row s now sha sb rq key) = sb_job_id sb"
  "j_status (new_job_row s now sha sb rq key) = QUEUED"
  "j_attempts (new_job_row s now sha sb rq key) = 0"
  "j_tenant_id (new_job_row s now sha sb rq key) = sb_tenant_id sb"
  "j_idempotency_key (new_job_row s now sha sb rq key) = (if truthy_text key then key else None)"
  "so_idempotency_digest (j_scan_options (new_job_row s now sha sb rq key))
     = (if truthy_text key then Some (idempotency_digest sha rq) else None)"
  by (simp_all add: new_job_row_def new_scan_options_def)

lemma find_app: "find P (xs @ ys) = (case find P xs of None \<Rightarrow> find P ys | Some x \<Rightarrow> Some x)"
  by (induction xs) auto

lemma find_new_row:
  assumes "truthy_text key" and "\<not> key_taken d (new_job_row s now sha sb rq key)"
  shows "find (\<lambda>r. j_tenant_id r = sb_tenant_id sb \<and> j_idempotency_key r = Some (the key))
           (jobs d @ [new_job_row s now sha sb rq key]) = Some (new_job_row s now sha sb rq key)"
proof -
  have k: "Some (the key) = key" using assms(1) by (cases key) auto
  have "\<forall>r \<in> set (jobs d). \<not> (j_tenant_id r = sb_tenant_id sb \<and> j_idempotency_key r = key)"
    using assms by (auto simp: key_taken_def list_ex_iff k)
  then have "find (\<lambda>r. j_tenant_id r = sb_tenant_id sb \<and> j_idempotency_key r = key) (jobs d) = None"
    by (auto simp: find_None_iff)
  then show ?thesis using assms(1) by (simp add: k find_app)
qed

end
