(* ===== verification/Job_System.thy ===== *)
theory Job_System
  imports Job_Claim Job_Submission
begin

text \<open>
  The job control plane as a state machine. A state is the database, the uploads whose
  archive is being processed by some replica (between the two transactions of
  \<open>complete_job\<close>), the ingest tokens issued so far and the clock. A step is one committed
  transaction of one service, by any replica, agent or operator; its arguments (calendar,
  locked rows, exit codes, run ids) are arbitrary, so the invariants hold under every
  interleaving. A replica may die with an upload in hand. Tokens are fresh, as \<^verbatim>\<open>uuid4\<close>
  ones are; a runner thread exists for local jobs only.
\<close>

record sys =
  sys_db :: db
  sys_inflight :: "(upload \<times> opened) list"
  sys_tokens :: "string list"
  sys_clock :: time

inductive step :: "settings \<Rightarrow> sys \<Rightarrow> sys \<Rightarrow> bool" for s :: settings where
  submit: "insert_job s' (sys_clock \<sigma>) sha groups (sys_db \<sigma>) sb rq key = Ok (d, info) \<Longrightarrow>
    step s \<sigma> (\<sigma>\<lparr>sys_db := d\<rparr>)"
| claim: "claim_job s (sys_clock \<sigma>) cal store locked minted (sys_db \<sigma>) aid named tid = Ok (d, ans) \<Longrightarrow>
    step s \<sigma> (\<sigma>\<lparr>sys_db := d\<rparr>)"
| heartbeat: "mark_running s (sys_clock \<sigma>) (sys_db \<sigma>) jid aid = (b, d) \<Longrightarrow>
    step s \<sigma> (\<sigma>\<lparr>sys_db := d\<rparr>)"
| renewal: "renew_lease s (sys_clock \<sigma>) (sys_db \<sigma>) jid aopt = (b, d) \<Longrightarrow>
    step s \<sigma> (\<sigma>\<lparr>sys_db := d\<rparr>)"
| stop: "cancel_job s (sys_clock \<sigma>) (sys_db \<sigma>) jid username topt = Ok (d, row) \<Longrightarrow>
    step s \<sigma> (\<sigma>\<lparr>sys_db := d\<rparr>)"
| replayed: "open_upload s (sys_clock \<sigma>) token (sys_db \<sigma>) u = Ok (d, Replayed info) \<Longrightarrow>
    step s \<sigma> (\<sigma>\<lparr>sys_db := d\<rparr>)"
| opened: "token \<notin> set (sys_tokens \<sigma>) \<Longrightarrow>
    open_upload s (sys_clock \<sigma>) token (sys_db \<sigma>) u = Ok (d, Opened op) \<Longrightarrow>
    step s \<sigma> (\<sigma>\<lparr>sys_db := d, sys_inflight := (u, op) # sys_inflight \<sigma>,
                 sys_tokens := token # sys_tokens \<sigma>\<rparr>)"
| finished: "sys_inflight \<sigma> = pre @ (u, op) # post \<Longrightarrow>
    finish_upload s (sys_clock \<sigma>) v (sys_db \<sigma>) u op = (d, e) \<Longrightarrow>
    step s \<sigma> (\<sigma>\<lparr>sys_db := d, sys_inflight := pre @ post\<rparr>)"
| died: "sys_inflight \<sigma> = pre @ (u, op) # post \<Longrightarrow>
    step s \<sigma> (\<sigma>\<lparr>sys_inflight := pre @ post\<rparr>)"
| reap_leases: "reap_expired_leases s (sys_clock \<sigma>) locked (sys_db \<sigma>) = Ok (d, n, m) \<Longrightarrow>
    step s \<sigma> (\<sigma>\<lparr>sys_db := d\<rparr>)"
| reap_stops: "reap_stale_cancellations s (sys_clock \<sigma>) locked (sys_db \<sigma>) = Ok (d, n) \<Longrightarrow>
    step s \<sigma> (\<sigma>\<lparr>sys_db := d\<rparr>)"
| restart: "load_jobs s' (sys_clock \<sigma>) (sys_db \<sigma>) = Ok d \<Longrightarrow>
    step s \<sigma> (\<sigma>\<lparr>sys_db := d\<rparr>)"
| local_started: "\<forall>row. get_row (sys_db \<sigma>) jid = Some row \<longrightarrow> j_execution row = ''local'' \<Longrightarrow>
    start s (sys_clock \<sigma>) cal free (sys_db \<sigma>) jid = Ok (d, b) \<Longrightarrow>
    step s \<sigma> (\<sigma>\<lparr>sys_db := d\<rparr>)"
| local_finished: "\<forall>p. popt = Some p \<longrightarrow> pub_job_id p = jid \<Longrightarrow>
    finish_run (sys_clock \<sigma>) (sys_db \<sigma>) jid popt rc err out rid = Ok d \<Longrightarrow>
    step s \<sigma> (\<sigma>\<lparr>sys_db := d\<rparr>)"
| local_crashed: "crash_run (sys_clock \<sigma>) (sys_db \<sigma>) jid message = Ok d \<Longrightarrow>
    step s \<sigma> (\<sigma>\<lparr>sys_db := d\<rparr>)"
| reprioritised: "set_priority (sys_db \<sigma>) jid prio topt may_raise username = Ok (d, info) \<Longrightarrow>
    step s \<sigma> (\<sigma>\<lparr>sys_db := d\<rparr>)"
| limits: "set_limits (sys_db \<sigma>) tid c q = Ok (d, ql) \<Longrightarrow>
    step s \<sigma> (\<sigma>\<lparr>sys_db := d\<rparr>)"
| held: "apply_policy_to_queued digest path (sys_db \<sigma>) tid pol = (n, d) \<Longrightarrow>
    step s \<sigma> (\<sigma>\<lparr>sys_db := d\<rparr>)"
| time_passes: "sys_clock \<sigma> \<le> t \<Longrightarrow> step s \<sigma> (\<sigma>\<lparr>sys_clock := t\<rparr>)"

definition initial :: "db \<Rightarrow> sys \<Rightarrow> bool" where
  "initial d0 \<sigma> = (sys_db \<sigma> = d0 \<and> jobs d0 = [] \<and> publications d0 = [] \<and> sys_inflight \<sigma> = []
     \<and> sys_tokens \<sigma> = [])"

abbreviation reaches :: "settings \<Rightarrow> sys \<Rightarrow> sys \<Rightarrow> bool" where
  "reaches s \<equiv> (step s)\<^sup>*\<^sup>*"

section \<open>Publications of an upload\<close>

definition pubs :: "db \<Rightarrow> string \<Rightarrow> nat" where
  "pubs d jid = length (filter (\<lambda>p. pub_job_id p = jid) (publications d))"

definition late_open :: "(upload \<times> opened) list \<Rightarrow> string \<Rightarrow> nat" where
  "late_open us jid = length (filter (\<lambda>(u, op). op_late op \<and> up_job_id u = jid) us)"

lemma release_frame [simp]:
  "publications (release_results_reservation d j k l) = publications d"
  "tenants (release_results_reservation d j k l) = tenants d"
  "publications (release_ingest_lease s now d f) = publications d"
  "tenants (release_ingest_lease s now d f) = tenants d"
  by (auto simp: release_results_reservation_def release_ingest_lease_def Let_def split: option.split)

lemma abort_frame [simp]:
  "publications (abort_upload s now d u op) = publications d"
  "tenants (abort_upload s now d u op) = tenants d"
  by (auto simp: abort_upload_def split: option.split)

text \<open>
  A publication appears only with a terminal write that the fence let through: the
  ordinary one moves a live job to a terminal state and records the exit code, the late
  one leaves the lifecycle as it was.
\<close>

lemma write_outcome_pubs:
  assumes "write_outcome now d u op p = Ok d'" and "get_row d (up_job_id u) = Some row"
  shows "publications d' = publications d @ (case p of None \<Rightarrow> [] | Some x \<Rightarrow> [x])"
    and "tenants d' = tenants d" and "fence_holds row (op_fence op)"
    and "\<exists>row'. get_row d' (up_job_id u) = Some row' \<and>
      (if op_late op then same_life row row'
       else can_transition (j_status row) (op_status op) \<and> j_status row' = op_status op
            \<and> j_exit_code row' = Some (up_exit_code u))"
proof -
  have main: "publications d' = publications d @ (case p of None \<Rightarrow> [] | Some x \<Rightarrow> [x])
    \<and> tenants d' = tenants d \<and> fence_holds row (op_fence op)
    \<and> (\<exists>row'. get_row d' (up_job_id u) = Some row' \<and>
      (if op_late op then same_life row row'
       else can_transition (j_status row) (op_status op) \<and> j_status row' = op_status op
            \<and> j_exit_code row' = Some (up_exit_code u)))"
  proof (cases "op_late op")
    case True
    then have rec: "record_late_cancellation_archive d (up_job_id u) (up_agent_id u)
        (if truthy_text (op_run_id op) then op_run_id op else None) (op_fence op) p = Ok d'"
      using assms(1) by (simp add: write_outcome_def)
    then show ?thesis
    proof (cases rule: record_late_OkE)
      case 1
      then show ?thesis using assms(2) by simp
    next
      case (2 r)
      let ?r = "late_row r (up_agent_id u) (if truthy_text (op_run_id op) then op_run_id op else None)"
      have life: "same_life row ?r" using 2(1) assms(2) by simp
      then have id: "j_job_id ?r = up_job_id u"
        using row_get_key [OF assms(2)] by (simp add: same_life_def same_row_def)
      have "get_row d' (up_job_id u) = Some ?r"
        unfolding 2(3) using assms(2) id by (simp add: get_put_row)
      then show ?thesis using True life 2(1,2) assms(2)
        by (simp add: 2(3) add_publication_def split: option.split)
    qed
  next
    case False
    then have "update_job d (up_job_id u) (Some (op_fence op)) p (outcome_fields now u op) = Ok d'"
      using assms(1) by (simp add: write_outcome_def)
    then show ?thesis
    proof (cases rule: update_job_OkE)
      case 1
      then show ?thesis using assms(2) by simp
    next
      case (2 r)
      have r: "r = row" using 2(1) assms(2) by simp
      let ?r = "set_fields (terminal_default (outcome_fields now u op)) (clear_ingest row)"
      have "j_job_id ?r = up_job_id u" using row_get_key [OF assms(2)] by simp
      then have "get_row d' (up_job_id u) = Some ?r"
        using 2(4) assms(2) r by (simp add: get_put_row)
      moreover have "j_exit_code ?r = Some (up_exit_code u)" by (simp add: set_fields_def)
      ultimately show ?thesis using False 2 r by simp
    qed
  qed
  then show "publications d' = publications d @ (case p of None \<Rightarrow> [] | Some x \<Rightarrow> [x])"
    "tenants d' = tenants d" "fence_holds row (op_fence op)"
    "\<exists>row'. get_row d' (up_job_id u) = Some row' \<and>
      (if op_late op then same_life row row'
       else can_transition (j_status row) (op_status op) \<and> j_status row' = op_status op
            \<and> j_exit_code row' = Some (up_exit_code u))" by blast+
qed

definition landed :: "db \<Rightarrow> db \<Rightarrow> upload \<Rightarrow> opened \<Rightarrow> bool" where
  "landed d d' u op \<longleftrightarrow> (\<exists>p row row'. publications d' = publications d @ [p]
     \<and> pub_job_id p = up_job_id u \<and> get_row d (up_job_id u) = Some row
     \<and> fence_holds row (op_fence op) \<and> get_row d' (up_job_id u) = Some row'
     \<and> (if op_late op then same_life row row'
        else can_transition (j_status row) (op_status op) \<and> j_status row' = op_status op
             \<and> j_exit_code row' = Some (up_exit_code u)))"

lemma try_outcome_pubs:
  assumes "try_outcome s now v d u op = (d', e)"
  shows "tenants d' = tenants d \<and> (publications d' = publications d \<or> e = None \<and> landed d d' u op)"
proof -
  have w: "tenants d1 = tenants d \<and> (publications d1 = publications d \<or> e1 = None \<and> landed d d1 u op)"
    if wr: "(case write_outcome now d u op p of Inl x \<Rightarrow> (d, Some x) | Inr d2 \<Rightarrow> (d2, None)) = (d1, e1)"
      and p: "\<And>x. p = Some x \<Longrightarrow> pub_job_id x = up_job_id u" for p d1 e1
  proof (cases "write_outcome now d u op p")
    case (Inl x)
    then show ?thesis using wr by auto
  next
    case (Inr d2)
    then have d1: "d1 = d2" "e1 = None" using wr by auto
    show ?thesis
    proof (cases "get_row d (up_job_id u)")
      case None
      then have "d2 = d" using Inr
        by (auto simp: write_outcome_def update_job_def record_late_cancellation_archive_def split: if_splits)
      then show ?thesis using d1 by simp
    next
      case (Some row)
      note f = write_outcome_pubs [OF Inr Some]
      show ?thesis
      proof (cases p)
        case None
        then show ?thesis using f(1,2) d1 by simp
      next
        case (Some x)
        then have "landed d d1 u op"
          unfolding landed_def using f p \<open>get_row d (up_job_id u) = Some row\<close> d1(1) by auto
        then show ?thesis using f(2) d1 by simp
      qed
    qed
  qed
  have r: "tenants d1 = tenants d \<and> publications d1 = publications d"
    if "(case fail_rejected_upload now (audit d a) u op code reason of
            Inl x \<Rightarrow> (audit d b, Some x) | Inr d2 \<Rightarrow> (d2, Some y)) = (d1, e1)" for a b code reason y d1 e1
  proof (cases "fail_rejected_upload now (audit d a) u op code reason")
    case (Inl x)
    then show ?thesis using that by auto
  next
    case (Inr d2)
    then have "tenants d2 = tenants d \<and> publications d2 = publications d"
      unfolding fail_rejected_upload_def by (cases rule: update_job_OkE) auto
    then show ?thesis using that Inr by auto
  qed
  show ?thesis
    using assms
    by (auto simp: try_outcome_def Let_def new_publication_def split: if_splits verdict.splits
        dest!: w r)
qed

lemma landed_cong:
  "jobs e = jobs d' \<Longrightarrow> publications e = publications d' \<Longrightarrow> landed d e u op = landed d d' u op"
  by (simp add: landed_def)

lemma finish_upload_pubs:
  assumes "finish_upload s now v d u op = (d', e)"
  shows "tenants d' = tenants d" and "publications d' = publications d \<or> landed d d' u op"
proof -
  obtain d1 e1 where t: "try_outcome s now v d u op = (d1, e1)" by fastforce
  have d': "d' = (case e1 of None \<Rightarrow> touch_job s now d1 (up_agent_id u) None ''idle''
                   | Some _ \<Rightarrow> abort_upload s now d1 u op)"
    using assms t by (auto simp: finish_upload_def split: option.splits)
  show "tenants d' = tenants d" using try_outcome_pubs [OF t] by (simp add: d' split: option.split)
  show "publications d' = publications d \<or> landed d d' u op"
    using try_outcome_pubs [OF t] landed_cong [of d' d1 d u op] by (auto simp: d' split: option.split)
qed

section \<open>The invariant\<close>

definition attempts_ok :: "settings \<Rightarrow> job \<Rightarrow> bool" where
  "attempts_ok s r = (0 \<le> j_attempts r \<and> j_attempts r \<le> max 1 (job_max_attempts s)
     \<and> (j_status r = QUEUED \<longrightarrow> j_attempts r = 0 \<or> j_attempts r < job_max_attempts s))"

definition late_held :: "job \<Rightarrow> bool" where
  "late_held r = (j_status r = CANCELLED \<and> j_exit_code r = None \<and> j_results_idempotency_key r \<noteq> None)"

definition settled :: "job \<Rightarrow> bool" where
  "settled r = (j_status r \<in> set TERMINAL
     \<and> (j_exit_code r \<noteq> None \<or> j_results_idempotency_key r \<noteq> None))"

definition inflight_ok :: "db \<Rightarrow> upload \<times> opened \<Rightarrow> bool" where
  "inflight_ok d uo = (op_status (snd uo) \<in> set TERMINAL
     \<and> (op_late (snd uo) \<longrightarrow> (\<exists>row. get_row d (up_job_id (fst uo)) = Some row \<and> late_held row)))"

definition sys_inv :: "settings \<Rightarrow> sys \<Rightarrow> bool" where
  "sys_inv s \<sigma> \<longleftrightarrow> wf_jobs (sys_db \<sigma>) \<and> (\<forall>r \<in> set (jobs (sys_db \<sigma>)). attempts_ok s r)
     \<and> (\<forall>uo \<in> set (sys_inflight \<sigma>). inflight_ok (sys_db \<sigma>) uo)
     \<and> (\<forall>j. pubs (sys_db \<sigma>) j + late_open (sys_inflight \<sigma>) j \<le> 1)
     \<and> (\<forall>j. 0 < pubs (sys_db \<sigma>) j \<longrightarrow> (\<exists>row. get_row (sys_db \<sigma>) j = Some row \<and> settled row))"

lemma sys_invI:
  "wf_jobs (sys_db \<sigma>) \<Longrightarrow> (\<And>r. r \<in> set (jobs (sys_db \<sigma>)) \<Longrightarrow> attempts_ok s r) \<Longrightarrow>
   (\<And>uo. uo \<in> set (sys_inflight \<sigma>) \<Longrightarrow> inflight_ok (sys_db \<sigma>) uo) \<Longrightarrow>
   (\<And>j. pubs (sys_db \<sigma>) j + late_open (sys_inflight \<sigma>) j \<le> 1) \<Longrightarrow>
   (\<And>j. 0 < pubs (sys_db \<sigma>) j \<Longrightarrow> \<exists>row. get_row (sys_db \<sigma>) j = Some row \<and> settled row) \<Longrightarrow>
   sys_inv s \<sigma>"
  by (simp add: sys_inv_def)

lemma sys_invD:
  assumes "sys_inv s \<sigma>"
  shows "wf_jobs (sys_db \<sigma>)" and "r \<in> set (jobs (sys_db \<sigma>)) \<Longrightarrow> attempts_ok s r"
    and "uo \<in> set (sys_inflight \<sigma>) \<Longrightarrow> inflight_ok (sys_db \<sigma>) uo"
    and "pubs (sys_db \<sigma>) j + late_open (sys_inflight \<sigma>) j \<le> 1"
    and "0 < pubs (sys_db \<sigma>) j \<Longrightarrow> \<exists>row. get_row (sys_db \<sigma>) j = Some row \<and> settled row"
  using assms by (auto simp: sys_inv_def)

lemma attempts_ok_step: "row_step s L H r r' \<Longrightarrow> attempts_ok s r \<Longrightarrow> attempts_ok s r'"
  by (erule row_stepE) (auto simp: attempts_ok_def same_life_def retriable_def state_simps)

lemma attempts_ok_steps: "row_steps s L H r r' \<Longrightarrow> attempts_ok s r \<Longrightarrow> attempts_ok s r'"
  by (induction rule: rtranclp_induct) (auto intro: attempts_ok_step)

lemma late_held_step:
  "row_step s L H r r' \<Longrightarrow> j_job_id r \<notin> L \<Longrightarrow> late_held r \<Longrightarrow> late_held r'"
  by (erule row_stepE) (auto simp: late_held_def same_life_def state_simps)

lemma settled_step:
  "row_step s L H r r' \<Longrightarrow> j_job_id r \<notin> L \<Longrightarrow> settled r \<Longrightarrow> settled r'"
  by (erule row_stepE) (auto simp: settled_def same_life_def state_simps)

lemma kept_steps:
  "row_steps s L H r r' \<Longrightarrow> j_job_id r \<notin> L \<Longrightarrow> (late_held r \<longrightarrow> late_held r') \<and> (settled r \<longrightarrow> settled r')"
proof (induction rule: rtranclp_induct)
  case base
  then show ?case by simp
next
  case (step y z)
  then have "j_job_id y \<notin> L" using row_steps_id by simp
  then show ?case using step late_held_step settled_step by blast
qed

lemma kept_progress:
  assumes "progress s L H d d'" and "get_row d j = Some r" and "j \<notin> L"
  shows "\<exists>r'. get_row d' j = Some r' \<and> (late_held r \<longrightarrow> late_held r') \<and> (settled r \<longrightarrow> settled r')"
proof -
  obtain r' where r': "get_row d' j = Some r'" "row_steps s L H r r'"
    using evolves_get [of "row_steps s L H" d d' j r] row_steps_id assms(1,2) by blast
  then show ?thesis using kept_steps [OF r'(2)] assms(3) row_get_key [OF assms(2)] by auto
qed

lemma inflight_ok_progress:
  assumes "progress s L H d d'" and "inflight_ok d uo" and "op_late (snd uo) \<longrightarrow> up_job_id (fst uo) \<notin> L"
  shows "inflight_ok d' uo"
  using assms kept_progress [OF assms(1)] unfolding inflight_ok_def by blast

text \<open>
  A step that only moves rows, gives no late reservation back and publishes nothing keeps
  the invariant.
\<close>

lemma inv_progress:
  assumes "sys_inv s \<sigma>" and "progress s {} H (sys_db \<sigma>) d" and "publications d = publications (sys_db \<sigma>)"
  shows "sys_inv s (\<sigma>\<lparr>sys_db := d\<rparr>)"
proof -
  have p: "pubs d j = pubs (sys_db \<sigma>) j" for j using assms(3) by (simp add: pubs_def)
  have old: "wf_jobs (sys_db \<sigma>)" "\<forall>r \<in> set (jobs (sys_db \<sigma>)). attempts_ok s r"
    "\<forall>uo \<in> set (sys_inflight \<sigma>). inflight_ok (sys_db \<sigma>) uo"
    "\<And>j. pubs (sys_db \<sigma>) j + late_open (sys_inflight \<sigma>) j \<le> 1"
    "\<And>j. 0 < pubs (sys_db \<sigma>) j \<Longrightarrow> \<exists>row. get_row (sys_db \<sigma>) j = Some row \<and> settled row"
    using assms(1) by (auto simp: sys_inv_def)
  have "\<forall>r \<in> set (jobs d). attempts_ok s r"
    using evolves_all [OF assms(2) _ old(2)] attempts_ok_steps by blast
  moreover have "\<forall>uo \<in> set (sys_inflight \<sigma>). inflight_ok d uo"
    using old(3) inflight_ok_progress [OF assms(2)] by simp
  moreover have "\<exists>row. get_row d j = Some row \<and> settled row" if "0 < pubs d j" for j
    using old(5) [of j] that kept_progress [OF assms(2)] by (fastforce simp: p)
  ultimately show ?thesis
    using progress_wf [OF assms(2) old(1)] old(4) by (simp add: sys_inv_def p)
qed

section \<open>What the operations leave alone\<close>

text \<open>Only uploads and the local terminal write publish; only \<open>set_limits\<close> changes a ceiling.\<close>

abbreviation frame_kept :: "db \<Rightarrow> db \<Rightarrow> bool" where
  "frame_kept d d' \<equiv> publications d' = publications d \<and> tenants d' = tenants d"

lemma frame_mark_running: "mark_running s now d jid a = (b, d') \<Longrightarrow> frame_kept d d'"
  by (auto simp: mark_running_def Let_def split: option.splits if_splits)

lemma frame_renew_lease: "renew_lease s now d jid a = (b, d') \<Longrightarrow> frame_kept d d'"
  by (auto simp: renew_lease_def split: option.splits if_splits)

lemma audit_frame [simp]: "publications (audit d e) = publications d" "tenants (audit d e) = tenants d"
  by (simp_all add: audit_def)

lemma frame_cancel_job: "cancel_job s now d jid u t = Ok (d', r) \<Longrightarrow> frame_kept d d'"
  by (auto simp: cancel_job_def Let_def bindE_Ok_iff split: option.splits if_splits)

lemma frame_open_upload: "open_upload s now tok d u = Ok (d', ans) \<Longrightarrow> frame_kept d d'"
  by (erule open_upload_OkE) auto

lemma frame_reap_expired: "reap_expired_leases s now l d = Ok (d', n, m) \<Longrightarrow> frame_kept d d'"
  using reap_expired_Ok [of s now l d] by auto

lemma frame_reap_stale: "reap_stale_cancellations s now l d = Ok (d', n) \<Longrightarrow> frame_kept d d'"
  by (auto simp: reap_stale_cancellations_Ok Let_def)

lemma frame_load_jobs: "load_jobs s now d = Ok d' \<Longrightarrow> frame_kept d d'"
  by (auto simp: load_jobs_def dest!: fail_orphans_put)

lemma frame_set_priority: "set_priority d jid p t m u = Ok (d', i) \<Longrightarrow> frame_kept d d'"
  by (auto simp: set_priority_def Let_def bindE_Ok_iff split: option.splits if_splits)

lemma frame_apply_policy: "apply_policy_to_queued g q d t p = (n, d') \<Longrightarrow> frame_kept d d'"
  by (auto simp: apply_policy_to_queued_def Let_def split: option.splits)

lemma frame_admitted: "admitted cal d row = (b, d1, r1) \<Longrightarrow> frame_kept d d1"
  by (auto simp: admitted_def Let_def split: if_splits)

lemma frame_start: "start s now cal free d jid = Ok (d', b) \<Longrightarrow> frame_kept d d'"
  by (auto simp: start_def Let_def bindE_Ok_iff split: option.splits if_splits prod.splits
      dest!: frame_admitted)

lemma frame_update_job: "update_job d jid f None fs = Ok d' \<Longrightarrow> frame_kept d d'"
  by (erule update_job_OkE) auto

lemma frame_crash_run: "crash_run now d jid m = Ok d' \<Longrightarrow> frame_kept d d'"
  by (auto simp: crash_run_def split: sum.splits service_error.splits dest!: frame_update_job)

lemma set_limits_jobs: "set_limits d t c q = Ok (d', l) \<Longrightarrow> jobs d' = jobs d \<and> publications d' = publications d"
  by (auto simp: set_limits_def Let_def split: option.splits if_splits)

lemmas frames = frame_mark_running frame_renew_lease frame_cancel_job frame_open_upload
  frame_reap_expired frame_reap_stale frame_load_jobs frame_set_priority frame_apply_policy
  frame_start frame_crash_run

section \<open>Uploads keep the invariant\<close>

lemma opened_of_simps [simp]:
  "op_status (opened_of r u l i f) = upload_status r u" "op_late (opened_of r u l i f) = l"
  "op_fence (opened_of r u l i f) = f" "op_run_id (opened_of r u l i f) = i"
  by (simp_all add: opened_of_def)

lemma late_open_zero:
  assumes "\<forall>uo \<in> set us. inflight_ok d uo" and "get_row d j = Some row" and "\<not> late_held row"
  shows "late_open us j = 0"
proof -
  have "\<not> (op_late op \<and> up_job_id u = j)" if "(u, op) \<in> set us" for u op
    using assms that by (fastforce simp: inflight_ok_def)
  then show ?thesis by (auto simp: late_open_def filter_empty_conv)
qed

lemma inv_opened:
  assumes "sys_inv s \<sigma>" and "open_upload s now tok (sys_db \<sigma>) u = Ok (d, Opened op)"
  shows "sys_inv s (\<sigma>\<lparr>sys_db := d, sys_inflight := (u, op) # sys_inflight \<sigma>, sys_tokens := ts\<rparr>)"
proof -
  let ?d = "sys_db \<sigma>"
  have wf: "wf_jobs ?d" using assms(1) by (simp add: sys_inv_def)
  have p: "progress s {} H ?d d" for H using progress_open_upload [OF wf assms(2)] .
  have i: "sys_inv s (\<sigma>\<lparr>sys_db := d\<rparr>)"
    using inv_progress [OF assms(1) p] frame_open_upload [OF assms(2)] by simp
  have st: "op_status op \<in> set TERMINAL"
    using assms(2) by (rule open_upload_OkE) auto
  have late: "pubs d (up_job_id u) = 0 \<and> late_open (sys_inflight \<sigma>) (up_job_id u) = 0
      \<and> (\<exists>row. get_row d (up_job_id u) = Some row \<and> late_held row)" if "op_late op"
    using assms(2)
  proof (cases rule: open_upload_OkE)
    case (2 row row1 row2 fence rid)
    note r = reserve_same_life(3) [OF 2(3) refl]
    have "\<not> settled row" "\<not> late_held row" using r by (auto simp: settled_def late_held_def)
    then have n: "pubs ?d (up_job_id u) = 0" "late_open (sys_inflight \<sigma>) (up_job_id u) = 0"
      using assms(1) 2(1)
      by (auto simp: sys_inv_def inflight_ok_def late_open_def filter_empty_conv)
    have "late_held row2"
      using r reserve_same_life(1) [OF 2(3) refl] open_ingest_same_life [OF 2(4)]
      by (auto simp: late_held_def same_life_def)
    moreover have "j_job_id row2 = up_job_id u"
      using reserve_same_life(1) [OF 2(3) refl] open_ingest_same_life(1) [OF 2(4)] row_get_key [OF 2(1)]
      by (simp add: same_life_def same_row_def)
    ultimately have "\<exists>row. get_row d (up_job_id u) = Some row \<and> late_held row"
      using 2(1,6) by (simp add: get_put_row)
    then show ?thesis using n frame_open_upload [OF assms(2)] by (simp add: pubs_def)
  qed (use that in auto)
  have lo: "late_open ((u, op) # us) j = late_open us j + (if op_late op \<and> up_job_id u = j then 1 else 0)" for us j
    by (simp add: late_open_def)
  show ?thesis
    using i st late by (auto simp: sys_inv_def inflight_ok_def lo)
qed

lemma late_open_remove:
  "late_open (pre @ (u, op) # post) j
     = late_open (pre @ post) j + (if op_late op \<and> up_job_id u = j then 1 else 0)"
  by (simp add: late_open_def)

lemma pubs_landed: "publications d' = publications d @ [p] \<Longrightarrow>
    pubs d' j = pubs d j + (if pub_job_id p = j then 1 else 0)"
  by (simp add: pubs_def)

lemma inv_finished:
  assumes "sys_inv s \<sigma>" and "sys_inflight \<sigma> = pre @ (u, op) # post"
    and "finish_upload s now v (sys_db \<sigma>) u op = (d, e)"
  shows "sys_inv s (\<sigma>\<lparr>sys_db := d, sys_inflight := pre @ post\<rparr>)"
proof -
  let ?d = "sys_db \<sigma>" and ?j = "up_job_id u" and ?L = "if op_late op then {up_job_id u} else {}"
  have wf: "wf_jobs ?d" and fl: "\<forall>uo \<in> set (sys_inflight \<sigma>). inflight_ok ?d uo"
    and one: "\<And>j. pubs ?d j + late_open (sys_inflight \<sigma>) j \<le> 1"
    and set: "\<And>j. 0 < pubs ?d j \<Longrightarrow> \<exists>row. get_row ?d j = Some row \<and> settled row"
    and att: "\<forall>r \<in> set (jobs ?d). attempts_ok s r"
    using assms(1) by (auto simp: sys_inv_def)
  have ok: "inflight_ok ?d (u, op)" using fl assms(2) by simp
  have p: "progress s ?L False ?d d"
  proof (rule progress_finish_upload [OF wf _ _ _ assms(3)])
    show "op_status op \<in> set TERMINAL" using ok by (simp add: inflight_ok_def)
    show "j_status row = CANCELLED \<and> j_exit_code row = None"
      if "op_late op" "get_row ?d ?j = Some row" for row
      using ok that by (auto simp: inflight_ok_def late_held_def)
  qed simp
  have held: "op_late op \<Longrightarrow> late_open (pre @ post) ?j = 0 \<and> pubs ?d ?j = 0"
    using one [of ?j] assms(2) by (simp add: late_open_remove)
  have A: "\<forall>r \<in> set (jobs d). attempts_ok s r"
    using evolves_all [OF p _ att] attempts_ok_steps by blast
  have B: "\<forall>uo \<in> set (pre @ post). inflight_ok d uo"
  proof
    fix uo assume uo: "uo \<in> set (pre @ post)"
    have "op_late (snd uo) \<longrightarrow> up_job_id (fst uo) \<notin> ?L"
      using held uo by (cases uo) (auto simp: late_open_def filter_empty_conv split: if_splits)
    then show "inflight_ok d uo" using inflight_ok_progress [OF p] fl uo assms(2) by simp
  qed
  have pubs: "pubs d j + late_open (pre @ post) j \<le> 1" for j
  proof (cases "publications d = publications ?d")
    case True
    then show ?thesis using one [of j] assms(2) by (simp add: pubs_def late_open_remove)
  next
    case False
    then obtain q row where q: "publications d = publications ?d @ [q]" "pub_job_id q = ?j"
      "get_row ?d ?j = Some row" and tr: "op_late op \<or> can_transition (j_status row) (op_status op)"
      using finish_upload_pubs(2) [OF assms(3)] by (auto simp: landed_def split: if_splits)
    have "pubs ?d ?j = 0 \<and> late_open (pre @ post) ?j = 0"
    proof (cases "op_late op")
      case True
      then show ?thesis using held by simp
    next
      case False
      then have live: "j_status row \<notin> set TERMINAL" using tr terminal_stuck by blast
      then have "pubs ?d ?j = 0" using set [of ?j] q(3) by (auto simp: settled_def)
      moreover have "late_open (pre @ post) ?j = 0"
        using fl live assms(2) by (intro late_open_zero [OF _ q(3)]) (auto simp: late_held_def state_simps)
      ultimately show ?thesis by simp
    qed
    then show ?thesis using one [of j] assms(2) q
      by (auto simp: pubs_landed late_open_remove split: if_splits)
  qed
  have C: "\<exists>row. get_row d j = Some row \<and> settled row" if "0 < pubs d j" for j
  proof (cases "0 < pubs ?d j")
    case True
    then obtain row where row: "get_row ?d j = Some row" "settled row" using set by blast
    have "j \<notin> ?L" using True held by auto
    then show ?thesis using kept_progress [OF p row(1)] row(2) by auto
  next
    case False
    have "publications d \<noteq> publications ?d" using False that by (auto simp: pubs_def)
    then obtain q row row' where q: "publications d = publications ?d @ [q]" "pub_job_id q = ?j"
      "get_row ?d ?j = Some row" "get_row d ?j = Some row'"
      "if op_late op then same_life row row'
        else can_transition (j_status row) (op_status op) \<and> j_status row' = op_status op
             \<and> j_exit_code row' = Some (up_exit_code u)"
      using finish_upload_pubs(2) [OF assms(3)] unfolding landed_def by blast
    have "pubs d j = pubs ?d j + (if ?j = j then 1 else 0)" using pubs_landed [OF q(1)] q(2) by simp
    then have "j = ?j" using that False by (cases "?j = j") simp_all
    moreover have "settled row'"
      using q(3,5) ok
      by (auto simp: settled_def inflight_ok_def late_held_def same_life_def state_simps split: if_splits)
    ultimately show ?thesis using q(4) by blast
  qed
  show ?thesis using progress_wf [OF p wf] A B pubs C by (simp add: sys_inv_def)
qed

section \<open>Every step keeps the invariant\<close>

lemma inv_submit:
  assumes "sys_inv s \<sigma>" and "insert_job s' now sha groups (sys_db \<sigma>) sb rq key = Ok (d, info)"
  shows "sys_inv s (\<sigma>\<lparr>sys_db := d\<rparr>)"
  using assms(2)
proof (cases rule: insert_job_OkE)
  case 1
  let ?r = "new_job_row s' now sha sb rq key"
  have wf: "wf_jobs d" using wf_insert_job [OF _ assms(2)] assms(1) by (simp add: sys_inv_def)
  have old: "get_row d j = Some r" if "get_row (sys_db \<sigma>) j = Some r" for j r
    using that 1(1) by (simp add: row_get_def find_app)
  have p: "pubs d j = pubs (sys_db \<sigma>) j" for j using 1(1) by (simp add: pubs_def)
  note old_inv = sys_invD [OF assms(1)]
  have new: "attempts_ok s ?r" by (simp add: attempts_ok_def)
  show ?thesis
  proof (rule sys_invI)
    show "attempts_ok s r" if "r \<in> set (jobs (sys_db (\<sigma>\<lparr>sys_db := d\<rparr>)))" for r
      using that new old_inv(2) 1(1) by auto
    show "inflight_ok (sys_db (\<sigma>\<lparr>sys_db := d\<rparr>)) uo"
      if "uo \<in> set (sys_inflight (\<sigma>\<lparr>sys_db := d\<rparr>))" for uo
      using that old_inv(3) [of uo] old by (auto simp: inflight_ok_def)
    show "\<exists>row. get_row (sys_db (\<sigma>\<lparr>sys_db := d\<rparr>)) j = Some row \<and> settled row"
      if "0 < pubs (sys_db (\<sigma>\<lparr>sys_db := d\<rparr>)) j" for j
      using that old_inv(5) [of j] old by (auto simp: p)
  qed (use wf old_inv(4) p in simp_all)
qed

lemma inv_local_finished:
  assumes "sys_inv s \<sigma>" and "\<forall>p. popt = Some p \<longrightarrow> pub_job_id p = jid"
    and "finish_run now (sys_db \<sigma>) jid popt rc err out rid = Ok d"
  shows "sys_inv s (\<sigma>\<lparr>sys_db := d\<rparr>)"
proof -
  let ?d = "sys_db \<sigma>"
  have wf: "wf_jobs ?d" using assms(1) by (simp add: sys_inv_def)
  have p: "progress s {} False ?d d" using progress_finish_run [OF wf assms(3)] .
  show ?thesis using assms(3) unfolding finish_run_def
  proof (cases rule: update_job_OkE)
    case 1
    then show ?thesis using assms(1) by simp
  next
    case (2 row)
    show ?thesis
    proof (cases popt)
      case None
      then show ?thesis using inv_progress [OF assms(1) p] 2(5) by simp
    next
      case (Some q)
      let ?f = "no_fields\<lparr>f_status := Some (if rc = 0 then SUCCEEDED else FAILED),
          f_finished_at := Some (Some now), f_exit_code := Some (Some rc),
          f_run_id := Some (if truthy_text rid then rid else None),
          f_error := Some (run_error rc err out)\<rparr>"
      let ?r = "set_fields (terminal_default ?f) row"
      have live: "j_status row \<notin> set TERMINAL" using 2(3) terminal_stuck by auto
      have old: "\<And>j. pubs ?d j + late_open (sys_inflight \<sigma>) j \<le> 1"
        "\<And>j. 0 < pubs ?d j \<Longrightarrow> \<exists>row. get_row ?d j = Some row \<and> settled row"
        "\<forall>uo \<in> set (sys_inflight \<sigma>). inflight_ok ?d uo" "\<forall>r \<in> set (jobs ?d). attempts_ok s r"
        using assms(1) by (auto simp: sys_inv_def)
      have z: "pubs ?d jid = 0" "late_open (sys_inflight \<sigma>) jid = 0"
        using old(2) [of jid] 2(1) live late_open_zero [OF old(3) 2(1)]
        by (auto simp: settled_def late_held_def state_simps)
      have pd: "pubs d j = pubs ?d j + (if jid = j then 1 else 0)" for j
        using 2(5) Some assms(2) by (simp add: pubs_def)
      have row': "get_row d jid = Some ?r"
        using 2(1,4) row_get_key [OF 2(1)] by (simp add: get_put_row)
      have "settled ?r" by (auto simp: settled_def set_fields_def state_simps)
      then have C: "\<exists>row. get_row d j = Some row \<and> settled row" if "0 < pubs d j" for j
        using that row' old(2) [of j] kept_progress [OF p] by (cases "jid = j") (fastforce simp: pd)+
      have A: "\<forall>r \<in> set (jobs d). attempts_ok s r"
        using evolves_all [OF p _ old(4)] attempts_ok_steps by blast
      have B: "\<forall>uo \<in> set (sys_inflight \<sigma>). inflight_ok d uo"
        using old(3) inflight_ok_progress [OF p] by simp
      have P: "pubs d j + late_open (sys_inflight \<sigma>) j \<le> 1" for j
        using old(1) [of j] z by (cases "jid = j") (simp_all add: pd)
      show ?thesis using progress_wf [OF p wf] A B C P by (simp add: sys_inv_def)
    qed
  qed
qed

lemma inv_wf: "sys_inv s \<sigma> \<Longrightarrow> wf_jobs (sys_db \<sigma>)"
  by (simp add: sys_inv_def)

lemma inv_died:
  assumes "sys_inv s \<sigma>" and "sys_inflight \<sigma> = pre @ (u, op) # post"
  shows "sys_inv s (\<sigma>\<lparr>sys_inflight := pre @ post\<rparr>)"
proof -
  have le: "late_open (pre @ post) j \<le> late_open (sys_inflight \<sigma>) j" for j
    by (simp add: assms(2) late_open_remove)
  note old = sys_invD [OF assms(1)]
  show ?thesis
  proof (rule sys_invI)
    show "pubs (sys_db (\<sigma>\<lparr>sys_inflight := pre @ post\<rparr>)) j
        + late_open (sys_inflight (\<sigma>\<lparr>sys_inflight := pre @ post\<rparr>)) j \<le> 1" for j
      using old(4) [of j] le [of j] by simp
  qed (use old assms(2) in auto)
qed

text \<open>The steps that move rows without publishing, in one place.\<close>

definition quiet :: "settings \<Rightarrow> bool \<Rightarrow> sys \<Rightarrow> sys \<Rightarrow> bool" where
  "quiet s H \<sigma> \<sigma>' \<longleftrightarrow> (\<exists>d. \<sigma>' = \<sigma>\<lparr>sys_db := d\<rparr> \<and> progress s {} H (sys_db \<sigma>) d \<and> frame_kept (sys_db \<sigma>) d)"

lemma quietI: "progress s {} H (sys_db \<sigma>) d \<Longrightarrow> frame_kept (sys_db \<sigma>) d \<Longrightarrow> quiet s H \<sigma> (\<sigma>\<lparr>sys_db := d\<rparr>)"
  by (auto simp: quiet_def)

lemma inv_quiet: "quiet s H \<sigma> \<sigma>' \<Longrightarrow> sys_inv s \<sigma> \<Longrightarrow> sys_inv s \<sigma>'"
  by (auto simp: quiet_def intro: inv_progress)

text \<open>What a step is: quiet, a claim or a local start, or one of the steps treated above.\<close>

lemma step_shape:
  assumes "step s \<sigma> \<sigma>'" and "wf_jobs (sys_db \<sigma>)"
  obtains (quiet) "quiet s False \<sigma> \<sigma>'"
  | (claimed) cal store locked minted aid named tid d ans where
      "claim_job s (sys_clock \<sigma>) cal store locked minted (sys_db \<sigma>) aid named tid = Ok (d, ans)"
      "\<sigma>' = \<sigma>\<lparr>sys_db := d\<rparr>"
  | (started) jid cal free d b where "start s (sys_clock \<sigma>) cal free (sys_db \<sigma>) jid = Ok (d, b)"
      "\<forall>row. get_row (sys_db \<sigma>) jid = Some row \<longrightarrow> j_execution row = ''local''"
      "\<sigma>' = \<sigma>\<lparr>sys_db := d\<rparr>"
  | (submitted) s' sha groups sb rq key d info where
      "insert_job s' (sys_clock \<sigma>) sha groups (sys_db \<sigma>) sb rq key = Ok (d, info)"
      "\<sigma>' = \<sigma>\<lparr>sys_db := d\<rparr>"
  | (accepted) token u d op where
      "open_upload s (sys_clock \<sigma>) token (sys_db \<sigma>) u = Ok (d, Opened op)"
      "\<sigma>' = \<sigma>\<lparr>sys_db := d, sys_inflight := (u, op) # sys_inflight \<sigma>, sys_tokens := token # sys_tokens \<sigma>\<rparr>"
  | (ended) pre u op post v d e where "sys_inflight \<sigma> = pre @ (u, op) # post"
      "finish_upload s (sys_clock \<sigma>) v (sys_db \<sigma>) u op = (d, e)"
      "\<sigma>' = \<sigma>\<lparr>sys_db := d, sys_inflight := pre @ post\<rparr>"
  | (dropped) pre u op post where "sys_inflight \<sigma> = pre @ (u, op) # post"
      "\<sigma>' = \<sigma>\<lparr>sys_inflight := pre @ post\<rparr>"
  | (ran) popt jid rc err out rid d where "\<forall>p. popt = Some p \<longrightarrow> pub_job_id p = jid"
      "finish_run (sys_clock \<sigma>) (sys_db \<sigma>) jid popt rc err out rid = Ok d"
      "\<sigma>' = \<sigma>\<lparr>sys_db := d\<rparr>"
  | (limited) tid c q d ql where "set_limits (sys_db \<sigma>) tid c q = Ok (d, ql)" "\<sigma>' = \<sigma>\<lparr>sys_db := d\<rparr>"
  | (waited) t where "\<sigma>' = \<sigma>\<lparr>sys_clock := t\<rparr>"
  using assms(1)
proof cases
  case (heartbeat jid aid b d)
  then show ?thesis using quiet progress_mark_running [OF assms(2)] frame_mark_running by (blast intro: quietI)
next
  case (renewal jid aopt b d)
  then show ?thesis using quiet progress_renew_lease [OF assms(2)] frame_renew_lease by (blast intro: quietI)
next
  case (stop jid username topt d row)
  then show ?thesis using quiet progress_cancel_job [OF assms(2)] frame_cancel_job by (blast intro: quietI)
next
  case (replayed token u d info)
  then show ?thesis using quiet progress_open_upload [OF assms(2)] frame_open_upload by (blast intro: quietI)
next
  case (reap_leases locked d n m)
  then show ?thesis using quiet progress_reap_expired [OF assms(2)] frame_reap_expired by (blast intro: quietI)
next
  case (reap_stops locked d n)
  then show ?thesis using quiet progress_reap_stale [OF assms(2)] frame_reap_stale by (blast intro: quietI)
next
  case (restart s' d)
  then show ?thesis using quiet progress_load_jobs [OF assms(2)] frame_load_jobs by (blast intro: quietI)
next
  case (local_crashed jid message d)
  then show ?thesis using quiet progress_crash_run [OF assms(2)] frame_crash_run by (blast intro: quietI)
next
  case (reprioritised jid prio topt may_raise username d info)
  then show ?thesis using quiet progress_set_priority [OF assms(2)] frame_set_priority by (blast intro: quietI)
next
  case (held digest path tid pol n d)
  then show ?thesis using quiet progress_apply_policy [OF assms(2)] frame_apply_policy by (blast intro: quietI)
next
  case (claim cal store locked minted aid named tid d ans)
  then show ?thesis by (intro claimed)
next
  case (local_started jid cal free d b)
  then show ?thesis by (intro started)
next
  case (submit s' sha groups sb rq key d info)
  then show ?thesis by (intro submitted)
next
  case (opened token u d op)
  then show ?thesis by (intro accepted)
next
  case (finished pre u op post v d e)
  then show ?thesis by (intro ended)
next
  case (died pre u op post)
  then show ?thesis by (intro dropped)
next
  case (local_finished popt jid rc err out rid d)
  then show ?thesis by (intro ran)
next
  case (limits tid c q d ql)
  then show ?thesis by (intro limited)
next
  case (time_passes t)
  then show ?thesis by (intro waited)
qed

theorem inv_step:
  assumes "step s \<sigma> \<sigma>'" and i: "sys_inv s \<sigma>"
  shows "sys_inv s \<sigma>'"
  using assms(1) inv_wf [OF i]
proof (cases rule: step_shape)
  case quiet
  then show ?thesis using inv_quiet i by blast
next
  case (claimed cal store locked minted aid named tid d ans)
  note c = progress_claim_job [OF inv_wf [OF i] claimed(1)]
  show ?thesis unfolding claimed(2) using inv_progress [OF i c(1) c(2)] .
next
  case (started jid cal free d b)
  have "progress s {} True (sys_db \<sigma>) d"
    using progress_start [OF inv_wf [OF i] TrueI started(1)] started(2) by blast
  then show ?thesis unfolding started(3) using inv_progress [OF i] frame_start [OF started(1)] by blast
next
  case (submitted s' sha groups sb rq key d info)
  then show ?thesis using inv_submit [OF i submitted(1)] by simp
next
  case (accepted token u d op)
  then show ?thesis using inv_opened [OF i accepted(1)] by simp
next
  case (ended pre u op post v d e)
  then show ?thesis using inv_finished [OF i ended(1,2)] by simp
next
  case (dropped pre u op post)
  then show ?thesis using inv_died [OF i dropped(1)] by simp
next
  case (ran popt jid rc err out rid d)
  then show ?thesis using inv_local_finished [OF i ran(1,2)] by simp
next
  case (limited tid c q d ql)
  then show ?thesis using set_limits_jobs [OF limited(1)] i
    by (simp add: sys_inv_def pubs_def inflight_ok_def wf_jobs_def)
next
  case (waited t)
  then show ?thesis using i by (simp add: sys_inv_def)
qed

lemma inv_initial: "initial d0 \<sigma> \<Longrightarrow> sys_inv s \<sigma>"
  by (auto simp: initial_def sys_inv_def wf_jobs_def pubs_def late_open_def)

lemma inv_reaches: "reaches s \<sigma> \<sigma>' \<Longrightarrow> sys_inv s \<sigma> \<Longrightarrow> sys_inv s \<sigma>'"
  by (induction rule: rtranclp_induct) (auto intro: inv_step)

section \<open>How a row moves along a run\<close>

text \<open>
  The lifecycle reading of \<open>row_step\<close>: one legal move or none, a concluded job keeps its
  outcome, a stopping job is never handed out again.
\<close>

definition life_le :: "job \<Rightarrow> job \<Rightarrow> bool" where
  "life_le r r' \<longleftrightarrow> same_row r r' \<and> can_transition\<^sup>*\<^sup>* (j_status r) (j_status r')
     \<and> (j_status r \<in> set TERMINAL \<longrightarrow> j_status r' = j_status r \<and> j_finished_at r' = j_finished_at r
          \<and> j_exit_code r' = j_exit_code r \<and> j_attempts r' = j_attempts r)
     \<and> (j_status r = CANCELLING \<longrightarrow> j_attempts r' = j_attempts r
          \<and> (j_status r' = CANCELLING \<or> j_status r' \<in> set TERMINAL))"

lemma life_le_refl: "life_le r r"
  by (simp add: life_le_def same_row_def)

lemma life_le_trans:
  assumes ab: "life_le a b" and bc: "life_le b c"
  shows "life_le a c"
proof -
  have 1: "same_row a c" using ab bc by (simp add: life_le_def same_row_def)
  have 2: "can_transition\<^sup>*\<^sup>* (j_status a) (j_status c)"
    using ab bc unfolding life_le_def by (meson rtranclp_trans)
  have 3: "j_status c = j_status a \<and> j_finished_at c = j_finished_at a
      \<and> j_exit_code c = j_exit_code a \<and> j_attempts c = j_attempts a" if "j_status a \<in> set TERMINAL"
    using ab bc that by (simp add: life_le_def)
  have 4: "j_attempts c = j_attempts a \<and> (j_status c = CANCELLING \<or> j_status c \<in> set TERMINAL)"
    if "j_status a = CANCELLING"
  proof -
    have "j_attempts b = j_attempts a" "j_status b = CANCELLING \<or> j_status b \<in> set TERMINAL"
      using ab that by (simp_all add: life_le_def)
    then show ?thesis using bc unfolding life_le_def by metis
  qed
  show ?thesis unfolding life_le_def using 1 2 3 4 by blast
qed

lemma row_step_status:
  "row_step s L H r r' \<Longrightarrow> j_status r' = j_status r \<or> can_transition (j_status r) (j_status r')"
  by (erule row_stepE) (auto simp: same_life_def state_simps)

lemma row_step_terminal:
  "row_step s L H r r' \<Longrightarrow> j_status r \<in> set TERMINAL \<Longrightarrow> j_status r' = j_status r
     \<and> j_finished_at r' = j_finished_at r \<and> j_exit_code r' = j_exit_code r \<and> j_attempts r' = j_attempts r"
  by (erule row_stepE) (auto simp: same_life_def state_simps)

lemma row_step_cancelling:
  "row_step s L H r r' \<Longrightarrow> j_status r = CANCELLING \<Longrightarrow> j_attempts r' = j_attempts r
     \<and> (j_status r' = CANCELLING \<or> j_status r' \<in> set TERMINAL)"
  by (erule row_stepE) (auto simp: same_life_def state_simps)

lemma row_step_life: "row_step s L H r r' \<Longrightarrow> life_le r r'"
  using row_step_status [of s L H r r'] row_step_terminal [of s L H r r'] row_step_cancelling [of s L H r r']
    row_step_same_row [of s L H r r'] by (auto simp: life_le_def)

lemma row_steps_life: "row_steps s L H r r' \<Longrightarrow> life_le r r'"
  by (induction rule: rtranclp_induct) (auto intro: life_le_refl life_le_trans row_step_life)

lemma progress_life:
  "progress s L H d d' \<Longrightarrow> get_row d j = Some r \<Longrightarrow> \<exists>r'. get_row d' j = Some r' \<and> life_le r r'"
  using evolves_get [of "row_steps s L H" d d' j r] row_steps_id row_steps_life by blast

text \<open>A step inserts one row, or moves the rows there are.\<close>

lemma step_rows:
  assumes "step s \<sigma> \<sigma>'" and i: "sys_inv s \<sigma>"
  obtains (moved) L H where "progress s L H (sys_db \<sigma>) (sys_db \<sigma>')"
  | (inserted) s' now sha groups sb rq key info where
      "insert_job s' now sha groups (sys_db \<sigma>) sb rq key = Ok (sys_db \<sigma>', info)"
  using assms(1) inv_wf [OF i]
proof (cases rule: step_shape)
  case quiet
  then show ?thesis using moved by (auto simp: quiet_def)
next
  case (claimed cal store locked minted aid named tid d ans)
  have "progress s {} True (sys_db \<sigma>) (sys_db \<sigma>')"
    using progress_claim_job(1) [OF inv_wf [OF i] claimed(1)] claimed(2) by simp
  then show ?thesis by (rule moved)
next
  case (started jid cal free d b)
  have "progress s {} True (sys_db \<sigma>) d"
    using progress_start [OF inv_wf [OF i] TrueI started(1)] started(2) by blast
  then show ?thesis using moved started(3) by simp
next
  case (submitted s' sha groups sb rq key d info)
  then show ?thesis using inserted by simp
next
  case (accepted token u d op)
  have "progress s {} False (sys_db \<sigma>) (sys_db \<sigma>')"
    using progress_open_upload [OF inv_wf [OF i] accepted(1)] accepted(2) by simp
  then show ?thesis by (rule moved)
next
  case (ended pre u op post v d e)
  have ok: "inflight_ok (sys_db \<sigma>) (u, op)" using sys_invD(3) [OF i] ended(1) by simp
  have "progress s {up_job_id u} False (sys_db \<sigma>) d"
    using ok by (intro progress_finish_upload [OF inv_wf [OF i] _ _ _ ended(2)])
      (auto simp: inflight_ok_def late_held_def)
  then show ?thesis using moved ended(3) by simp
next
  case (dropped pre u op post)
  have "progress s {} False (sys_db \<sigma>) (sys_db \<sigma>')" using dropped(2) by simp
  then show ?thesis by (rule moved)
next
  case (ran popt jid rc err out rid d)
  have "progress s {} False (sys_db \<sigma>) (sys_db \<sigma>')"
    using progress_finish_run [OF inv_wf [OF i] ran(2)] ran(3) by simp
  then show ?thesis by (rule moved)
next
  case (limited tid c q d ql)
  have "progress s {} False (sys_db \<sigma>) (sys_db \<sigma>')"
    using limited(2) set_limits_jobs [OF limited(1)] by (simp add: progress_same_jobs)
  then show ?thesis by (rule moved)
next
  case (waited t)
  have "progress s {} False (sys_db \<sigma>) (sys_db \<sigma>')" using waited by simp
  then show ?thesis by (rule moved)
qed

lemma step_life:
  assumes "step s \<sigma> \<sigma>'" and i: "sys_inv s \<sigma>" and r: "get_row (sys_db \<sigma>) j = Some r"
  shows "\<exists>r'. get_row (sys_db \<sigma>') j = Some r' \<and> life_le r r'"
  using assms(1) i
proof (cases rule: step_rows)
  case (moved L H)
  then show ?thesis using progress_life r by blast
next
  case (inserted s' now sha groups sb rq key info)
  have "get_row (sys_db \<sigma>') j = Some r"
    using inserted r by (auto elim!: insert_job_OkE simp: row_get_def find_app)
  then show ?thesis using life_le_refl by blast
qed

text \<open>Client keys stay unique.\<close>

lemma list_all2_source: "list_all2 R xs ys \<Longrightarrow> y \<in> set ys \<Longrightarrow> \<exists>x \<in> set xs. R x y"
  by (induction rule: list_all2_induct) auto

lemma unique_keys_progress:
  assumes "progress s L H d d'" and "wf_jobs d" and "unique_keys d"
  shows "unique_keys d'"
proof -
  have wf: "wf_jobs d'" using assms(1,2) by (rule progress_wf)
  have old: "\<exists>a \<in> set (jobs d). same_row a a'" if "a' \<in> set (jobs d')" for a'
    using list_all2_source [OF assms(1) [unfolded evolves_def] that] row_steps_same_row by blast
  show ?thesis unfolding unique_keys_def
  proof (intro ballI impI)
    fix a' b' assume m: "a' \<in> set (jobs d')" "b' \<in> set (jobs d')"
      and k: "j_tenant_id a' = j_tenant_id b' \<and> j_idempotency_key a' \<noteq> None
        \<and> j_idempotency_key a' = j_idempotency_key b'"
    obtain a b where ab: "a \<in> set (jobs d)" "same_row a a'" "b \<in> set (jobs d)" "same_row b b'"
      using old m by blast
    then have "j_tenant_id a = j_tenant_id b \<and> j_idempotency_key a \<noteq> None
        \<and> j_idempotency_key a = j_idempotency_key b" using k unfolding same_row_def by metis
    then have "a = b" using assms(3) ab(1,3) unfolding unique_keys_def by blast
    then have "j_job_id a' = j_job_id b'" using ab by (simp add: same_row_def)
    then show "a' = b'" using wf m by (simp add: wf_jobs_def distinct_map inj_on_def)
  qed
qed

lemma unique_keys_insert:
  assumes "insert_job s now sha groups d sb rq key = Ok (d', info)" and "unique_keys d"
  shows "unique_keys d'"
  using assms(1)
proof (cases rule: insert_job_OkE)
  case 1
  let ?row = "new_job_row s now sha sb rq key"
  have free: "\<forall>r \<in> set (jobs d). \<not> (j_idempotency_key r \<noteq> None \<and> j_tenant_id r = j_tenant_id ?row
      \<and> j_idempotency_key r = j_idempotency_key ?row)"
    using 1(2) unfolding key_taken_def list_ex_iff by metis
  have rows: "set (jobs d') = insert ?row (set (jobs d))" unfolding 1(1) by simp
  show ?thesis unfolding unique_keys_def rows
  proof (intro ballI impI)
    fix a b assume ab: "a \<in> insert ?row (set (jobs d))" "b \<in> insert ?row (set (jobs d))"
      and k: "j_tenant_id a = j_tenant_id b \<and> j_idempotency_key a \<noteq> None
        \<and> j_idempotency_key a = j_idempotency_key b"
    consider "a = b" | "a \<in> set (jobs d)" "b \<in> set (jobs d)" | "a = ?row" "b \<in> set (jobs d)"
      | "a \<in> set (jobs d)" "b = ?row" using ab by blast
    then show "a = b"
    proof cases
      case 2
      then show ?thesis using assms(2) k unfolding unique_keys_def by blast
    next
      case 3
      then show ?thesis using free k by metis
    next
      case 4
      then show ?thesis using free k by metis
    qed simp
  qed
qed

lemma unique_keys_reaches:
  "reaches s \<sigma> \<sigma>' \<Longrightarrow> sys_inv s \<sigma> \<Longrightarrow> unique_keys (sys_db \<sigma>) \<Longrightarrow> unique_keys (sys_db \<sigma>')"
proof (induction rule: rtranclp_induct)
  case base
  then show ?case by simp
next
  case (step y z)
  then have u: "unique_keys (sys_db y)" and i: "sys_inv s y" using inv_reaches by blast+
  show ?case using step(2) i
  proof (cases rule: step_rows)
    case (moved L H)
    then show ?thesis using unique_keys_progress inv_wf [OF i] u by blast
  next
    case (inserted s' now sha groups sb rq key info)
    then show ?thesis using unique_keys_insert u by blast
  qed
qed

lemma reaches_life:
  "reaches s \<sigma> \<sigma>' \<Longrightarrow> sys_inv s \<sigma> \<Longrightarrow> get_row (sys_db \<sigma>) j = Some r \<Longrightarrow>
     \<exists>r'. get_row (sys_db \<sigma>') j = Some r' \<and> life_le r r'"
proof (induction rule: rtranclp_induct)
  case base
  then show ?case using life_le_refl by auto
next
  case (step y z)
  then obtain r1 where "get_row (sys_db y) j = Some r1" "life_le r r1" by blast
  moreover have "sys_inv s y" using inv_reaches step by blast
  ultimately show ?case using step_life [OF step(2)] life_le_trans by blast
qed

section \<open>The ceiling on concurrent scans\<close>

lemma occupying_row_step: "row_step s L False r r' \<Longrightarrow> occupying t r' \<Longrightarrow> occupying t r"
  by (erule row_stepE) (auto simp: occupying_def same_life_def same_row_def state_simps)

lemma occupying_row_steps: "row_steps s L False r r' \<Longrightarrow> occupying t r' \<Longrightarrow> occupying t r"
  by (induction rule: rtranclp_induct) (auto dest: occupying_row_step)

lemma progress_occupancy:
  "progress s L False d d' \<Longrightarrow> count_rows (occupying t) d' \<le> count_rows (occupying t) d"
  by (rule evolves_count [of "row_steps s L False"]) (assumption, rule occupying_row_steps)

lemma start_occupancy:
  assumes "wf_jobs d" and "start s now cal free d jid = Ok (d', b)"
    and "concurrency_limit d t = Some lim"
  shows "int (count_rows (occupying t) d') \<le> max lim (int (count_rows (occupying t) d))"
proof -
  obtain row where row: "get_row d jid = Some row"
    using assms(2) by (cases "get_row d jid") (auto simp: start_def)
  have id: "j_job_id row = jid" using row row_get_key by fastforce
  obtain allowed d1 row1 where adm: "admitted cal d row = (allowed, d1, row1)"
    by (metis prod_cases3)
  note f = next_admitted_step [OF assms(1) _ adm, unfolded id, OF row]
  have tid: "j_tenant_id row1 = j_tenant_id row" "j_status row1 = j_status row" "j_job_id row1 = jid"
    using waits_caps [OF f(3)] id by (simp_all add: same_row_def)
  have w: "count_rows (occupying t) d1 \<le> count_rows (occupying t) d"
    using f(1) by (rule evolves_count) (auto simp: waits_def occupying_def)
  let ?run = "row1\<lparr>j_status := RUNNING, j_started_at := Some now,
                 j_claimed_until := Some (lease_deadline s now), j_attempts := 1\<rparr>"
  have "d' = put_row d1 (renew_waiting_mark s now row1)
      \<or> d' = put_row d1 ?run \<and> hold_slot d (j_tenant_id row) False free"
    using assms(2) row adm by (auto simp: start_def Let_def bindE_Ok_iff split: if_splits)
  then show ?thesis
  proof
    assume d': "d' = put_row d1 (renew_waiting_mark s now row1)"
    have "count_rows (occupying t) d' \<le> count_rows (occupying t) d1"
      unfolding d'
      by (rule job_table.count_put_le [OF f(7), of _ row1]) (use f(2) tid in \<open>simp_all add: occupying_def\<close>)
    then show ?thesis using w by simp
  next
    assume d': "d' = put_row d1 ?run \<and> hold_slot d (j_tenant_id row) False free"
    have g: "get_row d1 (j_job_id ?run) = Some row1" using f(2) tid by simp
    note put = job_table.count_put_Suc [OF f(7) g, of "occupying t"]
      job_table.count_put_le [OF f(7) g, of "occupying t"]
    show ?thesis
    proof (cases "t = j_tenant_id row")
      case True
      then have "int (count_rows (occupying t) d) < lim" using hold_slot_room d' assms(3) by blast
      moreover have "count_rows (occupying t) d' \<le> Suc (count_rows (occupying t) d)"
        using put(1) w d' by simp
      ultimately show ?thesis by linarith
    next
      case False
      then have "\<not> occupying t ?run" using tid by (simp add: occupying_def)
      then show ?thesis using put(2) w d' by force
    qed
  qed
qed

lemma step_occupancy:
  assumes "step s \<sigma> \<sigma>'" and i: "sys_inv s \<sigma>" and lim: "concurrency_limit (sys_db \<sigma>) t = Some lim"
  shows "int (count_rows (occupying t) (sys_db \<sigma>')) \<le> max lim (int (count_rows (occupying t) (sys_db \<sigma>)))"
  using assms(1) inv_wf [OF i]
proof (cases rule: step_shape)
  case quiet
  then obtain d where "\<sigma>' = \<sigma>\<lparr>sys_db := d\<rparr>" "progress s {} False (sys_db \<sigma>) d"
    unfolding quiet_def by blast
  then show ?thesis using progress_occupancy [of s "{}" "sys_db \<sigma>" d t] by simp
next
  case (claimed cal store locked minted aid named tid d ans)
  then show ?thesis using claim_occupancy [OF inv_wf [OF i] _ lim] by simp
next
  case (started jid cal free d b)
  then show ?thesis using start_occupancy [OF inv_wf [OF i] _ lim] by simp
next
  case (submitted s' sha groups sb rq key d info)
  have "count_rows (occupying t) d = count_rows (occupying t) (sys_db \<sigma>)"
    using submitted(1)
    by (auto elim!: insert_job_OkE simp: count_rows_def row_count_def occupying_def state_simps)
  then show ?thesis using submitted(2) by simp
next
  case (accepted token u d op)
  have "progress s {} False (sys_db \<sigma>) d" using progress_open_upload [OF inv_wf [OF i] accepted(1)] .
  then show ?thesis using progress_occupancy [of s "{}" "sys_db \<sigma>" d t] accepted(2) by simp
next
  case (ended pre u op post v d e)
  have ok: "inflight_ok (sys_db \<sigma>) (u, op)" using sys_invD(3) [OF i] ended(1) by simp
  have "progress s {up_job_id u} False (sys_db \<sigma>) d"
    using ok by (intro progress_finish_upload [OF inv_wf [OF i] _ _ _ ended(2)])
      (auto simp: inflight_ok_def late_held_def)
  then show ?thesis
    using progress_occupancy [of s "{up_job_id u}" "sys_db \<sigma>" d t] ended(3) by simp
next
  case (dropped pre u op post)
  then show ?thesis by simp
next
  case (ran popt jid rc err out rid d)
  have "progress s {} False (sys_db \<sigma>) d" using progress_finish_run [OF inv_wf [OF i] ran(2)] .
  then show ?thesis using progress_occupancy [of s "{}" "sys_db \<sigma>" d t] ran(3) by simp
next
  case (limited tid c q d ql)
  then show ?thesis using set_limits_jobs [OF limited(1)] by (simp add: count_rows_def)
next
  case (waited t)
  then show ?thesis by simp
qed

end
