(* ===== verification/Job_Demo.thy ===== *)
theory Job_Demo
  imports Job_System
begin

text \<open>
  A small concrete installation: one tenant with a ceiling of one concurrent scan, one
  agent, one queued job, and the states it passes through when the agent claims the job
  and uploads its results, or when its lease runs out. The witnesses of the properties are
  evaluated on these states.
\<close>

definition demo_settings :: settings where
  "demo_settings = \<lparr>job_lease_seconds = 300, job_ingest_lease_seconds = 900, job_max_attempts = 3,
     job_cancel_grace_seconds = 300, scan_queue_max_depth = 0, scan_queue_retry_after_seconds = 60,
     scan_queue_local_poll = 5000000, agent_stale_seconds = 120, instance_id = ''api-0'',
     nats_url = None\<rparr>"

definition demo_db0 :: db where
  "demo_db0 = \<lparr>jobs = [], publications = [],
     tenants = [\<lparr>t_tenant_id = ''acme'', t_status = ''active'', t_max_concurrent_scans = Some 1,
                 t_max_queued_scans = None\<rparr>],
     agents = [\<lparr>a_agent_id = ''a1'', a_tenant_id = ''acme'', a_status = ''idle'', a_capabilities = [],
                a_agent_group = None, a_current_job_id = None, a_last_seen_at = None,
                a_healthy_since = None\<rparr>],
     audit_log = [], failure_events = [], offers = []\<rparr>"

definition demo_request :: scan_request where
  "demo_request = \<lparr>rq_mode = ''safe'', rq_intent = None, rq_delta = False, rq_skip_nse = False,
     rq_notify = False, rq_export_defectdojo = False, rq_surface = None, rq_wordlist_id = None,
     rq_agent_group = None, rq_ranges = Some ''10.0.0.0/24'', rq_domains = None, rq_ports = None,
     rq_ports_udp = None, rq_priority = 0\<rparr>"

definition demo_submission :: submission where
  "demo_submission = \<lparr>sb_job_id = ''j1'', sb_tenant_id = ''acme'', sb_execution = ''agent'',
     sb_mode = ''safe'', sb_delta = False, sb_skip_nse = False, sb_run_id = Some ''r1'',
     sb_command = [''python''], sb_policy_snapshot = None, sb_overlay = None,
     sb_overlay_capability = [], sb_surface = None, sb_agent_group = None, sb_target_counts = None,
     sb_username = ''olga'', sb_quota_exempt = False\<rparr>"

definition demo_sha :: "scan_request \<Rightarrow> string" where
  "demo_sha r = or_text (rq_ranges r) []"

definition open_calendar :: "job \<Rightarrow> admission" where
  "open_calendar r = \<lparr>adm_allowed = True, adm_reason = [], adm_detail = [], adm_window_id = [],
     adm_window_name = [], adm_retry_at = None\<rparr>"

definition demo_store :: input_store where
  "demo_store jid = Some []"

definition demo_sys0 :: sys where
  "demo_sys0 = \<lparr>sys_db = demo_db0, sys_inflight = [], sys_tokens = [], sys_clock = 0\<rparr>"

text \<open>The row as submitted, as claimed, as opened for upload and as finished.\<close>

definition demo_row1 :: job where
  "demo_row1 = new_job_row demo_settings 0 demo_sha demo_submission demo_request (Some ''k1'')"

definition demo_row2 :: job where
  "demo_row2 = demo_row1\<lparr>j_status := CLAIMED, j_assigned_agent_id := Some ''a1'',
     j_claimed_until := Some 300000000, j_attempts := 1\<rparr>"

definition demo_db1 :: db where "demo_db1 = demo_db0\<lparr>jobs := [demo_row1]\<rparr>"
definition demo_db2 :: db where
  "demo_db2 = touch_job demo_settings 0 (demo_db0\<lparr>jobs := [demo_row2]\<rparr>) ''a1'' (Some ''j1'') ''busy''"

definition demo_upload :: upload where
  "demo_upload = \<lparr>up_job_id = ''j1'', up_agent_id = ''a1'', up_exit_code = 0, up_error = None,
     up_run_id = Some ''r1'', up_archive = Some ''bytes'', up_tenant_id = None,
     up_idempotency_key = Some ''key1'', up_attempt = Some 1, up_cancelled = False\<rparr>"

definition demo_claim :: "db \<Rightarrow> service_error + (db \<times> claim_response option)" where
  "demo_claim d = claim_job demo_settings 0 open_calendar demo_store [] ''m1'' d ''a1'' None None"

lemma demo_submit:
  "insert_job demo_settings 0 demo_sha [] demo_db0 demo_submission demo_request (Some ''k1'')
     = Ok (demo_db1, to_info demo_row1 None None)"
  by (simp add: insert_job_def demo_db0_def demo_submission_def row_get_def key_taken_def Let_def
      demo_db1_def demo_row1_def)

definition demo_response :: claim_response where
  "demo_response = claim_of demo_row2 []"

lemma demo_claim_ok: "demo_claim demo_db1 = Ok (demo_db2, Some demo_response)"
  by code_simp

text \<open>The upload opened on the claimed row, and the database its success leaves.\<close>

definition demo_opened :: opened where
  "demo_opened = opened_of demo_row2 demo_upload False (Some ''r1'')
     \<lparr>il_job_id = ''j1'', il_token = ''t1'', il_attempt = 1, il_agent_id = ''a1''\<rparr>"

definition demo_db3 :: db where
  "demo_db3 = demo_db2\<lparr>jobs := [demo_row2\<lparr>j_results_idempotency_key := Some ''key1'',
     j_ingest_token := Some ''t1'', j_ingest_attempt := Some 1, j_ingest_agent_id := Some ''a1'',
     j_ingest_started_at := Some 0, j_claimed_until := Some 900000000\<rparr>]\<rparr>"

lemma demo_open_ok: "open_upload demo_settings 0 ''t1'' demo_db2 demo_upload = Ok (demo_db3, Opened demo_opened)"
  by code_simp

definition demo_db4 :: db where
  "demo_db4 = fst (finish_upload demo_settings 0 (Accepted ''staging'') demo_db3 demo_upload demo_opened)"

lemma demo_finish_ok:
  "finish_upload demo_settings 0 (Accepted ''staging'') demo_db3 demo_upload demo_opened = (demo_db4, None)"
  by code_simp

definition demo_sys1 :: sys where "demo_sys1 = demo_sys0\<lparr>sys_db := demo_db1\<rparr>"
definition demo_sys2 :: sys where "demo_sys2 = demo_sys1\<lparr>sys_db := demo_db2\<rparr>"
definition demo_sys3 :: sys where
  "demo_sys3 = demo_sys2\<lparr>sys_db := demo_db3, sys_inflight := [(demo_upload, demo_opened)],
     sys_tokens := [''t1'']\<rparr>"
definition demo_sys4 :: sys where "demo_sys4 = demo_sys3\<lparr>sys_db := demo_db4, sys_inflight := []\<rparr>"

lemma demo_steps:
  "step demo_settings demo_sys0 demo_sys1" "step demo_settings demo_sys1 demo_sys2"
  "step demo_settings demo_sys2 demo_sys3" "step demo_settings demo_sys3 demo_sys4"
proof -
  show "step demo_settings demo_sys0 demo_sys1"
    unfolding demo_sys1_def
    by (rule step.submit [of demo_settings _ demo_sha "[]" demo_submission demo_request "Some ''k1''"])
      (simp add: demo_sys0_def demo_submit)
  show "step demo_settings demo_sys1 demo_sys2"
    using step.claim [of demo_settings demo_sys1 open_calendar demo_store "[]" "''m1''" "''a1''" None None
        demo_db2 "Some demo_response"] demo_claim_ok
    by (simp add: demo_sys2_def demo_sys1_def demo_sys0_def demo_claim_def)
  show "step demo_settings demo_sys2 demo_sys3"
    using step.opened [of "''t1''" demo_sys2 demo_settings demo_upload demo_db3 demo_opened] demo_open_ok
    by (simp add: demo_sys3_def demo_sys2_def demo_sys1_def demo_sys0_def)
  show "step demo_settings demo_sys3 demo_sys4"
    using step.finished [of demo_sys3 "[]" demo_upload demo_opened "[]" demo_settings "Accepted ''staging''"
        demo_db4 None] demo_finish_ok
    by (simp add: demo_sys4_def demo_sys3_def demo_sys2_def demo_sys1_def demo_sys0_def)
qed

lemma demo_run:
  "initial demo_db0 demo_sys0" "reaches demo_settings demo_sys0 demo_sys2"
  "reaches demo_settings demo_sys0 demo_sys4" "reaches demo_settings demo_sys2 demo_sys4"
  using demo_steps by (auto simp: initial_def demo_sys0_def demo_db0_def)

lemma demo_inv: "sys_inv demo_settings demo_sys0" "sys_inv demo_settings demo_sys2" "sys_inv demo_settings demo_sys4"
  using demo_run inv_initial inv_reaches by blast+

lemma demo_wf: "wf_jobs demo_db1" "wf_jobs demo_db2" "wf_jobs demo_db3" "wf_jobs demo_db4"
  by code_simp+

lemma demo_tenants:
  "tenants (sys_db demo_sys3) = tenants (sys_db demo_sys2)" "tenants (sys_db demo_sys4) = tenants (sys_db demo_sys3)"
  by code_simp+

lemma demo_agent: "row_get a_agent_id (agents demo_db1) ''a1'' = Some (hd (agents demo_db1))"
  by code_simp

lemma demo_agent_tenant: "a_tenant_id (hd (agents demo_db1)) = ''acme''"
  by code_simp

section \<open>A stop whose confirming upload dies with its replica\<close>

text \<open>
  The operator stops the claimed job; the agent's confirming upload is opened under its
  key; the replica processing it dies; past the ingest lease the reaper closes the job.
\<close>

definition stop_db1 :: db where
  "stop_db1 = (case cancel_job demo_settings 0 demo_db2 ''j1'' ''olga'' None of
     Inl _ \<Rightarrow> demo_db2 | Inr (d, _) \<Rightarrow> d)"

definition stop_row1 :: job where "stop_row1 = hd (jobs stop_db1)"

definition stop_upload :: upload where
  "stop_upload = demo_upload\<lparr>up_exit_code := 143, up_cancelled := True\<rparr>"

definition stop_opened :: opened where
  "stop_opened = opened_of stop_row1 stop_upload False (Some ''r1'')
     \<lparr>il_job_id = ''j1'', il_token = ''t1'', il_attempt = 1, il_agent_id = ''a1''\<rparr>"

definition stop_db2 :: db where
  "stop_db2 = (case open_upload demo_settings 0 ''t1'' stop_db1 stop_upload of
     Inl _ \<Rightarrow> stop_db1 | Inr (d, _) \<Rightarrow> d)"

definition stop_db3 :: db where
  "stop_db3 = (case reap_stale_cancellations demo_settings 901000000 [] stop_db2 of
     Inl _ \<Rightarrow> stop_db2 | Inr (d, _) \<Rightarrow> d)"

lemma stop_evals:
  "cancel_job demo_settings 0 demo_db2 ''j1'' ''olga'' None = Ok (stop_db1, stop_row1)"
  "open_upload demo_settings 0 ''t1'' stop_db1 stop_upload = Ok (stop_db2, Opened stop_opened)"
  "reap_stale_cancellations demo_settings 901000000 [] stop_db2 = Ok (stop_db3, 1)"
  by code_simp+

definition stop_sys1 :: sys where "stop_sys1 = demo_sys2\<lparr>sys_db := stop_db1\<rparr>"
definition stop_sys2 :: sys where
  "stop_sys2 = stop_sys1\<lparr>sys_db := stop_db2, sys_inflight := [(stop_upload, stop_opened)],
     sys_tokens := [''t1'']\<rparr>"
definition stop_sys3 :: sys where "stop_sys3 = stop_sys2\<lparr>sys_inflight := []\<rparr>"
definition stop_sys4 :: sys where "stop_sys4 = stop_sys3\<lparr>sys_clock := 901000000\<rparr>"
definition stop_sys5 :: sys where "stop_sys5 = stop_sys4\<lparr>sys_db := stop_db3\<rparr>"

lemmas sys_defs = demo_sys0_def demo_sys1_def demo_sys2_def demo_sys3_def demo_sys4_def
  stop_sys1_def stop_sys2_def stop_sys3_def stop_sys4_def stop_sys5_def

lemma stop_steps:
  "step demo_settings demo_sys2 stop_sys1" "step demo_settings stop_sys1 stop_sys2"
  "step demo_settings stop_sys2 stop_sys3" "step demo_settings stop_sys3 stop_sys4"
  "step demo_settings stop_sys4 stop_sys5"
proof -
  show "step demo_settings demo_sys2 stop_sys1"
    using step.stop [of demo_settings demo_sys2] stop_evals(1) by (simp add: sys_defs)
  show "step demo_settings stop_sys1 stop_sys2"
    using step.opened [of "''t1''" stop_sys1 demo_settings stop_upload stop_db2 stop_opened] stop_evals(2)
    by (simp add: sys_defs)
  show "step demo_settings stop_sys2 stop_sys3"
    using step.died [of stop_sys2 "[]" stop_upload stop_opened "[]" demo_settings] by (simp add: sys_defs)
  show "step demo_settings stop_sys3 stop_sys4"
    using step.time_passes [of stop_sys3 901000000 demo_settings] by (simp add: sys_defs)
  show "step demo_settings stop_sys4 stop_sys5"
    using step.reap_stops [of demo_settings stop_sys4 "[]" stop_db3 1] stop_evals(3) by (simp add: sys_defs)
qed

lemma stop_run:
  "reaches demo_settings demo_sys0 stop_sys1" "reaches demo_settings stop_sys1 stop_sys5"
  "reaches demo_settings demo_sys0 stop_sys5"
  using demo_run(2) stop_steps by (auto intro: rtranclp.rtrancl_into_rtrancl)

section \<open>An upload whose replica dies while the job is in flight\<close>

text \<open>
  The upload of the first attempt is opened and its replica dies; the ingest lease lapses,
  the reaper requeues the job and the same agent claims it again.
\<close>

definition dead_db1 :: db where
  "dead_db1 = (case reap_expired_leases demo_settings 901000000 [] demo_db3 of
     Inl _ \<Rightarrow> demo_db3 | Inr (d, _) \<Rightarrow> d)"

definition dead_db2 :: db where
  "dead_db2 = (case claim_job demo_settings 901000000 open_calendar demo_store [] ''m2'' dead_db1 ''a1'' None None of
     Inl _ \<Rightarrow> dead_db1 | Inr (d, _) \<Rightarrow> d)"

definition retry_upload :: upload where
  "retry_upload = demo_upload\<lparr>up_attempt := Some 2\<rparr>"

lemma dead_evals:
  "reap_expired_leases demo_settings 901000000 [] demo_db3 = Ok (dead_db1, 1, 0)"
  "claim_job demo_settings 901000000 open_calendar demo_store [] ''m2'' dead_db1 ''a1'' None None
     = Ok (dead_db2, Some (claim_of (hd (jobs dead_db2)) []))"
  by code_simp+

definition dead_sys1 :: sys where "dead_sys1 = demo_sys3\<lparr>sys_inflight := []\<rparr>"
definition dead_sys2 :: sys where "dead_sys2 = dead_sys1\<lparr>sys_clock := 901000000\<rparr>"
definition dead_sys3 :: sys where "dead_sys3 = dead_sys2\<lparr>sys_db := dead_db1\<rparr>"
definition dead_sys4 :: sys where "dead_sys4 = dead_sys3\<lparr>sys_db := dead_db2\<rparr>"

lemmas dead_defs = dead_sys1_def dead_sys2_def dead_sys3_def dead_sys4_def

lemma dead_steps:
  "step demo_settings demo_sys3 dead_sys1" "step demo_settings dead_sys1 dead_sys2"
  "step demo_settings dead_sys2 dead_sys3" "step demo_settings dead_sys3 dead_sys4"
proof -
  show "step demo_settings demo_sys3 dead_sys1"
    using step.died [of demo_sys3 "[]" demo_upload demo_opened "[]" demo_settings]
    by (simp add: sys_defs dead_defs)
  show "step demo_settings dead_sys1 dead_sys2"
    using step.time_passes [of dead_sys1 901000000 demo_settings] by (simp add: sys_defs dead_defs)
  show "step demo_settings dead_sys2 dead_sys3"
    using step.reap_leases [of demo_settings dead_sys2 "[]" dead_db1 1 0] dead_evals(1)
    by (simp add: sys_defs dead_defs)
  show "step demo_settings dead_sys3 dead_sys4"
    using step.claim [of demo_settings dead_sys3 open_calendar demo_store "[]" "''m2''" "''a1''" None None]
      dead_evals(2)
    by (simp add: sys_defs dead_defs)
qed

lemma dead_run: "reaches demo_settings demo_sys0 dead_sys4"
  using demo_steps(1-3) dead_steps by (meson rtranclp.rtrancl_into_rtrancl rtranclp.rtrancl_refl)

end
