(* ===== verification/Job_Properties.thy ===== *)
theory Job_Properties
  imports Job_Demo
begin

text \<open>
  The properties of the job control plane: what every run of the services keeps
  (publications, outcomes, attempts, stops, the ceiling on concurrent scans), what a
  claim gives, what the reapers and the upload protocol promise, and the two runs in
  which a reservation left behind by a dead replica or by the reaper turns an agent's
  retry away. Each property with a hypothesis is followed by its witness on the states of
  \<open>Job_Demo\<close>.
\<close>

section \<open>Runs\<close>

text \<open>
  C1. At most one run is ever published for a job, whatever the interleaving of claims,
  heartbeats, stops, uploads, late archives, reapers, restarts and dying replicas; and a
  job with a publication has ended.
\<close>

theorem at_most_one_publication:
  assumes "initial d0 \<sigma>" and "reaches s \<sigma> \<sigma>'"
  shows "pubs (sys_db \<sigma>') jid \<le> 1 \<and> (0 < pubs (sys_db \<sigma>') jid \<longrightarrow>
      (\<exists>row. get_row (sys_db \<sigma>') jid = Some row \<and> j_status row \<in> set TERMINAL))"
proof -
  have i: "sys_inv s \<sigma>'" using inv_reaches [OF assms(2) inv_initial [OF assms(1)]] .
  then show ?thesis using sys_invD(4) [OF i, of jid] sys_invD(5) [OF i, of jid] by (auto simp: settled_def)
qed

theorem at_most_one_publication_witness:
  "pubs (sys_db demo_sys4) ''j1'' \<le> 1 \<and> 0 < pubs (sys_db demo_sys4) ''j1''
     \<and> (\<exists>row. get_row (sys_db demo_sys4) ''j1'' = Some row \<and> j_status row \<in> set TERMINAL)"
proof -
  have "0 < pubs (sys_db demo_sys4) ''j1''" by code_simp
  then show ?thesis
    using at_most_one_publication [OF demo_run(1,3), of "''j1''"] by blast
qed

text \<open>
  C4. An outcome is final: once a job has ended, no later step of any service changes its
  status, the time it finished or its exit code.
\<close>

theorem outcome_is_final:
  assumes "initial d0 \<sigma>0" and "reaches s \<sigma>0 \<sigma>" and "reaches s \<sigma> \<sigma>'"
    and "get_row (sys_db \<sigma>) jid = Some row" and "j_status row \<in> set TERMINAL"
  shows "\<exists>row'. get_row (sys_db \<sigma>') jid = Some row' \<and> j_status row' = j_status row
    \<and> j_finished_at row' = j_finished_at row \<and> j_exit_code row' = j_exit_code row"
  using reaches_life [OF assms(3) inv_reaches [OF assms(2) inv_initial [OF assms(1)]] assms(4)] assms(5)
  unfolding life_le_def by blast

theorem outcome_is_final_witness:
  "\<exists>row'. get_row (sys_db demo_sys4) ''j1'' = Some row' \<and> j_status row' = SUCCEEDED
     \<and> j_finished_at row' = Some 0 \<and> j_exit_code row' = Some 0"
proof -
  have "get_row (sys_db demo_sys4) ''j1'' = Some (hd (jobs demo_db4))"
    and st: "j_status (hd (jobs demo_db4)) = SUCCEEDED" "j_finished_at (hd (jobs demo_db4)) = Some 0"
      "j_exit_code (hd (jobs demo_db4)) = Some 0"
    by code_simp+
  moreover from st have "j_status (hd (jobs demo_db4)) \<in> set TERMINAL" by (simp add: state_simps)
  ultimately show ?thesis
    using outcome_is_final [OF demo_run(1,3) rtranclp.rtrancl_refl] st by fastforce
qed



text \<open>
  A job that was asked to stop is never handed out again: from \<^verbatim>\<open>cancelling\<close> it stays
  there or ends, and its attempt counter no longer moves.
\<close>

theorem stopping_job_never_handed_out:
  assumes "initial d0 \<sigma>0" and "reaches s \<sigma>0 \<sigma>" and "reaches s \<sigma> \<sigma>'"
    and "get_row (sys_db \<sigma>) jid = Some row" and "j_status row = CANCELLING"
  shows "\<exists>row'. get_row (sys_db \<sigma>') jid = Some row' \<and> j_attempts row' = j_attempts row
    \<and> (j_status row' = CANCELLING \<or> j_status row' \<in> set TERMINAL)"
  using reaches_life [OF assms(3) inv_reaches [OF assms(2) inv_initial [OF assms(1)]] assms(4)] assms(5)
  unfolding life_le_def by blast

theorem stopping_job_never_handed_out_witness:
  "\<exists>row'. get_row (sys_db stop_sys5) ''j1'' = Some row' \<and> j_attempts row' = 1
    \<and> (j_status row' = CANCELLING \<or> j_status row' \<in> set TERMINAL)"
proof -
  have "get_row (sys_db stop_sys1) ''j1'' = Some (hd (jobs stop_db1))"
    "j_status (hd (jobs stop_db1)) = CANCELLING" "j_attempts (hd (jobs stop_db1)) = 1"
    by code_simp+
  then show ?thesis
    using stopping_job_never_handed_out [OF demo_run(1) stop_run(1,2), of "''j1''" "hd (jobs stop_db1)"]
    by simp
qed

text \<open>
  C8. The ceiling holds: while nobody edits the ceilings, a tenant with at most its
  \<^verbatim>\<open>max_concurrent_scans\<close> jobs out with an executor never has more, over any number of steps
  of any replicas.
\<close>

theorem concurrency_ceiling_holds:
  assumes "initial d0 \<sigma>0" and "reaches s \<sigma>0 \<sigma>"
    and "(\<lambda>a b. step s a b \<and> tenants (sys_db b) = tenants (sys_db a))\<^sup>*\<^sup>* \<sigma> \<sigma>'"
    and "concurrency_limit (sys_db \<sigma>) t = Some lim"
    and "int (count_rows (occupying t) (sys_db \<sigma>)) \<le> lim"
  shows "int (count_rows (occupying t) (sys_db \<sigma>')) \<le> lim"
proof -
  have i: "sys_inv s \<sigma>" using inv_reaches [OF assms(2) inv_initial [OF assms(1)]] .
  have "sys_inv s \<sigma>' \<and> tenants (sys_db \<sigma>') = tenants (sys_db \<sigma>)
      \<and> int (count_rows (occupying t) (sys_db \<sigma>')) \<le> lim"
    using assms(3)
  proof (induction rule: rtranclp_induct)
    case base
    then show ?case using i assms(5) by simp
  next
    case (step y z)
    then have "concurrency_limit (sys_db y) t = Some lim"
      using assms(4) by (simp add: concurrency_limit_def)
    then show ?case using step inv_step [of s y z] step_occupancy [of s y z t lim] by simp
  qed
  then show ?thesis by blast
qed

theorem concurrency_ceiling_holds_witness:
  "int (count_rows (occupying ''acme'') (sys_db demo_sys2)) = 1
     \<and> int (count_rows (occupying ''acme'') (sys_db demo_sys4)) \<le> 1"
proof -
  have "(\<lambda>a b. step demo_settings a b \<and> tenants (sys_db b) = tenants (sys_db a))\<^sup>*\<^sup>* demo_sys2 demo_sys4"
    using demo_steps(3,4) demo_tenants
    by (intro rtranclp.rtrancl_into_rtrancl [OF r_into_rtranclp, of _ demo_sys2 demo_sys3]) simp_all
  moreover have "concurrency_limit (sys_db demo_sys2) ''acme'' = Some 1"
    "int (count_rows (occupying ''acme'') (sys_db demo_sys2)) = 1" by code_simp+
  ultimately show ?thesis
    using concurrency_ceiling_holds [OF demo_run(1,2), of demo_sys4 "''acme''" 1] by simp
qed

section \<open>The claim\<close>

text \<open>
  C14. A claim hands out only a job the agent may run. The job was queued and unassigned
  in the agent's tenant, in no group or in the agent's, allowed by the calendar, with its
  inputs present, and the agent declares every capability the job needs; in the new table
  the job is claimed by that agent with a fresh attempt number and a full lease.
\<close>

theorem claim_hands_out_permitted_job:
  assumes "wf_jobs d" and "row_get a_agent_id (agents d) aid = Some ag"
    and "claim_job s now cal store locked minted d aid named tid_arg = Ok (d', Some resp)"
  shows "\<exists>row row'. get_row d (cl_job_id resp) = Some row \<and> get_row d' (cl_job_id resp) = Some row'
    \<and> j_status row = QUEUED \<and> j_execution row = ''agent'' \<and> j_assigned_agent_id row = None
    \<and> j_tenant_id row = or_text tid_arg (a_tenant_id ag) \<and> group_reach ag row
    \<and> set (required_capabilities (j_scan_options row)) \<subseteq> set (a_capabilities ag)
    \<and> adm_allowed (cal row) \<and> cl_job_id resp \<notin> set locked
    \<and> inputs_of store row = Some (cl_inputs resp)
    \<and> j_status row' = CLAIMED \<and> j_assigned_agent_id row' = Some aid
    \<and> j_attempts row' = j_attempts row + 1 \<and> cl_attempt resp = j_attempts row'
    \<and> j_claimed_until row' = Some (lease_deadline s now)"
proof (cases rule: claim_someE [OF assms(1,2) refl assms(3), case_names claim])
  case (claim c row d2 inputs row1)
  note h = hand_out_row [OF claim(12)] and w = waits_caps [OF claim(7)]
  have id: "cl_job_id resp = j_job_id c" "cl_attempt resp = j_attempts row1" "cl_inputs resp = inputs"
    using h w by (simp_all add: claim(14) claim_of_def Let_def same_row_def)
  have "get_row d' (j_job_id c) = Some row1"
    using claim(10) h w by (simp add: claim(13) get_put_row same_row_def)
  moreover have "set (required_capabilities (j_scan_options c)) \<subseteq> set (a_capabilities ag)"
    using claim_refusal_Ok [OF claim(11)] w by simp
  ultimately show ?thesis
    using claim(2-6) h w id
    by (intro exI [of _ c] exI [of _ row1]) (simp add: eligible_def servable_def)
qed

theorem claim_hands_out_permitted_job_witness:
  "\<exists>row row'. get_row demo_db1 (cl_job_id demo_response) = Some row
    \<and> get_row demo_db2 (cl_job_id demo_response) = Some row'
    \<and> j_status row = QUEUED \<and> j_status row' = CLAIMED \<and> j_assigned_agent_id row' = Some ''a1''"
  using claim_hands_out_permitted_job [OF demo_wf(1) demo_agent demo_claim_ok [unfolded demo_claim_def]]
  by blast

text \<open>
  C24. Claims respect the queue order: among the jobs the agent could run at that moment
  (eligible, within its capabilities, not locked by another claim, let through by the
  calendar and with their inputs), the one handed out has the highest priority, then the
  oldest submission, then the smallest id; and an empty answer to an agent whose tenant
  has a free slot means no eligible job could be served at all.
\<close>

theorem claim_takes_head_of_queue:
  assumes "wf_jobs d" and "row_get a_agent_id (agents d) aid = Some ag"
    and "claim_job s now cal store locked minted d aid named tid_arg = Ok (d', ans)"
  shows "case ans of
      None \<Rightarrow> hold_slot d (or_text tid_arg (a_tenant_id ag)) True True \<longrightarrow>
        (\<forall>x \<in> set (jobs d). eligible ag (or_text tid_arg (a_tenant_id ag)) named x
           \<and> j_job_id x \<notin> set locked \<longrightarrow> \<not> servable cal store x)
    | Some resp \<Rightarrow> \<exists>row. get_row d (cl_job_id resp) = Some row \<and>
        (\<forall>x \<in> set (jobs d). eligible ag (or_text tid_arg (a_tenant_id ag)) named x
           \<and> runnable (a_capabilities ag) x \<and> j_job_id x \<notin> set locked \<and> servable cal store x
           \<longrightarrow> x = row \<or> better row x)"
proof (cases ans)
  case None
  then show ?thesis using claim_none(2) [OF assms(1,2) refl] assms(3) by simp
next
  case (Some resp)
  show ?thesis
  proof (cases rule: claim_someE [OF assms(1,2) refl assms(3) [unfolded Some], case_names claim])
    case (claim c row d2 inputs row1)
    have id: "cl_job_id resp = j_job_id c"
      using hand_out_row [OF claim(12)] waits_caps [OF claim(7)]
      by (simp add: claim(14) claim_of_def Let_def same_row_def)
    have "x = c \<or> better c x" if "x \<in> set (jobs d)" "claim_key c \<le> claim_key x" for x
    proof (cases "claim_key c = claim_key x")
      case True
      then have "j_job_id x = j_job_id c" by (simp add: claim_key_def)
      then have "get_row d (j_job_id c) = Some x"
        using that(1) assms(1) by (simp add: row_get_Some_iff wf_jobs_def)
      then show ?thesis using claim(2) by simp
    next
      case False
      with that(2) show ?thesis by (simp add: better_claim_key order_less_le)
    qed
    then show ?thesis using Some id claim(2,15) by auto
  qed
qed


theorem claim_takes_head_of_queue_witness:
  "\<exists>row. get_row demo_db1 (cl_job_id demo_response) = Some row \<and>
     (\<forall>x \<in> set (jobs demo_db1). eligible (hd (agents demo_db1)) ''acme'' None x
        \<and> runnable (a_capabilities (hd (agents demo_db1))) x \<and> j_job_id x \<notin> set []
        \<and> servable open_calendar demo_store x \<longrightarrow> x = row \<or> better row x)"
  using claim_takes_head_of_queue [OF demo_wf(1) demo_agent demo_claim_ok [unfolded demo_claim_def]]
  by (simp add: demo_agent_tenant)

section \<open>Leases and reapers\<close>

text \<open>
  C25. The lease sweep is total and exact: it never raises, requeues every unlocked agent
  job whose lease ran out while attempts are left, fails every other unlocked job whose
  executor went silent, writes nothing else, and reports those two numbers.
\<close>

theorem lease_sweep_exact:
  assumes "wf_jobs d"
  shows "\<exists>d'. reap_expired_leases s now locked d =
      Ok (d', length (filter (retriable s) (expired_rows s now locked d)),
          length (filter (\<lambda>r. \<not> retriable s r) (expired_rows s now locked d)))
    \<and> (\<forall>row \<in> set (jobs d). get_row d' (j_job_id row) =
        Some (if lease_expired s now row \<and> j_job_id row \<notin> set locked
              then (if retriable s row then requeue_row row else expire_row now row) else row))"
proof -
  let ?rows = "expired_rows s now locked d"
  have "\<forall>r \<in> set ?rows. lease_expired s now r" by simp
  from reap_rows_total [OF this] obtain sw' where
    sw: "reap_rows s now \<lparr>sw_db = d, sw_requeued = [], sw_failed = []\<rparr> ?rows = Ok sw'" by blast
  obtain d' where d': "reap_expired_leases s now locked d =
      Ok (d', length (filter (retriable s) ?rows), length (filter (\<lambda>r. \<not> retriable s r) ?rows))"
    "jobs d' = jobs (put_rows d (map (reaped s now) ?rows))"
    using reap_rows_put [OF sw] by (auto simp: reap_expired_leases_def sw Let_def)
  have "get_row d' (j_job_id row) = Some (if row \<in> set ?rows then reaped s now row else row)"
    if "row \<in> set (jobs d)" for row
  proof -
    have "get_row d (j_job_id row) = Some row"
      using that assms by (simp add: wf_jobs_def row_get_Some_iff)
    then show ?thesis
      using get_put_rows [OF selected_rows(1) [OF assms] reaped_frame(1) selected_rows(2) [OF assms]] d'(2)
      by simp
  qed
  then have "\<forall>row \<in> set (jobs d). get_row d' (j_job_id row) =
        Some (if lease_expired s now row \<and> j_job_id row \<notin> set locked
              then (if retriable s row then requeue_row row else expire_row now row) else row)"
    by (simp add: reaped_def)
  then show ?thesis using d'(1) by blast
qed

theorem lease_sweep_exact_witness:
  "\<exists>d'. reap_expired_leases demo_settings 901000000 [] demo_db3 = Ok (d', 1, 0)
     \<and> get_row d' ''j1'' = Some (requeue_row (hd (jobs demo_db3)))"
proof -
  have "length (filter (retriable demo_settings) (expired_rows demo_settings 901000000 [] demo_db3)) = 1"
    "length (filter (\<lambda>r. \<not> retriable demo_settings r) (expired_rows demo_settings 901000000 [] demo_db3)) = 0"
    "hd (jobs demo_db3) \<in> set (jobs demo_db3)" "j_job_id (hd (jobs demo_db3)) = ''j1''"
    "lease_expired demo_settings 901000000 (hd (jobs demo_db3))" "retriable demo_settings (hd (jobs demo_db3))"
    by code_simp+
  then show ?thesis
    using lease_sweep_exact [OF demo_wf(3), of demo_settings 901000000 "[]"] by fastforce
qed

text \<open>
  C30. A heartbeat buys a lease: after a beat of the agent that holds an in-flight job, the
  job is running (or still running), and no lease sweep takes it during the whole
  following lease.
\<close>

theorem heartbeat_keeps_job:
  assumes "get_row d jid = Some row" and "j_assigned_agent_id row = Some aid"
    and "j_status row \<in> set IN_FLIGHT" and "mark_running s now d jid aid = (b, d')"
    and "t \<le> now + seconds (max (job_lease_seconds s) 1)"
  shows "\<not> b \<and> (\<exists>row'. get_row d' jid = Some row' \<and> j_status row' = RUNNING
    \<and> j_attempts row' = j_attempts row \<and> \<not> lease_expired s t row')"
proof -
  have id: "j_job_id row = jid" using row_get_key [OF assms(1)] .
  let ?r = "extend_lease row (lease_deadline s now)"
  obtain u where u: "j_claimed_until ?r = Some u" "lease_deadline s now \<le> u"
    using extend_lease_until by blast
  obtain row' where row': "d' = put_row d row'" "\<not> b" "j_status row' = RUNNING" "j_job_id row' = jid"
    "j_claimed_until row' = Some u" "j_attempts row' = j_attempts row"
    using assms(1-4) u id unfolding mark_running_def
    by (auto simp: Let_def state_simps split: if_splits)
  have "\<not> lease_expired s t row'"
    using row'(3,5) u(2) assms(5) by (auto simp: lease_expired_def lapsed_def lease_deadline_def)
  then show ?thesis using row' assms(1) by (simp add: get_put_row)
qed

theorem heartbeat_keeps_job_witness:
  "\<exists>row'. get_row (snd (mark_running demo_settings 0 demo_db2 ''j1'' ''a1'')) ''j1'' = Some row'
     \<and> j_status row' = RUNNING \<and> \<not> lease_expired demo_settings 300000000 row'"
proof -
  have "get_row demo_db2 ''j1'' = Some demo_row2" "j_assigned_agent_id demo_row2 = Some ''a1''"
    "j_status demo_row2 \<in> set IN_FLIGHT"
    "(300000000::int) \<le> 0 + seconds (max (job_lease_seconds demo_settings) 1)"
    by code_simp+
  from heartbeat_keeps_job [OF this(1-3) _ this(4)] show ?thesis
    by (metis surjective_pairing)
qed

text \<open>
  An upload being processed is left in peace: from the moment it is accepted, for the
  whole ingest lease, neither the lease sweep nor the sweep of unconfirmed stops touches
  its job.
\<close>

theorem open_upload_shields_job:
  assumes "open_upload s now token d u = Ok (d', Opened op)"
    and "now \<le> t" and "t \<le> now + seconds (max (job_ingest_lease_seconds s) 1)"
  shows "\<exists>row. get_row d' (up_job_id u) = Some row \<and> \<not> stale_cancellation s t row
    \<and> (j_status row \<in> set IN_FLIGHT \<longrightarrow> \<not> lease_expired s t row)"
proof -
  have shield: "\<not> stale_cancellation s t r2
      \<and> (j_status r2 \<in> set IN_FLIGHT \<longrightarrow> \<not> lease_expired s t r2)"
    if "open_ingest_lease s now token r1 a = (r2, f)" for r1 a r2 f
  proof -
    let ?r1 = "r1\<lparr>j_ingest_token := Some token, j_ingest_attempt := Some (j_attempts r1),
            j_ingest_agent_id := Some a, j_ingest_started_at := Some now\<rparr>"
    have r2: "r2 = (if j_status r1 \<in> set IN_FLIGHT then extend_lease ?r1 (now + ingest_window s) else ?r1)"
      using that unfolding open_ingest_lease_def Let_def by simp
    have st: "j_status r2 = j_status r1" and since: "j_ingest_started_at r2 = Some now"
      unfolding r2 by (simp_all add: extend_lease_def split: option.split)
    have "\<not> lease_expired s t r2" if live: "j_status r2 \<in> set IN_FLIGHT"
    proof -
      obtain v where "j_claimed_until r2 = Some v" "now + ingest_window s \<le> v"
        using extend_lease_until [of ?r1 "now + ingest_window s"] live st unfolding r2 by auto
      then show ?thesis using live assms(3)
        by (auto simp: lease_expired_def lapsed_def ingest_window_def state_simps)
    qed
    then show ?thesis using since assms(2,3) by (simp add: stale_cancellation_def ingest_window_def)
  qed
  show ?thesis
    using assms(1)
  proof (cases rule: open_upload_OkE)
    case (2 row row1 row2 fence rid)
    have "j_job_id row2 = up_job_id u"
      using reserve_same_life(1) [OF 2(3) refl] open_ingest_same_life(1) [OF 2(4)] row_get_key [OF 2(1)]
      by (simp add: same_life_def same_row_def)
    then show ?thesis using 2(1,6) shield [OF 2(4)] by (simp add: get_put_row)
  next
    case (3 row row1 row2 fence rid)
    have "same_life row row1"
      using reserve_same_life(2) [OF 3(3) refl] 3(4) terminal_stuck by blast
    then have "j_job_id row2 = up_job_id u"
      using open_ingest_same_life(1) [OF 3(5)] row_get_key [OF 3(1)] by (simp add: same_life_def same_row_def)
    then show ?thesis using 3(1,7) shield [OF 3(5)] by (simp add: get_put_row)
  qed simp
qed

theorem open_upload_shields_job_witness:
  "\<exists>row. get_row demo_db3 ''j1'' = Some row \<and> \<not> stale_cancellation demo_settings 900000000 row
     \<and> (j_status row \<in> set IN_FLIGHT \<longrightarrow> \<not> lease_expired demo_settings 900000000 row)"
proof -
  have "up_job_id demo_upload = ''j1''"
    "(900000000::int) \<le> 0 + seconds (max (job_ingest_lease_seconds demo_settings) 1)" by code_simp+
  then show ?thesis using open_upload_shields_job [OF demo_open_ok, of 900000000] by simp
qed

section \<open>Uploads\<close>

text \<open>
  C18. A straggler cannot land. When an ingest ends and the job no longer carries its
  token (the lease was reaped, or another upload was accepted), the upload is refused
  whatever its archive's verdict: nothing is published, no other job is touched, and of
  the job itself at most the straggler's own results reservation is given back.
\<close>

theorem straggler_refused:
  assumes "get_row d (up_job_id u) = Some row" and "il_job_id (op_fence op) = up_job_id u"
    and "j_ingest_token row \<noteq> Some (il_token (op_fence op))"
    and "finish_upload s now v d u op = (d', e)"
  shows "e \<noteq> None \<and> publications d' = publications d
    \<and> (\<forall>k. k \<noteq> up_job_id u \<longrightarrow> get_row d' k = get_row d k)
    \<and> (\<exists>key. get_row d' (up_job_id u) = Some (row\<lparr>j_results_idempotency_key := key\<rparr>)
         \<and> (key = j_results_idempotency_key row \<or> key = None))"
proof -
  have nf: "\<not> fence_holds row (op_fence op)" using assms(3) by (simp add: fence_holds_def)
  have w: "write_outcome n d u op p \<noteq> Ok x" for n p x
    using assms(1) nf
    by (auto simp: write_outcome_def record_late_cancellation_archive_def update_job_def check_ingest_fence_def)
  have r: "fail_rejected_upload n (audit d a) u op c m \<noteq> Ok x" for n a c m x
    using assms(1) nf by (auto simp: fail_rejected_upload_def update_job_def check_ingest_fence_def)
  obtain d1 e1 where t: "try_outcome s now v d u op = (d1, e1)" by fastforce
  have t1: "jobs d1 = jobs d" "publications d1 = publications d" "e1 \<noteq> None"
  proof -
    have "jobs d1 = jobs d \<and> publications d1 = publications d \<and> e1 \<noteq> None"
      using t w r
      by (auto simp: try_outcome_def Let_def split: if_splits verdict.splits sum.splits)
    then show "jobs d1 = jobs d" "publications d1 = publications d" "e1 \<noteq> None" by auto
  qed
  then obtain x where e1: "e1 = Some x" by blast
  have d': "d' = abort_upload s now d1 u op" "e = Some x"
    using assms(4) t e1 by (simp_all add: finish_upload_def)
  have id: "j_job_id row = up_job_id u" using row_get_key [OF assms(1)] .
  let ?d2 = "case held_key u op of None \<Rightarrow> d1
        | Some key \<Rightarrow> release_results_reservation d1 (up_job_id u) key (op_late op)"
  have two: "(\<exists>key. get_row ?d2 (up_job_id u) = Some (row\<lparr>j_results_idempotency_key := key\<rparr>)
         \<and> (key = j_results_idempotency_key row \<or> key = None))
      \<and> (\<forall>k. k \<noteq> up_job_id u \<longrightarrow> get_row ?d2 k = get_row d k)"
  proof -
    have g: "get_row d1 k = get_row d k" for k by (simp add: t1(1))
    have same: "\<exists>key. row = row\<lparr>j_results_idempotency_key := key\<rparr>
        \<and> (key = j_results_idempotency_key row \<or> key = None)"
      by (rule exI [of _ "j_results_idempotency_key row"]) simp
    show ?thesis
      using assms(1) id g same
      by (auto simp: release_results_reservation_def get_put_row split: option.split)
  qed
  then obtain key where key: "get_row ?d2 (up_job_id u) = Some (row\<lparr>j_results_idempotency_key := key\<rparr>)"
    "key = j_results_idempotency_key row \<or> key = None" by blast
  have "d' = ?d2"
    unfolding d'(1) abort_upload_def release_ingest_lease_def assms(2) using key(1) assms(3) by simp
  then show ?thesis using two key d'(2) t1(2) by (auto split: option.split)
qed

theorem straggler_refused_witness:
  "snd (finish_upload demo_settings 901000000 (Accepted ''staging'') dead_db2 demo_upload demo_opened) \<noteq> None
     \<and> publications (fst (finish_upload demo_settings 901000000 (Accepted ''staging'') dead_db2
                          demo_upload demo_opened)) = []"
proof -
  have "get_row dead_db2 (up_job_id demo_upload) = Some (hd (jobs dead_db2))"
    "il_job_id (op_fence demo_opened) = up_job_id demo_upload"
    "j_ingest_token (hd (jobs dead_db2)) \<noteq> Some (il_token (op_fence demo_opened))"
    "publications dead_db2 = []"
    by code_simp+
  from straggler_refused [OF this(1-3) surjective_pairing] this(4) show ?thesis by simp
qed

lemma confirm_again:
  assumes "confirm expected offered = Ok rid"
  shows "\<exists>r. confirm (if truthy_text rid then rid else None) offered = Ok r"
  using assms by (auto simp: confirm_def Let_def split: if_splits)



lemma open_ingest_row:
  assumes "open_ingest_lease s now tok r a = (r', f)"
  shows "j_run_id r' = j_run_id r" and "j_results_idempotency_key r' = j_results_idempotency_key r"
    and "il_job_id f = j_job_id r" and "il_token f = tok" and "j_ingest_token r' = Some tok"
proof -
  let ?r1 = "r\<lparr>j_ingest_token := Some tok, j_ingest_attempt := Some (j_attempts r),
            j_ingest_agent_id := Some a, j_ingest_started_at := Some now\<rparr>"
  have r': "r' = (if j_status r \<in> set IN_FLIGHT then extend_lease ?r1 (now + ingest_window s) else ?r1)"
    using assms unfolding open_ingest_lease_def Let_def by simp
  show "j_run_id r' = j_run_id r" unfolding r' by (simp add: extend_lease_def split: option.split)
  show "j_results_idempotency_key r' = j_results_idempotency_key r" unfolding r' by simp
  show "il_job_id f = j_job_id r" "il_token f = tok" "j_ingest_token r' = Some tok"
    using open_ingest_lease_row [OF assms] by simp_all
qed

lemma abort_row:
  assumes "wf_jobs d" and "get_row d (up_job_id u) = Some r"
    and "\<not> op_late op" and "j_status r \<notin> set TERMINAL"
    and "il_job_id (op_fence op) = up_job_id u" and "j_ingest_token r = Some (il_token (op_fence op))"
  shows "\<exists>r'. get_row (abort_upload s now d u op) (up_job_id u) = Some r' \<and> same_row r r'
    \<and> j_status r' = j_status r \<and> j_attempts r' = j_attempts r \<and> j_run_id r' = j_run_id r
    \<and> j_assigned_agent_id r' = j_assigned_agent_id r \<and> j_ingest_token r' = None
    \<and> j_results_idempotency_key r' =
        (if held_key u op \<noteq> None \<and> j_results_idempotency_key r = held_key u op then None
         else j_results_idempotency_key r)
    \<and> (j_status r \<in> set IN_FLIGHT \<longrightarrow> j_claimed_until r' = Some (lease_deadline s now))"
proof -
  have id: "j_job_id r = up_job_id u" using row_get_key [OF assms(2)] .
  let ?k = "if held_key u op \<noteq> None \<and> j_results_idempotency_key r = held_key u op then None
         else j_results_idempotency_key r"
  let ?r1 = "r\<lparr>j_results_idempotency_key := ?k\<rparr>"
  let ?d1 = "case held_key u op of None \<Rightarrow> d
        | Some key \<Rightarrow> release_results_reservation d (up_job_id u) key (op_late op)"
  have r1: "get_row ?d1 (up_job_id u) = Some ?r1"
    using assms(2-4) id by (auto simp: release_results_reservation_def get_put_row split: option.split)
  let ?r2 = "if j_status r \<in> set IN_FLIGHT
             then (clear_ingest ?r1)\<lparr>j_claimed_until := Some (lease_deadline s now)\<rparr> else clear_ingest ?r1"
  have "abort_upload s now d u op = put_row ?d1 ?r2"
    unfolding abort_upload_def release_ingest_lease_def assms(5) using r1 assms(6) by (simp add: Let_def)
  then have "get_row (abort_upload s now d u op) (up_job_id u) = Some ?r2"
    using r1 id by (simp add: get_put_row)
  moreover have "same_row r ?r2 \<and> j_status ?r2 = j_status r \<and> j_attempts ?r2 = j_attempts r
    \<and> j_run_id ?r2 = j_run_id r \<and> j_assigned_agent_id ?r2 = j_assigned_agent_id r
    \<and> j_ingest_token ?r2 = None \<and> j_results_idempotency_key ?r2 = ?k
    \<and> (j_status r \<in> set IN_FLIGHT \<longrightarrow> j_claimed_until ?r2 = Some (lease_deadline s now))"
    by (simp add: same_row_def clear_ingest_def)
  ultimately show ?thesis by blast
qed

text \<open>
  A failed ingest leaves the job open for a retry: when the archive of an accepted
  upload turns out to be unreadable, the handler gives back the results reservation and
  the ingest lease, so the same upload is accepted again, and a job in flight is back on
  an ordinary lease.
\<close>

theorem failed_ingest_can_be_retried:
  assumes "wf_jobs d" and "open_upload s now token d u = Ok (d1, Opened op)" and "\<not> op_late op"
    and "truthy_text (up_archive u)"
    and "finish_upload s now2 (BadArchive reason) d1 u op = (d2, e)"
  shows "e \<noteq> None \<and> publications d2 = publications d
    \<and> (\<exists>d3 op'. open_upload s now3 token' d2 u = Ok (d3, Opened op'))"
  using assms(2)
proof (cases rule: open_upload_OkE)
  case 1
  then show ?thesis by simp
next
  case (2 row row1 row2 fence rid)
  then show ?thesis using assms(3) by simp
next
  case (3 row row1 row2 fence rid)
  have op: "op = opened_of row u False rid fence" using 3(8) by simp
  have live: "j_status row \<notin> set TERMINAL" using 3(4) terminal_stuck by blast
  have l1: "same_life row row1" using reserve_same_life(2) [OF 3(3) refl live] .
  have l2: "same_life row row2" using same_life_trans [OF l1 open_ingest_same_life(1) [OF 3(5)]] .
  have id: "j_job_id row1 = up_job_id u" "j_job_id row2 = up_job_id u"
    using l1 l2 row_get_key [OF 3(1)] by (simp_all add: same_life_def same_row_def)
  note ing = open_ingest_row [OF 3(5)]
  have key: "j_results_idempotency_key row1 =
      (if truthy_text (up_idempotency_key u) then up_idempotency_key u else j_results_idempotency_key row)"
    "j_run_id row1 = j_run_id row"
    using 3(3) live by (auto simp: reserve_def Let_def split: if_splits)
  have e: "e \<noteq> None" and d2: "d2 = abort_upload s now2 d1 u op"
    using assms(4,5) by (auto simp: finish_upload_def try_outcome_def split: if_splits)
  have g1: "get_row d1 (up_job_id u) = Some row2" using 3(1,7) id by (simp add: get_put_row)
  have wf1: "wf_jobs d1" using assms(1) 3(7) by simp
  have held: "held_key u op = (if truthy_text (up_idempotency_key u) then up_idempotency_key u else None)"
    by (simp add: held_key_def op)
  have live2: "j_status row2 \<notin> set TERMINAL" using l2 live by (simp add: same_life_def)
  have fence: "il_job_id (op_fence op) = up_job_id u"
    "j_ingest_token row2 = Some (il_token (op_fence op))"
    using ing id by (simp_all add: op)
  from abort_row [where s = s and now = now2, OF wf1 g1 assms(3) live2 fence]
  obtain r' where r': "get_row d2 (up_job_id u) = Some r'" "same_row row2 r'"
    "j_status r' = j_status row2" "j_attempts r' = j_attempts row2" "j_run_id r' = j_run_id row2"
    "j_assigned_agent_id r' = j_assigned_agent_id row2"
    and rk: "j_results_idempotency_key r' =
        (if held_key u op \<noteq> None \<and> j_results_idempotency_key row2 = held_key u op then None
         else j_results_idempotency_key row2)"
    unfolding d2 by blast
  have same: "j_execution r' = j_execution row" "job_tenant r' = job_tenant row"
    "j_attempts r' = j_attempts row" "j_assigned_agent_id r' = j_assigned_agent_id row"
    "j_status r' = j_status row" "j_run_id r' = j_run_id row"
    using r' l2 ing(1) key(2) by (simp_all add: same_life_def same_row_def job_tenant_def)
  have k: "truthy_text (up_idempotency_key u) \<Longrightarrow> j_results_idempotency_key r' = None"
    using rk held key(1) ing(2) by (auto simp: truthy_text_def)
  have "check_uploader r' u = Ok ()"
    using 3(2) same by (auto simp: check_uploader_def split: if_splits)
  moreover have "\<exists>r1. reserve s now3 r' u = Ok (Proceed r1)"
    using same(5) live k by (auto simp: reserve_def Let_def)
  moreover have "upload_status r' u = upload_status row u" using same(5) by (simp add: upload_status_def)
  ultimately have "\<exists>d3 op'. open_upload s now3 token' d2 u = Ok (d3, Opened op')"
    using r'(1) 3(4,6) same(5,6)
    by (auto simp: open_upload_def check_transition_def can_transition_known split: prod.split)
  then show ?thesis using e d2 3(7) by simp
qed

theorem failed_ingest_can_be_retried_witness:
  "\<exists>d3 op'. open_upload demo_settings 5 ''t2''
     (fst (finish_upload demo_settings 1 (BadArchive ''zip'') demo_db3 demo_upload demo_opened)) demo_upload
     = Ok (d3, Opened op')"
proof -
  have "\<not> op_late demo_opened" "truthy_text (up_archive demo_upload)" by code_simp+
  from failed_ingest_can_be_retried [OF demo_wf(2) demo_open_ok this surjective_pairing]
  show ?thesis by blast
qed

section \<open>Reservations that outlive their upload\<close>

text \<open>
  C36. A replica that dies while it ingests an upload leaves the upload's results key on
  the row, and the lease sweep that requeues the job does not clear it. The run below
  reaches a state in which no upload is being processed anywhere and the same agent holds
  the job on its second attempt; every upload it sends under the key it derives for this
  job is then turned away as "already being processed", at any time.
\<close>

theorem dead_replica_blocks_retry:
  "reaches demo_settings demo_sys0 dead_sys4 \<and> sys_inflight dead_sys4 = []
     \<and> (\<forall>now token. open_upload demo_settings now token (sys_db dead_sys4) retry_upload
           = Err (ResultsInFlight ''j1''))"
proof -
  have row: "get_row dead_db2 ''j1'' = Some (hd (jobs dead_db2))" "j_job_id (hd (jobs dead_db2)) = ''j1''"
    and live: "j_status (hd (jobs dead_db2)) \<notin> set TERMINAL"
    and chk: "check_uploader (hd (jobs dead_db2)) retry_upload = Ok ()"
    and key: "j_results_idempotency_key (hd (jobs dead_db2)) = up_idempotency_key retry_upload"
      "truthy_text (up_idempotency_key retry_upload)" "up_job_id retry_upload = ''j1''"
    by code_simp+
  have "open_upload demo_settings now token dead_db2 retry_upload = Err (ResultsInFlight ''j1'')" for now token
    using row live chk key by (simp add: open_upload_def reserve_def Let_def)
  then show ?thesis using dead_run by (simp add: dead_defs sys_defs)
qed

text \<open>
  C37. When the sweep of unconfirmed stops closes a job whose confirming upload died, the
  key of that upload stays on the cancelled row. The agent's retry under the same key is
  answered as a replay of an accepted upload, although nothing was ever published for the
  job and its archive is lost.
\<close>

theorem lost_archive_answered_as_replay:
  "reaches demo_settings demo_sys0 stop_sys5 \<and> pubs (sys_db stop_sys5) ''j1'' = 0
     \<and> (\<forall>now token. \<exists>info. open_upload demo_settings now token (sys_db stop_sys5) stop_upload
           = Ok (sys_db stop_sys5, Replayed info))"
proof -
  have row: "get_row stop_db3 ''j1'' = Some (hd (jobs stop_db3))"
    and st: "j_status (hd (jobs stop_db3)) = CANCELLED"
    and chk: "check_uploader (hd (jobs stop_db3)) stop_upload = Ok ()"
    and key: "j_results_idempotency_key (hd (jobs stop_db3)) = up_idempotency_key stop_upload"
      "truthy_text (up_idempotency_key stop_upload)" "up_job_id stop_upload = ''j1''"
    and rid: "confirm (j_run_id (hd (jobs stop_db3))) (up_run_id stop_upload) = Ok (Some ''r1'')"
    and none: "pubs stop_db3 ''j1'' = 0"
    by code_simp+
  have "\<exists>info. open_upload demo_settings now token stop_db3 stop_upload = Ok (stop_db3, Replayed info)"
    for now token
    using row st chk key rid
    by (simp add: open_upload_def reserve_def classify_replay_def Let_def state_simps)
  then show ?thesis using stop_run(3) none by (simp add: sys_defs)
qed

end
