(* ===== verification/Policy_Properties.thy ===== *)
theory Policy_Properties
  imports Job_Demo
begin

text \<open>
  The properties of the scan policy: writing one holds every queued job of the tenant to
  it and never loosens a job, whatever the sequence of policies; the stored row is within
  bounds and the floors of the fragile profile hold whatever was stored; an admitted scan
  names no port the policy avoids; a queued job that gained a policy is not served
  without the policy document.
\<close>

section \<open>Holding queued jobs\<close>

abbreviation job_policy :: "job \<Rightarrow> resolved_policy option" where
  "job_policy row \<equiv> map_option fst (so_scan_policy (j_scan_options row))"

definition held :: "string \<Rightarrow> job \<Rightarrow> bool" where
  "held tid row = (j_tenant_id row = tid \<and> j_status row = QUEUED)"

definition held_row ::
  "(resolved_policy \<Rightarrow> string) \<Rightarrow> (string \<Rightarrow> string) \<Rightarrow> string \<Rightarrow> resolved_policy \<Rightarrow> job \<Rightarrow> job" where
  "held_row digest path tid r row =
     (if held tid row then or_else (hold_row digest path r row) row else row)"

lemma hold_row_id: "hold_row digest path r row = Some row' \<Longrightarrow> j_job_id row' = j_job_id row"
  by (auto simp: hold_row_def Let_def split: option.splits if_splits)

lemma jobs_put_rows: "jobs (put_rows d rs) = foldl (row_put j_job_id) (jobs d) rs"
  by (induction rs arbitrary: d) (simp_all add: put_row_def)

lemma foldl_row_put_notin:
  "key x \<notin> key ` set rs \<Longrightarrow> foldl (row_put key) (x # tbl) rs = x # foldl (row_put key) tbl rs"
  by (induction rs arbitrary: tbl) (auto simp: row_put_def)

lemma row_put_head: "key r = key x \<Longrightarrow> key x \<notin> key ` set tbl \<Longrightarrow> row_put key (x # tbl) r = r # tbl"
  using row_put_absent [of key r tbl] by (simp add: row_put_def)

text \<open>Writing back the rows a partial function returns is mapping it over the table.\<close>

lemma foldl_row_put_filter:
  assumes "distinct (map key tbl)" and "\<And>x y. f x = Some y \<Longrightarrow> key y = key x"
  shows "foldl (row_put key) tbl (List.map_filter f tbl) = map (\<lambda>x. or_else (f x) x) tbl"
  using assms(1)
proof (induction tbl)
  case Nil
  then show ?case by (simp add: List.map_filter_def)
next
  case (Cons x tbl)
  have keys: "key ` set (List.map_filter f tbl) \<subseteq> key ` set tbl"
    using assms(2) by (force simp: List.map_filter_def)
  have head: "foldl (row_put key) (y # tbl) (List.map_filter f tbl)
      = y # map (\<lambda>x. or_else (f x) x) tbl" if "key y = key x" for y
    using foldl_row_put_notin [of key y "List.map_filter f tbl" tbl] Cons keys that by auto
  show ?case
  proof (cases "f x")
    case None
    then show ?thesis using head [of x] by (simp add: List.map_filter_def)
  next
    case (Some y)
    then have "key y = key x" by (rule assms(2))
    then show ?thesis using Some head [of y] row_put_head [of key y x tbl] Cons.prems
      by (simp add: List.map_filter_def)
  qed
qed

lemma map_filter_filter:
  "List.map_filter f (filter P xs) = List.map_filter (\<lambda>x. if P x then f x else None) xs"
  by (induction xs) (auto simp: List.map_filter_def)

lemma apply_policy_rows:
  assumes "wf_jobs d" and "apply_policy_to_queued digest path d tid (Some r) = (n, d')"
  shows "jobs d' = map (held_row digest path tid r) (jobs d)"
    and "n = length (filter (\<lambda>row. held tid row \<and> hold_row digest path r row \<noteq> None) (jobs d))"
proof -
  let ?f = "\<lambda>row. if held tid row then hold_row digest path r row else None"
  have rows: "List.map_filter (hold_row digest path r)
      (filter (\<lambda>row. j_tenant_id row = tid \<and> j_status row = QUEUED) (jobs d))
    = List.map_filter ?f (jobs d)"
    by (simp add: map_filter_filter held_def)
  then have d': "d' = put_rows d (List.map_filter ?f (jobs d))"
    and n: "n = length (List.map_filter ?f (jobs d))"
    using assms(2) by (simp_all add: apply_policy_to_queued_def Let_def)
  have "(\<lambda>x. or_else (?f x) x) = held_row digest path tid r"
    by (auto simp: held_row_def)
  then show "jobs d' = map (held_row digest path tid r) (jobs d)"
    unfolding d' jobs_put_rows using assms(1) hold_row_id
    by (subst foldl_row_put_filter) (auto simp: wf_jobs_def split: if_splits)
  have "length (List.map_filter g xs) = length (filter (\<lambda>x. g x \<noteq> None) xs)" for g :: "job \<Rightarrow> job option" and xs
    by (simp add: List.map_filter_def comp_def)
  then show "n = length (filter (\<lambda>row. held tid row \<and> hold_row digest path r row \<noteq> None) (jobs d))"
    unfolding n by (auto intro!: arg_cong [where f = length] filter_cong)
qed

lemma held_row_policy:
  "held tid row \<Longrightarrow> so_scan_policy (j_scan_options (held_row digest path tid r row))
     = snapshot digest (tighten (job_policy row) (Some r))"
  by (auto simp: held_row_def hold_row_def Let_def snapshot_def tighten_fold)

lemma job_policy_snapshot: "map_option fst (snapshot digest p) = p"
  by (cases p) (simp_all add: snapshot_def)

lemma hold_row_SomeE:
  assumes "hold_row digest path r row = Some row'"
  obtains m where "row' = row\<lparr>
      j_scan_options := (j_scan_options row)\<lparr>so_scan_policy := Some m,
         so_skip_nse := (skip_service_probe (fst m) \<or> so_skip_nse (j_scan_options row))\<rparr>,
      j_command := hold_command (path (j_job_id row)) (skip_service_probe (fst m)) (j_command row)\<rparr>"
  using assms unfolding hold_row_def Let_def by (simp split: option.splits if_splits) metis

lemma held_row_cases:
  obtains "held_row digest path tid r row = row"
  | row' where "hold_row digest path r row = Some row'" "held_row digest path tid r row = row'"
  unfolding held_row_def by (cases "hold_row digest path r row"; cases "held tid row") auto

lemma held_row_columns:
  "held_row digest path tid r row
     = row\<lparr>j_scan_options := j_scan_options (held_row digest path tid r row),
           j_command := j_command (held_row digest path tid r row)\<rparr>"
proof (cases rule: held_row_cases [of digest path tid r row])
  case 1
  then show ?thesis by simp
next
  case (2 row')
  show ?thesis unfolding 2(2) by (rule hold_row_SomeE [OF 2(1)]) simp
qed

lemma held_row_simps [simp]:
  "j_job_id (held_row digest path tid r row) = j_job_id row"
  "j_tenant_id (held_row digest path tid r row) = j_tenant_id row"
  "j_status (held_row digest path tid r row) = j_status row"
  "held t (held_row digest path tid r row) = held t row"
proof -
  let ?row = "held_row digest path tid r row"
  have row: "?row = row\<lparr>j_scan_options := j_scan_options ?row, j_command := j_command ?row\<rparr>"
    by (rule held_row_columns)
  show id: "j_job_id ?row = j_job_id row" by (subst row) simp
  show t: "j_tenant_id ?row = j_tenant_id row" by (subst row) simp
  show st: "j_status ?row = j_status row" by (subst row) simp
  show "held t ?row = held t row" by (simp add: held_def t st)
qed

lemma hold_command_mem:
  "''--scan-policy'' \<in> set (hold_command p skip c)"
  "skip \<Longrightarrow> ''--skip-nse'' \<in> set (hold_command p skip c)"
  by (auto simp: hold_command_def Let_def)

lemma held_row_command:
  assumes "held_row digest path tid r row \<noteq> row"
  shows "''--scan-policy'' \<in> set (j_command (held_row digest path tid r row))"
    and "job_policy (held_row digest path tid r row) = Some p \<Longrightarrow> skip_service_probe p \<Longrightarrow>
      so_skip_nse (j_scan_options (held_row digest path tid r row))
      \<and> ''--skip-nse'' \<in> set (j_command (held_row digest path tid r row))"
proof -
  obtain row' m where row': "held_row digest path tid r row = row'" "row' = row\<lparr>
      j_scan_options := (j_scan_options row)\<lparr>so_scan_policy := Some m,
         so_skip_nse := (skip_service_probe (fst m) \<or> so_skip_nse (j_scan_options row))\<rparr>,
      j_command := hold_command (path (j_job_id row)) (skip_service_probe (fst m)) (j_command row)\<rparr>"
    using assms held_row_cases [of digest path tid r row] hold_row_SomeE by metis
  show "''--scan-policy'' \<in> set (j_command (held_row digest path tid r row))"
    by (simp add: row' hold_command_mem)
  show "job_policy (held_row digest path tid r row) = Some p \<Longrightarrow> skip_service_probe p \<Longrightarrow>
      so_skip_nse (j_scan_options (held_row digest path tid r row))
      \<and> ''--skip-nse'' \<in> set (j_command (held_row digest path tid r row))"
    by (simp add: row' hold_command_mem)
qed

lemma held_row_again:
  "held tid row \<Longrightarrow> hold_row digest path r (held_row digest path tid r row) = None"
proof -
  assume h: "held tid row"
  let ?row = "held_row digest path tid r row"
  have "so_scan_policy (j_scan_options ?row) = snapshot digest (tighten (job_policy row) (Some r))"
    using h by (rule held_row_policy)
  then have "snapshot digest (tighten (job_policy ?row) (Some r)) = so_scan_policy (j_scan_options ?row)"
    by (simp add: job_policy_snapshot tighten_again)
  then show ?thesis unfolding hold_row_def Let_def by (auto split: option.split)
qed

lemma get_row_map:
  "(\<And>row. j_job_id (f row) = j_job_id row) \<Longrightarrow> jobs d' = map f (jobs d) \<Longrightarrow>
     get_row d' jid = map_option f (get_row d jid)"
proof -
  assume f: "\<And>row. j_job_id (f row) = j_job_id row" and d': "jobs d' = map f (jobs d)"
  have "row_get j_job_id (map f tbl) jid = map_option f (row_get j_job_id tbl jid)" for tbl
    by (induction tbl) (auto simp: row_get_def f)
  then show ?thesis by (simp add: d')
qed

lemma apply_policy_wf:
  assumes "wf_jobs d" and "apply_policy_to_queued digest path d tid (Some r) = (n, d')"
  shows "wf_jobs d'" and "get_row d' jid = map_option (held_row digest path tid r) (get_row d jid)"
proof -
  have rows: "jobs d' = map (held_row digest path tid r) (jobs d)" by (rule apply_policy_rows [OF assms])
  then show "wf_jobs d'" using assms(1) by (simp add: wf_jobs_def comp_def)
  show "get_row d' jid = map_option (held_row digest path tid r) (get_row d jid)"
    by (rule get_row_map [OF _ rows]) simp
qed

lemma apply_policy_idle:
  assumes "wf_jobs d" and "\<forall>row \<in> set (jobs d). held tid row \<longrightarrow> hold_row digest path r row = None"
  shows "apply_policy_to_queued digest path d tid (Some r) = (0, d)"
proof -
  have "List.map_filter (hold_row digest path r)
      (filter (\<lambda>row. j_tenant_id row = tid \<and> j_status row = QUEUED) (jobs d)) = []"
    using assms(2) by (auto simp: List.map_filter_def held_def filter_empty_conv)
  then show ?thesis by (simp add: apply_policy_to_queued_def)
qed

text \<open>
  C26. Writing a policy holds every queued job of the tenant to it. After the write a queued
  job of the tenant carries the weakest policy that is at least as strict as the one it was
  admitted under and as the new one; a job that changed names its policy document on its
  command line and skips the service probe when the policy says so; no other column of a job,
  and no other job, moves. Writing the same policy again touches nothing.
\<close>

theorem policy_write_holds_queue:
  assumes "wf_jobs d" and "apply_policy_to_queued digest path d tid (Some r) = (n, d')"
    and "get_row d jid = Some row"
  shows "(\<exists>row'. get_row d' jid = Some row'
      \<and> row' = row\<lparr>j_scan_options := j_scan_options row', j_command := j_command row'\<rparr>
      \<and> (j_tenant_id row \<noteq> tid \<or> j_status row \<noteq> QUEUED \<longrightarrow> row' = row)
      \<and> (j_tenant_id row = tid \<and> j_status row = QUEUED \<longrightarrow>
           opt_policy_le (job_policy row') (job_policy row) \<and> opt_policy_le (job_policy row') (Some r)
           \<and> (\<forall>c. opt_policy_le c (job_policy row) \<and> opt_policy_le c (Some r)
                \<longrightarrow> opt_policy_le c (job_policy row')))
      \<and> (row' \<noteq> row \<longrightarrow> ''--scan-policy'' \<in> set (j_command row')
           \<and> (\<forall>p. job_policy row' = Some p \<and> skip_service_probe p \<longrightarrow>
                so_skip_nse (j_scan_options row') \<and> ''--skip-nse'' \<in> set (j_command row'))))
    \<and> (apply_policy_to_queued digest path d' tid (Some r) = (0, d'))"
proof -
  let ?row = "held_row digest path tid r row"
  have get: "get_row d' jid = Some ?row" using apply_policy_wf(2) [OF assms(1,2)] assms(3) by simp
  have untouched: "\<not> held tid row \<Longrightarrow> ?row = row" by (simp add: held_row_def)
  have pol: "held tid row \<Longrightarrow> job_policy ?row = tighten (job_policy row) (Some r)"
    by (simp add: held_row_policy job_policy_snapshot)
  have c1: "\<exists>row'. get_row d' jid = Some row'
      \<and> row' = row\<lparr>j_scan_options := j_scan_options row', j_command := j_command row'\<rparr>
      \<and> (j_tenant_id row \<noteq> tid \<or> j_status row \<noteq> QUEUED \<longrightarrow> row' = row)
      \<and> (j_tenant_id row = tid \<and> j_status row = QUEUED \<longrightarrow>
           opt_policy_le (job_policy row') (job_policy row) \<and> opt_policy_le (job_policy row') (Some r)
           \<and> (\<forall>c. opt_policy_le c (job_policy row) \<and> opt_policy_le c (Some r)
                \<longrightarrow> opt_policy_le c (job_policy row')))
      \<and> (row' \<noteq> row \<longrightarrow> ''--scan-policy'' \<in> set (j_command row')
           \<and> (\<forall>p. job_policy row' = Some p \<and> skip_service_probe p \<longrightarrow>
                so_skip_nse (j_scan_options row') \<and> ''--skip-nse'' \<in> set (j_command row')))"
  proof (intro exI [of _ ?row] conjI)
    show "get_row d' jid = Some ?row" by (rule get)
    show "?row = row\<lparr>j_scan_options := j_scan_options ?row, j_command := j_command ?row\<rparr>"
      by (rule held_row_columns)
    show "j_tenant_id row \<noteq> tid \<or> j_status row \<noteq> QUEUED \<longrightarrow> ?row = row"
      using untouched by (auto simp: held_def)
    show "j_tenant_id row = tid \<and> j_status row = QUEUED \<longrightarrow>
        opt_policy_le (job_policy ?row) (job_policy row) \<and> opt_policy_le (job_policy ?row) (Some r)
        \<and> (\<forall>c. opt_policy_le c (job_policy row) \<and> opt_policy_le c (Some r)
             \<longrightarrow> opt_policy_le c (job_policy ?row))"
      using pol by (simp add: held_def policies.meet_le1 policies.meet_le2 policies.meet_greatest)
    show "?row \<noteq> row \<longrightarrow> ''--scan-policy'' \<in> set (j_command ?row)
        \<and> (\<forall>p. job_policy ?row = Some p \<and> skip_service_probe p \<longrightarrow>
             so_skip_nse (j_scan_options ?row) \<and> ''--skip-nse'' \<in> set (j_command ?row))"
      using held_row_command by blast
  qed
  have "\<forall>row \<in> set (jobs d'). held tid row \<longrightarrow> hold_row digest path r row = None"
    using apply_policy_rows(1) [OF assms(1,2)] held_row_again by auto
  then have c2: "apply_policy_to_queued digest path d' tid (Some r) = (0, d')"
    using apply_policy_idle apply_policy_wf(1) [OF assms(1,2)] by blast
  show ?thesis using c1 c2 by (intro conjI)
qed

section \<open>A concrete policy\<close>

definition demo_policy_row :: policy_row where
  "demo_policy_row = \<lparr>p_tenant_id = ''acme'', p_profile = ''fragile'', p_safe_only = False,
     p_max_discover_rate = Some 500, p_max_port_rate = None, p_max_host_concurrency = None,
     p_per_host_rate = Some 10, p_avoid_ports = [8080], p_note = [], p_updated_at = 0,
     p_updated_by = ''olga''\<rparr>"

definition demo_policy :: resolved_policy where
  "demo_policy = the (resolve (Some demo_policy_row))"

definition demo_digest :: "resolved_policy \<Rightarrow> string" where
  "demo_digest p = profile p"

definition demo_path :: "string \<Rightarrow> string" where
  "demo_path jid = jid @ ''/scan_policy.json''"

theorem policy_write_holds_queue_witness:
  "\<exists>row'. get_row (snd (apply_policy_to_queued demo_digest demo_path demo_db1 ''acme'' (Some demo_policy)))
       ''j1'' = Some row'
     \<and> opt_policy_le (job_policy row') (Some demo_policy) \<and> ''--scan-policy'' \<in> set (j_command row')"
proof -
  let ?r = "apply_policy_to_queued demo_digest demo_path demo_db1 ''acme'' (Some demo_policy)"
  have row: "get_row demo_db1 ''j1'' = Some demo_row1" "j_tenant_id demo_row1 = ''acme'' \<and> j_status demo_row1 = QUEUED"
    "get_row (snd ?r) ''j1'' \<noteq> Some demo_row1"
    by code_simp+
  from policy_write_holds_queue [OF demo_wf(1) surjective_pairing row(1), of demo_digest demo_path "''acme''" demo_policy, THEN conjunct1]
    row(2,3) show ?thesis by metis
qed

section \<open>Several policies, one after the other\<close>

definition write_policies ::
  "(resolved_policy \<Rightarrow> string) \<Rightarrow> (string \<Rightarrow> string) \<Rightarrow> string \<Rightarrow> db \<Rightarrow> resolved_policy list \<Rightarrow> db" where
  "write_policies digest path tid d rs =
     foldl (\<lambda>e r. snd (apply_policy_to_queued digest path e tid (Some r))) d rs"

lemma write_policies_row:
  assumes "wf_jobs d" and "get_row d jid = Some row" and "held tid row"
  shows "\<exists>row'. get_row (write_policies digest path tid d rs) jid = Some row'
    \<and> job_policy row' = foldl tighten (job_policy row) (map Some rs)"
  using assms
proof (induction rs arbitrary: d row)
  case Nil
  then show ?case by (simp add: write_policies_def)
next
  case (Cons r rs)
  let ?d = "snd (apply_policy_to_queued digest path d tid (Some r))"
  let ?row = "held_row digest path tid r row"
  have "wf_jobs ?d" "get_row ?d jid = Some ?row"
    using apply_policy_wf [OF Cons.prems(1) surjective_pairing] Cons.prems(2) by simp_all
  then have "\<exists>row'. get_row (write_policies digest path tid ?d rs) jid = Some row'
      \<and> job_policy row' = foldl tighten (job_policy ?row) (map Some rs)"
    using Cons.prems(3) by (intro Cons.IH) simp_all
  moreover have "job_policy ?row = tighten (job_policy row) (Some r)"
    using Cons.prems(3) by (simp add: held_row_policy job_policy_snapshot)
  ultimately show ?case by (simp add: write_policies_def)
qed

text \<open>
  No sequence of policy writes loosens a queued job: after any number of them the job is
  held at least as strictly as it was admitted and as by every one of the policies written,
  also when a later policy is weaker than an earlier one.
\<close>

theorem policy_writes_never_loosen:
  assumes "wf_jobs d" and "get_row d jid = Some row"
    and "j_tenant_id row = tid" and "j_status row = QUEUED"
  shows "\<exists>row'. get_row (write_policies digest path tid d rs) jid = Some row'
    \<and> opt_policy_le (job_policy row') (job_policy row)
    \<and> (\<forall>r \<in> set rs. opt_policy_le (job_policy row') (Some r))"
  using write_policies_row [OF assms(1,2), of tid digest path rs] assms(3,4)
    policies.foldl_meet [of "job_policy row" "map Some rs"]
  by (auto simp: held_def)

theorem policy_writes_never_loosen_witness:
  "\<exists>row'. get_row (write_policies demo_digest demo_path ''acme'' demo_db1
        [demo_policy, demo_policy\<lparr>safe_only := False, avoid_ports := []\<rparr>]) ''j1'' = Some row'
     \<and> opt_policy_le (job_policy row') (Some demo_policy)"
proof -
  have "get_row demo_db1 ''j1'' = Some demo_row1" "j_tenant_id demo_row1 = ''acme''" "j_status demo_row1 = QUEUED"
    by code_simp+
  from policy_writes_never_loosen [OF demo_wf(1) this] show ?thesis by (metis list.set_intros(1))
qed

section \<open>The stored policy\<close>

lemma each_port_in_Ok: "each_port_in ps = Ok u \<longleftrightarrow> (\<forall>p \<in> set ps. 1 \<le> p \<and> p \<le> 65535)"
  by (induction ps) (auto simp: int_in_def)

lemma validated_ports_Ok:
  "validated_ports ps = Ok qs \<longleftrightarrow>
     qs = sorted_ports ps \<and> (\<forall>p \<in> set ps. 1 \<le> p \<and> p \<le> 65535) \<and> length qs \<le> MAX_AVOID_PORTS"
proof (cases "each_port_in ps")
  case (Inl e)
  then show ?thesis using each_port_in_Ok [of ps "()"] by (simp add: validated_ports_def)
next
  case (Inr u)
  then show ?thesis using each_port_in_Ok [of ps u] by (auto simp: validated_ports_def Let_def)
qed

lemma opt_int_in_Ok:
  "opt_int_in v f b = Ok w \<longleftrightarrow> w = v \<and> (\<forall>x. v = Some x \<longrightarrow> fst b \<le> x \<and> x \<le> snd b)"
  by (cases v) (auto simp: opt_int_in_def int_in_def)

lemma replace_policy_Ok:
  assumes "replace_policy known now tbl tid prof safe dr pr hc ph avoid note by_user = Ok (row, tbl', before)"
  shows "prof \<in> set PROFILES" "validated_ports avoid = Ok (p_avoid_ports row)"
    "opt_int_in dr ''max_discover_rate'' RATE_BOUNDS = Ok (p_max_discover_rate row)"
    "opt_int_in pr ''max_port_rate'' RATE_BOUNDS = Ok (p_max_port_rate row)"
    "opt_int_in hc ''max_host_concurrency'' CONCURRENCY_BOUNDS = Ok (p_max_host_concurrency row)"
    "opt_int_in ph ''per_host_rate'' RATE_BOUNDS = Ok (p_per_host_rate row)"
    "p_tenant_id row = tid" "p_profile row = prof" "p_safe_only row = safe"
    "tbl' = (if row_get p_tenant_id tbl tid = None then tbl @ [row] else row_put p_tenant_id tbl row)"
  using assms
  by (auto simp: replace_policy_def Let_def bindE_Ok_iff split: if_splits)

lemma ceil_le_stricter: "ceil_le (stricter a b) a" "ceil_le (stricter a b) b"
  by (rule ceiling.meet_le1, rule ceiling.meet_le2)

lemma stricter_bounds:
  "(\<forall>x. a = Some x \<longrightarrow> lo \<le> x \<and> x \<le> hi) \<Longrightarrow> (\<forall>x. b = Some x \<longrightarrow> lo \<le> x \<and> x \<le> hi)
     \<Longrightarrow> stricter a b = Some x \<Longrightarrow> lo \<le> x \<and> x \<le> hi"
  by (auto simp: stricter_def min_def split: option.splits if_splits)

text \<open>
  C27. What is stored is what is enforced: a policy that was accepted is the tenant's row and
  the other tenants' rows do not move; resolving it gives ceilings within the documented
  bounds and at least as strict as the values submitted; and a fragile tenant is held to
  every floor of its profile, whatever was submitted.
\<close>

theorem stored_policy_is_enforced:
  assumes "replace_policy known now tbl tid prof safe dr pr hc ph avoid note by_user = Ok (row, tbl', before)"
  shows "(row_get p_tenant_id tbl' tid = Some row)
    \<and> (\<forall>t. t \<noteq> tid \<longrightarrow> row_get p_tenant_id tbl' t = row_get p_tenant_id tbl t)
    \<and> (\<exists>p. resolve (Some row) = Some p \<and> (safe \<longrightarrow> safe_only p) \<and> set avoid \<subseteq> set (avoid_ports p)
      \<and> ceil_le (max_discover_rate p) dr \<and> ceil_le (max_port_rate p) pr
      \<and> ceil_le (max_host_concurrency p) hc \<and> ceil_le (per_host_rate p) ph
      \<and> (\<forall>x. max_discover_rate p = Some x \<or> max_port_rate p = Some x \<or> per_host_rate p = Some x
             \<longrightarrow> 1 \<le> x \<and> x \<le> 100000)
      \<and> (\<forall>x. max_host_concurrency p = Some x \<longrightarrow> 1 \<le> x \<and> x \<le> 64)
      \<and> (\<forall>x \<in> set (avoid_ports p). 1 \<le> x \<and> x \<le> 65535)
      \<and> (prof = PROFILE_FRAGILE \<longrightarrow> safe_only p \<and> skip_service_probe p
           \<and> set OT_AVOID_PORTS \<subseteq> set (avoid_ports p) \<and> ceil_le (max_discover_rate p) (Some 100)
           \<and> ceil_le (max_port_rate p) (Some 50) \<and> ceil_le (max_host_concurrency p) (Some 1)
           \<and> ceil_le (per_host_rate p) (Some 25)))" (is "_ \<and> _ \<and> ?enforced")
proof -
  note 1 = replace_policy_Ok [OF assms]
  have c1: "row_get p_tenant_id tbl' tid = Some row"
    using 1(7,10) by (auto simp: row_get_append row_get_put row_get_single)
  have c2: "\<forall>t. t \<noteq> tid \<longrightarrow> row_get p_tenant_id tbl' t = row_get p_tenant_id tbl t"
    using 1(7,10) by (auto simp: row_get_append row_get_put row_get_single split: option.split)
  note vals = 1(2-6) [unfolded validated_ports_Ok opt_int_in_Ok RATE_BOUNDS_def CONCURRENCY_BOUNDS_def fst_conv snd_conv]
  have avoid: "set (p_avoid_ports row) = set avoid" using vals(1) by simp
  have ot: "\<forall>x \<in> set OT_AVOID_PORTS. 1 \<le> x \<and> x \<le> 65535" by (simp add: OT_AVOID_PORTS_def)
  consider "prof = PROFILE_STANDARD" | "prof = PROFILE_FRAGILE" using 1(1) by (auto simp: PROFILES_def)
  then have c3: ?enforced
  proof cases
    case 1
    then show ?thesis using vals avoid \<open>p_profile row = prof\<close> \<open>p_safe_only row = safe\<close>
      by (auto simp: resolve_def Let_def PROFILE_FLOORS_def no_floor_def PROFILE_STANDARD_def
          PROFILE_FRAGILE_def stricter_def ceiling.le_refl split: option.splits)
  next
    case 2
    then show ?thesis using vals avoid ot \<open>p_profile row = prof\<close> \<open>p_safe_only row = safe\<close>
      by (auto simp: resolve_def Let_def PROFILE_FLOORS_def PROFILE_STANDARD_def PROFILE_FRAGILE_def
          ceil_le_stricter dest!: stricter_bounds [rotated -1])
  qed
  show ?thesis using c1 c2 c3 by (intro conjI)
qed

theorem stored_policy_is_enforced_witness:
  "\<exists>p. resolve (Some demo_policy_row) = Some p \<and> set OT_AVOID_PORTS \<subseteq> set (avoid_ports p)
     \<and> ceil_le (max_discover_rate p) (Some 100)"
proof -
  have "replace_policy [''acme''] 0 [] ''acme'' ''fragile'' False (Some 500) None None (Some 10) [8080] [] ''olga''
      = Ok (demo_policy_row, [demo_policy_row], None)"
    by code_simp
  from stored_policy_is_enforced [OF this, THEN conjunct2, THEN conjunct2] show ?thesis by (auto simp: PROFILE_FRAGILE_def)
qed

section \<open>The policy reaches the scanner\<close>

lemma hold_row_command:
  assumes "hold_row digest path r row = Some row'"
  shows "\<exists>skip. j_command row' = hold_command (path (j_job_id row)) skip (j_command row)"
    and "so_scan_policy (j_scan_options row') \<noteq> None"
  by (rule hold_row_SomeE [OF assms]; simp; blast)+

lemma hold_command_append:
  "\<exists>rest later. hold_command p skip cmd = cmd @ rest \<and> required_input_names rest = Ok later
     \<and> set later = (if ''--scan-policy'' \<in> set cmd then {} else {''scan_policy.json''})"
proof -
  let ?pol = "if ''--scan-policy'' \<in> set cmd then [] else [''--scan-policy'', p]"
  have rev: "map_of reverse_flags ''--scan-policy'' = Some ''scan_policy.json''"
    by (simp add: reverse_flags_def INPUT_FLAGS_def)
  have sw: "required_input_names [''--skip-nse''] = Ok []"
    by (simp add: reverse_flags_def INPUT_FLAGS_def)
  have "\<exists>rest. hold_command p skip cmd = cmd @ ?pol @ rest \<and> (rest = [] \<or> rest = [''--skip-nse''])"
    by (auto simp: hold_command_def Let_def)
  then obtain rest where rest: "hold_command p skip cmd = cmd @ ?pol @ rest" "required_input_names rest = Ok []"
    using sw by auto
  show ?thesis
  proof (cases "''--scan-policy'' \<in> set cmd")
    case True
    then have "hold_command p skip cmd = cmd @ rest" using rest(1) by simp
    with True rest(2) show ?thesis by (intro exI [of _ rest] exI [of _ "[]"]) simp
  next
    case False
    then have "hold_command p skip cmd = cmd @ (''--scan-policy'' # p # rest)" using rest(1) by simp
    moreover have "required_input_names (''--scan-policy'' # p # rest) = Ok [''scan_policy.json'']"
      using required_input [OF rev, of p rest] rest(2) by simp
    ultimately show ?thesis using False
      by (intro exI [of _ "''--scan-policy'' # p # rest"] exI [of _ "[''scan_policy.json'']"]) simp
  qed
qed

text \<open>
  A policy written later reaches the scanner: once a queued job was held to it, the job's
  command line needs the policy document beside every input it was admitted with, a claim
  that serves it delivers the document, and no agent without the policy capability is
  served it as a job it can run.
\<close>

theorem held_job_carries_its_policy:
  assumes "argv scan executable = Ok (j_command row)" and "executable \<notin> set scalar_flags"
    and "''--scan-policy'' \<in> set (j_command row) \<longrightarrow> ''scan_policy.json'' \<in> fst ` set (inv_inputs scan)"
    and "hold_row digest path r row = Some row'"
  shows "(\<exists>names. required_input_names (j_command row') = Ok names
      \<and> set names = insert ''scan_policy.json'' (fst ` set (inv_inputs scan))
      \<and> (\<forall>store jid out. read_job_inputs store jid names = Ok out \<longrightarrow> ''scan_policy.json'' \<in> fst ` set out))
    \<and> (AGENT_CAPABILITY \<notin> set capabilities \<longrightarrow> \<not> runnable capabilities row')"
proof -
  obtain skip where "j_command row' = hold_command (path (j_job_id row)) skip (j_command row)"
    using hold_row_command(1) [OF assms(4)] by blast
  then obtain rest later where cmd: "j_command row' = j_command row @ rest" "required_input_names rest = Ok later"
    "set later = (if ''--scan-policy'' \<in> set (j_command row) then {} else {''scan_policy.json''})"
    using hold_command_append by metis
  obtain names where names: "required_input_names (j_command row') = Ok names"
    "set names = fst ` set (inv_inputs scan) \<union> set later"
    using argv_required [OF assms(1,2) cmd(2)] unfolding cmd(1) by blast
  have doc: "set names = insert ''scan_policy.json'' (fst ` set (inv_inputs scan))"
    using names(2) cmd(3) assms(3) by (cases "''--scan-policy'' \<in> set (j_command row)") auto
  have "''scan_policy.json'' \<in> fst ` set out" if "read_job_inputs store jid names = Ok out" for store jid out
    using read_job_inputs_Ok [OF that] doc by blast
  with names(1) doc have c1: "\<exists>names. required_input_names (j_command row') = Ok names
      \<and> set names = insert ''scan_policy.json'' (fst ` set (inv_inputs scan))
      \<and> (\<forall>store jid out. read_job_inputs store jid names = Ok out \<longrightarrow> ''scan_policy.json'' \<in> fst ` set out)"
    by blast
  have c2: "AGENT_CAPABILITY \<notin> set capabilities \<longrightarrow> \<not> runnable capabilities row'"
    using hold_row_command(2) [OF assms(4)] by (simp add: runnable_def)
  show ?thesis using c1 c2 by (intro conjI)
qed

theorem held_job_carries_its_policy_witness:
  "\<exists>row' names. hold_row demo_digest demo_path demo_policy (demo_row1\<lparr>j_command := [''python'', ''-m'',
        ''scanner.main'', ''--config'', ''c'', ''--mode'', ''safe'']\<rparr>) = Some row'
     \<and> required_input_names (j_command row') = Ok names \<and> set names = {''scan_policy.json''}"
proof -
  let ?scan = "\<lparr>inv_config = ''c'', inv_mode = ''safe'', inv_run_id = None, inv_delta = False,
    inv_skip_nse = False, inv_notify = False, inv_export_defectdojo = False, inv_inputs = []\<rparr>"
  let ?row = "demo_row1\<lparr>j_command := [''python'', ''-m'', ''scanner.main'', ''--config'', ''c'', ''--mode'', ''safe'']\<rparr>"
  have cmd: "argv ?scan ''python'' = Ok (j_command ?row)" "''python'' \<notin> set scalar_flags"
    "''--scan-policy'' \<in> set (j_command ?row) \<longrightarrow> ''scan_policy.json'' \<in> fst ` set (inv_inputs ?scan)"
    and held: "hold_row demo_digest demo_path demo_policy ?row \<noteq> None"
    by code_simp+
  then obtain row' where row': "hold_row demo_digest demo_path demo_policy ?row = Some row'" by blast
  from held_job_carries_its_policy [OF cmd row', THEN conjunct1] row' show ?thesis by auto
qed

end
