(* ===== verification/Admission_Properties.thy ===== *)
theory Admission_Properties
  imports Job_Demo
begin

text \<open>
  What admission of a request to the queue promises: an admitted port list names no port
  the policy avoids, the ceilings on the queue hold after the insert, a client key stands
  for one job, the priority of a job is moved only by who may move it, and the command
  line of a job and the list of files it needs agree.
\<close>

section \<open>Ports a scan names\<close>

lemma split_ws_aux_word:
  "list_all (\<lambda>c. \<not> is_space c) s \<Longrightarrow> cur \<noteq> [] \<or> s \<noteq> [] \<Longrightarrow> split_ws_aux cur s = [rev cur @ s]"
  by (induction s arbitrary: cur) auto

lemma split_ws_word: "list_all (\<lambda>c. \<not> is_space c) s \<Longrightarrow> s \<noteq> [] \<Longrightarrow> split_ws s = [s]"
  by (simp add: split_ws_def split_ws_aux_word)

lemma dropWhile_none: "list_all (\<lambda>c. \<not> P c) s \<Longrightarrow> dropWhile P s = s"
  by (cases s) auto

lemma strip_word: "list_all (\<lambda>c. \<not> is_space c) s \<Longrightarrow> strip s = s"
  by (simp add: strip_def lstrip_def rstrip_def dropWhile_none list_all_iff)

definition port_char :: "char \<Rightarrow> bool" where
  "port_char c = (is_ascii_digit c \<or> c = CHR ''-'' \<or> c = CHR ''u'' \<or> c = CHR '':'')"

lemma port_char: "port_char c \<Longrightarrow> \<not> is_space c \<and> lower_char c = c \<and> c \<noteq> CHR ''#''"
proof -
  have lit: "\<not> is_space d \<and> lower_char d = d \<and> d \<noteq> CHR ''#''"
    if "d = CHR ''-'' \<or> d = CHR ''u'' \<or> d = CHR '':''" for d
    using that by (elim disjE) (simp_all add: is_space_def lower_char_def ord_of_def Let_def)
  assume "port_char c"
  then show ?thesis using lit [of c] by (auto simp: port_char_def)
qed

lemma lower_id: "list_all port_char s \<Longrightarrow> lower s = s"
  by (induction s) (auto simp: lower_def port_char)

text \<open>The shape of a token the parser accepts.\<close>

lemma match_port_tokenE:
  assumes "match_port_token token = Some (lo, hi)"
  obtains "port_group lo" "removeprefix token ''u:'' = lo @ (case hi of None \<Rightarrow> [] | Some h \<Rightarrow> CHR ''-'' # h)"
    "hi = None \<longrightarrow> CHR ''-'' \<notin> set lo" "\<forall>h. hi = Some h \<longrightarrow> port_group h \<and> CHR ''-'' \<notin> set lo"
  using partition_at_cases [of "CHR ''-''" "removeprefix token ''u:''"]
proof cases
  case 1
  then show ?thesis using assms that by (auto simp: match_port_token_def Let_def split: if_splits)
next
  case (2 h t)
  then show ?thesis using assms that by (auto simp: match_port_token_def Let_def split: if_splits)
qed

lemma port_group_chars: "port_group s \<Longrightarrow> list_all port_char s \<and> s \<noteq> [] \<and> py_isdigit s \<and> CHR ''-'' \<notin> set s"
  by (auto simp: port_group_def py_isdigit_def port_char_def list_all_iff)

lemma token_chars:
  assumes "match_port_token token = Some (lo, hi)"
  shows "list_all port_char token" and "token \<noteq> []"
proof -
  have body: "list_all port_char (removeprefix token ''u:'')" "removeprefix token ''u:'' \<noteq> []"
    using assms
    by (rule match_port_tokenE; auto dest!: port_group_chars simp: port_char_def split: option.splits)+
  show "list_all port_char token"
    using body(1) by (auto simp: removeprefix_def startswith_iff port_char_def split: if_splits)
  show "token \<noteq> []" using body(2) by (auto simp: removeprefix_def startswith_def)
qed

lemma group_no_prefix: "port_group lo \<Longrightarrow> removeprefix (lo @ rest) ''t:'' = lo @ rest"
  by (cases lo) (auto simp: port_group_def removeprefix_def startswith_def)

lemma note_valid_token:
  assumes "valid_port_token token"
  shows "\<exists>named. note_chunks (split_ws token) avoid = Ok named
    \<and> set named = {p \<in> set avoid. token_covers token p}"
proof -
  obtain lo hi where m: "match_port_token token = Some (lo, hi)"
    using assms by (auto simp: valid_port_token_def token_ports_def split: option.splits)
  note chars = token_chars [OF m]
  have "list_all (\<lambda>c. \<not> is_space c) token"
    using chars(1) by (rule list.pred_mono_strong) (simp add: port_char)
  then have words: "split_ws token = [token]" "strip token = token" "lower token = token"
    using chars split_ws_word strip_word lower_id by blast+
  have hash: "\<not> startswith token ''#''"
    using chars port_char by (cases token) (auto simp: startswith_def)
  show ?thesis
  proof (cases rule: match_port_tokenE [OF m])
    case 1
    define item where "item = removeprefix token ''u:''"
    have item: "removeprefix item ''t:'' = item" "item \<noteq> []"
      using 1(1,2) group_no_prefix port_group_chars [OF 1(1)] by (auto simp: item_def split: option.split)
    have "\<exists>named. note_port item avoid = Ok named \<and> set named = {p \<in> set avoid. token_covers token p}"
    proof (cases hi)
      case None
      then have "item = lo" using 1(2) by (simp add: item_def)
      then show ?thesis using 1(1) None m port_group_chars [OF 1(1)] int_of_digits_group [OF 1(1)]
        by (auto simp: note_port_def token_covers_def token_ports_def)
    next
      case (Some h)
      then have it: "item = lo @ CHR ''-'' # h" and h: "port_group h" using 1(2,4) by (auto simp: item_def)
      have part: "partition_at (CHR ''-'') item = (lo, True, h)"
        unfolding it by (rule partition_at_append) (use port_group_chars [OF 1(1)] in blast)
      show ?thesis using assms Some m part port_group_chars [OF 1(1)] port_group_chars [OF h]
          int_of_digits_group [OF 1(1)] int_of_digits_group [OF h]
        by (auto simp: note_port_def token_covers_def token_ports_def valid_port_token_def it)
    qed
    then show ?thesis using item hash by (auto simp: words Let_def item_def)
  qed
qed

lemma note_entries_Ok:
  "note_entries entries avoid = Ok ps \<Longrightarrow> entry \<in> set entries \<Longrightarrow>
     \<exists>named. note_chunks (split_ws entry) avoid = Ok named \<and> set named \<subseteq> set ps"
  by (induction entries arbitrary: ps) (auto simp: bindE_Ok_iff, blast+)

lemma forbidden_ports_none:
  assumes "forbidden_ports text avoid = Ok []" and "token \<in> set (split_target_lines text)"
    and "valid_port_token token" and "p \<in> set avoid"
  shows "\<not> token_covers token p"
  using note_entries_Ok [OF assms(1) [unfolded forbidden_ports_def] assms(2)]
    note_valid_token [OF assms(3), of avoid] assms(4) by auto

lemma sorted_ports_empty: "sorted_ports ps = [] \<longleftrightarrow> ps = []"
  using set_sorted_ports [of ps] by (metis set_empty)

text \<open>
  C35. An admitted scan keeps to the policy: it runs in the safe mode when the policy asks
  for it, and no port or port range of its TCP and UDP lists covers a port the policy avoids.
\<close>

theorem admitted_scan_avoids_ports:
  assumes "assert_scan_admitted (Some r) tid mode ports udp = Ok x"
  shows "(x = Some r)
    \<and> (safe_only r \<longrightarrow> mode = SAFE_MODE)
    \<and> (\<forall>token \<in> set (split_target_lines ports) \<union> set (split_target_lines udp).
      valid_port_token token \<longrightarrow> (\<forall>p \<in> set (avoid_ports r). \<not> token_covers token p))"
proof -
  have ok: "\<not> (safe_only r \<and> mode \<noteq> SAFE_MODE)" "x = Some r"
    "avoid_ports r = [] \<or> forbidden_ports ports (avoid_ports r) = Ok [] \<and> forbidden_ports udp (avoid_ports r) = Ok []"
    using assms by (auto simp: assert_scan_admitted_def Let_def sorted_ports_empty split: if_splits sum.splits)
  have c1: "x = Some r" by (rule ok(2))
  have c2: "safe_only r \<longrightarrow> mode = SAFE_MODE" using ok(1) by blast
  have c3: "\<forall>token \<in> set (split_target_lines ports) \<union> set (split_target_lines udp).
      valid_port_token token \<longrightarrow> (\<forall>p \<in> set (avoid_ports r). \<not> token_covers token p)"
    using ok(3) forbidden_ports_none by auto
  show ?thesis using c1 c2 c3 by (intro conjI)
qed

theorem admitted_scan_avoids_ports_witness:
  "\<not> token_covers ''u:80-443'' 502"
proof -
  let ?r = "empty_document\<lparr>avoid_ports := [502, 700]\<rparr>"
  have ok: "assert_scan_admitted (Some ?r) ''acme'' ''fast'' (Some ''22'') (Some ''u:80-443'') = Ok (Some ?r)"
    and tok: "''u:80-443'' \<in> set (split_target_lines (Some ''u:80-443''))" "valid_port_token ''u:80-443''"
    by code_simp+
  from admitted_scan_avoids_ports [OF ok, THEN conjunct2, THEN conjunct2] tok show ?thesis by simp
qed

section \<open>The ceilings on the queue\<close>

lemma assert_admitted_Ok:
  "assert_admitted s d tid exempt = Ok () \<longleftrightarrow> exempt \<or>
     ((\<forall>lim. tenant_queue_limit d tid = Some lim \<longrightarrow> int (queued_count d (Some tid)) < lim)
      \<and> (0 < scan_queue_max_depth s \<longrightarrow> int (queued_count d None) < scan_queue_max_depth s))"
  by (auto simp: assert_admitted_def global_admitted_def normalise_limit_def split: option.splits)

lemma queued_count_append:
  "jobs d' = jobs d @ [row] \<Longrightarrow> queued_count d' t \<le> Suc (queued_count d t)"
  "jobs d' = jobs d @ [row] \<Longrightarrow> t \<noteq> None \<and> Some (j_tenant_id row) \<noteq> t \<Longrightarrow> queued_count d' t = queued_count d t"
  by (auto simp: queued_count_def count_rows_def row_count_def)

text \<open>
  The queue never passes its ceilings by an admitted request: a request is let in
  exactly when it is exempt or both the tenant's queue and the installation's are below
  their limits, and after the job of a request that was let in is inserted both are at
  most at them; the other tenants' queues do not move.
\<close>

theorem queue_ceilings_hold:
  assumes "assert_admitted s d (sb_tenant_id sb) False = Ok ()"
    and "insert_job s now sha groups d sb rq key = Ok (d', info)"
  shows "(\<forall>lim. tenant_queue_limit d' (sb_tenant_id sb) = Some lim \<longrightarrow> int (queued_count d' (Some (sb_tenant_id sb))) \<le> lim)
    \<and> (0 < scan_queue_max_depth s \<longrightarrow> int (queued_count d' None) \<le> scan_queue_max_depth s)
    \<and> (\<forall>t. t \<noteq> sb_tenant_id sb \<longrightarrow> queued_count d' (Some t) = queued_count d (Some t))
    \<and> (assert_admitted s d' (sb_tenant_id sb) False = Ok () \<longleftrightarrow>
      (\<forall>lim. tenant_queue_limit d' (sb_tenant_id sb) = Some lim \<longrightarrow> int (queued_count d' (Some (sb_tenant_id sb))) < lim)
      \<and> (0 < scan_queue_max_depth s \<longrightarrow> int (queued_count d' None) < scan_queue_max_depth s))"
proof -
  let ?row = "new_job_row s now sha sb rq key"
  have rows: "jobs d' = jobs d @ [?row]" and lim: "tenant_queue_limit d' = tenant_queue_limit d"
    using assms(2) by (auto elim!: insert_job_OkE simp: tenant_queue_limit_def fun_eq_iff)
  have c1: "\<forall>lim. tenant_queue_limit d' (sb_tenant_id sb) = Some lim \<longrightarrow> int (queued_count d' (Some (sb_tenant_id sb))) \<le> lim"
    using assms(1) queued_count_append(1) [OF rows, of "Some (sb_tenant_id sb)"]
    by (auto simp: assert_admitted_Ok lim)
  have c2: "0 < scan_queue_max_depth s \<longrightarrow> int (queued_count d' None) \<le> scan_queue_max_depth s"
    using assms(1) queued_count_append(1) [OF rows, of None] by (auto simp: assert_admitted_Ok)
  have c3: "\<forall>t. t \<noteq> sb_tenant_id sb \<longrightarrow> queued_count d' (Some t) = queued_count d (Some t)"
    using queued_count_append(2) [OF rows] by simp
  have c4: "assert_admitted s d' (sb_tenant_id sb) False = Ok () \<longleftrightarrow>
      (\<forall>lim. tenant_queue_limit d' (sb_tenant_id sb) = Some lim \<longrightarrow> int (queued_count d' (Some (sb_tenant_id sb))) < lim)
      \<and> (0 < scan_queue_max_depth s \<longrightarrow> int (queued_count d' None) < scan_queue_max_depth s)"
    by (simp add: assert_admitted_Ok)
  show ?thesis using c1 c2 c3 c4 by (intro conjI)
qed

theorem queue_ceilings_hold_witness:
  "int (queued_count demo_db1 None) \<le> 1"
proof -
  let ?s = "demo_settings\<lparr>scan_queue_max_depth := 1\<rparr>"
  have "assert_admitted ?s demo_db0 (sb_tenant_id demo_submission) False = Ok ()"
    "insert_job ?s 0 demo_sha [] demo_db0 demo_submission demo_request (Some ''k1'')
       = Ok (demo_db1, to_info demo_row1 None None)"
    by code_simp+
  from queue_ceilings_hold [OF this, THEN conjunct2, THEN conjunct1] show ?thesis by simp
qed

section \<open>One job per client key\<close>

lemma find_unique:
  "x \<in> set xs \<Longrightarrow> P x \<Longrightarrow> (\<And>y. y \<in> set xs \<Longrightarrow> P y \<Longrightarrow> y = x) \<Longrightarrow> find P xs = Some x"
proof (induction xs)
  case Nil
  then show ?case by simp
next
  case (Cons a xs)
  show ?case
  proof (cases "P a")
    case True
    then show ?thesis using Cons.prems(3) [of a] by simp
  next
    case False
    then have "x \<in> set xs" using Cons.prems(1,2) by auto
    then have "find P xs = Some x" using Cons.prems(2,3) by (intro Cons.IH) simp_all
    then show ?thesis using False by simp
  qed
qed

lemma find_keyed_row:
  assumes "unique_keys d" and "row \<in> set (jobs d)" and "j_idempotency_key row = Some k"
  shows "find (\<lambda>r. j_tenant_id r = j_tenant_id row \<and> j_idempotency_key r = Some k) (jobs d) = Some row"
proof (rule find_unique)
  show "row \<in> set (jobs d)" by (rule assms(2))
  show "j_tenant_id row = j_tenant_id row \<and> j_idempotency_key row = Some k" using assms(3) by simp
  fix y assume y: "y \<in> set (jobs d)" "j_tenant_id y = j_tenant_id row \<and> j_idempotency_key y = Some k"
  then have "j_tenant_id y = j_tenant_id row \<and> j_idempotency_key y \<noteq> None
      \<and> j_idempotency_key y = j_idempotency_key row" using assms(3) by simp
  then show "y = row" using assms(1,2) y(1) unfolding unique_keys_def by blast
qed

text \<open>
  C19. A client key names one scan for good: in every state reached after a job was submitted
  under a key, a new submission of the tenant under the same key creates no job; it is
  answered with that job when it asks for the same scan, and refused as a mismatch, naming
  that job, when it asks for another one.
\<close>

theorem client_key_names_one_job:
  assumes "initial d0 \<sigma>0" and "reaches s \<sigma>0 \<sigma>" and "reaches s \<sigma> \<sigma>'"
    and "get_row (sys_db \<sigma>) jid = Some row" and "j_idempotency_key row = Some k" and "k \<noteq> []"
    and "so_idempotency_digest (j_scan_options row) = Some (idempotency_digest sha rq)"
    and "idempotency_digest sha rq \<noteq> []" and "sb_tenant_id sb = j_tenant_id row"
    and "row_get t_tenant_id (tenants (sys_db \<sigma>')) (sb_tenant_id sb) = Some t" and "t_status t = ''active''"
    and "\<not> truthy_text (sb_agent_group sb) \<or> (sb_tenant_id sb, the (sb_agent_group sb)) \<in> set groups"
  shows "\<exists>row'. get_row (sys_db \<sigma>') jid = Some row' \<and>
    insert_job s' now sha groups (sys_db \<sigma>') sb rq' (Some k) =
      Err (if idempotency_digest sha rq' = idempotency_digest sha rq
           then IdempotentReplay (to_info row' None None) else IdempotencyMismatch (to_info row' None None))"
proof -
  let ?d = "sys_db \<sigma>'"
  have inv: "sys_inv s \<sigma>0" "unique_keys (sys_db \<sigma>0)"
    using assms(1) inv_initial by (auto simp: initial_def unique_keys_def)
  have uk: "unique_keys ?d" using unique_keys_reaches [OF rtranclp_trans [OF assms(2,3)] inv] .
  obtain row' where row': "get_row ?d jid = Some row'" "same_row row row'"
    using reaches_life [OF assms(3) inv_reaches [OF assms(2) inv(1)] assms(4)] by (auto simp: life_le_def)
  have mem: "row' \<in> set (jobs ?d)" using row'(1) by (rule row_get_mem)
  have cols: "j_idempotency_key row' = Some k" "j_tenant_id row' = sb_tenant_id sb"
    "so_idempotency_digest (j_scan_options row') = Some (idempotency_digest sha rq)"
    using row'(2) assms(5,7,9) by (simp_all add: same_row_def)
  have found: "find (\<lambda>r. j_tenant_id r = sb_tenant_id sb \<and> j_idempotency_key r = Some k) (jobs ?d) = Some row'"
    using find_keyed_row [OF uk mem cols(1)] cols(2) by simp
  have taken: "key_taken ?d (new_job_row s' now sha sb rq' (Some k))"
    using mem cols assms(6) unfolding key_taken_def list_ex_iff by auto
  have "insert_job s' now sha groups ?d sb rq' (Some k) =
      Err (if idempotency_digest sha rq' = idempotency_digest sha rq
           then IdempotentReplay (to_info row' None None) else IdempotencyMismatch (to_info row' None None))"
    using found taken cols(3) assms(6,8,10-12)
    by (simp add: insert_job_def Let_def find_by_idempotency_key_def)
  with row'(1) show ?thesis by blast
qed

theorem client_key_names_one_job_witness:
  "\<exists>row'. get_row demo_db2 ''j1'' = Some row' \<and>
     insert_job demo_settings 9 demo_sha [] demo_db2 demo_submission demo_request (Some ''k1'')
       = Err (IdempotentReplay (to_info row' None None))"
proof -
  have facts: "get_row (sys_db demo_sys1) ''j1'' = Some demo_row1" "j_idempotency_key demo_row1 = Some ''k1''"
    "so_idempotency_digest (j_scan_options demo_row1) = Some (idempotency_digest demo_sha demo_request)"
    "idempotency_digest demo_sha demo_request \<noteq> []" "sb_tenant_id demo_submission = j_tenant_id demo_row1"
    "row_get t_tenant_id (tenants (sys_db demo_sys2)) (sb_tenant_id demo_submission) = Some (hd (tenants demo_db0))"
    "t_status (hd (tenants demo_db0)) = ''active''" "\<not> truthy_text (sb_agent_group demo_submission)"
    by code_simp+
  have db2: "sys_db demo_sys2 = demo_db2" by code_simp
  show ?thesis
    using client_key_names_one_job [OF demo_run(1) r_into_rtranclp [of "step demo_settings", OF demo_steps(1)]
        r_into_rtranclp [of "step demo_settings", OF demo_steps(2)] facts(1,2) _ facts(3-7),
        of "[]" demo_settings 9 demo_request]
      facts(8) unfolding db2 by simp
qed

section \<open>Moving a job in the queue\<close>

lemma set_priority_OkE:
  assumes "set_priority d jid prio tid may_raise username = Ok (d', info)"
  obtains row where "get_row d jid = Some row" "j_status row = QUEUED"
    "check_priority prio may_raise (j_priority row) (j_requested_by row \<noteq> [] \<and> j_requested_by row = username) = Ok prio"
    "jobs d' = jobs (if j_priority row \<noteq> prio then put_row d (row\<lparr>j_priority := prio\<rparr>) else d)"
    "audit_log d' = audit_log d @ (if j_priority row \<noteq> prio then [ScanPriority jid username (j_priority row) prio] else [])"
  using assms
  by (auto simp: set_priority_def Let_def bindE_Ok_iff check_priority_Ok audit_def split: option.splits if_splits)

text \<open>
  Nobody jumps the queue without the right to: a change of priority by a user who may not
  raise priorities succeeds only on the user's own queued job, only downwards and never from
  above the default, so that no job of anyone is overtaken by it; every change stays in the
  documented range, moves no other job and is on the audit log.
\<close>

theorem priority_change_is_permitted:
  assumes "wf_jobs d" and "set_priority d jid prio tid may_raise username = Ok (d', info)"
  shows "(\<exists>row. get_row d jid = Some row \<and> j_status row = QUEUED
      \<and> get_row d' jid = Some (row\<lparr>j_priority := prio\<rparr>) \<and> - 100 \<le> prio \<and> prio \<le> 100
      \<and> (j_priority row \<noteq> prio \<longrightarrow> audit_log d' = audit_log d @ [ScanPriority jid username (j_priority row) prio])
      \<and> (\<not> may_raise \<longrightarrow> j_requested_by row = username \<and> prio \<le> j_priority row \<and> j_priority row \<le> 0
           \<and> (\<forall>other. better other row \<longrightarrow> better other (row\<lparr>j_priority := prio\<rparr>))))
    \<and> (\<forall>k. k \<noteq> jid \<longrightarrow> get_row d' k = get_row d k)"
proof -
  obtain row where row: "get_row d jid = Some row" "j_status row = QUEUED"
    "check_priority prio may_raise (j_priority row) (j_requested_by row \<noteq> [] \<and> j_requested_by row = username) = Ok prio"
    "jobs d' = jobs (if j_priority row \<noteq> prio then put_row d (row\<lparr>j_priority := prio\<rparr>) else d)"
    "audit_log d' = audit_log d @ (if j_priority row \<noteq> prio then [ScanPriority jid username (j_priority row) prio] else [])"
    using assms(2) by (rule set_priority_OkE)
  have id: "j_job_id row = jid" using row(1) by (rule row_get_key)
  have get: "get_row d' k = get_row (if j_priority row \<noteq> prio then put_row d (row\<lparr>j_priority := prio\<rparr>) else d) k" for k
    using row(4) by simp
  have "get_row d' jid = Some (row\<lparr>j_priority := prio\<rparr>)"
    using row(1) id unfolding get by (cases "j_priority row = prio") (auto simp: get_put_row)
  moreover have "PRIORITY_MIN = - 100" "PRIORITY_MAX = 100" "PRIORITY_DEFAULT = 0"
    by (simp_all add: PRIORITY_MIN_def PRIORITY_MAX_def PRIORITY_DEFAULT_def)
  moreover have "\<forall>other. better other row \<longrightarrow> better other (row\<lparr>j_priority := prio\<rparr>)" if "prio \<le> j_priority row"
    using that by (auto simp: better_def)
  ultimately have c1: "\<exists>row. get_row d jid = Some row \<and> j_status row = QUEUED
      \<and> get_row d' jid = Some (row\<lparr>j_priority := prio\<rparr>) \<and> - 100 \<le> prio \<and> prio \<le> 100
      \<and> (j_priority row \<noteq> prio \<longrightarrow> audit_log d' = audit_log d @ [ScanPriority jid username (j_priority row) prio])
      \<and> (\<not> may_raise \<longrightarrow> j_requested_by row = username \<and> prio \<le> j_priority row \<and> j_priority row \<le> 0
           \<and> (\<forall>other. better other row \<longrightarrow> better other (row\<lparr>j_priority := prio\<rparr>)))"
    using row(1-3,5) by (intro exI [of _ row]) (auto simp: check_priority_Ok)
  have c2: "\<forall>k. k \<noteq> jid \<longrightarrow> get_row d' k = get_row d k"
    unfolding get using id by (simp add: get_put_row)
  show ?thesis using c1 c2 by (intro conjI)
qed

theorem priority_change_is_permitted_witness:
  "\<exists>row. get_row demo_db1 ''j1'' = Some row \<and> - 5 \<le> j_priority row"
proof -
  have "\<exists>d' info. set_priority demo_db1 ''j1'' (- 5) None False ''olga'' = Ok (d', info)"
    by (simp add: set_priority_def demo_db1_def demo_row1_def new_job_row_def row_get_def demo_submission_def
        demo_request_def check_priority_def PRIORITY_MIN_def PRIORITY_MAX_def PRIORITY_DEFAULT_def Let_def)
  then show ?thesis using priority_change_is_permitted [OF demo_wf(1), THEN conjunct1] by metis
qed

section \<open>The command line of a job\<close>

text \<open>
  Printing and parsing the input arguments agree: the arguments of an accepted set of
  input files parse back to the same files at the same paths.
\<close>

theorem input_arguments_round_trip:
  assumes "input_arguments paths = Ok args"
  shows "\<exists>ps. paths_from_arguments args = Ok ps \<and> map_of ps = map_of paths"
proof -
  have "fst ` set paths \<subseteq> fst ` set INPUT_FLAGS"
    using assms by (auto simp: input_arguments_def Let_def filter_empty_conv split: if_splits)
  then have "map_of (ordered_paths INPUT_FLAGS paths) n = map_of paths n" for n
    using map_of_eq_None_iff [of paths n] by (auto simp: map_of_ordered_paths)
  then show ?thesis using paths_from_input_arguments [OF assms] by blast
qed

theorem input_arguments_round_trip_witness:
  "\<exists>ps. paths_from_arguments [''--scan-scope'', ''/in/s'', ''--scan-policy'', ''/in/p''] = Ok ps
     \<and> map_of ps ''scan_policy.json'' = Some ''/in/p''"
proof -
  have "input_arguments [(''scan_policy.json'', ''/in/p''), (''scan_scope.json'', ''/in/s'')]
      = Ok [''--scan-scope'', ''/in/s'', ''--scan-policy'', ''/in/p'']"
    by code_simp
  from input_arguments_round_trip [OF this] show ?thesis by fastforce
qed

text \<open>
  A claim asks for exactly the files the scan was admitted with: the names read back from
  the command line of a scanner invocation are the inputs it was built from, so a claim
  that succeeds delivers every one of them.
\<close>

theorem claim_requires_every_input:
  assumes "argv scan executable = Ok cmd" and "executable \<notin> set scalar_flags"
  shows "\<exists>names. required_input_names cmd = Ok names \<and> set names = fst ` set (inv_inputs scan)
    \<and> (\<forall>store jid out. read_job_inputs store jid names = Ok out \<longrightarrow>
         fst ` set (inv_inputs scan) \<subseteq> fst ` set out)"
proof -
  have "\<exists>names. required_input_names (cmd @ []) = Ok names
      \<and> set names = fst ` set (inv_inputs scan) \<union> set ([] :: string list)"
    by (rule argv_required [OF assms]) simp
  then have "\<exists>names. required_input_names cmd = Ok names \<and> set names = fst ` set (inv_inputs scan)"
    by (simp only: append_Nil2 list.set Un_empty_right)
  then obtain names where names: "required_input_names cmd = Ok names" "set names = fst ` set (inv_inputs scan)"
    by (elim exE conjE) (rule that)
  have "fst ` set (inv_inputs scan) \<subseteq> fst ` set out" if "read_job_inputs store jid names = Ok out" for store jid out
    using read_job_inputs_Ok [OF that] names(2) by simp
  with names show ?thesis by blast
qed

theorem claim_requires_every_input_witness:
  "\<exists>names. required_input_names [''python'', ''-m'', ''scanner.main'', ''--config'', ''--scan-scope'', ''--mode'',
       ''safe'', ''--delta'', ''--scan-policy'', ''/in/p''] = Ok names \<and> set names = {''scan_policy.json''}"
proof -
  let ?scan = "\<lparr>inv_config = ''--scan-scope'', inv_mode = ''safe'', inv_run_id = None, inv_delta = True,
    inv_skip_nse = False, inv_notify = False, inv_export_defectdojo = False,
    inv_inputs = [(''scan_policy.json'', ''/in/p'')]\<rparr>"
  have "argv ?scan ''python'' = Ok [''python'', ''-m'', ''scanner.main'', ''--config'', ''--scan-scope'',
      ''--mode'', ''safe'', ''--delta'', ''--scan-policy'', ''/in/p'']"
    "''python'' \<notin> set scalar_flags"
    by code_simp+
  from claim_requires_every_input [OF this] have "\<exists>names. required_input_names [''python'', ''-m'',
      ''scanner.main'', ''--config'', ''--scan-scope'', ''--mode'', ''safe'', ''--delta'', ''--scan-policy'', ''/in/p'']
        = Ok names \<and> set names = fst ` set (inv_inputs ?scan)"
    by (elim exE conjE) (rule exI, rule conjI)
  moreover have "fst ` set (inv_inputs ?scan) = {''scan_policy.json''}" by simp
  ultimately show ?thesis by (simp only:)
qed

end
