(* ===== verification/Ip_Net.thy ===== *)
theory Ip_Net
  imports Py_Text "HOL-Library.Code_Target_Nat" "HOL-Library.Code_Target_Int"
begin

text \<open>
  The part of Python's \<^verbatim>\<open>ipaddress\<close> the scan scope uses: \<^verbatim>\<open>ip_network(s, strict=False)\<close> for both
  families (prefix length, netmask and hostmask forms, the compressed and the dotted
  tail form of IPv6, zone ids), \<^verbatim>\<open>str\<close>, \<^verbatim>\<open>overlaps\<close>, \<^verbatim>\<open>subnet_of\<close> and \<^verbatim>\<open>address_exclude\<close>.
  Addresses are natural numbers below \<open>2 ^ width\<close>. A zone id takes part in the equality of
  addresses only, as in the library: \<^verbatim>\<open>subnet_of\<close> compares network addresses with \<^verbatim>\<open><=\<close>, which
  is "less, or equal with the same zone".
\<close>

section \<open>Networks\<close>

datatype ip_family = V4 | V6

definition width :: "ip_family \<Rightarrow> nat" where
  "width f = (case f of V4 \<Rightarrow> 32 | V6 \<Rightarrow> 128)"

text \<open>Addresses are ordered by version first.\<close>

definition version_of :: "ip_family \<Rightarrow> nat" where
  "version_of f = (case f of V4 \<Rightarrow> 4 | V6 \<Rightarrow> 6)"

instantiation ip_family :: linorder
begin

definition less_eq_ip_family :: "ip_family \<Rightarrow> ip_family \<Rightarrow> bool" where
  "less_eq_ip_family a b = (version_of a \<le> version_of b)"

definition less_ip_family :: "ip_family \<Rightarrow> ip_family \<Rightarrow> bool" where
  "less_ip_family a b = (version_of a < version_of b)"

instance
proof
  fix a b :: ip_family
  assume "a \<le> b" and "b \<le> a"
  then show "a = b" by (cases a; cases b) (simp_all add: less_eq_ip_family_def version_of_def)
qed (auto simp: less_eq_ip_family_def less_ip_family_def)

end

record ip_network =
  net_family :: ip_family
  net_address :: nat
  net_zone :: "string option"
  net_prefix :: nat

text \<open>The number of addresses of a prefix, the address under its mask, the mask itself.\<close>

definition block :: "ip_family \<Rightarrow> nat \<Rightarrow> nat" where
  "block f p = 2 ^ (width f - p)"

definition under_mask :: "ip_family \<Rightarrow> nat \<Rightarrow> nat \<Rightarrow> nat" where
  "under_mask f p a = (a div block f p) * block f p"

definition netmask :: "ip_family \<Rightarrow> nat \<Rightarrow> nat" where
  "netmask f p = 2 ^ width f - block f p"

definition make_network :: "ip_family \<Rightarrow> nat \<Rightarrow> string option \<Rightarrow> nat \<Rightarrow> ip_network" where
  "make_network f a zone p =
     (let m = under_mask f p a in
      \<lparr>net_family = f, net_address = m, net_zone = (if m = a then zone else None), net_prefix = p\<rparr>)"

section \<open>Reading IPv4\<close>

definition parse_octet :: "string \<Rightarrow> nat option" where
  "parse_octet s =
     (if s \<noteq> [] \<and> list_all is_ascii_digit s \<and> length s \<le> 3 \<and> (s = ''0'' \<or> hd s \<noteq> CHR ''0'')
         \<and> digits_value 0 s \<le> 255
      then Some (digits_value 0 s) else None)"

definition digits_to :: "nat \<Rightarrow> nat list \<Rightarrow> nat" where
  "digits_to base ds = foldl (\<lambda>acc d. acc * base + d) 0 ds"

definition v4_int :: "string \<Rightarrow> nat option" where
  "v4_int s =
     (let octets = split_on (CHR ''.'') s in
      if length octets \<noteq> 4 then None else map_option (digits_to 256) (those (map parse_octet octets)))"

definition prefix_number :: "ip_family \<Rightarrow> string \<Rightarrow> nat option" where
  "prefix_number f s =
     (if s \<noteq> [] \<and> list_all is_ascii_digit s \<and> digits_value 0 s \<le> width f
      then Some (digits_value 0 s) else None)"

definition prefix_of_mask :: "ip_family \<Rightarrow> nat \<Rightarrow> nat option" where
  "prefix_of_mask f m = find (\<lambda>p. netmask f p = m) [0..<Suc (width f)]"

definition v4_prefix :: "string \<Rightarrow> nat option" where
  "v4_prefix s =
     (case prefix_number V4 s of Some p \<Rightarrow> Some p
      | None \<Rightarrow> (case v4_int s of None \<Rightarrow> None
          | Some m \<Rightarrow> (case prefix_of_mask V4 m of Some p \<Rightarrow> Some p
              | None \<Rightarrow> prefix_of_mask V4 (2 ^ 32 - 1 - m))))"

definition v4_network :: "string \<Rightarrow> ip_network option" where
  "v4_network s =
     (case split_on (CHR ''/'') s of
        [a] \<Rightarrow> map_option (\<lambda>n. make_network V4 n None 32) (v4_int a)
      | [a, m] \<Rightarrow> (case (v4_int a, v4_prefix m) of
            (Some n, Some p) \<Rightarrow> Some (make_network V4 n None p) | _ \<Rightarrow> None)
      | _ \<Rightarrow> None)"

section \<open>Reading IPv6\<close>

definition hex_digit :: "char \<Rightarrow> nat option" where
  "hex_digit c = (let n = of_char c :: nat in
     if 48 \<le> n \<and> n \<le> 57 then Some (n - 48)
     else if 65 \<le> n \<and> n \<le> 70 then Some (n - 55)
     else if 97 \<le> n \<and> n \<le> 102 then Some (n - 87) else None)"

definition parse_hextet :: "string \<Rightarrow> nat option" where
  "parse_hextet s =
     (if s = [] \<or> length s > 4 then None else map_option (digits_to 16) (those (map hex_digit s)))"

fun nat_hex :: "nat \<Rightarrow> string" where
  "nat_hex n = (let d = (\<lambda>k. char_of (if k < 10 then 48 + k else 87 + k)) in
     if n < 16 then [d n] else nat_hex (n div 16) @ [d (n mod 16)])"

declare nat_hex.simps [simp del]

text \<open>A dotted tail stands for the last two hextets.\<close>

definition dotted_tail :: "string list \<Rightarrow> string list option" where
  "dotted_tail parts =
     (if CHR ''.'' \<in> set (last parts)
      then map_option (\<lambda>n. butlast parts @ [nat_hex (n div 65536), nat_hex (n mod 65536)])
             (v4_int (last parts))
      else Some parts)"

text \<open>
  The eight hextets: \<open>hi\<close> parts from the front, \<open>lo\<close> from the back, zeros for the skipped
  run at the one empty inner part.
\<close>

definition spread :: "string list \<Rightarrow> nat \<Rightarrow> nat \<Rightarrow> nat list option" where
  "spread parts hi lo =
     (case (those (map parse_hextet (take hi parts)),
            those (map parse_hextet (drop (length parts - lo) parts))) of
        (Some his, Some los) \<Rightarrow> Some (his @ replicate (8 - (hi + lo)) 0 @ los)
      | _ \<Rightarrow> None)"

definition v6_hextets :: "string list \<Rightarrow> nat list option" where
  "v6_hextets parts =
     (case filter (\<lambda>i. parts ! i = []) [1..<length parts - 1] of
        [] \<Rightarrow> if length parts \<noteq> 8 \<or> hd parts = [] \<or> last parts = [] then None else spread parts 8 0
      | [k] \<Rightarrow>
          (let hi = (if hd parts = [] then k - 1 else k);
               lo = (if last parts = [] then length parts - k - 2 else length parts - k - 1) in
           if hd parts = [] \<and> hi \<noteq> 0 \<or> last parts = [] \<and> lo \<noteq> 0 \<or> 8 < hi + lo + 1 then None
           else spread parts hi lo)
      | _ \<Rightarrow> None)"

definition v6_int :: "string \<Rightarrow> nat option" where
  "v6_int s =
     (let parts = split_on (CHR '':'') s in
      if length parts < 3 then None
      else case dotted_tail parts of None \<Rightarrow> None
        | Some ps \<Rightarrow> if length ps > 9 then None else map_option (digits_to 65536) (v6_hextets ps))"

definition v6_address :: "string \<Rightarrow> (nat \<times> string option) option" where
  "v6_address s =
     (let (addr, sep, zone) = partition_at (CHR ''%'') s in
      if sep \<and> (zone = [] \<or> CHR ''%'' \<in> set zone) then None
      else map_option (\<lambda>n. (n, if sep then Some zone else None)) (v6_int addr))"

definition v6_network :: "string \<Rightarrow> ip_network option" where
  "v6_network s =
     (case split_on (CHR ''/'') s of
        [a] \<Rightarrow> map_option (\<lambda>(n, z). make_network V6 n z 128) (v6_address a)
      | [a, m] \<Rightarrow> (case (v6_address a, prefix_number V6 m) of
            (Some (n, z), Some p) \<Rightarrow> Some (make_network V6 n z p) | _ \<Rightarrow> None)
      | _ \<Rightarrow> None)"

text \<open>\<^verbatim>\<open>ip_network(s, strict=False)\<close> and \<^verbatim>\<open>ip_address(s)\<close>; \<open>None\<close> is the \<^verbatim>\<open>ValueError\<close>.\<close>

definition parse_network :: "string \<Rightarrow> ip_network option" where
  "parse_network s = (case v4_network s of Some n \<Rightarrow> Some n | None \<Rightarrow> v6_network s)"

definition parse_address :: "string \<Rightarrow> ip_network option" where
  "parse_address s = (if CHR ''/'' \<in> set s then None else parse_network s)"

section \<open>Writing\<close>

fun digits_from :: "nat \<Rightarrow> nat \<Rightarrow> nat \<Rightarrow> nat list" where
  "digits_from base 0 n = []"
| "digits_from base (Suc k) n = digits_from base k (n div base) @ [n mod base]"

definition v4_str :: "nat \<Rightarrow> string" where
  "v4_str n = join_with ''.'' (map nat_digits (digits_from 256 4 n))"

text \<open>
  \<open>_compress_hextets\<close>: the scan keeps the current run of zeros and the best one so far, as
  (start, length).
\<close>

fun best_run :: "string list \<Rightarrow> nat \<Rightarrow> nat \<times> nat \<Rightarrow> nat \<times> nat \<Rightarrow> nat \<times> nat" where
  "best_run [] i cur best = best"
| "best_run (h # hs) i cur best =
     (if h = ''0'' then
        (let cur1 = (if snd cur = 0 then (i, 1) else (fst cur, Suc (snd cur))) in
         best_run hs (Suc i) cur1 (if snd cur1 > snd best then cur1 else best))
      else best_run hs (Suc i) (0, 0) best)"

definition compress_hextets :: "string list \<Rightarrow> string list" where
  "compress_hextets hs =
     (let (start, len) = best_run hs 0 (0, 0) (0, 0) in
      if len > 1 then
        (if start = 0 then [[]] else []) @ take start hs @ [[]] @ drop (start + len) hs
          @ (if start + len = length hs then [[]] else [])
      else hs)"

definition v6_str :: "nat \<Rightarrow> string" where
  "v6_str n = join_with '':'' (compress_hextets (map nat_hex (digits_from 65536 8 n)))"

definition zone_suffix :: "string option \<Rightarrow> string" where
  "zone_suffix z = (case z of None \<Rightarrow> [] | Some s \<Rightarrow> CHR ''%'' # s)"

definition net_str :: "ip_network \<Rightarrow> string" where
  "net_str n =
     (case net_family n of V4 \<Rightarrow> v4_str (net_address n) | V6 \<Rightarrow> v6_str (net_address n) @ zone_suffix (net_zone n))
     @ CHR ''/'' # nat_digits (net_prefix n)"

section \<open>Comparing\<close>

definition broadcast :: "ip_network \<Rightarrow> nat" where
  "broadcast n = net_address n + (block (net_family n) (net_prefix n) - 1)"

definition has_address :: "ip_network \<Rightarrow> nat \<Rightarrow> bool" where
  "has_address n a = (under_mask (net_family n) (net_prefix n) a = net_address n)"

definition overlaps :: "ip_network \<Rightarrow> ip_network \<Rightarrow> bool" where
  "overlaps a b =
     (has_address b (net_address a) \<or> has_address b (broadcast a)
      \<or> has_address a (net_address b) \<or> has_address a (broadcast b))"

definition subnet_of :: "ip_network \<Rightarrow> ip_network \<Rightarrow> bool" where
  "subnet_of a b =
     ((net_address b < net_address a \<or> net_address b = net_address a \<and> net_zone b = net_zone a)
      \<and> broadcast a \<le> broadcast b)"

text \<open>
  \<^verbatim>\<open>a.address_exclude(b)\<close>: halve \<open>a\<close>, give the half without \<open>b\<close>, go on with the other.
  \<open>None\<close> is the exception the library raises when it runs out of bits, which a zone id brings
  about; the fuel is the number of bits left.
\<close>

definition halves :: "ip_network \<Rightarrow> ip_network \<times> ip_network" where
  "halves n = (let p = Suc (net_prefix n); f = net_family n in
     (\<lparr>net_family = f, net_address = net_address n, net_zone = None, net_prefix = p\<rparr>,
      \<lparr>net_family = f, net_address = net_address n + block f p, net_zone = None, net_prefix = p\<rparr>))"

fun carve :: "nat \<Rightarrow> ip_network \<Rightarrow> ip_network \<Rightarrow> ip_network list option" where
  "carve 0 net other = None"
| "carve (Suc k) net other =
     (let (s1, s2) = halves net in
      if s1 = other then Some [s2]
      else if s2 = other then Some [s1]
      else if subnet_of other s1 then map_option (\<lambda>rest. s2 # rest) (carve k s1 other)
      else if subnet_of other s2 then map_option (\<lambda>rest. s1 # rest) (carve k s2 other)
      else None)"

definition address_exclude :: "ip_network \<Rightarrow> ip_network \<Rightarrow> ip_network list option" where
  "address_exclude net other =
     (if \<not> subnet_of other net then None
      else if other = net then Some []
      else carve (width (net_family net) - net_prefix net) net other)"

section \<open>What a network is: a set of addresses\<close>

definition net_addrs :: "ip_network \<Rightarrow> (ip_family \<times> nat) set" where
  "net_addrs n = {net_family n} \<times> {net_address n .. broadcast n}"

definition zone_ok :: "string option \<Rightarrow> bool" where
  "zone_ok zone = (case zone of None \<Rightarrow> True | Some z \<Rightarrow> z \<noteq> [] \<and> CHR ''%'' \<notin> set z \<and> CHR ''/'' \<notin> set z)"

definition wf_net :: "ip_network \<Rightarrow> bool" where
  "wf_net n \<longleftrightarrow> net_prefix n \<le> width (net_family n) \<and> net_address n < 2 ^ width (net_family n)
     \<and> block (net_family n) (net_prefix n) dvd net_address n
     \<and> (net_family n = V4 \<longrightarrow> net_zone n = None) \<and> zone_ok (net_zone n)"

lemma zone_ok_None [simp]: "zone_ok None"
  by (simp add: zone_ok_def)

lemma block_pos [simp]: "0 < block f p"
  by (simp add: block_def)

lemma under_mask_range:
  "under_mask f p a \<le> a" "a \<le> under_mask f p a + (block f p - 1)" "block f p dvd under_mask f p a"
proof -
  have a: "a = under_mask f p a + a mod block f p" unfolding under_mask_def by (rule div_mult_mod_eq [symmetric])
  then show "under_mask f p a \<le> a" by linarith
  have "a mod block f p < block f p" by simp
  then show "a \<le> under_mask f p a + (block f p - 1)" using a by linarith
  show "block f p dvd under_mask f p a" by (simp add: under_mask_def)
qed

lemma under_mask_eq:
  fixes f :: ip_family and p a y :: nat
  assumes "block f p dvd y"
  shows "under_mask f p a = y \<longleftrightarrow> y \<le> a \<and> a \<le> y + (block f p - 1)"
proof
  assume "under_mask f p a = y"
  then show "y \<le> a \<and> a \<le> y + (block f p - 1)" using under_mask_range(1,2) by blast
next
  assume y: "y \<le> a \<and> a \<le> y + (block f p - 1)"
  obtain k where k: "y = block f p * k" using assms by blast
  have "0 < block f p" by simp
  then have "a < block f p * k + block f p"
    using y unfolding k by linarith
  then have "a div block f p = k"
    using y unfolding k by (intro div_nat_eqI) (simp_all add: algebra_simps)
  then show "under_mask f p a = y" by (simp add: under_mask_def k)
qed

lemma has_address_iff:
  "wf_net n \<Longrightarrow> has_address n a \<longleftrightarrow> net_address n \<le> a \<and> a \<le> broadcast n"
  by (simp add: has_address_def broadcast_def wf_net_def under_mask_eq)

lemma broadcast_ge: "net_address n \<le> broadcast n"
  by (simp add: broadcast_def)

lemma net_addrs_nonempty: "net_addrs n \<noteq> {}"
  by (auto simp: net_addrs_def broadcast_ge)

text \<open>\<^verbatim>\<open>overlaps\<close> is intersection, \<^verbatim>\<open>subnet_of\<close> is inclusion (up to zone ids).\<close>

lemma intervals_meet:
  "(a::nat) \<le> b \<Longrightarrow> c \<le> d \<Longrightarrow> {a..b} \<inter> {c..d} \<noteq> {} \<longleftrightarrow> c \<le> b \<and> a \<le> d"
  unfolding Int_atLeastAtMost by simp

lemma endpoints_meet:
  "(a::nat) \<le> b \<Longrightarrow> c \<le> d \<Longrightarrow>
     (c \<le> a \<and> a \<le> d \<or> c \<le> b \<and> b \<le> d \<or> a \<le> c \<and> c \<le> b \<or> a \<le> d \<and> d \<le> b) \<longleftrightarrow> c \<le> b \<and> a \<le> d"
  by (cases "a \<le> c") auto

lemma overlaps_iff:
  assumes "wf_net a" and "wf_net b" and "net_family a = net_family b"
  shows "overlaps a b \<longleftrightarrow> net_addrs a \<inter> net_addrs b \<noteq> {}"
proof -
  have "net_addrs a \<inter> net_addrs b \<noteq> {}
      \<longleftrightarrow> {net_address a .. broadcast a} \<inter> {net_address b .. broadcast b} \<noteq> {}"
    unfolding net_addrs_def assms(3) Times_Int_Times by simp
  also have "\<dots> \<longleftrightarrow> net_address b \<le> broadcast a \<and> net_address a \<le> broadcast b"
    by (rule intervals_meet) (rule broadcast_ge)+
  also have "\<dots> \<longleftrightarrow> overlaps a b"
    unfolding overlaps_def has_address_iff [OF assms(1)] has_address_iff [OF assms(2)]
    by (rule endpoints_meet [symmetric]) (rule broadcast_ge)+
  finally show ?thesis by simp
qed

lemma subnet_of_subset:
  "net_family a = net_family b \<Longrightarrow> subnet_of a b \<Longrightarrow> net_addrs a \<subseteq> net_addrs b"
  by (auto simp: subnet_of_def net_addrs_def)

lemma subset_subnet_of:
  assumes "net_addrs a \<subseteq> net_addrs b" and "net_zone a = None" and "net_zone b = None"
  shows "subnet_of a b"
proof -
  have "(net_family a, net_address a) \<in> net_addrs a" "(net_family a, broadcast a) \<in> net_addrs a"
    by (simp_all add: net_addrs_def broadcast_ge)
  then have "(net_family a, net_address a) \<in> net_addrs b" "(net_family a, broadcast a) \<in> net_addrs b"
    using assms(1) by blast+
  then show ?thesis using assms(2,3) by (auto simp: subnet_of_def net_addrs_def)
qed

section \<open>What is read is well formed\<close>

lemma those_map: "those (map f xs) = Some ys \<longleftrightarrow> list_all2 (\<lambda>x y. f x = Some y) xs ys"
  by (induction xs arbitrary: ys) (auto simp: list_all2_Cons1 split: option.split)

lemma list_all2_image: "list_all2 R xs ys \<Longrightarrow> (\<And>x y. R x y \<Longrightarrow> Q y) \<Longrightarrow> \<forall>y \<in> set ys. Q y"
  by (induction rule: list_all2_induct) auto

lemma digits_to_snoc: "digits_to b (ds @ [d]) = digits_to b ds * b + d"
  by (simp add: digits_to_def)

lemma digits_to_less: "\<forall>d \<in> set ds. d < b \<Longrightarrow> digits_to b ds < b ^ length ds"
proof (induction ds rule: rev_induct)
  case Nil
  then show ?case by (simp add: digits_to_def)
next
  case (snoc d ds)
  then have "digits_to b ds < b ^ length ds" and d: "d < b" by simp_all
  then have "Suc (digits_to b ds) * b \<le> b ^ length ds * b" by (intro mult_le_mono1) simp
  then show ?case using d by (simp add: digits_to_snoc mult.commute [of b "b ^ length ds"])
qed

lemma v4_int_less: "v4_int s = Some n \<Longrightarrow> n < 2 ^ 32"
proof -
  assume "v4_int s = Some n"
  then obtain os where os: "list_all2 (\<lambda>x y. parse_octet x = Some y) (split_on (CHR ''.'') s) os"
    "length (split_on (CHR ''.'') s) = 4" "n = digits_to 256 os"
    by (auto simp: v4_int_def Let_def those_map split: if_splits)
  have "\<forall>d \<in> set os. d < 256"
    using os(1) by (rule list_all2_image) (auto simp: parse_octet_def split: if_splits)
  then have "digits_to 256 os < 256 ^ length os" by (rule digits_to_less)
  moreover have "length os = 4" using list_all2_lengthD [OF os(1)] os(2) by simp
  ultimately show ?thesis by (simp add: os(3))
qed

lemma hex_digit_less: "hex_digit c = Some d \<Longrightarrow> d < 16"
  by (auto simp: hex_digit_def Let_def split: if_splits)

lemma parse_hextet_less: "parse_hextet s = Some h \<Longrightarrow> h < 65536"
proof -
  assume "parse_hextet s = Some h"
  then obtain ds where ds: "list_all2 (\<lambda>x y. hex_digit x = Some y) s ds" "length s \<le> 4" "h = digits_to 16 ds"
    by (auto simp: parse_hextet_def those_map split: if_splits)
  have "\<forall>d \<in> set ds. d < 16" using ds(1) by (rule list_all2_image) (rule hex_digit_less)
  then have "h < 16 ^ length ds" unfolding ds(3) by (rule digits_to_less)
  also have "\<dots> \<le> (16::nat) ^ 4" using list_all2_lengthD [OF ds(1)] ds(2) by (intro power_increasing) auto
  finally show ?thesis by simp
qed

lemma spread_length:
  assumes "spread parts hi lo = Some hs" and "hi \<le> length parts" and "lo \<le> length parts" and "hi + lo \<le> 8"
  shows "length hs = 8" and "\<forall>h \<in> set hs. h < 65536"
proof -
  obtain his los where h: "list_all2 (\<lambda>x y. parse_hextet x = Some y) (take hi parts) his"
    "list_all2 (\<lambda>x y. parse_hextet x = Some y) (drop (length parts - lo) parts) los"
    "hs = his @ replicate (8 - (hi + lo)) 0 @ los"
    using assms(1) by (auto simp: spread_def those_map split: option.splits)
  show "length hs = 8"
    using list_all2_lengthD [OF h(1)] list_all2_lengthD [OF h(2)] assms(2-4) by (simp add: h(3))
  have "\<forall>h \<in> set his. h < 65536" using h(1) by (rule list_all2_image) (rule parse_hextet_less)
  moreover have "\<forall>h \<in> set los. h < 65536" using h(2) by (rule list_all2_image) (rule parse_hextet_less)
  ultimately show "\<forall>h \<in> set hs. h < 65536" by (auto simp: h(3))
qed

lemma v6_hextets_spread:
  assumes "v6_hextets parts = Some hs"
  shows "\<exists>hi lo. spread parts hi lo = Some hs \<and> hi \<le> length parts \<and> lo \<le> length parts \<and> hi + lo \<le> 8"
proof (cases "filter (\<lambda>i. parts ! i = []) [1..<length parts - 1]")
  case Nil
  then have "length parts = 8" "spread parts 8 0 = Some hs"
    using assms by (auto simp: v6_hextets_def split: if_splits)
  then show ?thesis by (intro exI [of _ 8] exI [of _ 0]) simp
next
  case (Cons k ks)
  have "k \<in> set [1..<length parts - 1]" using arg_cong [OF Cons, where f = set] by auto
  then have k: "k \<le> length parts" by auto
  let ?hi = "if hd parts = [] then k - 1 else k"
  let ?lo = "if last parts = [] then length parts - k - 2 else length parts - k - 1"
  have "ks = []" using assms Cons by (auto simp: v6_hextets_def split: list.splits)
  then have "\<not> 8 < ?hi + ?lo + 1" "spread parts ?hi ?lo = Some hs"
    using assms Cons unfolding v6_hextets_def Let_def by (simp_all split: if_splits)
  moreover have "?hi \<le> length parts" "?lo \<le> length parts" using k by auto
  ultimately show ?thesis by (intro exI [of _ ?hi] exI [of _ ?lo]) linarith
qed

lemma v6_hextets_length:
  "v6_hextets parts = Some hs \<Longrightarrow> length hs = 8 \<and> (\<forall>h \<in> set hs. h < 65536)"
  using v6_hextets_spread spread_length by blast

lemma v6_int_less: "v6_int s = Some n \<Longrightarrow> n < 2 ^ 128"
proof -
  assume "v6_int s = Some n"
  then obtain ps hs where "v6_hextets ps = Some hs" and n: "n = digits_to 65536 hs"
    by (auto simp: v6_int_def Let_def split: if_splits option.splits)
  then have "length hs = 8" "\<forall>h \<in> set hs. h < 65536" using v6_hextets_length by blast+
  then show ?thesis using digits_to_less [of hs 65536] by (simp add: n)
qed

lemma wf_make_network:
  assumes "p \<le> width f" and "a < 2 ^ width f" and "f = V4 \<longrightarrow> z = None" and "zone_ok z"
  shows "wf_net (make_network f a z p)"
proof -
  have "under_mask f p a < 2 ^ width f" using under_mask_range(1) assms(2) by (rule le_less_trans)
  then show ?thesis using assms under_mask_range(3) by (simp add: wf_net_def make_network_def Let_def)
qed

lemma find_SomeD: "find P xs = Some x \<Longrightarrow> x \<in> set xs \<and> P x"
  by (induction xs) (auto split: if_splits)

lemma prefix_of_mask_le: "prefix_of_mask f m = Some p \<Longrightarrow> p \<le> width f"
  using find_SomeD [of "\<lambda>p. netmask f p = m" "[0..<Suc (width f)]" p] by (auto simp: prefix_of_mask_def)

lemma v4_prefix_le: "v4_prefix s = Some p \<Longrightarrow> p \<le> 32"
  using prefix_of_mask_le [of V4]
  by (auto simp: v4_prefix_def prefix_number_def width_def split: option.splits if_splits)

lemma wf_v4_network: "v4_network s = Some n \<Longrightarrow> wf_net n"
  by (auto simp: v4_network_def width_def v4_int_less [simplified] v4_prefix_le intro!: wf_make_network
      split: list.splits option.splits)

lemma v6_address_less: "v6_address s = Some (n, z) \<Longrightarrow> n < 2 ^ 128"
  by (cases "partition_at (CHR ''%'') s") (auto simp: v6_address_def dest: v6_int_less split: if_splits)

lemma v6_address_zone:
  assumes "v6_address s = Some (n, z)" and "CHR ''/'' \<notin> set s"
  shows "zone_ok z"
proof (cases rule: partition_at_cases [of "CHR ''%''" s])
  case 1
  then show ?thesis using assms(1) by (auto simp: v6_address_def)
next
  case (2 h t)
  then show ?thesis using assms by (auto simp: v6_address_def zone_ok_def split: if_splits)
qed

lemma wf_v6_network:
  assumes "v6_network s = Some n"
  shows "wf_net n"
proof -
  have parts: "\<And>a. a \<in> set (split_on (CHR ''/'') s) \<Longrightarrow> CHR ''/'' \<notin> set a"
    by (rule split_on_sep_free)
  consider a k z where "split_on (CHR ''/'') s = [a]" "v6_address a = Some (k, z)" "n = make_network V6 k z 128"
    | a m k z p where "split_on (CHR ''/'') s = [a, m]" "v6_address a = Some (k, z)"
        "prefix_number V6 m = Some p" "n = make_network V6 k z p"
    using assms by (auto simp: v6_network_def split: list.splits option.splits)
  then show ?thesis
  proof cases
    case 1
    then show ?thesis using parts [of a]
      by (auto simp: width_def v6_address_less [simplified] intro!: wf_make_network v6_address_zone)
  next
    case 2
    then show ?thesis using parts [of a]
      by (auto simp: width_def prefix_number_def v6_address_less [simplified]
          intro!: wf_make_network v6_address_zone split: if_splits)
  qed
qed

lemma wf_parse_network: "parse_network s = Some n \<Longrightarrow> wf_net n"
  using wf_v4_network wf_v6_network by (auto simp: parse_network_def split: option.splits)

end
