(* ===== verification/Ip_Text.thy ===== *)
theory Ip_Text
  imports Ip_Net
begin

text \<open>
  A network survives being written and read: \<open>parse_network (net_str n) = Some n\<close> for every
  well-formed \<open>n\<close>. The scope document and the stored entries rest on it.
\<close>

section \<open>Numerals\<close>

lemma ord_of_char_of: "n < 256 \<Longrightarrow> ord_of (char_of (n::nat)) = int n"
  unfolding ord_of_def by (metis mod_less of_char_of of_nat_of_char)

lemma digit_char [simp]:
  "k < 10 \<Longrightarrow> is_ascii_digit (char_of (48 + k))"
  "k < 10 \<Longrightarrow> ord_of (char_of (48 + k)) = 48 + int k"
  by (simp_all add: is_ascii_digit_def ord_of_char_of)

lemma zero_char [simp]: "char_of (48::nat) = CHR ''0''" "ord_of (CHR ''0'') = 48"
  by code_simp+

lemma digits_value_app: "digits_value acc (s @ t) = digits_value (digits_value acc s) t"
  by (induction s arbitrary: acc) auto

lemma nat_digits_digits: "list_all is_ascii_digit (nat_digits n)"
proof (induction n rule: nat_digits.induct)
  case (1 n)
  then show ?case by (subst nat_digits.simps) auto
qed

lemma digits_value_nat_digits [simp]: "digits_value 0 (nat_digits n) = n"
proof (induction n rule: nat_digits.induct)
  case (1 n)
  then show ?case by (subst nat_digits.simps) (auto simp: digits_value_app)
qed

lemma nat_digits_length: "n < 10 ^ Suc k \<Longrightarrow> length (nat_digits n) \<le> Suc k"
proof (induction k arbitrary: n)
  case 0
  then show ?case by (subst nat_digits.simps) simp
next
  case (Suc k)
  then have "n div 10 < 10 ^ Suc k" by (simp add: less_mult_imp_div_less)
  then have "length (nat_digits (n div 10)) \<le> Suc k" by (rule Suc.IH)
  then show ?case by (subst nat_digits.simps) simp
qed

lemma nat_digits_hd: "0 < n \<Longrightarrow> hd (nat_digits n) \<noteq> CHR ''0''"
proof (induction n rule: nat_digits.induct)
  case (1 n)
  show ?case
  proof (cases "n < 10")
    case True
    have "ord_of (char_of (48 + n)) = 48 + int n" using True by simp
    moreover have "ord_of (CHR ''0'') = 48" by (simp add: ord_of_def)
    ultimately have "char_of (48 + n) \<noteq> CHR ''0''" using "1.prems" by auto
    then show ?thesis using True by (subst nat_digits.simps) simp
  next
    case False
    then have "hd (nat_digits (n div 10)) \<noteq> CHR ''0''" using "1.IH" by simp
    then show ?thesis using False by (subst nat_digits.simps) simp
  qed
qed

lemma nat_digits_zero: "nat_digits 0 = ''0''"
  by (subst nat_digits.simps) simp

lemma digit_free: "list_all is_ascii_digit s \<Longrightarrow> \<not> is_ascii_digit c \<Longrightarrow> c \<notin> set s"
  by (auto simp: list_all_iff)

lemma parse_octet_nat_digits: "n < 256 \<Longrightarrow> parse_octet (nat_digits n) = Some n"
  using nat_digits_length [of n 2] nat_digits_hd [of n] nat_digits_digits [of n]
  by (cases "n = 0") (auto simp: parse_octet_def nat_digits_zero)

lemma prefix_number_nat_digits: "p \<le> width f \<Longrightarrow> prefix_number f (nat_digits p) = Some p"
  using nat_digits_digits [of p] by (simp add: prefix_number_def)

section \<open>Digits of an address\<close>

lemma length_digits_from [simp]: "length (digits_from b k n) = k"
  by (induction k arbitrary: n) auto

lemma digits_from_less: "0 < b \<Longrightarrow> d \<in> set (digits_from b k n) \<Longrightarrow> d < b"
  by (induction k arbitrary: n) auto

lemma digits_to_from: "0 < b \<Longrightarrow> n < b ^ k \<Longrightarrow> digits_to b (digits_from b k n) = n"
proof (induction k arbitrary: n)
  case 0
  then show ?case by (simp add: digits_to_def)
next
  case (Suc k)
  then have "n div b < b ^ k" by (simp add: less_mult_imp_div_less mult.commute)
  then show ?case using Suc by (simp add: digits_to_snoc)
qed

lemma those_map_Some: "(\<And>x. x \<in> set xs \<Longrightarrow> f (g x) = Some x) \<Longrightarrow> those (map f (map g xs)) = Some xs"
  by (induction xs) auto

lemma split_v4_str: "split_on (CHR ''.'') (v4_str n) = map nat_digits (digits_from 256 4 n)"
  unfolding v4_str_def using digit_free [OF nat_digits_digits]
  by (intro split_on_join) (auto simp: is_ascii_digit_def ord_of_def simp flip: length_0_conv)

lemma v4_int_v4_str: "n < 2 ^ 32 \<Longrightarrow> v4_int (v4_str n) = Some n"
proof -
  assume n: "n < 2 ^ 32"
  let ?ds = "digits_from 256 4 n"
  have len: "length ?ds = 4" by simp
  have "those (map parse_octet (map nat_digits ?ds)) = Some ?ds"
    by (rule those_map_Some) (auto intro!: parse_octet_nat_digits dest: digits_from_less [rotated])
  then show ?thesis using n len digits_to_from [of 256 n 4] by (simp add: v4_int_def split_v4_str Let_def)
qed

section \<open>Hextets\<close>

lemma hex_char_digit:
  assumes "k < 16"
  shows "hex_digit (char_of (if k < 10 then 48 + k else 87 + k)) = Some k"
  using assms by (auto simp: hex_digit_def of_char_of Let_def)

lemma nat_hex_parse:
  "\<exists>ds. list_all2 (\<lambda>c d. hex_digit c = Some d) (nat_hex n) ds \<and> digits_to 16 ds = n"
proof (induction n rule: nat_hex.induct)
  case (1 n)
  let ?c = "\<lambda>k::nat. char_of (if k < 10 then 48 + k else 87 + k) :: char"
  show ?case
  proof (cases "n < 16")
    case True
    then have "nat_hex n = [?c n]" by (subst nat_hex.simps) (simp add: Let_def)
    then show ?thesis using True hex_char_digit
      by (intro exI [of _ "[n]"]) (simp add: digits_to_def)
  next
    case False
    obtain ds where ds: "list_all2 (\<lambda>c d. hex_digit c = Some d) (nat_hex (n div 16)) ds"
      "digits_to 16 ds = n div 16" using 1 False by blast
    have "nat_hex n = nat_hex (n div 16) @ [?c (n mod 16)]"
      using False by (subst nat_hex.simps) (simp add: Let_def)
    moreover have "hex_digit (?c (n mod 16)) = Some (n mod 16)" by (rule hex_char_digit) simp
    ultimately show ?thesis using ds
      by (intro exI [of _ "ds @ [n mod 16]"]) (simp add: list_all2_appendI digits_to_snoc)
  qed
qed

lemma nat_hex_length: "n < 16 ^ Suc k \<Longrightarrow> length (nat_hex n) \<le> Suc k"
proof (induction k arbitrary: n)
  case 0
  then show ?case by (subst nat_hex.simps) (simp add: Let_def)
next
  case (Suc k)
  then have "n div 16 < 16 ^ Suc k" by (simp add: less_mult_imp_div_less)
  then have "length (nat_hex (n div 16)) \<le> Suc k" by (rule Suc.IH)
  then show ?case by (subst nat_hex.simps) (simp add: Let_def)
qed

lemma nat_hex_nonempty [simp]: "nat_hex n \<noteq> []" "[] \<noteq> nat_hex n"
  by (subst nat_hex.simps, simp add: Let_def)+

lemma parse_hextet_nat_hex: "n < 65536 \<Longrightarrow> parse_hextet (nat_hex n) = Some n"
  using nat_hex_parse [of n] nat_hex_length [of n 3] by (auto simp: parse_hextet_def those_map)

lemma nat_hex_zero: "nat_hex n = ''0'' \<longleftrightarrow> n = 0"
proof
  obtain ds where "list_all2 (\<lambda>c d. hex_digit c = Some d) (nat_hex n) ds" "digits_to 16 ds = n"
    using nat_hex_parse by blast
  then show "nat_hex n = ''0'' \<Longrightarrow> n = 0" by (auto simp: list_all2_Cons1 hex_digit_def digits_to_def)
  show "n = 0 \<Longrightarrow> nat_hex n = ''0''" by (subst nat_hex.simps) (simp add: Let_def)
qed

lemma nat_hex_free: "hex_digit c = None \<Longrightarrow> c \<notin> set (nat_hex n)"
proof -
  assume c: "hex_digit c = None"
  obtain ds where "list_all2 (\<lambda>c d. hex_digit c = Some d) (nat_hex n) ds" using nat_hex_parse by blast
  then have "\<forall>x \<in> set (nat_hex n). hex_digit x \<noteq> None"
    by (induction rule: list_all2_induct) auto
  then show "c \<notin> set (nat_hex n)" using c by auto
qed

section \<open>The compressed form\<close>

text \<open>The run the scan returns is a run of zeros inside the list.\<close>

definition zero_run :: "string list \<Rightarrow> nat \<times> nat \<Rightarrow> bool" where
  "zero_run hs r \<longleftrightarrow> fst r + snd r \<le> length hs \<and> (\<forall>i. fst r \<le> i \<and> i < fst r + snd r \<longrightarrow> hs ! i = ''0'')"

lemma best_run_zero:
  assumes "pre @ hs = all" and "i = length pre"
    and "zero_run all cur" and "snd cur \<noteq> 0 \<longrightarrow> fst cur + snd cur = i"
    and "zero_run all best"
  shows "zero_run all (best_run hs i cur best)"
  using assms
proof (induction hs arbitrary: pre i cur best)
  case Nil
  then show ?case by simp
next
  case (Cons h hs)
  have split: "(pre @ [h]) @ hs = all" "Suc i = length (pre @ [h])" using Cons.prems(1,2) by simp_all
  have h: "all ! i = h" "i < length all" using Cons.prems(1,2) by auto
  show ?case
  proof (cases "h = ''0''")
    case False
    have "zero_run all (best_run hs (Suc i) (0, 0) best)"
      using Cons.IH [OF split, of "(0, 0)" best] Cons.prems(5) by (simp add: zero_run_def)
    then show ?thesis using False by simp
  next
    case True
    let ?cur = "if snd cur = 0 then (i, 1) else (fst cur, Suc (snd cur))"
    have cur: "zero_run all ?cur" and at: "fst ?cur + snd ?cur = Suc i"
      using Cons.prems(3,4) h True by (auto simp: zero_run_def less_Suc_eq)
    have "zero_run all (best_run hs (Suc i) ?cur (if snd ?cur > snd best then ?cur else best))"
      using Cons.IH [OF split cur] at cur Cons.prems(5) by simp
    then show ?thesis using True by (simp add: Let_def)
  qed
qed

lemma best_run_spec:
  assumes "best_run hs 0 (0, 0) (0, 0) = (start, len)"
  shows "start + len \<le> length hs" and "\<And>i. start \<le> i \<Longrightarrow> i < start + len \<Longrightarrow> hs ! i = ''0''"
  using best_run_zero [of "[]" hs hs 0 "(0, 0)" "(0, 0)"] assms by (auto simp: zero_run_def)

text \<open>One empty part between the others.\<close>

lemma one_gap:
  assumes "pre \<noteq> []" and "post \<noteq> []" and "\<forall>x \<in> set (tl pre). x \<noteq> []" and "\<forall>x \<in> set (butlast post). x \<noteq> []"
  shows "filter (\<lambda>i. (pre @ [] # post) ! i = []) [1..<length (pre @ [] # post) - 1] = [length pre]"
proof -
  let ?p = "length pre" and ?q = "length post" and ?E = "\<lambda>i. (pre @ [] # post) ! i = []"
  have p: "1 \<le> ?p" "1 \<le> ?q" using assms(1,2) by (simp_all add: Suc_le_eq)
  have "[1..<?p + ?q] = [1..<?p] @ [?p..<?p + ?q]"
    using upt_add_eq_append [OF p(1)] by simp
  also have "[?p..<?p + ?q] = ?p # [Suc ?p..<?p + ?q]" using assms(2) by (simp add: upt_conv_Cons)
  finally have upt: "[1..<?p + ?q] = [1..<?p] @ ?p # [Suc ?p..<?p + ?q]" .
  have "\<not> ?E i" if "i \<in> set [1..<?p]" for i
  proof -
    have i: "1 \<le> i" "i < ?p" using that by auto
    then have "pre ! i = tl pre ! (i - 1)" "i - 1 < length (tl pre)" by (cases pre; simp add: nth_Cons')+
    then have "pre ! i \<noteq> []" using assms(3) by simp
    then show ?thesis using i by (simp add: nth_append)
  qed
  then have 1: "filter ?E [1..<?p] = []" by (simp add: filter_empty_conv)
  have "\<not> ?E i" if "i \<in> set [Suc ?p..<?p + ?q]" for i
  proof -
    have i: "i - Suc ?p < length (butlast post)" "Suc ?p \<le> i" using that by auto
    have "(pre @ [] # post) ! i = post ! (i - Suc ?p)" using i by (auto simp: nth_append nth_Cons' Suc_diff_le)
    also have "\<dots> = butlast post ! (i - Suc ?p)" using i by (simp add: nth_butlast)
    finally show ?thesis using i assms(4) by simp
  qed
  then have 2: "filter ?E [Suc ?p..<?p + ?q] = []" by (simp add: filter_empty_conv)
  show ?thesis using upt 1 2 by simp
qed

lemma v6_hextets_gap:
  fixes es fs :: "nat list"
  defines "pre \<equiv> if es = [] then [[]] else map nat_hex es"
    and "post \<equiv> if fs = [] then [[]] else map nat_hex fs"
  assumes len: "length es + length fs \<le> 7" and small: "\<forall>d \<in> set es \<union> set fs. d < 65536"
  shows "v6_hextets (pre @ [] # post) = Some (es @ replicate (8 - (length es + length fs)) 0 @ fs)"
proof -
  let ?parts = "pre @ [] # post"
  have read: "those (map parse_hextet (map nat_hex ds)) = Some ds" if "set ds \<subseteq> set es \<union> set fs" for ds
    using that small by (intro those_map_Some parse_hextet_nat_hex) auto
  have gap: "filter (\<lambda>i. ?parts ! i = []) [1..<length ?parts - 1] = [length pre]"
    by (rule one_gap) (auto simp: pre_def post_def dest!: list.set_sel(2) [rotated] in_set_butlastD)
  have hd: "hd ?parts = [] \<longleftrightarrow> es = []" by (cases es) (auto simp: pre_def)
  have last: "last ?parts = [] \<longleftrightarrow> fs = []" by (auto simp: post_def last_map)
  let ?hi = "if hd ?parts = [] then length pre - 1 else length pre"
  let ?lo = "if last ?parts = [] then length ?parts - length pre - 2 else length ?parts - length pre - 1"
  have hi: "?hi = length es" unfolding hd by (simp add: pre_def)
  have lo: "?lo = length fs" unfolding last by (simp add: post_def)
  have tk: "take (length es) ?parts = map nat_hex es" by (simp add: pre_def)
  have dr: "drop (length ?parts - length fs) ?parts = map nat_hex fs" by (simp add: post_def)
  have "spread ?parts ?hi ?lo = Some (es @ replicate (8 - (length es + length fs)) 0 @ fs)"
    unfolding hi lo spread_def tk dr using read by simp
  moreover have "\<not> (hd ?parts = [] \<and> ?hi \<noteq> 0 \<or> last ?parts = [] \<and> ?lo \<noteq> 0 \<or> 8 < ?hi + ?lo + 1)"
    unfolding hi lo unfolding hd last using len by auto
  ultimately show ?thesis unfolding v6_hextets_def gap by (simp only: list.case Let_def if_False)
qed

lemma v6_hextets_full:
  assumes "length ds = 8" and "\<forall>d \<in> set ds. d < 65536"
  shows "v6_hextets (map nat_hex ds) = Some ds"
proof -
  have "those (map parse_hextet (map nat_hex ds)) = Some ds"
    using assms(2) by (intro those_map_Some parse_hextet_nat_hex) auto
  then have "spread (map nat_hex ds) 8 0 = Some ds" using assms(1) by (simp add: spread_def)
  moreover have "filter (\<lambda>i. map nat_hex ds ! i = []) [1..<length (map nat_hex ds) - 1] = []"
    by (auto simp: filter_empty_conv)
  moreover have "ds \<noteq> []" using assms(1) by auto
  ultimately show ?thesis using assms(1) by (simp add: v6_hextets_def hd_map last_map)
qed

lemma fill_run:
  assumes "start + n \<le> length ds" and "\<And>i. start \<le> i \<Longrightarrow> i < start + n \<Longrightarrow> ds ! i = z"
  shows "take start ds @ replicate n z @ drop (start + n) ds = ds"
proof (rule nth_equalityI)
  show "length (take start ds @ replicate n z @ drop (start + n) ds) = length ds" using assms(1) by simp
  fix i assume "i < length (take start ds @ replicate n z @ drop (start + n) ds)"
  then show "(take start ds @ replicate n z @ drop (start + n) ds) ! i = ds ! i"
    using assms by (auto simp: nth_append min_def)
qed

lemma v6_hextets_compress:
  assumes len: "length ds = 8" and small: "\<forall>d \<in> set ds. d < 65536"
  shows "v6_hextets (compress_hextets (map nat_hex ds)) = Some ds"
proof -
  let ?hs = "map nat_hex ds"
  obtain start n where run: "best_run ?hs 0 (0, 0) (0, 0) = (start, n)" by fastforce
  have inside: "start + n \<le> length ds" and zero: "\<And>i. start \<le> i \<Longrightarrow> i < start + n \<Longrightarrow> ds ! i = 0"
    using best_run_spec [OF run] by (auto simp: nat_hex_zero)
  show ?thesis
  proof (cases "n > 1")
    case False
    then have "compress_hextets ?hs = ?hs" using run by (simp add: compress_hextets_def)
    then show ?thesis using v6_hextets_full [OF assms] by simp
  next
    case True
    let ?es = "take start ds" and ?fs = "drop (start + n) ds"
    have "ds \<noteq> []" using len by auto
    then have "start \<noteq> 0 \<longleftrightarrow> ?es \<noteq> []" "start + n \<noteq> length ds \<longleftrightarrow> ?fs \<noteq> []" using inside len by auto
    with \<open>ds \<noteq> []\<close> have c: "compress_hextets ?hs = (if ?es = [] then [[]] else map nat_hex ?es) @ []
        # (if ?fs = [] then [[]] else map nat_hex ?fs)"
      using run True \<open>ds \<noteq> []\<close> by (auto simp: compress_hextets_def take_map drop_map)
    have "v6_hextets (compress_hextets ?hs)
        = Some (?es @ replicate (8 - (length ?es + length ?fs)) 0 @ ?fs)"
      unfolding c using len inside True small
      by (intro v6_hextets_gap) (auto dest: in_set_takeD in_set_dropD)
    moreover have "8 - (length ?es + length ?fs) = n" using len inside by simp
    moreover have "?es @ replicate n 0 @ ?fs = ds" by (rule fill_run [OF inside zero])
    ultimately show ?thesis by simp
  qed
qed

section \<open>Networks\<close>

lemma compress_parts: "s \<in> set (compress_hextets hs) \<Longrightarrow> s = [] \<or> s \<in> set hs"
  by (auto simp: compress_hextets_def split: prod.splits if_splits dest: in_set_takeD in_set_dropD)

lemma v6_str_parts:
  fixes n :: nat
  defines "ps \<equiv> compress_hextets (map nat_hex (digits_from 65536 8 n))"
  shows "\<And>s c. s \<in> set ps \<Longrightarrow> hex_digit c = None \<Longrightarrow> c \<notin> set s"
    and "n < 2 ^ 128 \<Longrightarrow> v6_hextets ps = Some (digits_from 65536 8 n)"
    and "3 \<le> length ps" and "length ps \<le> 9"
proof -
  show "c \<notin> set s" if "s \<in> set ps" "hex_digit c = None" for s c
    using compress_parts [OF that(1) [unfolded ps_def]] nat_hex_free [OF that(2)] by auto
  show "v6_hextets ps = Some (digits_from 65536 8 n)"
    unfolding ps_def by (rule v6_hextets_compress) (auto dest: digits_from_less [rotated])
  obtain start k where run: "best_run (map nat_hex (digits_from 65536 8 n)) 0 (0, 0) (0, 0) = (start, k)"
    by fastforce
  then have "start + k \<le> 8" using best_run_spec(1) by fastforce
  then show "3 \<le> length ps" "length ps \<le> 9" using run
    by (auto simp: ps_def compress_hextets_def)
qed

lemma split_v6_str: "split_on (CHR '':'') (v6_str n) = compress_hextets (map nat_hex (digits_from 65536 8 n))"
proof -
  have "hex_digit (CHR '':'') = None" by code_simp
  then show ?thesis unfolding v6_str_def
    using v6_str_parts(1) v6_str_parts(3) [of n] by (intro split_on_join) auto
qed

lemma set_join_with: "set (join_with sep xss) \<subseteq> set sep \<union> (\<Union>xs \<in> set xss. set xs)"
  by (induction sep xss rule: join_with.induct) auto

lemma v6_str_free: "hex_digit c = None \<Longrightarrow> c \<noteq> CHR '':'' \<Longrightarrow> c \<notin> set (v6_str n)"
  unfolding v6_str_def using set_join_with v6_str_parts(1) by fastforce

lemma v6_int_v6_str: "n < 2 ^ 128 \<Longrightarrow> v6_int (v6_str n) = Some n"
proof -
  assume n: "n < 2 ^ 128"
  let ?ps = "compress_hextets (map nat_hex (digits_from 65536 8 n))"
  have "hex_digit (CHR ''.'') = None" by code_simp
  moreover have "last ?ps \<in> set ?ps" using v6_str_parts(3) [of n] by (intro last_in_set) auto
  ultimately have "CHR ''.'' \<notin> set (last ?ps)" using v6_str_parts(1) by blast
  then have "dotted_tail ?ps = Some ?ps" by (simp add: dotted_tail_def)
  then show ?thesis
    using v6_str_parts(2-4) [of n] n digits_to_from [of 65536 n 8] by (simp add: v6_int_def split_v6_str Let_def)
qed

text \<open>A text with a colon is no IPv4 address.\<close>

lemma parse_octet_digits: "parse_octet s = Some n \<Longrightarrow> list_all is_ascii_digit s"
  by (auto simp: parse_octet_def split: if_splits)

lemma v4_int_colon: "CHR '':'' \<in> set s \<Longrightarrow> v4_int s = None"
proof (rule ccontr)
  assume c: "CHR '':'' \<in> set s" and "v4_int s \<noteq> None"
  then obtain os where "list_all2 (\<lambda>x y. parse_octet x = Some y) (split_on (CHR ''.'') s) os"
    by (auto simp: v4_int_def Let_def those_map split: if_splits)
  then have "\<forall>t \<in> set (split_on (CHR ''.'') s). CHR '':'' \<notin> set t"
  proof (induction rule: list_all2_induct)
    case (Cons x xs y ys)
    then have "CHR '':'' \<notin> set x"
      by (intro digit_free) (auto dest: parse_octet_digits simp: is_ascii_digit_def ord_of_def)
    then show ?case using Cons by simp
  qed simp
  moreover have "set s \<subseteq> {CHR ''.''} \<union> (\<Union>t \<in> set (split_on (CHR ''.'') s). set t)"
    using set_join_with [of "[CHR ''.'']" "split_on (CHR ''.'') s"] by (simp add: join_split_on)
  ultimately show False using c by auto
qed

lemma v4_network_colon:
  assumes "CHR '':'' \<in> set a" and "CHR ''/'' \<notin> set a" and "CHR ''/'' \<notin> set m"
  shows "v4_network (a @ CHR ''/'' # m) = None"
  using assms by (simp add: v4_network_def split_on_append split_on_none v4_int_colon split: option.split)

lemma make_network_same:
  assumes "wf_net n"
  shows "make_network (net_family n) (net_address n) (net_zone n) (net_prefix n) = n"
proof -
  have "under_mask (net_family n) (net_prefix n) (net_address n) = net_address n"
    using assms by (simp add: under_mask_eq wf_net_def)
  then show ?thesis by (simp add: make_network_def Let_def)
qed

lemma digits_no_slash: "CHR ''/'' \<notin> set (nat_digits p)"
  by (rule digit_free [OF nat_digits_digits]) (simp add: is_ascii_digit_def ord_of_def)

lemma v4_str_no_slash: "CHR ''/'' \<notin> set (v4_str n)"
  unfolding v4_str_def using set_join_with digits_no_slash by fastforce

lemma v6_address_str:
  assumes "n < 2 ^ 128" and "zone_ok z"
  shows "v6_address (v6_str n @ zone_suffix z) = Some (n, z)"
proof -
  have "hex_digit (CHR ''%'') = None" by code_simp
  then have "CHR ''%'' \<notin> set (v6_str n)" by (rule v6_str_free) simp
  then show ?thesis using assms v6_int_v6_str [OF assms(1)]
    by (cases z) (auto simp: v6_address_def zone_suffix_def zone_ok_def partition_at_append partition_at_no_sep)
qed

theorem parse_network_net_str:
  assumes wf: "wf_net n"
  shows "parse_network (net_str n) = Some n"
proof (cases "net_family n")
  case V4
  then have "v4_network (net_str n) = Some (make_network V4 (net_address n) None (net_prefix n))"
    using wf v4_int_v4_str [of "net_address n"] prefix_number_nat_digits [of "net_prefix n" V4]
    by (simp add: net_str_def v4_network_def split_on_append split_on_none v4_str_no_slash digits_no_slash
        wf_net_def width_def v4_prefix_def)
  then show ?thesis using make_network_same [OF wf] V4 wf by (simp add: parse_network_def wf_net_def)
next
  case V6
  let ?a = "v6_str (net_address n) @ zone_suffix (net_zone n)"
  have "hex_digit (CHR ''/'') = None" by code_simp
  then have "CHR ''/'' \<notin> set (v6_str (net_address n))" by (rule v6_str_free) simp
  moreover have "CHR ''/'' \<notin> set (zone_suffix (net_zone n))"
    using wf by (auto simp: zone_suffix_def wf_net_def zone_ok_def split: option.splits)
  ultimately have slash: "CHR ''/'' \<notin> set ?a" by simp
  have "length (split_on (CHR '':'') (v6_str (net_address n))) \<noteq> 1"
    using v6_str_parts(3) [of "net_address n"] by (simp add: split_v6_str)
  then have "CHR '':'' \<in> set ?a" using split_on_none [of "CHR '':''" "v6_str (net_address n)"]
    by (cases "CHR '':'' \<in> set (v6_str (net_address n))") auto
  then have "v4_network (?a @ CHR ''/'' # nat_digits (net_prefix n)) = None"
    using slash digits_no_slash by (rule v4_network_colon)
  moreover have "v6_address ?a = Some (net_address n, net_zone n)"
    using wf V6 by (intro v6_address_str) (simp_all add: wf_net_def width_def)
  then have "v6_network (?a @ CHR ''/'' # nat_digits (net_prefix n))
      = Some (make_network V6 (net_address n) (net_zone n) (net_prefix n))"
    using prefix_number_nat_digits [of "net_prefix n" V6] wf V6
    unfolding v6_network_def split_on_append [OF slash] split_on_none [OF digits_no_slash]
    by (simp add: wf_net_def)
  moreover have "net_str n = ?a @ CHR ''/'' # nat_digits (net_prefix n)" using V6 by (simp add: net_str_def)
  ultimately show ?thesis using make_network_same [OF wf] V6 by (simp add: parse_network_def)
qed

text \<open>The text of a network has no blanks at its ends, and is not the wildcard.\<close>

lemma strip_ends: "s \<noteq> [] \<Longrightarrow> \<not> is_space (hd s) \<Longrightarrow> \<not> is_space (last s) \<Longrightarrow> strip s = s"
  by (simp add: strip_def lstrip_def rstrip_def dropWhile_eq_self_iff [THEN iffD2] hd_rev)

lemma ord_of_int: "ord_of c = int (of_char c)"
  by (simp add: ord_of_def of_nat_of_char)

lemma space_no_hex: "is_space c \<Longrightarrow> hex_digit c = None"
  by (auto simp: is_space_def hex_digit_def ord_of_int Let_def)

lemma v4_str_chars: "c \<in> set (v4_str n) \<Longrightarrow> is_ascii_digit c \<or> c = CHR ''.''"
  unfolding v4_str_def using set_join_with nat_digits_digits by (fastforce simp: list_all_iff)

lemma v4_str_nonempty: "v4_str n \<noteq> []"
proof
  assume "v4_str n = []"
  then have "length (split_on (CHR ''.'') (v4_str n)) = 1" by simp
  then show False by (simp add: split_v4_str)
qed

lemma v6_str_nonempty: "v6_str n \<noteq> []"
proof
  assume "v6_str n = []"
  then have "length (split_on (CHR '':'') (v6_str n)) = 1" by simp
  then show False using v6_str_parts(3) [of n] by (simp add: split_v6_str)
qed

lemma strip_net_str [simp]: "strip (net_str n) = net_str n"
proof (rule strip_ends)
  show "net_str n \<noteq> []" by (simp add: net_str_def)
  have "\<not> is_space (hd (v4_str (net_address n)))"
    using v4_str_chars [OF hd_in_set [OF v4_str_nonempty [of "net_address n"]]]
    by (auto simp: is_space_def is_ascii_digit_def ord_of_def Let_def)
  moreover have "\<not> is_space (hd (v6_str (net_address n)))"
  proof
    assume sp: "is_space (hd (v6_str (net_address n)))"
    then have "hd (v6_str (net_address n)) \<noteq> CHR '':''" by (auto simp: is_space_def ord_of_def Let_def)
    then have "hd (v6_str (net_address n)) \<notin> set (v6_str (net_address n))"
      using space_no_hex [OF sp] v6_str_free by blast
    then show False using v6_str_nonempty by simp
  qed
  ultimately show "\<not> is_space (hd (net_str n))"
    by (simp add: net_str_def v4_str_nonempty v6_str_nonempty split: ip_family.split)
  have "is_ascii_digit (last (nat_digits (net_prefix n)))"
    using nat_digits_digits [of "net_prefix n"] by (simp add: list_all_iff)
  then show "\<not> is_space (last (net_str n))"
    by (auto simp: net_str_def is_space_def is_ascii_digit_def Let_def)
qed

lemma net_str_not_wildcard: "net_str n \<noteq> ''*''"
proof
  assume "net_str n = ''*''"
  then have "length (net_str n) = 1" by simp
  moreover have "2 \<le> length (nat_digits (net_prefix n)) + 1" using nat_digits_nonempty by (simp add: Suc_le_eq)
  ultimately show False unfolding net_str_def by simp
qed

end
