(* ===== verification/Json.thy ===== *)
theory Json
  imports Py_Text
begin

text \<open>
  JSON documents as Python holds them after \<^verbatim>\<open>json.loads\<close>: a dict is an association list with
  distinct keys, a float its \<^verbatim>\<open>repr\<close>. \<open>py_str\<close> is \<^verbatim>\<open>str(value)\<close>, \<open>truthy\<close> is \<^verbatim>\<open>bool(value)\<close>.
\<close>

datatype json =
    JNull
  | JBool bool
  | JInt int
  | JReal string
  | JStr string
  | JArr "json list"
  | JObj "(string \<times> json) list"

definition truthy :: "json \<Rightarrow> bool" where
  "truthy v = (case v of JNull \<Rightarrow> False | JBool b \<Rightarrow> b | JInt i \<Rightarrow> i \<noteq> 0
     | JReal t \<Rightarrow> t \<notin> {''0.0'', ''-0.0''} | JStr s \<Rightarrow> s \<noteq> [] | JArr vs \<Rightarrow> vs \<noteq> [] | JObj kvs \<Rightarrow> kvs \<noteq> [])"

text \<open>\<^verbatim>\<open>repr\<close> of a string: single quotes unless the text has one and no double quote.\<close>

definition hex_char :: "nat \<Rightarrow> char" where
  "hex_char d = char_of (if d < 10 then 48 + d else 87 + d)"

definition repr_char :: "char \<Rightarrow> char \<Rightarrow> string" where
  "repr_char q c =
     (let n = of_char c :: nat in
      if c = CHR 0x5C \<or> c = q then [CHR 0x5C, c]
      else if n = 9 then [CHR 0x5C, CHR ''t''] else if n = 10 then [CHR 0x5C, CHR ''n'']
      else if n = 13 then [CHR 0x5C, CHR ''r'']
      else if n < 32 \<or> 127 \<le> n \<and> n \<le> 160 \<or> n = 173
      then [CHR 0x5C, CHR ''x'', hex_char (n div 16), hex_char (n mod 16)] else [c])"

definition repr_str :: "string \<Rightarrow> string" where
  "repr_str s =
     (let q = (if CHR 0x27 \<in> set s \<and> CHR 0x22 \<notin> set s then CHR 0x22 else CHR 0x27)
      in q # concat (map (repr_char q) s) @ [q])"

fun py_repr :: "json \<Rightarrow> string" where
  "py_repr JNull = ''None''"
| "py_repr (JBool b) = (if b then ''True'' else ''False'')"
| "py_repr (JInt i) = str_int i"
| "py_repr (JReal t) = t"
| "py_repr (JStr s) = repr_str s"
| "py_repr (JArr vs) = CHR ''['' # join_with '', '' (map py_repr vs) @ '']''"
| "py_repr (JObj kvs) = CHR ''{'' # join_with '', '' (map (\<lambda>(k, v). repr_str k @ '': '' @ py_repr v) kvs) @ ''}''"

definition py_str :: "json \<Rightarrow> string" where
  "py_str v = (case v of JStr s \<Rightarrow> s | _ \<Rightarrow> py_repr v)"

text \<open>\<^verbatim>\<open>d.get(key, default)\<close> on the items of a dict.\<close>

definition dict_get :: "(string \<times> json) list \<Rightarrow> string \<Rightarrow> json \<Rightarrow> json" where
  "dict_get d key dflt = (case map_of d key of None \<Rightarrow> dflt | Some v \<Rightarrow> v)"

lemma dict_get_simps [simp]:
  "dict_get [] k x = x"
  "dict_get ((k', v) # d) k x = (if k' = k then v else dict_get d k x)"
  by (simp_all add: dict_get_def)

lemma py_str_JStr [simp]: "py_str (JStr s) = s"
  by (simp add: py_str_def)

end
