(* ===== verification/Scan_Scope.thy ===== *)
theory Scan_Scope
  imports Ip_Net Json
begin

text \<open>
  The approved scan scope as the pipeline applies it, \<^verbatim>\<open>scanner/pipeline/scan_scope.py\<close>: the
  matching rules (deny beats allow by overlap, allow is containment, domains match by
  suffix), the document that travels with a run, and the filters the run puts on the
  targets it is about to touch. Reading and writing files (\<open>load_scope_file\<close>,
  \<open>write_denials\<close>) is left to the caller: \<open>from_document\<close> starts from the parsed JSON and
  \<open>denials_document\<close> is the value written.
\<close>

section \<open>Matching\<close>

definition WILDCARD :: string where "WILDCARD = ''*''"
definition EFFECT_ALLOW :: string where "EFFECT_ALLOW = ''allow''"
definition EFFECT_DENY :: string where "EFFECT_DENY = ''deny''"
definition KIND_CIDR :: string where "KIND_CIDR = ''cidr''"
definition KIND_DOMAIN :: string where "KIND_DOMAIN = ''domain''"
definition DOCUMENT_VERSION :: int where "DOCUMENT_VERSION = 1"

definition normalize_domain :: "string \<Rightarrow> string" where
  "normalize_domain value = lower (rstrip_char (CHR ''.'') (strip value))"

definition network :: "string \<Rightarrow> ip_network option" where
  "network value = parse_network (strip value)"

definition suffix_matches :: "string \<Rightarrow> string \<Rightarrow> bool" where
  "suffix_matches name entry =
     (if entry = WILDCARD then True else name = entry \<or> endswith name (CHR ''.'' # entry))"

record scan_scope =
  sc_tenant_id :: string
  sc_allow_networks :: "ip_network list"
  sc_deny_networks :: "ip_network list"
  sc_allow_domains :: "string list"
  sc_deny_domains :: "string list"
  sc_approved :: bool

definition rejects_network :: "scan_scope \<Rightarrow> string \<Rightarrow> string option" where
  "rejects_network scope value =
     (case network value of None \<Rightarrow> Some ''not an IP or CIDR''
      | Some target \<Rightarrow>
          (case find (\<lambda>denied. net_family denied = net_family target \<and> overlaps target denied)
                  (sc_deny_networks scope) of
             Some denied \<Rightarrow> Some (''denied by '' @ net_str denied)
           | None \<Rightarrow>
               if list_ex (\<lambda>allowed. net_family allowed = net_family target \<and> subnet_of target allowed)
                    (sc_allow_networks scope)
               then None else Some ''not inside any allowed range''))"

definition rejects_domain :: "scan_scope \<Rightarrow> string \<Rightarrow> string option" where
  "rejects_domain scope value =
     (let name = normalize_domain value in
      case find (suffix_matches name) (sc_deny_domains scope) of
        Some denied \<Rightarrow> Some (''denied by '' @ denied)
      | None \<Rightarrow> if list_ex (suffix_matches name) (sc_allow_domains scope) then None
                else Some ''not under any allowed domain'')"

section \<open>The document\<close>

definition entry_document :: "string \<Rightarrow> string \<Rightarrow> string \<Rightarrow> json" where
  "entry_document eff kind value =
     JObj [(''effect'', JStr eff), (''kind'', JStr kind), (''value'', JStr value)]"

definition to_document :: "scan_scope \<Rightarrow> json" where
  "to_document scope =
     JObj [(''version'', JInt DOCUMENT_VERSION), (''tenant_id'', JStr (sc_tenant_id scope)),
           (''approved'', JBool (sc_approved scope)),
           (''entries'', JArr
             (map (\<lambda>n. entry_document EFFECT_ALLOW KIND_CIDR (net_str n)) (sc_allow_networks scope)
              @ map (\<lambda>n. entry_document EFFECT_DENY KIND_CIDR (net_str n)) (sc_deny_networks scope)
              @ map (entry_document EFFECT_ALLOW KIND_DOMAIN) (sc_allow_domains scope)
              @ map (entry_document EFFECT_DENY KIND_DOMAIN) (sc_deny_domains scope)))]"

text \<open>What one entry of the document adds: networks or a name, under its effect.\<close>

datatype scope_item = NoItem | Networks bool "ip_network list" | Name bool string

definition any_network :: "ip_network list" where
  "any_network = [make_network V4 0 None 0, make_network V6 0 None 0]"

definition read_entry :: "json \<Rightarrow> scope_item" where
  "read_entry entry =
     (case entry of
        JObj e \<Rightarrow>
          (let eff = lower (strip (py_str (dict_get e ''effect'' (JStr []))));
               kind = lower (strip (py_str (dict_get e ''kind'' (JStr []))));
               value = strip (py_str (dict_get e ''value'' (JStr []))) in
           if eff \<notin> {EFFECT_ALLOW, EFFECT_DENY} \<or> value = [] then NoItem
           else if kind = KIND_CIDR then
             (if value = WILDCARD then Networks (eff = EFFECT_DENY) any_network
              else case network value of None \<Rightarrow> NoItem | Some n \<Rightarrow> Networks (eff = EFFECT_DENY) [n])
           else if kind = KIND_DOMAIN then Name (eff = EFFECT_DENY) (normalize_domain value)
           else NoItem)
      | _ \<Rightarrow> NoItem)"

definition item_networks :: "bool \<Rightarrow> scope_item \<Rightarrow> ip_network list" where
  "item_networks deny item = (case item of Networks d ns \<Rightarrow> if d = deny then ns else [] | _ \<Rightarrow> [])"

definition item_names :: "bool \<Rightarrow> scope_item \<Rightarrow> string list" where
  "item_names deny item = (case item of Name d s \<Rightarrow> if d = deny then [s] else [] | _ \<Rightarrow> [])"

definition scope_of_items :: "string \<Rightarrow> bool \<Rightarrow> scope_item list \<Rightarrow> scan_scope" where
  "scope_of_items tid approved items =
     \<lparr>sc_tenant_id = tid,
      sc_allow_networks = concat (map (item_networks False) items),
      sc_deny_networks = concat (map (item_networks True) items),
      sc_allow_domains = concat (map (item_names False) items),
      sc_deny_domains = concat (map (item_names True) items),
      sc_approved = approved\<rparr>"

definition from_document :: "json \<Rightarrow> scan_scope option" where
  "from_document data =
     (case data of
        JObj d \<Rightarrow>
          (case dict_get d ''entries'' JNull of
             JArr entries \<Rightarrow>
               (let tid = dict_get d ''tenant_id'' JNull in
                Some (scope_of_items (if truthy tid then py_str tid else [])
                        (truthy (dict_get d ''approved'' (JBool (entries \<noteq> []))))
                        (map read_entry entries)))
           | _ \<Rightarrow> None)
      | _ \<Rightarrow> None)"

section \<open>The filters of a run\<close>

definition denied_reason :: "string \<Rightarrow> bool" where
  "denied_reason reason = startswith reason ''denied by''"

fun filter_targets :: "(string \<Rightarrow> string option) \<Rightarrow> bool \<Rightarrow> string \<Rightarrow> string list \<Rightarrow> string list \<times> string list" where
  "filter_targets reason_for deny_only label [] = ([], [])"
| "filter_targets reason_for deny_only label (value # values) =
     (let (kept, refused) = filter_targets reason_for deny_only label values in
      case reason_for value of
        None \<Rightarrow> (value # kept, refused)
      | Some reason \<Rightarrow>
          if deny_only \<and> \<not> denied_reason reason then (value # kept, refused)
          else (kept, (label @ value @ '' ('' @ reason @ '')'') # refused))"

definition filter_names :: "scan_scope \<Rightarrow> string list \<Rightarrow> string list \<times> string list" where
  "filter_names scope names = filter_targets (rejects_domain scope) False [] names"

definition filter_ranges :: "scan_scope \<Rightarrow> string list \<Rightarrow> string list \<times> string list" where
  "filter_ranges scope ranges = filter_targets (rejects_network scope) False [] ranges"

definition filter_resolved :: "scan_scope \<Rightarrow> string list \<Rightarrow> string list \<times> string list" where
  "filter_resolved scope addresses = filter_targets (rejects_network scope) True ''resolved -> '' addresses"

definition denials_document :: "scan_scope \<Rightarrow> string list \<Rightarrow> json" where
  "denials_document scope refused =
     JObj [(''tenant_id'', JStr (sc_tenant_id scope)), (''approved'', JBool (sc_approved scope)),
           (''denied_count'', JInt (int (length refused))),
           (''denied'', JArr (map JStr (sort refused)))]"

end
