(* ===== verification/Scope_Approval.thy ===== *)
theory Scope_Approval
  imports Scan_Scope Targets "HOL-Library.AList" "HOL-Library.Product_Lexorder"
begin

text \<open>
  A tenant's approved scope on the control plane, \<^verbatim>\<open>api/services/scan_scopes.py\<close>, with the
  syntax checks of \<^verbatim>\<open>scanner/pipeline/utils.py\<close>, the group names of
  \<^verbatim>\<open>api/services/agent_groups.py\<close>, the surface of a target
  (\<^verbatim>\<open>api/services/scan_surface.py\<close>) and the parser of a request's targets
  (\<^verbatim>\<open>api/services/targets.py\<close>).

  The table \<open>tenant_scan_scopes\<close> is the list of its rows; \<open>rows_of\<close> is the ordered SELECT
  (by code point, the C collation). A lookup of a name is a parameter: \<open>resolver name\<close> is
  \<open>None\<close> when the lookup does not answer in time, and otherwise the addresses.
\<close>

section \<open>Syntax\<close>

definition is_ip_or_cidr :: "string \<Rightarrow> bool" where
  "is_ip_or_cidr value \<longleftrightarrow> parse_network value \<noteq> None \<or> parse_address value \<noteq> None"

definition name_char :: "char \<Rightarrow> bool" where
  "name_char c = (let n = ord_of c in
     48 \<le> n \<and> n \<le> 57 \<or> 65 \<le> n \<and> n \<le> 90 \<or> 97 \<le> n \<and> n \<le> 122 \<or> c = CHR ''-'')"

definition fqdn_label :: "string \<Rightarrow> bool" where
  "fqdn_label s \<longleftrightarrow> s \<noteq> [] \<and> length s \<le> 63 \<and> list_all name_char s \<and> hd s \<noteq> CHR ''-'' \<and> last s \<noteq> CHR ''-''"

text \<open>\<^verbatim>\<open>$\<close> matches at the end and before a final line feed.\<close>

definition before_eol :: "string \<Rightarrow> string" where
  "before_eol s = (if s \<noteq> [] \<and> last s = CHR 0x0A then butlast s else s)"

definition match_fqdn :: "string \<Rightarrow> bool" where
  "match_fqdn value =
     (let s = before_eol value; body = (if s \<noteq> [] \<and> last s = CHR ''.'' then butlast s else s) in
      1 \<le> length s \<and> length s \<le> 253 \<and> list_all fqdn_label (split_on (CHR ''.'') body))"

definition is_fqdn :: "string \<Rightarrow> bool" where
  "is_fqdn value = (if is_ip_or_cidr value then False else match_fqdn value)"

section \<open>Rows and the scope they make\<close>

record scope_row =
  sr_tenant_id :: string
  sr_effect :: string
  sr_kind :: string
  sr_value :: string
  sr_note :: string
  sr_agent_groups :: "string list"
  sr_approved_by :: string
  sr_approved_at :: int

definition rows_of :: "scope_row list \<Rightarrow> string \<Rightarrow> scope_row list" where
  "rows_of tbl tid =
     sort_key (\<lambda>r. (sr_effect r, sr_kind r, sr_value r)) (filter (\<lambda>r. sr_tenant_id r = tid) tbl)"

definition row_item :: "scope_row \<Rightarrow> scope_item" where
  "row_item row =
     (let deny = (sr_effect row = EFFECT_DENY) in
      if sr_kind row = KIND_CIDR then
        (if sr_value row = WILDCARD then Networks deny any_network
         else case network (sr_value row) of None \<Rightarrow> NoItem | Some n \<Rightarrow> Networks deny [n])
      else Name deny (normalize_domain (sr_value row)))"

definition scope_from_rows :: "string \<Rightarrow> scope_row list \<Rightarrow> scan_scope" where
  "scope_from_rows tid rows = scope_of_items tid (rows \<noteq> []) (map row_item rows)"

definition load_scope :: "scope_row list \<Rightarrow> string \<Rightarrow> scan_scope" where
  "load_scope tbl tid = scope_from_rows tid (rows_of tbl tid)"

section \<open>Refusing\<close>

datatype scope_error =
    ScanScopeDenied string string "string list"
  | ScopeValueError string
  | ScopeLookupError string

definition require_approved :: "scan_scope \<Rightarrow> scope_error + unit" where
  "require_approved scope =
     (if sc_approved scope then Ok ()
      else Err (ScanScopeDenied (sc_tenant_id scope)
        (''tenant '' @ sc_tenant_id scope
         @ '' has no approved scan scope: an admin must approve one (PUT /api/tenants/''
         @ sc_tenant_id scope @ ''/scan-scope) before any scan can start'') []))"

definition refusal :: "(string \<Rightarrow> string option) \<Rightarrow> string \<Rightarrow> string list" where
  "refusal reason_for item =
     (case reason_for item of None \<Rightarrow> []
      | Some reason \<Rightarrow> if reason \<noteq> [] then [item @ '' ('' @ reason @ '')''] else [])"

definition rejections :: "scan_scope \<Rightarrow> string list \<Rightarrow> string list \<Rightarrow> string list" where
  "rejections scope ranges domains =
     concat (map (refusal (rejects_network scope)) ranges)
     @ concat (map (refusal (rejects_domain scope)) domains)"

definition sample :: "string list \<Rightarrow> string" where
  "sample values =
     join_with '', '' (take 8 values)
     @ (if length values > 8 then '' (+'' @ nat_digits (length values - 8) @ '' more)'' else [])"

definition check_targets :: "scan_scope \<Rightarrow> string list \<Rightarrow> string list \<Rightarrow> scope_error + unit" where
  "check_targets scope ranges domains =
     bindE (require_approved scope) (\<lambda>_.
       let refused = rejections scope ranges domains in
       if refused \<noteq> [] then
         Err (ScanScopeDenied (sc_tenant_id scope)
           (''targets outside the approved scan scope of tenant '' @ sc_tenant_id scope @ '': ''
            @ sample refused) refused)
       else Ok ())"

definition rejections_for_host :: "scan_scope \<Rightarrow> string \<Rightarrow> string list \<Rightarrow> bool \<Rightarrow> string list" where
  "rejections_for_host scope host addresses deny_only =
     (let name = normalize_domain host;
          note = (\<lambda>shown reason. case reason of None \<Rightarrow> []
            | Some r \<Rightarrow> if r \<noteq> [] \<and> (\<not> deny_only \<or> denied_reason r)
                        then [shown @ '' ('' @ r @ '')''] else []) in
      if is_ip_or_cidr name then note host (rejects_network scope name)
      else note host (rejects_domain scope name)
        @ concat (map (\<lambda>address.
            case rejects_network scope address of None \<Rightarrow> []
            | Some r \<Rightarrow> if r \<noteq> [] \<and> denied_reason r
                        then [host @ '' -> '' @ address @ '' ('' @ r @ '')''] else []) addresses))"

section \<open>The surface of a target\<close>

definition PRIVATE_NETWORKS :: "ip_network list" where
  "PRIVATE_NETWORKS =
     List.map_filter parse_network
       [''10.0.0.0/8'', ''172.16.0.0/12'', ''192.168.0.0/16'', ''127.0.0.0/8'', ''169.254.0.0/16'',
        ''100.64.0.0/10'', ''fc00::/7'', ''fe80::/10'', ''::1/128'']"

definition is_internal :: "ip_network \<Rightarrow> bool" where
  "is_internal net =
     list_ex (\<lambda>private. net_family net = net_family private \<and> subnet_of net private) PRIVATE_NETWORKS"

definition network_surface :: "ip_network \<Rightarrow> string" where
  "network_surface net = (if is_internal net then ''internal'' else ''external'')"

definition classify :: "string option \<Rightarrow> string option \<Rightarrow> string option" where
  "classify ranges_text domains_text =
     (let nets = List.map_filter parse_network (split_target_lines ranges_text);
          external = (list_ex is_fqdn (split_target_lines domains_text) \<or> list_ex (\<lambda>n. \<not> is_internal n) nets);
          internal = list_ex is_internal nets in
      if external \<and> internal then Some ''mixed''
      else if external then Some ''external''
      else if internal then Some ''internal'' else None)"

definition resolve_surface :: "string option \<Rightarrow> string option \<Rightarrow> string option \<Rightarrow> string option" where
  "resolve_surface requested ranges_text domains_text =
     (if truthy_text requested then requested else classify ranges_text domains_text)"

section \<open>The targets of a request\<close>

record parsed_targets =
  pt_ranges :: "string list option"
  pt_domains :: "string list option"
  pt_ports :: "string list option"
  pt_ports_udp :: "string list option"

definition sorted_set :: "string list \<Rightarrow> string list" where
  "sorted_set xs = sort (remdups xs)"

definition parse_target_payload ::
  "scan_scope \<Rightarrow> string option \<Rightarrow> string option \<Rightarrow> string option \<Rightarrow> string option \<Rightarrow>
   scope_error + parsed_targets option" where
  "parse_target_payload scope ranges_text domains_text ports_text ports_udp_text =
     bindE (require_approved scope) (\<lambda>_.
       let ranges_raw = split_target_lines ranges_text;
           domains_raw = split_target_lines domains_text;
           ports_raw = split_target_lines ports_text;
           ports_udp_raw = split_target_lines ports_udp_text;
           host_override = (ranges_raw \<noteq> [] \<or> domains_raw \<noteq> []);
           port_override = (ports_raw \<noteq> []);
           port_udp_override = (ports_udp_raw \<noteq> []) in
       if \<not> host_override \<and> \<not> port_override \<and> \<not> port_udp_override then Ok None
       else
         let ranges = filter is_ip_or_cidr ranges_raw;
             domains = map (rstrip_char (CHR ''.'')) (filter is_fqdn domains_raw);
             ports = map (\<lambda>t. normalize_port_token t False) (filter valid_port_token ports_raw);
             ports_udp = map (\<lambda>t. normalize_port_token t True) (filter valid_port_token ports_udp_raw);
             rejected = filter (\<lambda>t. \<not> is_ip_or_cidr t) ranges_raw @ filter (\<lambda>t. \<not> is_fqdn t) domains_raw
               @ filter (\<lambda>t. \<not> valid_port_token t) ports_raw
               @ filter (\<lambda>t. \<not> valid_port_token t) ports_udp_raw in
         if rejected \<noteq> [] then Err (ScopeValueError (''invalid scan targets: '' @ sample rejected))
         else bindE (check_targets scope ranges domains) (\<lambda>_.
           Ok (Some \<lparr>pt_ranges = (if host_override then Some (sorted_set ranges) else None),
                     pt_domains = (if host_override then Some (sorted_set domains) else None),
                     pt_ports = (if port_override then Some (sorted_set ports) else None),
                     pt_ports_udp = (if port_udp_override then Some (sorted_set ports_udp) else None)\<rparr>)))"

section \<open>The check at the start of a scan\<close>

definition resolution_refusal :: "scan_scope \<Rightarrow> string \<Rightarrow> string \<Rightarrow> (string \<times> string) list" where
  "resolution_refusal scope name address =
     (case rejects_network scope address of None \<Rightarrow> []
      | Some reason \<Rightarrow>
          if reason \<noteq> [] \<and> denied_reason reason
          then [(name, name @ '' -> '' @ address @ '' ('' @ reason @ '')'')] else [])"

definition denied_by_resolution ::
  "(string \<Rightarrow> string list option) \<Rightarrow> scan_scope \<Rightarrow> string list \<Rightarrow> (string \<times> string) list" where
  "denied_by_resolution resolver scope domains =
     (if domains = [] \<or> sc_deny_networks scope = [] then []
      else concat (map (\<lambda>name.
        case resolver name of None \<Rightarrow> []
        | Some addresses \<Rightarrow> concat (map (resolution_refusal scope name) addresses)) domains))"

definition resolution_refusals ::
  "bool \<Rightarrow> (string \<Rightarrow> string list option) \<Rightarrow> scan_scope \<Rightarrow> string list \<Rightarrow> (string \<times> string) list" where
  "resolution_refusals resolve_check resolver scope domains =
     (if \<not> resolve_check then [] else denied_by_resolution resolver scope (map normalize_domain domains))"

definition assert_scan_allowed ::
  "bool \<Rightarrow> (string \<Rightarrow> string list option) \<Rightarrow> string \<Rightarrow> string option \<Rightarrow> string option \<Rightarrow> scan_scope \<Rightarrow>
   scope_error + unit" where
  "assert_scan_allowed resolve_check resolver tid ranges_text domains_text scope =
     (let ranges = split_target_lines ranges_text; domains = split_target_lines domains_text in
      bindE (check_targets scope ranges domains) (\<lambda>_.
        if \<not> resolve_check then Ok ()
        else let refused = map snd (resolution_refusals resolve_check resolver scope domains) in
          if refused \<noteq> [] then
            Err (ScanScopeDenied tid
              (''targets resolve into a denied range for tenant '' @ tid @ '': '' @ sample refused) refused)
          else Ok ()))"

end
