(* ===== verification/Scope_Groups.thy ===== *)
theory Scope_Groups
  imports Scope_Approval
begin

text \<open>
  Which agent groups the scope permits for a scan (\<^verbatim>\<open>required_agent_groups\<close> of
  \<^verbatim>\<open>api/services/scan_scopes.py\<close>), and the group the scan is given
  (\<^verbatim>\<open>resolve_for_scan\<close> of \<^verbatim>\<open>api/services/agent_groups.py\<close>). The table of groups is a list of
  (tenant, name) pairs.
\<close>

section \<open>Names of groups\<close>

definition group_char :: "char \<Rightarrow> bool" where
  "group_char c = (let n = ord_of c in 48 \<le> n \<and> n \<le> 57 \<or> 97 \<le> n \<and> n \<le> 122)"

definition match_group_name :: "string \<Rightarrow> bool" where
  "match_group_name name =
     (let s = before_eol name in
      s \<noteq> [] \<and> length s \<le> 63 \<and> group_char (hd s) \<and> list_all (\<lambda>c. group_char c \<or> c = CHR ''-'') s)"

definition normalize_name :: "json \<Rightarrow> scope_error + string" where
  "normalize_name value =
     (let name = lower (strip (if truthy value then py_str value else [])) in
      if match_group_name name then Ok name
      else Err (ScopeValueError (''invalid agent group name '' @ py_repr value
        @ '': lowercase letters, digits and dashes, starting with a letter or digit, at most 63 characters'')))"

section \<open>One entry on its own\<close>

definition entry_scope :: "scope_row \<Rightarrow> scan_scope option" where
  "entry_scope row =
     (let empty = \<lparr>sc_tenant_id = sr_tenant_id row, sc_allow_networks = [], sc_deny_networks = [],
                   sc_allow_domains = [], sc_deny_domains = [], sc_approved = True\<rparr> in
      if sr_kind row = KIND_CIDR then
        (if sr_value row = WILDCARD then Some (empty\<lparr>sc_allow_networks := any_network\<rparr>)
         else map_option (\<lambda>n. empty\<lparr>sc_allow_networks := [n]\<rparr>) (network (sr_value row)))
      else Some (empty\<lparr>sc_allow_domains := [normalize_domain (sr_value row)]\<rparr>))"

definition covers :: "scan_scope \<Rightarrow> string \<Rightarrow> string \<Rightarrow> bool" where
  "covers scope target kind =
     (if kind = KIND_CIDR then rejects_network scope target = None else rejects_domain scope target = None)"

definition lstrip_char :: "char \<Rightarrow> string \<Rightarrow> string" where
  "lstrip_char c s = dropWhile (\<lambda>x. x = c) s"

definition specificity :: "scope_row \<Rightarrow> int" where
  "specificity row =
     (if sr_kind row = KIND_CIDR then
        (if sr_value row = WILDCARD then 0
         else case network (sr_value row) of None \<Rightarrow> 0 | Some n \<Rightarrow> int (net_prefix n))
      else if sr_value row = WILDCARD then 0
      else int (length (split_on (CHR ''.'')
        (rstrip_char (CHR ''.'') (lstrip_char (CHR ''.'') (normalize_domain (sr_value row)))))))"

section \<open>The groups of a scan\<close>

definition target_kind :: "string \<Rightarrow> string" where
  "target_kind value = (if is_ip_or_cidr value then KIND_CIDR else KIND_DOMAIN)"

text \<open>The inner loop: the best rank so far, the groups at that rank, an entry without groups.\<close>

definition row_covers :: "string \<Rightarrow> string \<Rightarrow> scope_row \<Rightarrow> bool" where
  "row_covers target kind row =
     (case entry_scope row of None \<Rightarrow> False
      | Some scope \<Rightarrow> sr_kind row = kind \<and> covers scope target kind)"

definition weigh :: "string \<Rightarrow> string \<Rightarrow> int \<times> string set \<times> bool \<Rightarrow> scope_row \<Rightarrow> int \<times> string set \<times> bool" where
  "weigh target kind acc row =
     (let (best, covering, unrestricted) = acc; rank = specificity row in
      if \<not> row_covers target kind row then acc
      else if rank < best then acc
      else
        let (best, covering, unrestricted) =
              (if rank > best then (rank, {}, False) else (best, covering, unrestricted)) in
        if sr_agent_groups row \<noteq> [] then (best, covering \<union> set (sr_agent_groups row), unrestricted)
        else (best, covering, True))"

definition permitted_groups :: "scope_row list \<Rightarrow> string \<Rightarrow> string set option" where
  "permitted_groups allow_rows target =
     (let (best, covering, unrestricted) =
            foldl (weigh target (target_kind target)) (-1, {}, False) allow_rows in
      if unrestricted \<or> covering = {} then None else Some covering)"

definition narrow :: "string set option \<Rightarrow> string set option \<Rightarrow> string set option" where
  "narrow required permitted =
     (case permitted of None \<Rightarrow> required
      | Some covering \<Rightarrow> (case required of None \<Rightarrow> Some covering | Some r \<Rightarrow> Some (r \<inter> covering)))"

definition required_agent_groups ::
  "scope_row list \<Rightarrow> string \<Rightarrow> string option \<Rightarrow> string option \<Rightarrow> string set option" where
  "required_agent_groups tbl tid ranges_text domains_text =
     (let allow_rows = filter (\<lambda>r. sr_effect r = EFFECT_ALLOW) (rows_of tbl tid);
          targets = split_target_lines ranges_text @ split_target_lines domains_text in
      if \<not> list_ex (\<lambda>r. sr_agent_groups r \<noteq> []) allow_rows then None
      else if targets = [] then None
      else foldl (\<lambda>required target. narrow required (permitted_groups allow_rows target)) None targets)"

definition resolve_for_scan ::
  "(string \<times> string) list \<Rightarrow> string \<Rightarrow> string option \<Rightarrow> string set option \<Rightarrow> scope_error + string option" where
  "resolve_for_scan groups tid requested required =
     bindE (if truthy_text requested
            then bindE (normalize_name (JStr (the requested))) (\<lambda>n. Ok (Some n)) else Ok None)
       (\<lambda>name.
          if name = None \<and> required = None then Ok None
          else if name \<noteq> None \<and> (tid, the name) \<notin> set groups then
            Err (ScopeValueError (''Unknown agent_group for tenant '' @ tid @ '': '' @ the name))
          else case required of None \<Rightarrow> Ok name
            | Some req \<Rightarrow>
                if req = {} then
                  Err (ScanScopeDenied tid (''the approved scan scope of tenant '' @ tid
                    @ '' restricts these targets to agent groups that have nothing in common: ''
                    @ ''no single agent may scan them together, so they have to be split into separate scans'') [])
                else case name of
                  None \<Rightarrow>
                    (case sorted_list_of_set req of
                       [only] \<Rightarrow>
                         if (tid, only) \<notin> set groups then
                           Err (ScanScopeDenied tid (''the approved scan scope of tenant '' @ tid
                             @ '' restricts these targets to agent group '' @ only
                             @ '', which this tenant no longer has: no agent can be put into it, so the ''
                             @ ''scan could never be executed. Re-create the group or re-approve the scope.'') [])
                         else Ok (Some only)
                     | many \<Rightarrow> Err (ScopeValueError
                         (''these targets are restricted by the approved scan scope to agent groups ''
                          @ join_with '', '' many @ ''; name one in agent_group'')))
                | Some n \<Rightarrow>
                    if n \<notin> req then
                      Err (ScanScopeDenied tid (''agent group '' @ n
                        @ '' is not permitted by the approved scan scope of tenant '' @ tid
                        @ '' for these targets (permitted: '' @ join_with '', '' (sorted_list_of_set req) @ '')'') [])
                    else Ok (Some n))"

end
