(* ===== verification/Scope_Matching.thy ===== *)
theory Scope_Matching
  imports Ip_Text Scope_Groups "HOL-Library.Sublist"
begin

text \<open>
  What the matching rules of a scope mean. A range is accepted when its addresses meet no
  denied range and lie in one allowed range; a name, when its labels end in those of an
  allowed entry and of no denied one. On these readings rest the properties of the two
  barriers of a request and of the filter a run puts on resolved addresses.
\<close>

section \<open>Networks of a scope are well formed\<close>

definition wf_scope :: "scan_scope \<Rightarrow> bool" where
  "wf_scope scope \<longleftrightarrow> (\<forall>n \<in> set (sc_allow_networks scope) \<union> set (sc_deny_networks scope). wf_net n)"

lemma wf_network: "network value = Some n \<Longrightarrow> wf_net n"
  by (auto simp: network_def dest: wf_parse_network)

lemma wf_any_network: "n \<in> set any_network \<Longrightarrow> wf_net n \<and> net_zone n = None"
  by (auto simp: any_network_def make_network_def wf_net_def under_mask_def width_def Let_def)

definition wf_item :: "scope_item \<Rightarrow> bool" where
  "wf_item item = (case item of Networks d ns \<Rightarrow> \<forall>n \<in> set ns. wf_net n | _ \<Rightarrow> True)"

lemma wf_scope_of_items: "\<forall>i \<in> set items. wf_item i \<Longrightarrow> wf_scope (scope_of_items tid approved items)"
  by (auto simp: wf_scope_def scope_of_items_def item_networks_def wf_item_def split: scope_item.splits if_splits)

lemma wf_row_item: "wf_item (row_item r)"
  by (auto simp: row_item_def wf_item_def wf_any_network wf_network Let_def split: option.split)

lemma wf_read_entry: "wf_item (read_entry e)"
  by (auto simp: read_entry_def wf_item_def wf_any_network wf_network Let_def split: option.split json.split)

lemma wf_load_scope: "wf_scope (load_scope tbl tid)"
  unfolding load_scope_def scope_from_rows_def by (rule wf_scope_of_items) (auto simp: wf_row_item)

lemma wf_from_document: "from_document doc = Some scope \<Longrightarrow> wf_scope scope"
  by (auto simp: from_document_def Let_def wf_read_entry intro!: wf_scope_of_items split: json.splits)

section \<open>Ranges\<close>

definition denied_addrs :: "scan_scope \<Rightarrow> (ip_family \<times> nat) set" where
  "denied_addrs scope = (\<Union>d \<in> set (sc_deny_networks scope). net_addrs d)"

definition in_allowed_range :: "scan_scope \<Rightarrow> ip_network \<Rightarrow> bool" where
  "in_allowed_range scope t \<longleftrightarrow> (\<exists>a \<in> set (sc_allow_networks scope). net_addrs t \<subseteq> net_addrs a)"

lemma denied_iff:
  assumes "wf_scope scope" and "wf_net t"
  shows "find (\<lambda>d. net_family d = net_family t \<and> overlaps t d) (sc_deny_networks scope) = None
    \<longleftrightarrow> net_addrs t \<inter> denied_addrs scope = {}"
proof -
  have "(net_family d = net_family t \<and> overlaps t d) \<longleftrightarrow> net_addrs t \<inter> net_addrs d \<noteq> {}"
    if "d \<in> set (sc_deny_networks scope)" for d
  proof (cases "net_family d = net_family t")
    case True
    then show ?thesis using that assms by (simp add: wf_scope_def overlaps_iff)
  qed (auto simp: net_addrs_def)
  then show ?thesis by (auto simp: find_None_iff denied_addrs_def)
qed

lemma rejects_network_None:
  assumes "wf_scope scope" and "rejects_network scope value = None"
  obtains t where "network value = Some t" "net_addrs t \<inter> denied_addrs scope = {}" "in_allowed_range scope t"
proof -
  obtain t where t: "network value = Some t"
    "find (\<lambda>d. net_family d = net_family t \<and> overlaps t d) (sc_deny_networks scope) = None"
    "\<exists>a \<in> set (sc_allow_networks scope). net_family a = net_family t \<and> subnet_of t a"
    using assms(2) by (auto simp: rejects_network_def list_ex_iff split: option.splits if_splits)
  have "in_allowed_range scope t" using t(3) subnet_of_subset unfolding in_allowed_range_def by metis
  then show thesis using that [OF t(1)] t(2) denied_iff [OF assms(1) wf_network [OF t(1)]] by blast
qed

lemma rejects_network_iff:
  assumes "wf_scope scope" and t: "network value = Some t" and zone: "net_zone t = None"
    and zones: "\<forall>a \<in> set (sc_allow_networks scope). net_zone a = None"
  shows "rejects_network scope value = None
    \<longleftrightarrow> net_addrs t \<inter> denied_addrs scope = {} \<and> in_allowed_range scope t"
proof
  assume "rejects_network scope value = None"
  then show "net_addrs t \<inter> denied_addrs scope = {} \<and> in_allowed_range scope t"
    using rejects_network_None [OF assms(1)] t by (metis option.inject)
next
  assume a: "net_addrs t \<inter> denied_addrs scope = {} \<and> in_allowed_range scope t"
  then obtain a where al: "a \<in> set (sc_allow_networks scope)" "net_addrs t \<subseteq> net_addrs a"
    by (auto simp: in_allowed_range_def)
  then have "subnet_of t a" using zone zones by (intro subset_subnet_of) auto
  moreover have "net_family a = net_family t"
    using al(2) net_addrs_nonempty [of t] by (fastforce simp: net_addrs_def)
  ultimately show "rejects_network scope value = None"
    using a al(1) t denied_iff [OF assms(1) wf_network [OF t]]
    by (auto simp: rejects_network_def list_ex_iff)
qed

text \<open>A refusal names a denied entry exactly when the range meets one.\<close>

lemma denied_reason_by: "denied_reason (''denied by '' @ s)"
  by (simp add: denied_reason_def startswith_def)

lemmas denied_reason_text [simp] = denied_reason_by [simplified]

lemma denied_reason_simps [simp]: "\<not> denied_reason ''not an IP or CIDR''"
  "\<not> denied_reason ''not inside any allowed range''" "\<not> denied_reason ''not under any allowed domain''"
  by (simp_all add: denied_reason_def startswith_def)

definition meets_denied :: "scan_scope \<Rightarrow> string \<Rightarrow> bool" where
  "meets_denied scope address \<longleftrightarrow> (\<exists>t. network address = Some t \<and> net_addrs t \<inter> denied_addrs scope \<noteq> {})"

lemma denied_range_iff:
  assumes "wf_scope scope"
  shows "(\<exists>r. rejects_network scope value = Some r \<and> denied_reason r) \<longleftrightarrow> meets_denied scope value"
proof (cases "network value")
  case None
  then show ?thesis by (auto simp: meets_denied_def rejects_network_def)
next
  case (Some t)
  then show ?thesis using denied_iff [OF assms wf_network [OF Some]]
    by (auto simp: meets_denied_def rejects_network_def split: option.split if_splits)
qed

section \<open>Names\<close>

definition labels :: "string \<Rightarrow> string list" where
  "labels name = split_on (CHR ''.'') name"

definition name_under :: "string \<Rightarrow> string \<Rightarrow> bool" where
  "name_under entry name \<longleftrightarrow> entry = WILDCARD \<or> suffix (labels entry) (labels name)"

lemma split_on_app: "split_on c (xs @ c # ys) = split_on c xs @ split_on c ys"
proof (induction xs)
  case (Cons x xs)
  then show ?case by (cases "split_on c xs") (auto split: list.splits)
qed simp

lemma join_with_app:
  "xs \<noteq> [] \<Longrightarrow> ys \<noteq> [] \<Longrightarrow> join_with sep (xs @ ys) = join_with sep xs @ sep @ join_with sep ys"
proof (induction xs rule: induct_list012)
  case (2 x)
  then show ?case by (cases ys) auto
qed simp_all

lemma endswith_iff: "endswith s p \<longleftrightarrow> (\<exists>t. s = t @ p)"
proof -
  have "endswith s p \<longleftrightarrow> (\<exists>t. rev s = rev p @ t)" by (simp add: endswith_def startswith_iff)
  also have "\<dots> \<longleftrightarrow> (\<exists>t. s = t @ p)" by (metis rev_append rev_rev_ident)
  finally show ?thesis .
qed

lemma suffix_labels: "suffix (labels entry) (labels name) \<longleftrightarrow> name = entry \<or> endswith name (CHR ''.'' # entry)"
proof
  assume "suffix (labels entry) (labels name)"
  then obtain zs where zs: "labels name = zs @ labels entry" by (auto simp: suffix_def)
  have name: "name = join_with [CHR ''.''] (zs @ labels entry)"
    using zs by (metis join_split_on labels_def)
  show "name = entry \<or> endswith name (CHR ''.'' # entry)"
  proof (cases zs rule: rev_cases)
    case Nil
    then show ?thesis using name by (simp add: labels_def join_split_on)
  next
    case (snoc ws w)
    have "join_with [CHR ''.''] (zs @ labels entry)
        = join_with [CHR ''.''] zs @ CHR ''.'' # join_with [CHR ''.''] (labels entry)"
      using snoc join_with_app [of zs "labels entry" "[CHR ''.'']"] by (simp add: labels_def)
    then show ?thesis using name by (auto simp: endswith_iff labels_def join_split_on)
  qed
next
  assume "name = entry \<or> endswith name (CHR ''.'' # entry)"
  then show "suffix (labels entry) (labels name)"
    by (auto simp: endswith_iff labels_def split_on_app suffix_def)
qed

lemma suffix_matches_iff: "suffix_matches name entry \<longleftrightarrow> name_under entry name"
  by (simp add: suffix_matches_def name_under_def suffix_labels)

lemma rejects_domain_iff:
  "rejects_domain scope value = None
     \<longleftrightarrow> (\<forall>d \<in> set (sc_deny_domains scope). \<not> name_under d (normalize_domain value))
       \<and> (\<exists>a \<in> set (sc_allow_domains scope). name_under a (normalize_domain value))"
  by (auto simp: rejects_domain_def Let_def find_None_iff list_ex_iff suffix_matches_iff split: option.splits dest!: find_SomeD)

end
