(* ===== verification/Scope_Properties.thy ===== *)
theory Scope_Properties
  imports Scope_Matching
begin

text \<open>
  Properties of the scope barriers: what an accepted target is, what the parser of a request
  lets through, that the two barriers of the control plane agree, and what the filter of a
  run keeps.
\<close>

section \<open>Texts the parser accepts\<close>

declare strip_idem [simp]

lemma split_target_lines_strip: "t \<in> set (split_target_lines text) \<Longrightarrow> strip t = t"
  by (auto simp: split_target_lines_def line_targets_def Let_def split: option.splits if_splits)

lemma strip_no_space: "\<forall>c \<in> set s. \<not> is_space c \<Longrightarrow> strip s = s"
proof (cases "s = []")
  case True
  then show ?thesis by (simp add: strip_def lstrip_def rstrip_def)
qed (auto intro: strip_ends)

lemma rstrip_last: "s \<noteq> [] \<Longrightarrow> rstrip t = s \<Longrightarrow> \<not> is_space (last s)"
  by (auto simp: rstrip_def last_rev dest: hd_dropWhile [of is_space "rev t"])

definition fqdn_char :: "char \<Rightarrow> bool" where
  "fqdn_char c \<longleftrightarrow> name_char c \<or> c = CHR ''.''"

lemma fqdn_char_no_space: "fqdn_char c \<Longrightarrow> \<not> is_space c"
  by (auto simp: fqdn_char_def name_char_def is_space_def ord_of_def Let_def)

lemma match_fqdn_chars:
  assumes "match_fqdn s" and "strip s = s"
  shows "\<forall>c \<in> set s. fqdn_char c"
proof -
  have nl: "is_space (CHR 0x0A)" by code_simp
  have eol: "before_eol s = s"
  proof (rule ccontr)
    assume "before_eol s \<noteq> s"
    then have s: "s \<noteq> []" "last s = CHR 0x0A" by (auto simp: before_eol_def split: if_splits)
    have "rstrip (lstrip s) = s" using assms(2) by (simp add: strip_def)
    then have "\<not> is_space (last s)" by (rule rstrip_last [OF s(1)])
    then show False using nl s(2) by simp
  qed
  define body where "body = (if s \<noteq> [] \<and> last s = CHR ''.'' then butlast s else s)"
  have lab: "\<forall>l \<in> set (split_on (CHR ''.'') body). list_all name_char l"
  proof -
    have "list_all fqdn_label (split_on (CHR ''.'') body)"
      using assms(1) unfolding match_fqdn_def Let_def eol body_def by simp
    then show ?thesis by (simp add: list_all_iff fqdn_label_def)
  qed
  have "set (join_with [CHR ''.''] (split_on (CHR ''.'') body))
      \<subseteq> set [CHR ''.''] \<union> (\<Union>l \<in> set (split_on (CHR ''.'') body). set l)" by (rule set_join_with)
  then have "\<forall>c \<in> set body. fqdn_char c"
    using lab unfolding join_split_on fqdn_char_def list_all_iff by auto
  moreover have "set s \<subseteq> insert (CHR ''.'') (set body)"
    unfolding body_def by (cases s rule: rev_cases) auto
  ultimately show ?thesis by (auto simp: fqdn_char_def)
qed

text \<open>A final dot does not change the name an accepted domain stands for.\<close>

lemma rstrip_char_idem: "rstrip_char c (rstrip_char c s) = rstrip_char c s"
  by (simp add: rstrip_char_def dropWhile_twice)

lemma normalize_rstrip:
  assumes "is_fqdn d" and "strip d = d"
  shows "normalize_domain (rstrip_char (CHR ''.'') d) = normalize_domain d"
proof -
  have "\<forall>c \<in> set d. \<not> is_space c"
    using match_fqdn_chars assms fqdn_char_no_space by (auto simp: is_fqdn_def split: if_splits)
  then have "\<forall>c \<in> set (rstrip_char (CHR ''.'') d). \<not> is_space c"
    by (auto simp: rstrip_char_def dest: set_dropWhileD)
  then have "strip (rstrip_char (CHR ''.'') d) = rstrip_char (CHR ''.'') d" by (rule strip_no_space)
  then show ?thesis using assms(2) by (simp add: normalize_domain_def rstrip_char_idem)
qed

lemma rejects_domain_rstrip:
  "is_fqdn d \<Longrightarrow> strip d = d \<Longrightarrow> rejects_domain scope (rstrip_char (CHR ''.'') d) = rejects_domain scope d"
  by (simp add: rejects_domain_def normalize_rstrip)

section \<open>The check\<close>

lemma reasons_nonempty:
  "rejects_network scope v = Some r \<Longrightarrow> r \<noteq> []" "rejects_domain scope v = Some r \<Longrightarrow> r \<noteq> []"
  by (auto simp: rejects_network_def rejects_domain_def Let_def split: option.splits if_splits)

lemma check_targets_Ok:
  "check_targets scope ranges domains = Ok () \<longleftrightarrow> sc_approved scope
     \<and> (\<forall>r \<in> set ranges. rejects_network scope r = None) \<and> (\<forall>d \<in> set domains. rejects_domain scope d = None)"
proof -
  have n: "refusal (rejects_network scope) r = [] \<longleftrightarrow> rejects_network scope r = None" for r
    using reasons_nonempty(1) by (auto simp: refusal_def split: option.split)
  have d: "refusal (rejects_domain scope) r = [] \<longleftrightarrow> rejects_domain scope r = None" for r
    using reasons_nonempty(2) by (auto simp: refusal_def split: option.split)
  show ?thesis
    by (auto simp: check_targets_def require_approved_def rejections_def Let_def n d)
qed

lemma parse_target_payload_OkE:
  assumes "parse_target_payload scope rt dt pt ut = Ok (Some p)"
  obtains "sc_approved scope"
    "\<forall>r \<in> set (split_target_lines rt). is_ip_or_cidr r \<and> rejects_network scope r = None"
    "\<forall>d \<in> set (split_target_lines dt). is_fqdn d \<and> rejects_domain scope (rstrip_char (CHR ''.'') d) = None"
    "\<forall>t \<in> set (split_target_lines pt). valid_port_token t" "\<forall>t \<in> set (split_target_lines ut). valid_port_token t"
    "p = \<lparr>pt_ranges = (if split_target_lines rt \<noteq> [] \<or> split_target_lines dt \<noteq> []
                       then Some (sorted_set (split_target_lines rt)) else None),
          pt_domains = (if split_target_lines rt \<noteq> [] \<or> split_target_lines dt \<noteq> []
                       then Some (sorted_set (map (rstrip_char (CHR ''.'')) (split_target_lines dt))) else None),
          pt_ports = (if split_target_lines pt \<noteq> []
                       then Some (sorted_set (map (\<lambda>t. normalize_port_token t False) (split_target_lines pt))) else None),
          pt_ports_udp = (if split_target_lines ut \<noteq> []
                       then Some (sorted_set (map (\<lambda>t. normalize_port_token t True) (split_target_lines ut))) else None)\<rparr>"
proof -
  let ?R = "split_target_lines rt" and ?D = "split_target_lines dt"
    and ?P = "split_target_lines pt" and ?U = "split_target_lines ut"
  have ap: "sc_approved scope"
    using assms by (auto simp: parse_target_payload_def require_approved_def split: if_splits)
  have ne: "\<not> (\<not> (?R \<noteq> [] \<or> ?D \<noteq> []) \<and> \<not> ?P \<noteq> [] \<and> \<not> ?U \<noteq> [])"
    using assms ap by (auto simp: parse_target_payload_def require_approved_def Let_def)
  have rej: "filter (\<lambda>t. \<not> is_ip_or_cidr t) ?R @ filter (\<lambda>t. \<not> is_fqdn t) ?D
      @ filter (\<lambda>t. \<not> valid_port_token t) ?P @ filter (\<lambda>t. \<not> valid_port_token t) ?U = []"
    using assms ap ne by (auto simp: parse_target_payload_def require_approved_def Let_def split: if_splits)
  then have all: "\<forall>r \<in> set ?R. is_ip_or_cidr r" "\<forall>d \<in> set ?D. is_fqdn d"
    "\<forall>t \<in> set ?P. valid_port_token t" "\<forall>t \<in> set ?U. valid_port_token t"
    by (simp_all add: filter_empty_conv)
  then have id: "filter is_ip_or_cidr ?R = ?R" "filter is_fqdn ?D = ?D"
    "filter valid_port_token ?P = ?P" "filter valid_port_token ?U = ?U" by simp_all
  let ?p = "\<lparr>pt_ranges = (if ?R \<noteq> [] \<or> ?D \<noteq> [] then Some (sorted_set ?R) else None),
          pt_domains = (if ?R \<noteq> [] \<or> ?D \<noteq> [] then Some (sorted_set (map (rstrip_char (CHR ''.'')) ?D)) else None),
          pt_ports = (if ?P \<noteq> [] then Some (sorted_set (map (\<lambda>t. normalize_port_token t False) ?P)) else None),
          pt_ports_udp = (if ?U \<noteq> [] then Some (sorted_set (map (\<lambda>t. normalize_port_token t True) ?U)) else None)\<rparr>"
  have "parse_target_payload scope rt dt pt ut
      = bindE (check_targets scope ?R (map (rstrip_char (CHR ''.'')) ?D)) (\<lambda>_. Ok (Some ?p))"
    unfolding parse_target_payload_def Let_def id rej if_not_P [OF ne] using ap
    by (simp add: require_approved_def)
  then have "bindE (check_targets scope ?R (map (rstrip_char (CHR ''.'')) ?D)) (\<lambda>_. Ok (Some ?p)) = Ok (Some p)"
    using assms by (rule trans [OF sym])
  then have "check_targets scope ?R (map (rstrip_char (CHR ''.'')) ?D) = Ok ()" "p = ?p"
    unfolding bindE_Ok_iff by simp_all
  then show thesis using that ap all by (simp add: check_targets_Ok)
qed

text \<open>Stripping the \<open>u:\<close> of a UDP token keeps it valid.\<close>

lemma port_group_not_u: "port_group (takeWhile P s) \<Longrightarrow> \<not> startswith s ''u:''"
  by (cases s) (auto simp: port_group_def startswith_def is_ascii_digit_def ord_of_def split: if_splits)

lemma match_port_token_body:
  assumes "match_port_token t = Some x" and "startswith t ''u:''"
  shows "match_port_token (drop 2 t) = Some x"
proof -
  let ?b = "drop 2 t"
  have b: "removeprefix t ''u:'' = ?b" using assms(2) by (simp add: removeprefix_def numeral_2_eq_2)
  obtain lo sep hi where parts: "partition_at (CHR ''-'') ?b = (lo, sep, hi)" by (metis prod_cases3)
  have lo: "port_group lo" using assms(1) unfolding match_port_token_def b Let_def parts by (auto split: if_splits)
  have "takeWhile (\<lambda>x. x \<noteq> CHR ''-'') ?b = lo" using parts by (auto simp: partition_at_def takeWhile_eq_all_conv split: if_splits)
  then have "\<not> startswith ?b ''u:''" using port_group_not_u [of _ ?b] lo by blast
  then have "removeprefix ?b ''u:'' = ?b" by (simp add: removeprefix_def)
  then show ?thesis using assms(1) unfolding match_port_token_def b by simp
qed

lemma valid_normalized_token: "valid_port_token t \<Longrightarrow> valid_port_token (normalize_port_token t udp)"
  using match_port_token_body [of t]
  by (auto simp: valid_port_token_def token_ports_def normalize_port_token_def split: option.splits)

text \<open>Addresses of a name that resolve into a denied range.\<close>

definition resolves_denied :: "(string \<Rightarrow> string list option) \<Rightarrow> scan_scope \<Rightarrow> string \<Rightarrow> bool" where
  "resolves_denied resolver scope name \<longleftrightarrow> (\<exists>address \<in> set (or_else (resolver name) []). meets_denied scope address)"

lemma resolution_names:
  assumes "wf_scope scope"
  shows "fst ` set (denied_by_resolution resolver scope names) = {n \<in> set names. resolves_denied resolver scope n}"
proof -
  have one: "fst ` set (resolution_refusal scope n a)
      = (if meets_denied scope a then {n} else {})" for n a
    using denied_range_iff [OF assms, of a] reasons_nonempty(1) [of scope a]
    by (auto simp: resolution_refusal_def split: option.splits)
  have "sc_deny_networks scope = [] \<Longrightarrow> \<not> resolves_denied resolver scope n" for n
    by (simp add: resolves_denied_def meets_denied_def denied_addrs_def)
  moreover have "fst ` set (concat (map (\<lambda>name. case resolver name of None \<Rightarrow> []
      | Some addresses \<Rightarrow> concat (map (resolution_refusal scope name) addresses)) names))
      = (\<Union>n \<in> set names. \<Union>a \<in> set (or_else (resolver n) []). fst ` set (resolution_refusal scope n a))"
    by (auto simp: image_UN or_else_def split: option.splits)
  moreover have "(\<Union>n \<in> set names. \<Union>a \<in> set (or_else (resolver n) []). fst ` set (resolution_refusal scope n a))
      = {n \<in> set names. resolves_denied resolver scope n}"
    unfolding one resolves_denied_def by (auto split: if_splits)
  ultimately show ?thesis by (auto simp: denied_by_resolution_def)
qed

section \<open>A small table\<close>

definition demo_row :: "string \<Rightarrow> string \<Rightarrow> string \<Rightarrow> string list \<Rightarrow> scope_row" where
  "demo_row eff kind value groups =
     \<lparr>sr_tenant_id = ''t1'', sr_effect = eff, sr_kind = kind, sr_value = value, sr_note = [],
      sr_agent_groups = groups, sr_approved_by = ''admin'', sr_approved_at = 0\<rparr>"

definition demo_rows :: "scope_row list" where
  "demo_rows =
     [demo_row ''allow'' ''cidr'' ''10.0.0.0/8'' [], demo_row ''allow'' ''cidr'' ''10.3.0.0/16'' [''pci''],
      demo_row ''allow'' ''domain'' ''example.com'' [], demo_row ''deny'' ''cidr'' ''10.1.0.0/16'' [],
      demo_row ''deny'' ''domain'' ''secret.example.com'' []]"

definition net4 :: "nat \<Rightarrow> nat \<Rightarrow> ip_network" where
  "net4 a p = \<lparr>net_family = V4, net_address = a, net_zone = None, net_prefix = p\<rparr>"

definition demo_scope :: scan_scope where
  "demo_scope = \<lparr>sc_tenant_id = ''t1'', sc_allow_networks = [net4 167772160 8, net4 167968768 16],
     sc_deny_networks = [net4 167837696 16], sc_allow_domains = [''example.com''],
     sc_deny_domains = [''secret.example.com''], sc_approved = True\<rparr>"

lemma demo_scope_loaded: "load_scope demo_rows ''t1'' = demo_scope"
  by code_simp

lemma demo_targets:
  "network ''10.2.0.0/16'' = Some (net4 167903232 16)" "rejects_network demo_scope ''10.2.0.0/16'' = None"
  "rejects_domain demo_scope ''www.Example.com.'' = None"
  by code_simp+

section \<open>Properties\<close>



text \<open>
  A name is accepted exactly when its labels end in the labels of an allowed entry (or
  the entry is the wildcard) and in those of no denied entry. In particular
  \<open>notexample.com\<close> is not under \<open>example.com\<close>.
\<close>

theorem domain_accepted_iff:
  "rejects_domain scope value = None
     \<longleftrightarrow> (\<forall>d \<in> set (sc_deny_domains scope). \<not> name_under d (normalize_domain value))
       \<and> (\<exists>a \<in> set (sc_allow_domains scope). name_under a (normalize_domain value))"
  by (rule rejects_domain_iff)

theorem domain_accepted_iff_witness:
  "\<not> name_under ''secret.example.com'' (normalize_domain ''www.Example.com.'')"
  using domain_accepted_iff [of demo_scope "''www.Example.com.''"] demo_targets(3)
  by (simp add: demo_scope_def)





text \<open>
  With the resolve-time check on, a scan starts only when no address a requested name
  answered with lies in a denied range. A name that does not answer in time is let through.
\<close>

theorem started_scan_resolves_clear:
  assumes "assert_scan_allowed True resolver tid rt dt (load_scope tbl tid) = Ok ()"
    and "name \<in> set (split_target_lines dt)" and "resolver (normalize_domain name) = Some addresses"
    and "address \<in> set addresses" and "network address = Some t"
  shows "net_addrs t \<inter> denied_addrs (load_scope tbl tid) = {}"
proof -
  let ?s = "load_scope tbl tid"
  let ?names = "map normalize_domain (split_target_lines dt)"
  have "denied_by_resolution resolver ?s ?names = []"
    using assms(1) by (auto simp: assert_scan_allowed_def resolution_refusals_def bindE_Ok_iff Let_def split: if_splits)
  then have "\<not> resolves_denied resolver ?s (normalize_domain name)"
    using resolution_names [OF wf_load_scope, of resolver tbl tid ?names] assms(2) by auto
  then show ?thesis using assms(3-5) by (auto simp: resolves_denied_def meets_denied_def)
qed

theorem started_scan_resolves_clear_witness:
  "net_addrs (net4 167903232 16) \<inter> denied_addrs (load_scope demo_rows ''t1'') = {}"
proof (rule started_scan_resolves_clear)
  show "assert_scan_allowed True (\<lambda>_. Some [''10.2.0.0/16'']) ''t1'' None (Some ''example.com'')
      (load_scope demo_rows ''t1'') = Ok ()"
    unfolding demo_scope_loaded by code_simp
  show "''example.com'' \<in> set (split_target_lines (Some ''example.com''))" by code_simp
  show "''10.2.0.0/16'' \<in> set [''10.2.0.0/16'']" by (simp only: list.set insertI1)
  show "network ''10.2.0.0/16'' = Some (net4 167903232 16)" by (rule demo_targets)
qed simp

lemma filter_targets_filter:
  "fst (filter_targets reason_for deny_only label xs)
     = filter (\<lambda>x. case reason_for x of None \<Rightarrow> True | Some r \<Rightarrow> deny_only \<and> \<not> denied_reason r) xs"
  "length (fst (filter_targets reason_for deny_only label xs))
     + length (snd (filter_targets reason_for deny_only label xs)) = length xs"
  by (induction xs) (auto simp: Let_def split: option.splits prod.splits)

text \<open>
  The filter of a run: of the addresses the run resolved it keeps, in order, exactly
  those that meet no range the document denies, and it accounts for each of the others.
\<close>

theorem resolved_filter_keeps_undenied:
  assumes "from_document doc = Some scope"
  shows "fst (filter_resolved scope addresses) = filter (\<lambda>a. \<not> meets_denied scope a) addresses
    \<and> length (fst (filter_resolved scope addresses)) + length (snd (filter_resolved scope addresses))
        = length addresses"
proof -
  have "(case rejects_network scope a of None \<Rightarrow> True | Some r \<Rightarrow> True \<and> \<not> denied_reason r)
      \<longleftrightarrow> \<not> meets_denied scope a" for a
    unfolding denied_range_iff [OF wf_from_document [OF assms], symmetric] by (auto split: option.split)
  then have "fst (filter_resolved scope addresses) = filter (\<lambda>a. \<not> meets_denied scope a) addresses"
    by (simp add: filter_resolved_def filter_targets_filter(1))
  moreover have "length (fst (filter_resolved scope addresses)) + length (snd (filter_resolved scope addresses))
      = length addresses"
    unfolding filter_resolved_def by (rule filter_targets_filter(2))
  ultimately show ?thesis by blast
qed

theorem resolved_filter_keeps_undenied_witness:
  "filter (\<lambda>a. \<not> meets_denied demo_scope a) [''10.1.2.3'', ''10.2.0.1'', ''203.0.113.9'']
     = [''10.2.0.1'', ''203.0.113.9'']"
proof -
  have "from_document (to_document demo_scope) = Some demo_scope" by code_simp
  from resolved_filter_keeps_undenied [OF this, of "[''10.1.2.3'', ''10.2.0.1'', ''203.0.113.9'']"]
  have "fst (filter_resolved demo_scope [''10.1.2.3'', ''10.2.0.1'', ''203.0.113.9''])
      = filter (\<lambda>a. \<not> meets_denied demo_scope a) [''10.1.2.3'', ''10.2.0.1'', ''203.0.113.9'']" by simp
  moreover have "fst (filter_resolved demo_scope [''10.1.2.3'', ''10.2.0.1'', ''203.0.113.9''])
      = [''10.2.0.1'', ''203.0.113.9'']" by code_simp
  ultimately show ?thesis by simp
qed

end
