(* ===== verification/Scope_Fill.thy ===== *)
theory Scope_Fill
  imports Scope_Approval
begin

text \<open>
  The targets a tenant's scope offers to a new scan: \<open>_without_denied\<close> and
  \<open>scannable_targets\<close> of \<^verbatim>\<open>api/services/scan_scopes.py\<close>. \<open>None\<close> is the exception of
  \<^verbatim>\<open>address_exclude\<close>, which only a zone id brings about.
\<close>

definition exclude_piece :: "ip_network \<Rightarrow> ip_network \<Rightarrow> ip_network list option" where
  "exclude_piece deny piece =
     (if \<not> overlaps piece deny then Some [piece]
      else if \<not> subnet_of piece deny then address_exclude piece deny
      else Some [])"

definition exclude_all :: "ip_network \<Rightarrow> ip_network list \<Rightarrow> ip_network list option" where
  "exclude_all deny pieces = map_option concat (those (map (exclude_piece deny) pieces))"

fun without_denied :: "ip_network \<Rightarrow> ip_network list \<Rightarrow> ip_network list \<Rightarrow> ip_network list option" where
  "without_denied net pieces [] = Some pieces"
| "without_denied net pieces (deny # denied) =
     (if net_family deny \<noteq> net_family net then without_denied net pieces denied
      else case exclude_all deny pieces of None \<Rightarrow> None
        | Some kept \<Rightarrow> without_denied net kept denied)"

record scannable =
  sn_networks :: "ip_network list"
  sn_domains :: "string list"
  sn_skipped :: "(string \<times> string \<times> string) list"

definition skip_row :: "scannable \<Rightarrow> scope_row \<Rightarrow> string \<Rightarrow> scannable" where
  "skip_row acc row reason = acc\<lparr>sn_skipped := sn_skipped acc @ [(sr_kind row, sr_value row, reason)]\<rparr>"

text \<open>The body of the loop over the rows.\<close>

definition fill_row :: "scan_scope \<Rightarrow> scannable \<Rightarrow> scope_row \<Rightarrow> scannable option" where
  "fill_row scope acc row =
     (if sr_effect row \<noteq> EFFECT_ALLOW then Some acc
      else if sr_kind row = KIND_CIDR then
        (if sr_value row = WILDCARD then Some (skip_row acc row ''wildcard'')
         else case network (sr_value row) of None \<Rightarrow> Some (skip_row acc row ''invalid'')
           | Some net \<Rightarrow>
               if net_prefix net = 0 then Some (skip_row acc row ''wildcard'')
               else case without_denied net [net] (sc_deny_networks scope) of None \<Rightarrow> None
                 | Some pieces \<Rightarrow>
                     if pieces = [] then Some (skip_row acc row ''denied'')
                     else Some (acc\<lparr>sn_networks := sn_networks acc @ pieces\<rparr>))
      else
        (let name = normalize_domain (sr_value row) in
         if name = WILDCARD then Some (skip_row acc row ''wildcard'')
         else if rejects_domain scope name \<notin> {None, Some []} then Some (skip_row acc row ''denied'')
         else if name \<in> set (sn_domains acc) then Some acc
         else Some (acc\<lparr>sn_domains := sn_domains acc @ [name]\<rparr>)))"

fun fill_rows :: "scan_scope \<Rightarrow> scannable \<Rightarrow> scope_row list \<Rightarrow> scannable option" where
  "fill_rows scope acc [] = Some acc"
| "fill_rows scope acc (row # rows) =
     (case fill_row scope acc row of None \<Rightarrow> None | Some acc' \<Rightarrow> fill_rows scope acc' rows)"

text \<open>Ranges inside another one are left out; equal ones are kept once.\<close>

definition maximal_networks :: "ip_network list \<Rightarrow> ip_network list" where
  "maximal_networks nets =
     (let distinct_nets = sort_key (\<lambda>n. (net_family n, net_address n, net_prefix n)) (remdups nets) in
      filter (\<lambda>n. \<not> list_ex (\<lambda>other. other \<noteq> n \<and> net_family other = net_family n \<and> subnet_of n other)
                     distinct_nets) distinct_nets)"

type_synonym target_entry = "string \<times> string \<times> string"

definition scannable_targets ::
  "scope_row list \<Rightarrow> string \<Rightarrow> (bool \<times> target_entry list \<times> target_entry list) option" where
  "scannable_targets tbl tid =
     (let rows = rows_of tbl tid; scope = scope_from_rows tid rows in
      map_option (\<lambda>acc.
        (sc_approved scope,
         map (\<lambda>n. (KIND_CIDR, net_str n, network_surface n)) (maximal_networks (sn_networks acc))
         @ map (\<lambda>name. (KIND_DOMAIN, name, ''external'')) (sn_domains acc),
         sn_skipped acc))
        (fill_rows scope \<lparr>sn_networks = [], sn_domains = [], sn_skipped = []\<rparr> rows))"

end
