(* ===== verification/Range_Rules.thy ===== *)
theory Range_Rules
  imports Prelude
begin

text \<open>
  What the scope relies on of address ranges, as interfaces. \<open>range_rules\<close> is matching: a test
  for meeting and one for lying inside, which decide intersection and inclusion of the sets of
  addresses. \<open>range_carving\<close> adds that two ranges that meet are nested and an operation that
  takes a part out of a range; from these follows once that carving any number of ranges out
  of others is set difference and never gets stuck.
\<close>

locale range_rules =
  fixes ok :: "'n \<Rightarrow> bool"
    and addrs :: "'n \<Rightarrow> 'a set"
    and meets :: "'n \<Rightarrow> 'n \<Rightarrow> bool"
    and inside :: "'n \<Rightarrow> 'n \<Rightarrow> bool"
  assumes meets_iff: "ok a \<Longrightarrow> ok b \<Longrightarrow> meets a b \<longleftrightarrow> addrs a \<inter> addrs b \<noteq> {}"
    and inside_iff: "ok a \<Longrightarrow> ok b \<Longrightarrow> inside a b \<longleftrightarrow> addrs a \<subseteq> addrs b"
begin

lemma no_meet_iff:
  "ok t \<Longrightarrow> \<forall>d \<in> set ds. ok d \<Longrightarrow> find (meets t) ds = None \<longleftrightarrow> addrs t \<inter> (\<Union>d \<in> set ds. addrs d) = {}"
  by (auto simp: find_None_iff meets_iff)

lemma some_inside_iff:
  "ok t \<Longrightarrow> \<forall>a \<in> set as. ok a \<Longrightarrow> list_ex (inside t) as \<longleftrightarrow> (\<exists>a \<in> set as. addrs t \<subseteq> addrs a)"
  by (auto simp: list_ex_iff inside_iff)

end

locale range_carving = range_rules ok addrs meets inside
  for ok :: "'n \<Rightarrow> bool" and addrs :: "'n \<Rightarrow> 'a set" and meets :: "'n \<Rightarrow> 'n \<Rightarrow> bool"
    and inside :: "'n \<Rightarrow> 'n \<Rightarrow> bool" +
  fixes exclude :: "'n \<Rightarrow> 'n \<Rightarrow> 'n list option"
  assumes nested: "ok a \<Longrightarrow> ok b \<Longrightarrow> addrs a \<inter> addrs b \<noteq> {} \<Longrightarrow> addrs a \<subseteq> addrs b \<or> addrs b \<subseteq> addrs a"
    and exclude_spec: "ok n \<Longrightarrow> ok d \<Longrightarrow> addrs d \<subseteq> addrs n \<Longrightarrow>
      \<exists>ps. exclude n d = Some ps \<and> (\<forall>p \<in> set ps. ok p) \<and> (\<Union>p \<in> set ps. addrs p) = addrs n - addrs d"
begin

text \<open>The ranges cover exactly a set of addresses.\<close>

definition covers_exactly :: "'n list option \<Rightarrow> 'a set \<Rightarrow> bool" where
  "covers_exactly r A \<longleftrightarrow> (\<exists>ps. r = Some ps \<and> (\<forall>p \<in> set ps. ok p) \<and> (\<Union>p \<in> set ps. addrs p) = A)"

lemma covers_exactlyE:
  assumes "covers_exactly r A"
  obtains ps where "r = Some ps" "\<forall>p \<in> set ps. ok p" "(\<Union>p \<in> set ps. addrs p) = A"
  using assms unfolding covers_exactly_def by blast

definition carve_one :: "'n \<Rightarrow> 'n \<Rightarrow> 'n list option" where
  "carve_one d n = (if \<not> meets n d then Some [n] else if \<not> inside n d then exclude n d else Some [])"

definition carve_all :: "'n \<Rightarrow> 'n list \<Rightarrow> 'n list option" where
  "carve_all d ns = map_option concat (those (map (carve_one d) ns))"

fun carve_each :: "'n list \<Rightarrow> 'n list \<Rightarrow> 'n list option" where
  "carve_each ns [] = Some ns"
| "carve_each ns (d # ds) = (case carve_all d ns of None \<Rightarrow> None | Some kept \<Rightarrow> carve_each kept ds)"

lemma carve_one_exact:
  assumes "ok n" and "ok d"
  shows "covers_exactly (carve_one d n) (addrs n - addrs d)"
proof -
  consider "addrs n \<inter> addrs d = {}" | "addrs n \<subseteq> addrs d" "addrs n \<inter> addrs d \<noteq> {}"
    | "addrs n \<inter> addrs d \<noteq> {}" "\<not> addrs n \<subseteq> addrs d" "addrs d \<subseteq> addrs n"
    using nested [OF assms] by blast
  then show ?thesis
  proof cases
    case 1
    then have "addrs n - addrs d = addrs n" by blast
    then show ?thesis using 1 assms by (simp add: carve_one_def covers_exactly_def meets_iff)
  next
    case 2
    then have "addrs n - addrs d = {}" by blast
    then show ?thesis using 2 assms by (simp add: carve_one_def covers_exactly_def meets_iff inside_iff)
  next
    case 3
    then show ?thesis using exclude_spec [OF assms] assms
      by (simp add: carve_one_def covers_exactly_def meets_iff inside_iff)
  qed
qed

lemma carve_all_exact:
  assumes "\<forall>n \<in> set ns. ok n" and "ok d"
  shows "covers_exactly (carve_all d ns) ((\<Union>n \<in> set ns. addrs n) - addrs d)"
  using assms(1)
proof (induction ns)
  case Nil
  then show ?case by (simp add: carve_all_def covers_exactly_def)
next
  case (Cons n ns)
  obtain qs where qs: "carve_one d n = Some qs" "\<forall>q \<in> set qs. ok q" "(\<Union>q \<in> set qs. addrs q) = addrs n - addrs d"
    using carve_one_exact [of n d] Cons.prems assms(2) by (auto elim: covers_exactlyE)
  obtain rs where rs: "carve_all d ns = Some rs" "\<forall>q \<in> set rs. ok q"
    "(\<Union>q \<in> set rs. addrs q) = (\<Union>n \<in> set ns. addrs n) - addrs d"
    using Cons by (auto elim: covers_exactlyE)
  have "carve_all d (n # ns) = Some (qs @ rs)" using qs(1) rs(1) by (auto simp: carve_all_def)
  moreover have "(\<Union>q \<in> set (qs @ rs). addrs q) = (\<Union>n \<in> set (n # ns). addrs n) - addrs d"
    using qs(3) rs(3) by (simp add: Un_Diff)
  ultimately show ?case unfolding covers_exactly_def using qs(2) rs(2)
    by (intro exI [of _ "qs @ rs"] conjI) auto
qed

lemma carve_each_exact:
  assumes "\<forall>n \<in> set ns. ok n" and "\<forall>d \<in> set ds. ok d"
  shows "covers_exactly (carve_each ns ds) ((\<Union>n \<in> set ns. addrs n) - (\<Union>d \<in> set ds. addrs d))"
  using assms
proof (induction ds arbitrary: ns)
  case Nil
  then show ?case by (simp add: covers_exactly_def)
next
  case (Cons d ds)
  obtain kept where kept: "carve_all d ns = Some kept" "\<forall>n \<in> set kept. ok n"
    "(\<Union>n \<in> set kept. addrs n) = (\<Union>n \<in> set ns. addrs n) - addrs d"
    using carve_all_exact [of ns d] Cons.prems by (auto elim: covers_exactlyE)
  have "covers_exactly (carve_each kept ds) ((\<Union>n \<in> set kept. addrs n) - (\<Union>d \<in> set ds. addrs d))"
    using kept(2) Cons.prems(2) by (intro Cons.IH) simp_all
  moreover have "(\<Union>n \<in> set kept. addrs n) - (\<Union>d \<in> set ds. addrs d)
      = (\<Union>n \<in> set ns. addrs n) - (\<Union>d \<in> set (d # ds). addrs d)"
    unfolding kept(3) by auto
  ultimately show ?case using kept(1) by simp
qed

end

end
