(* ===== verification/Scope_Exclusion.thy ===== *)
theory Scope_Exclusion
  imports Scope_Fill Scope_Matching Range_Rules
begin

text \<open>
  Carving denied ranges out of an allowed one is exact set difference, and the halving that
  does it always ends with a result: the number of bits left is fuel enough. Networks with a
  zone id are outside these statements (the library raises on some of them).
\<close>

section \<open>Aligned blocks\<close>

definition plain :: "ip_network \<Rightarrow> bool" where
  "plain n \<longleftrightarrow> wf_net n \<and> net_zone n = None"

lemma plainD: "plain n \<Longrightarrow> wf_net n" "plain n \<Longrightarrow> net_zone n = None"
  by (simp_all add: plain_def)

abbreviation net_block :: "ip_network \<Rightarrow> nat" where
  "net_block n \<equiv> block (net_family n) (net_prefix n)"

lemma net_addrs_block: "net_addrs n = {net_family n} \<times> {net_address n ..< net_address n + net_block n}"
proof -
  have "0 < net_block n" by simp
  then show ?thesis unfolding net_addrs_def broadcast_def by (auto simp del: block_pos)
qed

lemma card_net_addrs: "card (net_addrs n) = net_block n" "finite (net_addrs n)"
  by (simp_all add: net_addrs_block card_cartesian_product)

lemma block_dvd: "p \<le> q \<Longrightarrow> block f q dvd block f p"
  by (simp add: block_def le_imp_power_dvd)

lemma net_addrs_family: "net_addrs a \<subseteq> net_addrs b \<Longrightarrow> net_family a = net_family b"
  using broadcast_ge [of a] by (auto simp: net_addrs_def subset_iff)

lemma net_addrs_inject:
  assumes "plain a" and "plain b" and "net_addrs a = net_addrs b"
  shows "a = b"
proof -
  have f: "net_family a = net_family b"
    using assms(3) by (intro net_addrs_family) simp
  have "{net_address a .. broadcast a} = {net_address b .. broadcast b}"
    using assms(3) unfolding net_addrs_def f by (simp add: times_eq_iff)
  then have ad: "net_address a = net_address b" using broadcast_ge by (simp add: Icc_eq_Icc)
  have "net_block a = net_block b" using card_net_addrs(1) assms(3) by metis
  then have "width (net_family a) - net_prefix a = width (net_family a) - net_prefix b"
    by (simp add: block_def f)
  moreover have "net_prefix a \<le> width (net_family a)" "net_prefix b \<le> width (net_family a)"
    using assms(1,2) f by (simp_all add: plain_def wf_net_def)
  ultimately have "net_prefix a = net_prefix b" by simp
  then show ?thesis using f ad assms(1,2) by (simp add: plain_def)
qed

text \<open>Two blocks that meet are nested.\<close>

lemma aligned_nested:
  fixes A B a b z :: nat
  assumes "A dvd B" and "A dvd a" and "B dvd b" and z: "a \<le> z" "z < a + A" "b \<le> z" "z < b + B"
  shows "b \<le> a \<and> a + A \<le> b + B"
proof -
  obtain i where i: "a = A * i" using assms(2) by (rule dvdE)
  have "A dvd b" using assms(1,3) by (rule dvd_trans)
  then obtain j where j: "b = A * j" by (rule dvdE)
  have "A dvd b + B" using \<open>A dvd b\<close> assms(1) by (rule dvd_add)
  then obtain k where k: "b + B = A * k" by (rule dvdE)
  have "A * j < A * (i + 1)" using z i j by (simp add: algebra_simps)
  then have "j < i + 1" by (simp only: nat_mult_less_cancel_disj)
  then have "j \<le> i" by simp
  moreover have "A * i < A * k" using z i k by linarith
  then have "i + 1 \<le> k" by simp
  then have "A * (i + 1) \<le> A * k" by (rule mult_le_mono2)
  ultimately show ?thesis using i j k by (simp add: algebra_simps)
qed

lemma wf_net_dvd: "wf_net n \<Longrightarrow> net_block n dvd net_address n"
  by (simp add: wf_net_def)

lemma overlap_nested_le:
  assumes "wf_net a" and "wf_net b" and "net_family a = net_family b" and "net_prefix b \<le> net_prefix a"
    and "net_addrs a \<inter> net_addrs b \<noteq> {}"
  shows "net_addrs a \<subseteq> net_addrs b"
proof -
  obtain z where z: "net_address a \<le> z" "z < net_address a + net_block a"
    "net_address b \<le> z" "z < net_address b + net_block b"
    using assms(5) by (auto simp: net_addrs_block)
  have "net_block a dvd net_block b" using block_dvd [OF assms(4)] assms(3) by simp
  then have "net_address b \<le> net_address a \<and> net_address a + net_block a \<le> net_address b + net_block b"
    using wf_net_dvd [OF assms(1)] wf_net_dvd [OF assms(2)] z by (rule aligned_nested)
  then show ?thesis using assms(3) by (auto simp: net_addrs_block)
qed

lemma overlap_nested:
  assumes "wf_net a" and "wf_net b" and "net_family a = net_family b" and "net_addrs a \<inter> net_addrs b \<noteq> {}"
  shows "net_addrs a \<subseteq> net_addrs b \<or> net_addrs b \<subseteq> net_addrs a"
  using overlap_nested_le [of a b] overlap_nested_le [of b a] assms by (metis Int_commute nle_le)

lemma plain_subnet_iff:
  assumes "plain a" and "plain b" and "net_family a = net_family b"
  shows "subnet_of a b \<longleftrightarrow> net_addrs a \<subseteq> net_addrs b"
  using subnet_of_subset [OF assms(3)] subset_subnet_of [of a b] assms(1,2) by (auto simp: plain_def)

section \<open>Halving\<close>

lemma block_half: "p < width f \<Longrightarrow> block f p = 2 * block f (Suc p)"
  by (simp add: block_def Suc_diff_Suc flip: power_Suc)

lemma halves_split:
  assumes "plain n" and "net_prefix n < width (net_family n)"
  shows "plain (fst (halves n)) \<and> plain (snd (halves n))"
    and "net_family (fst (halves n)) = net_family n \<and> net_family (snd (halves n)) = net_family n"
    and "net_prefix (fst (halves n)) = Suc (net_prefix n) \<and> net_prefix (snd (halves n)) = Suc (net_prefix n)"
    and "net_addrs (fst (halves n)) \<union> net_addrs (snd (halves n)) = net_addrs n"
    and "net_addrs (fst (halves n)) \<inter> net_addrs (snd (halves n)) = {}"
proof -
  let ?f = "net_family n" and ?B = "block (net_family n) (Suc (net_prefix n))"
  have b: "net_block n = 2 * ?B" using assms(2) by (rule block_half)
  have d: "net_block n dvd net_address n" and l: "net_address n < 2 ^ width ?f"
    using assms(1) by (simp_all add: plain_def wf_net_def)
  have dB: "?B dvd net_address n" using d unfolding b by (rule dvd_mult_right)
  have w: "net_block n dvd 2 ^ width ?f" by (simp add: block_def le_imp_power_dvd)
  have "net_address n + net_block n \<le> 2 ^ width ?f"
  proof -
    obtain i k where i: "net_address n = net_block n * i" "2 ^ width ?f = net_block n * k"
      using d w by (meson dvdE)
    then have "net_block n * i < net_block n * k" using l by simp
    then have "i + 1 \<le> k" by simp
    then have "net_block n * (i + 1) \<le> net_block n * k" by (rule mult_le_mono2)
    then show ?thesis using i by simp
  qed
  moreover have "0 < ?B" by simp
  ultimately have "net_address n + ?B < 2 ^ width ?f" using b by linarith
  then show "plain (fst (halves n)) \<and> plain (snd (halves n))"
    using assms dB l by (auto simp: plain_def wf_net_def halves_def Let_def)
  show "net_family (fst (halves n)) = ?f \<and> net_family (snd (halves n)) = ?f"
    and "net_prefix (fst (halves n)) = Suc (net_prefix n) \<and> net_prefix (snd (halves n)) = Suc (net_prefix n)"
    by (simp_all add: halves_def Let_def)
  show "net_addrs (fst (halves n)) \<union> net_addrs (snd (halves n)) = net_addrs n"
    and "net_addrs (fst (halves n)) \<inter> net_addrs (snd (halves n)) = {}"
    using b by (auto simp: net_addrs_block halves_def Let_def)
qed

section \<open>Excluding one range\<close>

text \<open>Between a half and the whole there is no other block.\<close>

lemma between_half_and_whole:
  assumes "plain n" and "plain h" and "plain m" and "net_prefix h = Suc (net_prefix n)"
    and "net_addrs h \<subseteq> net_addrs m" and "net_addrs m \<subseteq> net_addrs n"
  shows "m = h \<or> m = n"
proof -
  have fam: "net_family h = net_family m" "net_family m = net_family n"
    using assms(5,6) by (simp_all add: net_addrs_family)
  have lt: "net_prefix n < width (net_family n)"
    using plainD(1) [OF assms(2)] assms(4) fam by (simp add: wf_net_def)
  have pm: "net_prefix m \<le> width (net_family n)" using plainD(1) [OF assms(3)] fam by (simp add: wf_net_def)
  have le: "net_block h \<le> net_block m" "net_block m \<le> net_block n"
    using card_mono [OF card_net_addrs(2) assms(5)] card_mono [OF card_net_addrs(2) assms(6)]
    by (simp_all add: card_net_addrs)
  then have "width (net_family n) - Suc (net_prefix n) \<le> width (net_family n) - net_prefix m"
    "width (net_family n) - net_prefix m \<le> width (net_family n) - net_prefix n"
    using fam assms(4) by (simp_all add: block_def)
  then consider "net_prefix m = Suc (net_prefix n)" | "net_prefix m = net_prefix n" using lt pm by linarith
  then show ?thesis
  proof cases
    case 1
    then have "card (net_addrs m) = card (net_addrs h)" using fam assms(4) by (simp add: card_net_addrs)
    then have "net_addrs h = net_addrs m" using assms(5) card_net_addrs(2) by (metis card_subset_eq)
    then show ?thesis using net_addrs_inject assms(2,3) by blast
  next
    case 2
    then have "card (net_addrs m) = card (net_addrs n)" using fam by (simp add: card_net_addrs)
    then have "net_addrs m = net_addrs n" using assms(6) card_net_addrs(2) by (metis card_subset_eq)
    then show ?thesis using net_addrs_inject assms(1,3) by blast
  qed
qed

lemma proper_part_prefix:
  assumes "plain n" and "plain m" and "net_addrs m \<subseteq> net_addrs n" and "m \<noteq> n"
  shows "net_prefix n < width (net_family n)"
proof (rule ccontr)
  assume "\<not> net_prefix n < width (net_family n)"
  then have "net_block n = 1" by (simp add: block_def)
  then have "card (net_addrs n) = 1" by (simp add: card_net_addrs)
  moreover have "0 < card (net_addrs m)" by (simp add: card_net_addrs)
  ultimately have "card (net_addrs m) = card (net_addrs n)"
    using card_mono [OF card_net_addrs(2) assms(3)] by linarith
  then have "net_addrs m = net_addrs n" using assms(3) card_net_addrs(2) by (metis card_subset_eq)
  then show False using net_addrs_inject assms by blast
qed

text \<open>A part of a network that is neither it nor a half lies in one of its halves.\<close>

lemma part_of_half:
  assumes "plain n" and "plain m" and "net_addrs m \<subseteq> net_addrs n" and "m \<noteq> n"
    and "m \<noteq> fst (halves n)" and "m \<noteq> snd (halves n)"
  shows "net_addrs m \<subseteq> net_addrs (fst (halves n)) \<or> net_addrs m \<subseteq> net_addrs (snd (halves n))"
proof -
  have lt: "net_prefix n < width (net_family n)" using assms(1-4) by (rule proper_part_prefix)
  note h = halves_split [OF assms(1) lt]
  have fam: "net_family m = net_family n" using assms(3) by (rule net_addrs_family)
  have pick: "net_addrs m \<subseteq> net_addrs s" if s: "s \<in> {fst (halves n), snd (halves n)}"
    and meet: "net_addrs m \<inter> net_addrs s \<noteq> {}" for s
  proof -
    have ps: "plain s" "net_prefix s = Suc (net_prefix n)" "net_family m = net_family s" "m \<noteq> s"
      using s h(1-3) fam assms(5,6) by auto
    have "net_addrs m \<subseteq> net_addrs s \<or> net_addrs s \<subseteq> net_addrs m"
      using plainD(1) [OF assms(2)] plainD(1) [OF ps(1)] ps(3) meet by (rule overlap_nested)
    then show ?thesis using between_half_and_whole [OF assms(1) ps(1) assms(2) ps(2) _ assms(3)] ps(4) assms(4) by blast
  qed
  have "net_addrs m \<inter> net_addrs (fst (halves n)) \<noteq> {} \<or> net_addrs m \<inter> net_addrs (snd (halves n)) \<noteq> {}"
    using assms(3) h(4) net_addrs_nonempty [of m] by blast
  then show ?thesis using pick by blast
qed

definition pieces_of :: "ip_network \<Rightarrow> (ip_family \<times> nat) set \<Rightarrow> ip_network list option \<Rightarrow> bool" where
  "pieces_of n rest r \<longleftrightarrow> (\<exists>ps. r = Some ps \<and> (\<forall>p \<in> set ps. plain p \<and> net_family p = net_family n)
     \<and> (\<Union>p \<in> set ps. net_addrs p) = rest)"

lemma pieces_ofE:
  assumes "pieces_of n rest r"
  obtains ps where "r = Some ps" "\<forall>p \<in> set ps. plain p \<and> net_family p = net_family n"
    "(\<Union>p \<in> set ps. net_addrs p) = rest"
  using assms unfolding pieces_of_def by blast

lemma pieces_of_family: "pieces_of p rest r \<Longrightarrow> net_family p = net_family n \<Longrightarrow> pieces_of n rest r"
  by (simp add: pieces_of_def)

lemma pieces_of_Cons:
  assumes "pieces_of h rest r" and "plain s" and "net_family s = net_family n" and "net_family h = net_family n"
  shows "pieces_of n (net_addrs s \<union> rest) (map_option (\<lambda>ps. s # ps) r)"
  using assms by (auto simp: pieces_of_def)

lemma carve_pieces:
  assumes "plain n" and "plain m" and "net_addrs m \<subseteq> net_addrs n" and "m \<noteq> n"
    and "k = width (net_family n) - net_prefix n"
  shows "pieces_of n (net_addrs n - net_addrs m) (carve k n m)"
  using assms
proof (induction k arbitrary: n)
  case 0
  then show ?case using proper_part_prefix [OF "0.prems"(1-4)] by simp
next
  case (Suc k)
  let ?s = "fst (halves n)" and ?t = "snd (halves n)"
  have lt: "net_prefix n < width (net_family n)" using Suc.prems(1-4) by (rule proper_part_prefix)
  note h = halves_split [OF Suc.prems(1) lt]
  have fam: "net_family m = net_family n"
    using Suc.prems(3) by (rule net_addrs_family)
  have sub: "subnet_of m x \<longleftrightarrow> net_addrs m \<subseteq> net_addrs x" if "x \<in> {?s, ?t}" for x
    using that h(1,2) fam Suc.prems(2) by (intro plain_subnet_iff) auto
  have step: "pieces_of x (net_addrs x - net_addrs m) (carve k x m)"
    if "x \<in> {?s, ?t}" "net_addrs m \<subseteq> net_addrs x" "m \<noteq> x" for x
    using that h(1-3) Suc.prems(2,5) by (intro Suc.IH) auto
  have one: "pieces_of n (net_addrs y) (Some [y])" if "y \<in> {?s, ?t}" for y
    using that h(1,2) by (auto simp: pieces_of_def)
  have carve: "carve (Suc k) n m = (if ?s = m then Some [?t] else if ?t = m then Some [?s]
      else if subnet_of m ?s then map_option (\<lambda>rest. ?t # rest) (carve k ?s m)
      else if subnet_of m ?t then map_option (\<lambda>rest. ?s # rest) (carve k ?t m) else None)"
    by (simp add: Let_def split: prod.split)
  consider "m = ?s" | "m = ?t" "m \<noteq> ?s" | "m \<noteq> ?s" "m \<noteq> ?t" "net_addrs m \<subseteq> net_addrs ?s"
    | "m \<noteq> ?s" "m \<noteq> ?t" "\<not> net_addrs m \<subseteq> net_addrs ?s" "net_addrs m \<subseteq> net_addrs ?t"
    using part_of_half [OF Suc.prems(1-4)] by blast
  then show ?case
  proof cases
    case 1
    then have "net_addrs n - net_addrs m = net_addrs ?t" using h(4,5) by blast
    then show ?thesis using one [of ?t] 1 carve by simp
  next
    case 2
    then have "net_addrs n - net_addrs m = net_addrs ?s" using h(4,5) by blast
    then show ?thesis using one [of ?s] 2 carve by simp
  next
    case 3
    then have "net_addrs n - net_addrs m = net_addrs ?t \<union> (net_addrs ?s - net_addrs m)" using h(4,5) by blast
    then show ?thesis using pieces_of_Cons [OF step [of ?s], of ?t n] 3 h(1,2) sub carve by simp
  next
    case 4
    then have "net_addrs n - net_addrs m = net_addrs ?s \<union> (net_addrs ?t - net_addrs m)" using h(4,5) by blast
    then show ?thesis using pieces_of_Cons [OF step [of ?t], of ?s n] 4 h(1,2) sub carve by simp
  qed
qed

lemma address_exclude_pieces:
  assumes "plain n" and "plain m" and "net_addrs m \<subseteq> net_addrs n"
  shows "pieces_of n (net_addrs n - net_addrs m) (address_exclude n m)"
proof -
  have "net_family m = net_family n" using assms(3) by (rule net_addrs_family)
  then have "subnet_of m n" using assms by (simp add: plain_subnet_iff)
  then show ?thesis using carve_pieces [OF assms] by (auto simp: address_exclude_def pieces_of_def)
qed

section \<open>Networks as the interface of ranges\<close>

interpretation ranges: range_carving plain net_addrs
    "\<lambda>a b. net_family b = net_family a \<and> overlaps a b" "\<lambda>a b. net_family b = net_family a \<and> subnet_of a b"
    address_exclude
proof unfold_locales
  fix a b assume ab: "plain a" "plain b"
  show "(net_family b = net_family a \<and> overlaps a b) \<longleftrightarrow> net_addrs a \<inter> net_addrs b \<noteq> {}"
  proof (cases "net_family b = net_family a")
    case True
    then show ?thesis using overlaps_iff [OF plainD(1) [OF ab(1)] plainD(1) [OF ab(2)]] by simp
  qed (auto simp: net_addrs_def)
  show "(net_family b = net_family a \<and> subnet_of a b) \<longleftrightarrow> net_addrs a \<subseteq> net_addrs b"
    using plain_subnet_iff [OF ab] net_addrs_family [of a b] by auto
next
  fix a b assume ab: "plain a" "plain b" and meet: "net_addrs a \<inter> net_addrs b \<noteq> {}"
  then have "net_family a = net_family b" by (auto simp: net_addrs_def)
  then show "net_addrs a \<subseteq> net_addrs b \<or> net_addrs b \<subseteq> net_addrs a"
    using overlap_nested [OF plainD(1) [OF ab(1)] plainD(1) [OF ab(2)]] meet by blast
next
  fix n d assume "plain n" "plain d" "net_addrs d \<subseteq> net_addrs n"
  then have "pieces_of n (net_addrs n - net_addrs d) (address_exclude n d)" by (rule address_exclude_pieces)
  then show "\<exists>ps. address_exclude n d = Some ps \<and> (\<forall>p \<in> set ps. plain p)
      \<and> (\<Union>p \<in> set ps. net_addrs p) = net_addrs n - net_addrs d"
    unfolding pieces_of_def by blast
qed

definition plain_scope :: "scan_scope \<Rightarrow> bool" where
  "plain_scope scope \<longleftrightarrow> (\<forall>n \<in> set (sc_allow_networks scope) \<union> set (sc_deny_networks scope). plain n)"

lemma plain_scope_verdict:
  assumes "plain_scope scope" and "plain t" and "network v = Some t"
  shows "rejects_network scope v = None \<longleftrightarrow> net_addrs t \<inter> denied_addrs scope = {} \<and> in_allowed_range scope t"
  using ranges.no_meet_iff [OF assms(2), of "sc_deny_networks scope"]
    ranges.some_inside_iff [OF assms(2), of "sc_allow_networks scope"] assms(1,3)
  by (auto simp: rejects_network_def plain_scope_def denied_addrs_def in_allowed_range_def split: option.splits if_splits)

section \<open>Excluding every denied range\<close>

lemma carve_all_other_family:
  assumes "\<forall>p \<in> set ps. net_family p \<noteq> net_family d"
  shows "ranges.carve_all d ps = Some ps"
proof -
  have m: "map (ranges.carve_one d) ps = map (\<lambda>p. Some [p]) ps" using assms by (auto simp: ranges.carve_one_def)
  have "those (map (\<lambda>p. Some [p]) ps) = Some (map (\<lambda>p. [p]) ps)" by (induction ps) auto
  moreover have "concat (map (\<lambda>p. [p]) ps) = ps" by (induction ps) auto
  ultimately show ?thesis unfolding ranges.carve_all_def m by simp
qed

lemma without_denied_carve:
  assumes "\<forall>p \<in> set ps. plain p \<and> net_family p = net_family n" and "\<forall>d \<in> set denied. plain d"
  shows "without_denied n ps denied = ranges.carve_each ps denied"
  using assms
proof (induction denied arbitrary: ps)
  case (Cons d denied)
  show ?case
  proof (cases "net_family d = net_family n")
    case False
    then have "ranges.carve_all d ps = Some ps" using Cons.prems(1) by (intro carve_all_other_family) auto
    then show ?thesis using False Cons by simp
  next
    case True
    have m: "map (exclude_piece d) ps = map (ranges.carve_one d) ps"
      using Cons.prems(1) True by (auto simp: exclude_piece_def ranges.carve_one_def)
    have all: "exclude_all d ps = ranges.carve_all d ps"
      unfolding exclude_all_def ranges.carve_all_def m ..
    obtain kept where kept: "ranges.carve_all d ps = Some kept" "\<forall>p \<in> set kept. plain p"
      "(\<Union>p \<in> set kept. net_addrs p) = (\<Union>p \<in> set ps. net_addrs p) - net_addrs d"
      using ranges.carve_all_exact [of ps d] Cons.prems by (auto elim: ranges.covers_exactlyE)
    have "net_family p = net_family n" if "p \<in> set kept" for p
    proof -
      have "(net_family p, net_address p) \<in> (\<Union>p \<in> set kept. net_addrs p)"
        using that by (auto simp: net_addrs_def broadcast_ge)
      then show ?thesis unfolding kept(3) using Cons.prems(1) by (auto simp: net_addrs_def)
    qed
    then have "without_denied n kept denied = ranges.carve_each kept denied"
      using kept(2) Cons.prems(2) by (intro Cons.IH) auto
    then show ?thesis using True all kept(1) by simp
  qed
qed simp

lemma without_denied_pieces:
  assumes "plain n" and "\<forall>d \<in> set denied. plain d"
  obtains ps where "without_denied n [n] denied = Some ps" "\<forall>p \<in> set ps. plain p"
    "(\<Union>p \<in> set ps. net_addrs p) = net_addrs n - (\<Union>d \<in> set denied. net_addrs d)"
  using ranges.carve_each_exact [of "[n]" denied] without_denied_carve [of "[n]" n denied] assms
  by (auto elim!: ranges.covers_exactlyE)

end
