(* ===== verification/Scope_Offers.thy ===== *)
theory Scope_Offers
  imports Scope_Exclusion Scope_Properties
begin

text \<open>
  Properties of the targets a scope offers: carving is exact, the offer is always made, and
  everything offered is accepted by the barriers of a scan.
\<close>

section \<open>The rows of an offer\<close>

definition offerable :: "scan_scope \<Rightarrow> ip_network \<Rightarrow> bool" where
  "offerable scope n \<longleftrightarrow> plain n \<and> net_addrs n \<inter> denied_addrs scope = {} \<and> in_allowed_range scope n"

definition offer_ok :: "scan_scope \<Rightarrow> scannable \<Rightarrow> bool" where
  "offer_ok scope acc \<longleftrightarrow> (\<forall>n \<in> set (sn_networks acc). offerable scope n)
     \<and> (\<forall>d \<in> set (sn_domains acc). rejects_domain scope d = None)"

lemma skip_row_offer [simp]: "offer_ok scope (skip_row acc row reason) = offer_ok scope acc"
  by (simp add: offer_ok_def skip_row_def)

lemma skip_row_networks [simp]:
  "sn_networks (skip_row acc row reason) = sn_networks acc" "sn_domains (skip_row acc row reason) = sn_domains acc"
  by (simp_all add: skip_row_def)

lemma row_network_allowed:
  assumes "row \<in> set rows" and "sr_effect row \<noteq> EFFECT_DENY" and "sr_kind row = KIND_CIDR"
    and "sr_value row \<noteq> WILDCARD" and "network (sr_value row) = Some n"
  shows "n \<in> set (sc_allow_networks (scope_from_rows tid rows))"
  using assms by (force simp: scope_from_rows_def scope_of_items_def item_networks_def row_item_def)

lemma effects_differ [simp]: "EFFECT_ALLOW \<noteq> EFFECT_DENY" "EFFECT_DENY \<noteq> EFFECT_ALLOW"
  by (simp_all add: EFFECT_ALLOW_def EFFECT_DENY_def)

text \<open>What one row adds.\<close>

definition row_range :: "scope_row \<Rightarrow> ip_network option" where
  "row_range row =
     (if sr_effect row = EFFECT_ALLOW \<and> sr_kind row = KIND_CIDR \<and> sr_value row \<noteq> WILDCARD
      then (case network (sr_value row) of None \<Rightarrow> None | Some n \<Rightarrow> if net_prefix n = 0 then None else Some n)
      else None)"

lemma fill_row_other:
  assumes "row_range row = None" and "offer_ok scope acc"
  shows "\<exists>acc'. fill_row scope acc row = Some acc' \<and> offer_ok scope acc' \<and> sn_networks acc' = sn_networks acc"
proof -
  let ?name = "normalize_domain (sr_value row)"
  consider "sr_effect row \<noteq> EFFECT_ALLOW" | "sr_effect row = EFFECT_ALLOW" "sr_kind row = KIND_CIDR" "sr_value row = WILDCARD"
    | "sr_effect row = EFFECT_ALLOW" "sr_kind row = KIND_CIDR" "sr_value row \<noteq> WILDCARD" "network (sr_value row) = None"
    | n where "sr_effect row = EFFECT_ALLOW" "sr_kind row = KIND_CIDR" "sr_value row \<noteq> WILDCARD"
        "network (sr_value row) = Some n" "net_prefix n = 0"
    | "sr_effect row = EFFECT_ALLOW" "sr_kind row \<noteq> KIND_CIDR"
    using assms(1) by (auto simp: row_range_def split: if_splits option.splits)
  then show ?thesis
  proof cases
    case 5
    show ?thesis
    proof (cases "rejects_domain scope ?name")
      case None
      then have "offer_ok scope (acc\<lparr>sn_domains := sn_domains acc @ [?name]\<rparr>)"
        using assms(2) by (auto simp: offer_ok_def)
      then show ?thesis using 5 assms(2) None by (auto simp: fill_row_def Let_def)
    next
      case (Some r)
      then show ?thesis using 5 assms(2) reasons_nonempty(2) [OF Some] by (auto simp: fill_row_def Let_def)
    qed
  qed (use assms(2) in \<open>simp_all add: fill_row_def\<close>)
qed

lemma fill_row_step:
  assumes scope: "scope = scope_from_rows tid rows" and "plain_scope scope" and "row \<in> set rows" and "offer_ok scope acc"
  shows "\<exists>acc'. fill_row scope acc row = Some acc' \<and> offer_ok scope acc' \<and> set (sn_networks acc) \<subseteq> set (sn_networks acc')
    \<and> (\<forall>n. row_range row = Some n \<longrightarrow> net_addrs n - denied_addrs scope \<subseteq> (\<Union>p \<in> set (sn_networks acc'). net_addrs p))"
proof (cases "row_range row")
  case None
  then show ?thesis using fill_row_other [OF None assms(4)] by auto
next
  case (Some n)
  then have n: "sr_effect row = EFFECT_ALLOW" "sr_kind row = KIND_CIDR" "sr_value row \<noteq> WILDCARD"
    "network (sr_value row) = Some n" "net_prefix n \<noteq> 0"
    by (auto simp: row_range_def split: if_splits option.splits)
  have al: "n \<in> set (sc_allow_networks scope)"
    unfolding scope using n assms(3) by (intro row_network_allowed) auto
  then have pl: "plain n" using assms(2) by (simp add: plain_scope_def)
  obtain ps where ps: "without_denied n [n] (sc_deny_networks scope) = Some ps" "\<forall>p \<in> set ps. plain p"
    "(\<Union>p \<in> set ps. net_addrs p) = net_addrs n - denied_addrs scope"
    using without_denied_pieces [OF pl, of "sc_deny_networks scope"] assms(2)
    by (auto simp: plain_scope_def denied_addrs_def)
  have off: "offerable scope p" if "p \<in> set ps" for p
    using that ps al by (auto simp: offerable_def in_allowed_range_def)
  let ?acc = "if ps = [] then skip_row acc row ''denied'' else acc\<lparr>sn_networks := sn_networks acc @ ps\<rparr>"
  have "fill_row scope acc row = Some ?acc" using n ps(1) by (simp add: fill_row_def)
  moreover have "offer_ok scope ?acc" using assms(4) off by (auto simp: offer_ok_def)
  moreover have "set (sn_networks acc) \<subseteq> set (sn_networks ?acc)" by simp
  moreover have "net_addrs n - denied_addrs scope \<subseteq> (\<Union>p \<in> set (sn_networks ?acc). net_addrs p)"
    unfolding ps(3) [symmetric] by auto
  ultimately show ?thesis using Some by (metis option.inject)
qed

lemma fill_rows_step:
  assumes scope: "scope = scope_from_rows tid all" and "plain_scope scope" and "set rows \<subseteq> set all" and "offer_ok scope acc"
  shows "\<exists>acc'. fill_rows scope acc rows = Some acc' \<and> offer_ok scope acc' \<and> set (sn_networks acc) \<subseteq> set (sn_networks acc')
    \<and> (\<forall>row \<in> set rows. \<forall>n. row_range row = Some n \<longrightarrow>
         net_addrs n - denied_addrs scope \<subseteq> (\<Union>p \<in> set (sn_networks acc'). net_addrs p))"
  using assms(3,4)
proof (induction rows arbitrary: acc)
  case Nil
  then show ?case by simp
next
  case (Cons row rows)
  obtain a where a: "fill_row scope acc row = Some a" "offer_ok scope a" "set (sn_networks acc) \<subseteq> set (sn_networks a)"
    "\<forall>n. row_range row = Some n \<longrightarrow> net_addrs n - denied_addrs scope \<subseteq> (\<Union>p \<in> set (sn_networks a). net_addrs p)"
    using fill_row_step [OF assms(1,2), of row acc] Cons.prems by auto
  obtain b where b: "fill_rows scope a rows = Some b" "offer_ok scope b" "set (sn_networks a) \<subseteq> set (sn_networks b)"
    "\<forall>row \<in> set rows. \<forall>n. row_range row = Some n \<longrightarrow>
       net_addrs n - denied_addrs scope \<subseteq> (\<Union>p \<in> set (sn_networks b). net_addrs p)"
    using Cons.IH [OF _ a(2)] Cons.prems(1) by auto
  have up: "(\<Union>p \<in> set (sn_networks a). net_addrs p) \<subseteq> (\<Union>p \<in> set (sn_networks b). net_addrs p)"
    using b(3) by (rule UN_mono) simp
  have "\<forall>r \<in> set (row # rows). \<forall>n. row_range r = Some n \<longrightarrow>
      net_addrs n - denied_addrs scope \<subseteq> (\<Union>p \<in> set (sn_networks b). net_addrs p)"
  proof (intro ballI allI impI)
    fix r n assume r: "r \<in> set (row # rows)" and n: "row_range r = Some n"
    show "net_addrs n - denied_addrs scope \<subseteq> (\<Union>p \<in> set (sn_networks b). net_addrs p)"
    proof (cases "r \<in> set rows")
      case True
      then show ?thesis using b(4) n by simp
    next
      case False
      then have "net_addrs n - denied_addrs scope \<subseteq> (\<Union>p \<in> set (sn_networks a). net_addrs p)"
        using a(4) r n by simp
      then show ?thesis using up by (rule subset_trans)
    qed
  qed
  moreover have "fill_rows scope acc (row # rows) = Some b" using a(1) b(1) by simp
  moreover have "set (sn_networks acc) \<subseteq> set (sn_networks b)" using a(3) b(3) by (rule subset_trans)
  ultimately show ?case using b(2) by blast
qed

section \<open>Ranges inside another are left out\<close>

lemma maximal_networks_subset: "set (maximal_networks nets) \<subseteq> set nets"
  by (auto simp: maximal_networks_def Let_def)

lemma wider_prefix:
  assumes "plain a" and "plain b" and "net_addrs a \<subseteq> net_addrs b" and "a \<noteq> b"
  shows "net_prefix b < net_prefix a"
proof (rule ccontr)
  assume "\<not> net_prefix b < net_prefix a"
  then have "net_prefix a \<le> net_prefix b" by simp
  moreover have f: "net_family b = net_family a" using net_addrs_family [OF assms(3)] by simp
  moreover have "net_addrs b \<inter> net_addrs a \<noteq> {}" using assms(3) net_addrs_nonempty [of a] by blast
  ultimately have "net_addrs b \<subseteq> net_addrs a"
    using overlap_nested_le plainD(1) [OF assms(1)] plainD(1) [OF assms(2)] by blast
  then show False using assms net_addrs_inject by blast
qed

lemma maximal_networks_cover:
  assumes "\<forall>n \<in> set nets. plain n" and "n \<in> set nets"
  shows "\<exists>m \<in> set (maximal_networks nets). net_addrs n \<subseteq> net_addrs m"
proof -
  let ?S = "{m \<in> set nets. net_addrs n \<subseteq> net_addrs m}"
  have "n \<in> ?S" using assms(2) by simp
  then obtain m where m: "m \<in> ?S" "\<forall>x \<in> ?S. net_prefix m \<le> net_prefix x"
    using ex_has_least_nat [of "\<lambda>x. x \<in> ?S" n net_prefix] by blast
  have "\<not> (other \<noteq> m \<and> net_family other = net_family m \<and> subnet_of m other)" if "other \<in> set nets" for other
  proof
    assume o: "other \<noteq> m \<and> net_family other = net_family m \<and> subnet_of m other"
    then have sub: "net_addrs m \<subseteq> net_addrs other" by (intro subnet_of_subset) auto
    then have "other \<in> ?S" using that m(1) by blast
    then have "net_prefix m \<le> net_prefix other" using m(2) by blast
    moreover have "net_prefix other < net_prefix m"
      using o sub that m(1) assms(1) by (intro wider_prefix) auto
    ultimately show False by simp
  qed
  then have "m \<in> set (maximal_networks nets)" using m(1) by (auto simp: maximal_networks_def Let_def list_ex_iff)
  then show ?thesis using m(1) by blast
qed

section \<open>Properties\<close>



text \<open>
  Every target a scope offers is one the scan would accept: for a scope without zone ids
  the offer is always made, each range in it passes the range check of that scope and each
  domain the domain check.
\<close>

theorem offered_targets_accepted:
  assumes "plain_scope (load_scope tbl tid)"
  shows "\<exists>targets skipped. scannable_targets tbl tid = Some (sc_approved (load_scope tbl tid), targets, skipped)
    \<and> (\<forall>(kind, value, surface) \<in> set targets.
         (kind = KIND_CIDR \<longrightarrow> rejects_network (load_scope tbl tid) value = None)
         \<and> (kind \<noteq> KIND_CIDR \<longrightarrow> rejects_domain (load_scope tbl tid) value = None))"
proof -
  let ?rows = "rows_of tbl tid" and ?s = "load_scope tbl tid"
  have s: "?s = scope_from_rows tid ?rows" by (simp add: load_scope_def)
  obtain acc where acc: "fill_rows ?s \<lparr>sn_networks = [], sn_domains = [], sn_skipped = []\<rparr> ?rows = Some acc"
    "offer_ok ?s acc"
    using fill_rows_step [OF s assms subset_refl, of "\<lparr>sn_networks = [], sn_domains = [], sn_skipped = []\<rparr>"]
    by (auto simp: offer_ok_def)
  have net: "rejects_network ?s (net_str n) = None" if "n \<in> set (maximal_networks (sn_networks acc))" for n
  proof -
    have o: "offerable ?s n" using that maximal_networks_subset acc(2) by (auto simp: offer_ok_def)
    then have pn: "plain n" by (simp add: offerable_def)
    have n: "network (net_str n) = Some n"
      using parse_network_net_str [OF plainD(1) [OF pn]] by (simp add: network_def)
    show ?thesis using plain_scope_verdict [OF assms pn n] o by (simp add: offerable_def)
  qed
  have kinds: "KIND_DOMAIN \<noteq> KIND_CIDR" by (simp add: KIND_DOMAIN_def KIND_CIDR_def)
  show ?thesis
    using acc net kinds unfolding scannable_targets_def Let_def s [symmetric] by (auto simp: offer_ok_def)
qed

lemma demo_plain: "plain_scope demo_scope"
  by (simp add: plain_scope_def demo_scope_def plain_def wf_net_def net4_def width_def block_def)

definition demo_offer :: "target_entry list" where
  "demo_offer =
     [(''cidr'', ''10.0.0.0/16'', ''internal''), (''cidr'', ''10.2.0.0/15'', ''internal''),
      (''cidr'', ''10.4.0.0/14'', ''internal''), (''cidr'', ''10.8.0.0/13'', ''internal''),
      (''cidr'', ''10.16.0.0/12'', ''internal''), (''cidr'', ''10.32.0.0/11'', ''internal''),
      (''cidr'', ''10.64.0.0/10'', ''internal''), (''cidr'', ''10.128.0.0/9'', ''internal''),
      (''domain'', ''example.com'', ''external'')]"

theorem offered_targets_accepted_witness:
  "scannable_targets demo_rows ''t1'' = Some (True, demo_offer, [])
     \<and> rejects_network demo_scope ''10.2.0.0/15'' = None"
proof -
  have e: "scannable_targets demo_rows ''t1'' = Some (True, demo_offer, [])" by code_simp
  have "plain_scope (load_scope demo_rows ''t1'')" unfolding demo_scope_loaded by (rule demo_plain)
  note offered_targets_accepted [OF this, unfolded e demo_scope_loaded]
  then show ?thesis using e by (simp add: demo_offer_def KIND_CIDR_def)
qed

text \<open>
  The offer leaves nothing out: every address of an allowed range other than a \<open>/0\<close> that
  no entry denies is in one of the offered ranges.
\<close>

theorem offer_is_complete:
  assumes "plain_scope (load_scope tbl tid)" and "row \<in> set (rows_of tbl tid)"
    and "sr_effect row = EFFECT_ALLOW" and "sr_kind row = KIND_CIDR" and "sr_value row \<noteq> WILDCARD"
    and "network (sr_value row) = Some n" and "net_prefix n \<noteq> 0"
  shows "\<exists>targets skipped. scannable_targets tbl tid = Some (sc_approved (load_scope tbl tid), targets, skipped)
    \<and> net_addrs n - denied_addrs (load_scope tbl tid)
        \<subseteq> \<Union> {net_addrs m | value surface m. (KIND_CIDR, value, surface) \<in> set targets \<and> network value = Some m}"
proof -
  let ?rows = "rows_of tbl tid" and ?s = "load_scope tbl tid"
  have s: "?s = scope_from_rows tid ?rows" by (simp add: load_scope_def)
  obtain acc where acc: "fill_rows ?s \<lparr>sn_networks = [], sn_domains = [], sn_skipped = []\<rparr> ?rows = Some acc"
    "offer_ok ?s acc"
    "\<forall>r \<in> set ?rows. \<forall>m. row_range r = Some m \<longrightarrow>
       net_addrs m - denied_addrs ?s \<subseteq> (\<Union>p \<in> set (sn_networks acc). net_addrs p)"
    using fill_rows_step [OF s assms(1) subset_refl, of "\<lparr>sn_networks = [], sn_domains = [], sn_skipped = []\<rparr>"]
    by (auto simp: offer_ok_def)
  have rng: "row_range row = Some n" using assms(3-7) by (simp add: row_range_def)
  have pl: "\<forall>p \<in> set (sn_networks acc). plain p" using acc(2) by (simp add: offer_ok_def offerable_def)
  let ?targets = "map (\<lambda>n. (KIND_CIDR, net_str n, network_surface n)) (maximal_networks (sn_networks acc))
     @ map (\<lambda>name. (KIND_DOMAIN, name, ''external'')) (sn_domains acc)"
  have "scannable_targets tbl tid = Some (sc_approved ?s, ?targets, sn_skipped acc)"
    using acc(1) unfolding scannable_targets_def Let_def s [symmetric] by simp
  moreover have "x \<in> \<Union> {net_addrs m | value surface m. (KIND_CIDR, value, surface) \<in> set ?targets \<and> network value = Some m}"
    if x: "x \<in> net_addrs n - denied_addrs ?s" for x
  proof -
    obtain p where p: "p \<in> set (sn_networks acc)" "x \<in> net_addrs p" using acc(3) assms(2) rng x by blast
    obtain m where m: "m \<in> set (maximal_networks (sn_networks acc))" "x \<in> net_addrs m"
      using maximal_networks_cover [OF pl p(1)] p(2) by blast
    have "plain m" using m(1) maximal_networks_subset pl by blast
    then have "network (net_str m) = Some m"
      using parse_network_net_str plainD(1) by (simp add: network_def)
    moreover have "(KIND_CIDR, net_str m, network_surface m) \<in> set ?targets" using m(1) by simp
    ultimately show ?thesis using m(2) by blast
  qed
  ultimately show ?thesis by blast
qed

theorem offer_is_complete_witness:
  "\<exists>targets skipped. scannable_targets demo_rows ''t1'' = Some (True, targets, skipped)
    \<and> net_addrs (net4 167772160 8) - denied_addrs demo_scope
        \<subseteq> \<Union> {net_addrs m | value surface m. (KIND_CIDR, value, surface) \<in> set targets \<and> network value = Some m}"
proof -
  let ?row = "demo_row ''allow'' ''cidr'' ''10.0.0.0/8'' []"
  have "?row \<in> set (rows_of demo_rows ''t1'')" by (simp add: rows_of_def demo_rows_def demo_row_def)
  moreover have "network (sr_value ?row) = Some (net4 167772160 8)" by code_simp
  moreover have "sr_effect ?row = EFFECT_ALLOW" "sr_kind ?row = KIND_CIDR" "sr_value ?row \<noteq> WILDCARD"
    by (simp_all add: demo_row_def EFFECT_ALLOW_def KIND_CIDR_def WILDCARD_def)
  ultimately show ?thesis
    using offer_is_complete [of demo_rows "''t1''" ?row "net4 167772160 8", unfolded demo_scope_loaded] demo_plain
    by (simp add: demo_scope_def net4_def)
qed

end
