(* ===== verification/Scope_Writes.thy ===== *)
theory Scope_Writes
  imports Scope_Groups Job_Model
begin

text \<open>
  Writing a tenant's scope: \<open>_validated\<close>, \<open>replace_scope\<close> and the audit diff of
  \<^verbatim>\<open>api/services/scan_scopes.py\<close>. The record \<open>scope_db\<close> holds the tables the transaction
  touches; an exception leaves it as it was.
\<close>

definition EFFECTS :: "string list" where "EFFECTS = [EFFECT_ALLOW, EFFECT_DENY]"
definition KINDS :: "string list" where "KINDS = [KIND_CIDR, KIND_DOMAIN]"

record scope_entry =
  en_effect :: string
  en_kind :: string
  en_value :: string
  en_note :: string
  en_agent_groups :: "string list"

definition normalized_value :: "string \<Rightarrow> string \<Rightarrow> scope_error + string" where
  "normalized_value kind value =
     (if value = WILDCARD then Ok WILDCARD
      else if kind = KIND_CIDR then
        (if \<not> is_ip_or_cidr value then Err (ScopeValueError (''not an IP or CIDR: '' @ repr_str value))
         else case network value of
           None \<Rightarrow> Err (ScopeValueError (repr_str value @ '' does not appear to be an IPv4 or IPv6 network''))
         | Some n \<Rightarrow> Ok (net_str n))
      else
        (let name = normalize_domain value in
         if \<not> is_fqdn name then Err (ScopeValueError (''not a domain: '' @ repr_str value)) else Ok name))"

fun normalize_names :: "json list \<Rightarrow> scope_error + string list" where
  "normalize_names [] = Ok []"
| "normalize_names (v # vs) =
     bindE (normalize_name v) (\<lambda>n. bindE (normalize_names vs) (\<lambda>ns. Ok (n # ns)))"

definition group_names :: "json \<Rightarrow> scope_error + string list" where
  "group_names groups =
     (if \<not> truthy groups then Ok []
      else case groups of JArr vs \<Rightarrow> bindE (normalize_names vs) (\<lambda>ns. Ok (sorted_set ns))
        | _ \<Rightarrow> Err (ScopeValueError (''agent_groups must be a list of group names: '' @ py_repr groups)))"

definition validated :: "(string \<times> json) list \<Rightarrow> scope_error + scope_entry" where
  "validated entry =
     (let eff = lower (strip (py_str (dict_get entry ''effect'' (JStr []))));
          kind = lower (strip (py_str (dict_get entry ''kind'' (JStr []))));
          value = strip (py_str (dict_get entry ''value'' (JStr []))) in
      if eff \<notin> set EFFECTS then
        Err (ScopeValueError (''effect must be one of '' @ join_with '', '' EFFECTS @ '': '' @ repr_str eff))
      else if kind \<notin> set KINDS then
        Err (ScopeValueError (''kind must be one of '' @ join_with '', '' KINDS @ '': '' @ repr_str kind))
      else bindE (normalized_value kind value) (\<lambda>normalized.
        bindE (group_names (dict_get entry ''agent_groups'' JNull)) (\<lambda>names.
          if names \<noteq> [] \<and> eff = EFFECT_DENY then
            Err (ScopeValueError ''agent_groups may only be set on an allow entry'')
          else
            let note = dict_get entry ''note'' (JStr []) in
            Ok \<lparr>en_effect = eff, en_kind = kind, en_value = normalized,
                en_note = take 500 (strip (if truthy note then py_str note else [])),
                en_agent_groups = names\<rparr>)))"

fun validated_all :: "(string \<times> json) list list \<Rightarrow> scope_error + scope_entry list" where
  "validated_all [] = Ok []"
| "validated_all (e # es) =
     bindE (validated e) (\<lambda>v. bindE (validated_all es) (\<lambda>vs. Ok (v # vs)))"

text \<open>\<^verbatim>\<open>seen\<close>: a later entry with the same key replaces the earlier one in place.\<close>

definition entry_key :: "scope_entry \<Rightarrow> string \<times> string \<times> string" where
  "entry_key e = (en_effect e, en_kind e, en_value e)"

definition collapse :: "scope_entry list \<Rightarrow> scope_entry list" where
  "collapse es = map snd (foldl (\<lambda>seen e. AList.update (entry_key e) e seen) [] es)"

section \<open>The transaction\<close>

type_synonym signature = "string \<times> string \<times> string \<times> string \<times> string list"

definition entry_signature :: "scope_row \<Rightarrow> signature" where
  "entry_signature r =
     (sr_effect r, sr_kind r, sr_value r, sr_note r, sort (sr_agent_groups r))"

definition scope_diff :: "scope_row list \<Rightarrow> scope_row list \<Rightarrow> scope_row list \<times> scope_row list" where
  "scope_diff before after =
     (let before_map = foldl (\<lambda>m r. AList.update (entry_signature r) r m) [] before;
          after_map = foldl (\<lambda>m r. AList.update (entry_signature r) r m) [] after in
      (map snd (filter (\<lambda>(k, e). map_of after_map k = None) before_map),
       map snd (filter (\<lambda>(k, e). map_of before_map k = None) after_map)))"

record scope_change =
  ch_tenant_id :: string
  ch_removed :: "scope_row list"
  ch_before_count :: nat
  ch_added :: "scope_row list"
  ch_after_count :: nat

record scope_db =
  sd_tenants :: "tenant list"
  sd_groups :: "(string \<times> string) list"
  sd_scopes :: "scope_row list"
  sd_audit :: "scope_change list"

definition lock_existing_names :: "scope_db \<Rightarrow> string \<Rightarrow> string list \<Rightarrow> string list" where
  "lock_existing_names d tid names = filter (\<lambda>n. (tid, n) \<in> set (sd_groups d)) names"

definition new_scope_row :: "string \<Rightarrow> string \<Rightarrow> int \<Rightarrow> scope_entry \<Rightarrow> scope_row" where
  "new_scope_row tid approved_by now e =
     \<lparr>sr_tenant_id = tid, sr_effect = en_effect e, sr_kind = en_kind e, sr_value = en_value e,
      sr_note = en_note e, sr_agent_groups = en_agent_groups e,
      sr_approved_by = approved_by, sr_approved_at = now\<rparr>"

definition replace_scope ::
  "time \<Rightarrow> scope_db \<Rightarrow> string \<Rightarrow> (string \<times> json) list list \<Rightarrow> string \<Rightarrow>
   scope_error + (scope_db \<times> scope_row list)" where
  "replace_scope now d tid entries approved_by =
     (if row_get t_tenant_id (sd_tenants d) tid = None
      then Err (ScopeLookupError (''tenant not found: '' @ tid))
      else bindE (validated_all entries) (\<lambda>vs.
        let named = sorted_set (concat (map en_agent_groups vs));
            known = lock_existing_names d tid named;
            unknown = filter (\<lambda>n. n \<notin> set known) named in
        if unknown \<noteq> [] then
          Err (ScopeValueError (''unknown agent group(s) for tenant '' @ tid @ '': '' @ join_with '', '' unknown))
        else
          let previous = rows_of (sd_scopes d) tid;
              others = filter (\<lambda>r. sr_tenant_id r \<noteq> tid) (sd_scopes d);
              tbl = others @ map (new_scope_row tid approved_by now) (collapse vs);
              current = rows_of tbl tid;
              (removed, added) = scope_diff previous current in
          Ok (d\<lparr>sd_scopes := tbl,
                sd_audit := sd_audit d @ [\<lparr>ch_tenant_id = tid, ch_removed = removed,
                  ch_before_count = length previous, ch_added = added,
                  ch_after_count = length current\<rparr>]\<rparr>, current)))"

end
