(* ===== verification/Scope_Storage.thy ===== *)
theory Scope_Storage
  imports Scope_Writes Scope_Properties "HOL-Library.Multiset"
begin

text \<open>
  Properties of a stored scope: what a replacement writes, that it touches no other tenant,
  that the audit row records exactly what changed, and that the scope document a run carries
  reads back as the scope that was stored.
\<close>

section \<open>Lower case\<close>

lemma lower_char_dot [simp]: "lower_char c = CHR ''.'' \<longleftrightarrow> c = CHR ''.''"
proof
  assume l: "lower_char c = CHR ''.''"
  have d: "ord_of (CHR ''.'') = 46" by code_simp
  show "c = CHR ''.''"
  proof (rule ccontr)
    assume "c \<noteq> CHR ''.''"
    then have n: "65 \<le> ord_of c" "ord_of c \<le> 222" "lower_char c = char_of (nat (ord_of c) + 32)"
      using l by (auto simp: lower_char_def Let_def split: if_splits)
    then have "ord_of (lower_char c) = ord_of c + 32" by (simp add: ord_of_char_of)
    then show False using l d n by simp
  qed
next
  show "c = CHR ''.'' \<Longrightarrow> lower_char c = CHR ''.''" by (simp, code_simp)
qed

lemma lower_char_idem [simp]: "lower_char (lower_char c) = lower_char c"
proof (cases "65 \<le> ord_of c \<and> ord_of c \<le> 90 \<or> 192 \<le> ord_of c \<and> ord_of c \<le> 222 \<and> ord_of c \<noteq> 215")
  case True
  then have l: "lower_char c = char_of (nat (ord_of c) + 32)" by (simp add: lower_char_def Let_def)
  have o: "ord_of (char_of (nat (ord_of c) + 32)) = ord_of c + 32" using True by (auto simp: ord_of_char_of)
  have "lower_char (char_of (nat (ord_of c) + 32)) = char_of (nat (ord_of c) + 32)"
    using True unfolding lower_char_def Let_def o by auto
  then show ?thesis using l by simp
qed (auto simp: lower_char_def Let_def)

lemma lower_idem [simp]: "lower (lower s) = lower s"
  by (simp add: lower_def o_def)

lemma rstrip_dot_lower: "rstrip_char (CHR ''.'') (lower s) = lower (rstrip_char (CHR ''.'') s)"
  by (simp add: rstrip_char_def lower_def rev_map dropWhile_map o_def)

lemma normalize_idem: "strip (normalize_domain v) = normalize_domain v \<Longrightarrow> normalize_domain (normalize_domain v) = normalize_domain v"
  by (simp add: normalize_domain_def rstrip_dot_lower rstrip_char_idem)

section \<open>The document\<close>

definition good_name :: "string \<Rightarrow> bool" where
  "good_name d \<longleftrightarrow> d \<noteq> [] \<and> strip d = d \<and> normalize_domain d = d"

lemma words_clean [simp]:
  "lower (strip EFFECT_ALLOW) = EFFECT_ALLOW" "lower (strip EFFECT_DENY) = EFFECT_DENY"
  "lower (strip KIND_CIDR) = KIND_CIDR" "lower (strip KIND_DOMAIN) = KIND_DOMAIN"
  by code_simp+

lemma words_differ [simp]:
  "EFFECT_ALLOW \<noteq> EFFECT_DENY" "EFFECT_DENY \<noteq> EFFECT_ALLOW" "KIND_CIDR \<noteq> KIND_DOMAIN" "KIND_DOMAIN \<noteq> KIND_CIDR"
  by (simp_all add: EFFECT_ALLOW_def EFFECT_DENY_def KIND_CIDR_def KIND_DOMAIN_def)

lemma read_entry_network:
  assumes "wf_net n" and "eff \<in> {EFFECT_ALLOW, EFFECT_DENY}"
  shows "read_entry (entry_document eff KIND_CIDR (net_str n)) = Networks (eff = EFFECT_DENY) [n]"
proof -
  have "net_str n \<noteq> WILDCARD" using net_str_not_wildcard by (simp add: WILDCARD_def)
  moreover have "net_str n \<noteq> []" by (simp add: net_str_def)
  moreover have "network (net_str n) = Some n" using parse_network_net_str [OF assms(1)] by (simp add: network_def)
  ultimately show ?thesis using assms(2)
    by (auto simp: read_entry_def entry_document_def py_str_def Let_def)
qed

lemma read_entry_name:
  assumes "good_name d" and "eff \<in> {EFFECT_ALLOW, EFFECT_DENY}"
  shows "read_entry (entry_document eff KIND_DOMAIN d) = Name (eff = EFFECT_DENY) d"
  using assms by (auto simp: read_entry_def entry_document_def py_str_def Let_def good_name_def)

lemma concat_items [simp]:
  "concat (map (\<lambda>n. item_networks x (Networks y [n])) ns) = (if x = y then ns else [])"
  "concat (map (\<lambda>n. item_networks x (Name y n)) ds) = []"
  "concat (map (\<lambda>d. item_names x (Name y d)) ds) = (if x = y then ds else [])"
  "concat (map (\<lambda>n. item_names x (Networks y [n])) ns) = []"
  by (induction ns) (auto simp: item_networks_def item_names_def)

lemma document_round_trip:
  assumes "wf_scope s" and "\<forall>d \<in> set (sc_allow_domains s) \<union> set (sc_deny_domains s). good_name d"
  shows "from_document (to_document s) = Some s"
proof -
  let ?E = "map (\<lambda>n. entry_document EFFECT_ALLOW KIND_CIDR (net_str n)) (sc_allow_networks s)
    @ map (\<lambda>n. entry_document EFFECT_DENY KIND_CIDR (net_str n)) (sc_deny_networks s)
    @ map (entry_document EFFECT_ALLOW KIND_DOMAIN) (sc_allow_domains s)
    @ map (entry_document EFFECT_DENY KIND_DOMAIN) (sc_deny_domains s)"
  have items: "map read_entry ?E = map (\<lambda>n. Networks False [n]) (sc_allow_networks s)
      @ map (\<lambda>n. Networks True [n]) (sc_deny_networks s)
      @ map (Name False) (sc_allow_domains s) @ map (Name True) (sc_deny_domains s)"
    using assms by (simp add: wf_scope_def read_entry_network read_entry_name)
  have "from_document (to_document s)
      = Some (scope_of_items (sc_tenant_id s) (sc_approved s) (map read_entry ?E))"
    by (simp add: to_document_def from_document_def truthy_def py_str_def del: map_append map_map)
  also have "scope_of_items (sc_tenant_id s) (sc_approved s) (map read_entry ?E) = s"
    unfolding items by (simp add: scope_of_items_def o_def)
  finally show ?thesis .
qed

section \<open>What is validated\<close>

definition value_ok :: "string \<Rightarrow> string \<Rightarrow> bool" where
  "value_ok kind value \<longleftrightarrow> value = WILDCARD
     \<or> kind = KIND_CIDR \<and> (\<exists>n. wf_net n \<and> value = net_str n)
     \<or> kind = KIND_DOMAIN \<and> is_fqdn value \<and> (\<exists>v. value = normalize_domain v)"

definition entry_ok :: "scope_entry \<Rightarrow> bool" where
  "entry_ok e \<longleftrightarrow> en_effect e \<in> set EFFECTS \<and> en_kind e \<in> set KINDS \<and> value_ok (en_kind e) (en_value e)
     \<and> (en_effect e = EFFECT_DENY \<longrightarrow> en_agent_groups e = []) \<and> length (en_note e) \<le> 500
     \<and> sorted (en_agent_groups e) \<and> distinct (en_agent_groups e) \<and> (\<forall>g \<in> set (en_agent_groups e). match_group_name g)"

lemma normalized_value_ok: "kind \<in> set KINDS \<Longrightarrow> normalized_value kind v = Ok value \<Longrightarrow> value_ok kind value"
  by (auto simp: normalized_value_def value_ok_def KINDS_def Let_def dest: wf_network split: if_splits option.splits)

lemma normalize_names_ok: "normalize_names vs = Ok ns \<Longrightarrow> \<forall>n \<in> set ns. match_group_name n"
  by (induction vs arbitrary: ns) (auto simp: bindE_Ok_iff normalize_name_def Let_def split: if_splits)

lemma group_names_ok:
  "group_names g = Ok ns \<Longrightarrow> sorted ns \<and> distinct ns \<and> (\<forall>n \<in> set ns. match_group_name n)"
  using normalize_names_ok
  by (auto simp: group_names_def bindE_Ok_iff sorted_set_def split: if_splits json.splits)

lemma validated_ok:
  assumes "validated entry = Ok e"
  shows "entry_ok e"
proof -
  obtain eff kind v names where 1: "eff \<in> set EFFECTS" "kind \<in> set KINDS"
    "normalized_value kind v = Ok (en_value e)" "group_names (dict_get entry ''agent_groups'' JNull) = Ok names"
    "\<not> (names \<noteq> [] \<and> eff = EFFECT_DENY)" "en_effect e = eff" "en_kind e = kind" "en_agent_groups e = names"
    "length (en_note e) \<le> 500"
    using assms unfolding validated_def Let_def
    by (fastforce simp: bindE_Ok_iff split: if_splits)
  then show ?thesis using normalized_value_ok [OF 1(2,3)] group_names_ok [OF 1(4)] by (auto simp: entry_ok_def)
qed

lemma validated_all_ok: "validated_all entries = Ok vs \<Longrightarrow> \<forall>v \<in> set vs. entry_ok v"
  by (induction entries arbitrary: vs) (auto simp: bindE_Ok_iff dest: validated_ok)

section \<open>Collapsing duplicates\<close>

lemma foldl_update_keys:
  "distinct (map fst m) \<Longrightarrow> distinct (map fst (foldl (\<lambda>m r. AList.update (key r) r m) m rs))"
  "set (map fst (foldl (\<lambda>m r. AList.update (key r) r m) m rs)) = set (map fst m) \<union> key ` set rs"
  by (induction rs arbitrary: m) (auto simp: distinct_update dom_update)

lemma foldl_update_pairs:
  "(k, e) \<in> set (foldl (\<lambda>m r. AList.update (key r) r m) m rs) \<Longrightarrow> (k, e) \<in> set m \<or> e \<in> set rs \<and> k = key e"
proof (induction rs arbitrary: m)
  case (Cons r rs)
  then have "(k, e) \<in> set (AList.update (key r) r m) \<or> e \<in> set rs \<and> k = key e" by simp
  moreover have "(k, e) \<in> set (AList.update (key r) r m) \<Longrightarrow> (k, e) \<in> set m \<or> e = r \<and> k = key r"
    by (induction m) (auto split: if_splits)
  ultimately show ?case by auto
qed simp

lemma collapse_entries:
  "set (collapse es) \<subseteq> set es" "entry_key ` set (collapse es) = entry_key ` set es"
  "distinct (map entry_key (collapse es))"
proof -
  let ?m = "foldl (\<lambda>m r. AList.update (entry_key r) r m) [] es"
  have pair: "e \<in> set es \<and> k = entry_key e" if "(k, e) \<in> set ?m" for k e
    using foldl_update_pairs [OF that] by simp
  then have keys: "map entry_key (map snd ?m) = map fst ?m" by auto
  show "set (collapse es) \<subseteq> set es" using pair by (auto simp: collapse_def)
  have "set (map entry_key (map snd ?m)) = entry_key ` set es"
    unfolding keys using foldl_update_keys(2) [of entry_key "[]" es] by simp
  then show "entry_key ` set (collapse es) = entry_key ` set es" by (simp add: collapse_def image_image)
  show "distinct (map entry_key (collapse es))"
    unfolding collapse_def keys by (rule foldl_update_keys(1)) simp
qed

section \<open>The transaction\<close>

definition row_key :: "scope_row \<Rightarrow> string \<times> string \<times> string" where
  "row_key r = (sr_effect r, sr_kind r, sr_value r)"

lemma replace_scope_OkE:
  assumes "replace_scope now d tid entries by = Ok (d', current)"
  obtains vs where "validated_all entries = Ok vs"
    "\<forall>v \<in> set vs. \<forall>g \<in> set (en_agent_groups v). (tid, g) \<in> set (sd_groups d)"
    "sd_scopes d' = filter (\<lambda>r. sr_tenant_id r \<noteq> tid) (sd_scopes d) @ map (new_scope_row tid by now) (collapse vs)"
    "current = rows_of (sd_scopes d') tid" "sd_groups d' = sd_groups d" "sd_tenants d' = sd_tenants d"
    "sd_audit d' = sd_audit d @ [\<lparr>ch_tenant_id = tid,
       ch_removed = fst (scope_diff (rows_of (sd_scopes d) tid) current),
       ch_before_count = length (rows_of (sd_scopes d) tid),
       ch_added = snd (scope_diff (rows_of (sd_scopes d) tid) current), ch_after_count = length current\<rparr>]"
proof -
  obtain vs where vs: "validated_all entries = Ok vs"
    using assms by (auto simp: replace_scope_def bindE_Ok_iff split: if_splits)
  let ?named = "sorted_set (concat (map en_agent_groups vs))"
  have known: "filter (\<lambda>n. n \<notin> set (lock_existing_names d tid ?named)) ?named = []"
    using assms vs by (auto simp: replace_scope_def Let_def split: if_splits)
  then have "\<forall>v \<in> set vs. \<forall>g \<in> set (en_agent_groups v). (tid, g) \<in> set (sd_groups d)"
    by (auto simp: lock_existing_names_def filter_empty_conv sorted_set_def)
  moreover obtain removed added where diff: "scope_diff (rows_of (sd_scopes d) tid)
      (rows_of (filter (\<lambda>r. sr_tenant_id r \<noteq> tid) (sd_scopes d) @ map (new_scope_row tid by now) (collapse vs)) tid)
      = (removed, added)" by (cases "scope_diff (rows_of (sd_scopes d) tid) (rows_of (filter (\<lambda>r. sr_tenant_id r \<noteq> tid)
      (sd_scopes d) @ map (new_scope_row tid by now) (collapse vs)) tid)")
  ultimately show thesis
    using that [OF vs] assms vs known by (auto simp: replace_scope_def Let_def split: if_splits)
qed

lemma distinct_map_sort_key: "distinct (map f (sort_key g xs)) = distinct (map f xs)"
  by (metis mset_eq_imp_distinct_iff mset_map mset_sort)

lemma rows_of_replaced:
  "rows_of (filter (\<lambda>r. sr_tenant_id r \<noteq> tid) tbl @ map (new_scope_row tid by now) es) tid
     = sort_key row_key (map (new_scope_row tid by now) es)"
proof -
  have "filter (\<lambda>r. sr_tenant_id r = tid) (map (new_scope_row tid by now) es) = map (new_scope_row tid by now) es"
    by (simp add: filter_map o_def new_scope_row_def)
  moreover have "filter (\<lambda>r. sr_tenant_id r = tid) (filter (\<lambda>r. sr_tenant_id r \<noteq> tid) tbl) = []" by simp
  moreover have "row_key = (\<lambda>r. (sr_effect r, sr_kind r, sr_value r))" by (rule ext) (simp add: row_key_def)
  ultimately show ?thesis unfolding rows_of_def by simp
qed

lemma row_key_new [simp]: "row_key (new_scope_row tid by now e) = entry_key e"
  by (simp add: row_key_def new_scope_row_def entry_key_def)

lemma stored_rows_ok:
  assumes "replace_scope now d tid entries by = Ok (d', current)" and "r \<in> set current"
  shows "\<exists>e. r = new_scope_row tid by now e \<and> entry_ok e
    \<and> (\<forall>g \<in> set (en_agent_groups e). (tid, g) \<in> set (sd_groups d'))"
  using assms(1)
proof (cases rule: replace_scope_OkE)
  case (1 vs)
  have cur: "current = sort_key row_key (map (new_scope_row tid by now) (collapse vs))"
    unfolding 1(4) 1(3) by (rule rows_of_replaced)
  obtain e where e: "r = new_scope_row tid by now e" "e \<in> set vs"
    using assms(2) collapse_entries(1) [of vs] unfolding cur by auto
  then show ?thesis using validated_all_ok [OF 1(1)] 1(2,5) by auto
qed

section \<open>A replacement on a small database\<close>

definition demo_entry :: "string \<Rightarrow> string \<Rightarrow> string \<Rightarrow> json list \<Rightarrow> (string \<times> json) list" where
  "demo_entry eff kind v groups =
     [(''effect'', JStr eff), (''kind'', JStr kind), (''value'', JStr v), (''agent_groups'', JArr groups)]"

definition demo_entries :: "(string \<times> json) list list" where
  "demo_entries =
     [demo_entry ''allow'' ''cidr'' ''10.9.8.7/8'' [JStr ''PCI''], demo_entry ''Deny'' ''cidr'' ''10.1.0.0/16'' [],
      demo_entry ''allow'' ''domain'' ''Example.com.'' [], demo_entry ''allow'' ''cidr'' ''*'' []]"

definition demo_scope_db :: scope_db where
  "demo_scope_db =
     \<lparr>sd_tenants = [\<lparr>t_tenant_id = ''t1'', t_status = ''active'', t_max_concurrent_scans = None,
        t_max_queued_scans = None\<rparr>],
      sd_groups = [(''t1'', ''pci'')], sd_scopes = [(demo_row ''allow'' ''domain'' ''*'' [])\<lparr>sr_tenant_id := ''t2''\<rparr>],
      sd_audit = []\<rparr>"

definition demo_written :: "scope_row list" where
  "demo_written =
     (let row = (\<lambda>eff kind v groups. (demo_row eff kind v groups)\<lparr>sr_approved_by := ''boss'', sr_approved_at := 5\<rparr>) in
      [row ''allow'' ''cidr'' ''*'' [], row ''allow'' ''cidr'' ''10.0.0.0/8'' [''pci''],
       row ''allow'' ''domain'' ''example.com'' [], row ''deny'' ''cidr'' ''10.1.0.0/16'' []])"

definition demo_scope_db' :: scope_db where
  "demo_scope_db' = (case replace_scope 5 demo_scope_db ''t1'' demo_entries ''boss'' of Inl _ \<Rightarrow> demo_scope_db | Inr (d, _) \<Rightarrow> d)"

lemma demo_replace: "replace_scope 5 demo_scope_db ''t1'' demo_entries ''boss'' = Ok (demo_scope_db', demo_written)"
  by code_simp

section \<open>Properties\<close>

text \<open>
  C34. A replacement stores what was validated and nothing else: the tenant's rows are one per
  distinct (effect, kind, value) submitted, each stamped with this approval, each with a
  normalised value and, if it names agent groups, an allow entry whose groups the tenant has;
  the rows of every other tenant are untouched.
\<close>

theorem replaced_scope_is_what_was_approved:
  assumes "replace_scope now d tid entries by = Ok (d', current)"
  shows "(\<forall>other. other \<noteq> tid \<longrightarrow> rows_of (sd_scopes d') other = rows_of (sd_scopes d) other)
    \<and> current = rows_of (sd_scopes d') tid \<and> distinct (map row_key current)
    \<and> (\<exists>vs. validated_all entries = Ok vs \<and> set (map row_key current) = entry_key ` set vs)
    \<and> (\<forall>r \<in> set current. sr_tenant_id r = tid \<and> sr_approved_by r = by \<and> sr_approved_at r = now
         \<and> value_ok (sr_kind r) (sr_value r) \<and> (sr_effect r = EFFECT_DENY \<longrightarrow> sr_agent_groups r = [])
         \<and> (\<forall>g \<in> set (sr_agent_groups r). (tid, g) \<in> set (sd_groups d')))"
  using assms
proof (cases rule: replace_scope_OkE)
  case (1 vs)
  let ?new = "map (new_scope_row tid by now) (collapse vs)"
  have cur: "current = sort_key row_key ?new" unfolding 1(4) 1(3) by (rule rows_of_replaced)
  have other: "rows_of (sd_scopes d') o' = rows_of (sd_scopes d) o'" if "o' \<noteq> tid" for o'
  proof -
    have "filter (\<lambda>r. sr_tenant_id r = o') (sd_scopes d') = filter (\<lambda>r. sr_tenant_id r = o') (sd_scopes d)"
      unfolding 1(3) using that by (auto simp: filter_map o_def new_scope_row_def intro: filter_cong)
    then show ?thesis by (simp add: rows_of_def)
  qed
  have "map row_key ?new = map entry_key (collapse vs)" by (simp add: comp_def)
  then have "distinct (map row_key ?new)" "set (map row_key ?new) = entry_key ` set vs"
    using collapse_entries(2,3) [of vs] by (simp_all only: set_map)
  then have keys: "distinct (map row_key current)" "set (map row_key current) = entry_key ` set vs"
    unfolding cur by (simp_all only: distinct_map_sort_key set_map set_sort)
  have "sr_tenant_id r = tid \<and> sr_approved_by r = by \<and> sr_approved_at r = now
      \<and> value_ok (sr_kind r) (sr_value r) \<and> (sr_effect r = EFFECT_DENY \<longrightarrow> sr_agent_groups r = [])
      \<and> (\<forall>g \<in> set (sr_agent_groups r). (tid, g) \<in> set (sd_groups d'))" if "r \<in> set current" for r
    using stored_rows_ok [OF assms that] by (auto simp: new_scope_row_def entry_ok_def)
  then show ?thesis using other keys 1(1,4) by blast
qed

theorem replaced_scope_is_what_was_approved_witness:
  "replace_scope 5 demo_scope_db ''t1'' demo_entries ''boss'' = Ok (demo_scope_db', demo_written)
     \<and> rows_of (sd_scopes demo_scope_db') ''t2'' = rows_of (sd_scopes demo_scope_db) ''t2''
     \<and> distinct (map row_key demo_written)"
  using demo_replace replaced_scope_is_what_was_approved [OF demo_replace] by simp

lemma selected_keys:
  assumes "\<And>k e. (k, e) \<in> set m \<Longrightarrow> k = sig e"
  shows "sig ` set (map snd (filter (\<lambda>(k, e). k \<notin> B) m)) = fst ` set m - B"
proof (intro equalityI subsetI)
  fix x assume "x \<in> fst ` set m - B"
  then obtain e where e: "(x, e) \<in> set m" "x \<notin> B" by auto
  then have "e \<in> set (map snd (filter (\<lambda>(k, e). k \<notin> B) m))" by force
  then show "x \<in> sig ` set (map snd (filter (\<lambda>(k, e). k \<notin> B) m))" using assms [OF e(1)] by blast
qed (use assms in force)

text \<open>
  The audit row records exactly what a replacement changed: an entry is listed as removed
  when the scope before had it and the scope after has not, and as added the other way round,
  where entries are compared by effect, kind, value, note and groups.
\<close>

theorem audit_diff_is_exact:
  "entry_signature ` set (fst (scope_diff before after)) = entry_signature ` set before - entry_signature ` set after
   \<and> entry_signature ` set (snd (scope_diff before after)) = entry_signature ` set after - entry_signature ` set before
   \<and> set (fst (scope_diff before after)) \<subseteq> set before \<and> set (snd (scope_diff before after)) \<subseteq> set after"
proof -
  let ?m = "\<lambda>rs. foldl (\<lambda>m r. AList.update (entry_signature r) r m) [] rs"
  have pair: "e \<in> set rs \<and> k = entry_signature e" if "(k, e) \<in> set (?m rs)" for k e rs
    using foldl_update_pairs [OF that] by simp
  have keys: "fst ` set (?m rs) = entry_signature ` set rs" for rs
    using foldl_update_keys(2) [of entry_signature "[]" rs] by simp
  have none: "map_of (?m rs) k = None \<longleftrightarrow> k \<notin> entry_signature ` set rs" for rs k
    using keys by (simp add: map_of_eq_None_iff)
  have sel: "entry_signature ` set (map snd (filter (\<lambda>(k, e). k \<notin> entry_signature ` set bs) (?m as)))
      = entry_signature ` set as - entry_signature ` set bs" for as bs
    using selected_keys [of "?m as" entry_signature "entry_signature ` set bs"] pair unfolding keys by blast
  have sub: "set (map snd (filter P (?m as))) \<subseteq> set as" for P as
    by (auto dest: pair [THEN conjunct1])
  show ?thesis using sel sub unfolding scope_diff_def Let_def none fst_conv snd_conv by blast
qed



text \<open>
  The exception: the regular expression of a domain allows a final line feed, and
  normalisation removes the dot behind it. Such a deny entry is stored, refuses nothing on the
  control plane, and comes back from the document as the name without the line feed.
\<close>

lemma line_feed_entry_drifts:
  "normalized_value KIND_DOMAIN (''secret.example.com'' @ [CHR 0x0A, CHR ''.'']) = Ok (''secret.example.com'' @ [CHR 0x0A])
   \<and> \<not> suffix_matches ''secret.example.com'' (''secret.example.com'' @ [CHR 0x0A])
   \<and> read_entry (entry_document EFFECT_DENY KIND_DOMAIN (''secret.example.com'' @ [CHR 0x0A]))
       = Name True ''secret.example.com''"
  by (intro conjI) code_simp+

end
