(* ===== verification/Scope_Selection.thy ===== *)
theory Scope_Selection
  imports Scope_Properties
begin

text \<open>
  Which agents may execute a scan. The loop of \<open>required_agent_groups\<close> is compared with its
  reading, "the narrowest entries covering a target decide", and the group a scan is given is
  shown to be one every target permits.
\<close>

section \<open>The reference: the narrowest covering entries\<close>

definition covering_rows :: "scope_row list \<Rightarrow> string \<Rightarrow> scope_row set" where
  "covering_rows rows target = {r \<in> set rows. row_covers target (target_kind target) r}"

definition narrowest_rows :: "scope_row list \<Rightarrow> string \<Rightarrow> scope_row set" where
  "narrowest_rows rows target =
     {r \<in> covering_rows rows target. \<forall>r' \<in> covering_rows rows target. specificity r' \<le> specificity r}"

definition narrowest_groups :: "scope_row list \<Rightarrow> string \<Rightarrow> string set option" where
  "narrowest_groups rows target =
     (if narrowest_rows rows target = {} \<or> (\<exists>r \<in> narrowest_rows rows target. sr_agent_groups r = []) then None
      else Some (\<Union>r \<in> narrowest_rows rows target. set (sr_agent_groups r)))"

text \<open>The state of the loop after some rows.\<close>

definition weighed :: "scope_row list \<Rightarrow> string \<Rightarrow> int \<times> string set \<times> bool \<Rightarrow> bool" where
  "weighed rows target acc \<longleftrightarrow>
     (let C = covering_rows rows target; N = {r \<in> C. specificity r = fst acc} in
      (C = {} \<longrightarrow> fst acc = -1) \<and> (C \<noteq> {} \<longrightarrow> N \<noteq> {}) \<and> (\<forall>r \<in> C. specificity r \<le> fst acc)
      \<and> fst (snd acc) = (\<Union>r \<in> N. set (sr_agent_groups r)) \<and> snd (snd acc) = (\<exists>r \<in> N. sr_agent_groups r = []))"

lemma specificity_nonneg: "0 \<le> specificity r"
  by (auto simp: specificity_def split: option.split)

lemma covering_snoc:
  "covering_rows (rows @ [row]) target =
     (if row_covers target (target_kind target) row then insert row (covering_rows rows target)
      else covering_rows rows target)"
  by (auto simp: covering_rows_def)

lemma weigh_step:
  assumes "weighed rows target acc"
  shows "weighed (rows @ [row]) target (weigh target (target_kind target) acc row)"
proof -
  obtain best cov unr where acc: "acc = (best, cov, unr)" by (cases acc)
  let ?C = "covering_rows rows target" and ?rank = "specificity row"
  have w: "?C = {} \<longrightarrow> best = -1" "?C \<noteq> {} \<longrightarrow> (\<exists>r \<in> ?C. specificity r = best)" "\<forall>r \<in> ?C. specificity r \<le> best"
    "cov = (\<Union>r \<in> {r \<in> ?C. specificity r = best}. set (sr_agent_groups r))"
    "unr = (\<exists>r \<in> {r \<in> ?C. specificity r = best}. sr_agent_groups r = [])"
    using assms unfolding weighed_def acc Let_def fst_conv snd_conv by blast+
  consider "\<not> row_covers target (target_kind target) row"
    | "row_covers target (target_kind target) row" "?rank < best"
    | "row_covers target (target_kind target) row" "?rank = best"
    | "row_covers target (target_kind target) row" "?rank > best" by linarith
  then show ?thesis
  proof cases
    case 1
    then show ?thesis using assms by (simp add: weighed_def weigh_def covering_snoc acc)
  next
    case 2
    then have "{r \<in> insert row ?C. specificity r = best} = {r \<in> ?C. specificity r = best}" by auto
    then show ?thesis using 2 w specificity_nonneg [of row]
      unfolding weighed_def weigh_def covering_snoc acc Let_def by (auto split: prod.splits)
  next
    case 3
    then have "{r \<in> insert row ?C. specificity r = best} = insert row {r \<in> ?C. specificity r = best}" by auto
    then show ?thesis using 3 w
      unfolding weighed_def weigh_def covering_snoc acc Let_def by (auto split: prod.splits)
  next
    case 4
    then have "{r \<in> insert row ?C. specificity r = ?rank} = {row}" using w(3) by auto
    then show ?thesis using 4 w
      unfolding weighed_def weigh_def covering_snoc acc Let_def by (auto split: prod.splits)
  qed
qed

lemma weighed_foldl: "weighed rows target (foldl (weigh target (target_kind target)) (-1, {}, False) rows)"
proof (induction rows rule: rev_induct)
  case Nil
  then show ?case by (simp add: weighed_def covering_rows_def)
next
  case (snoc row rows)
  then show ?case using weigh_step by simp
qed

lemma permitted_groups_eq: "permitted_groups rows target = narrowest_groups rows target"
proof -
  obtain best cov unr where e: "foldl (weigh target (target_kind target)) (-1, {}, False) rows = (best, cov, unr)"
    by (cases "foldl (weigh target (target_kind target)) (-1, {}, False) rows")
  let ?C = "covering_rows rows target" and ?N = "{r \<in> covering_rows rows target. specificity r = best}"
  have w: "?C \<noteq> {} \<longrightarrow> ?N \<noteq> {}" "\<forall>r \<in> ?C. specificity r \<le> best"
    "cov = (\<Union>r \<in> ?N. set (sr_agent_groups r))" "unr = (\<exists>r \<in> ?N. sr_agent_groups r = [])"
    using weighed_foldl [of rows target] unfolding weighed_def e Let_def fst_conv snd_conv by blast+
  have N: "narrowest_rows rows target = ?N"
  proof (intro equalityI subsetI)
    fix r assume "r \<in> narrowest_rows rows target"
    then have r: "r \<in> ?C" "\<forall>r' \<in> ?C. specificity r' \<le> specificity r" by (auto simp: narrowest_rows_def)
    then obtain m where m: "m \<in> ?C" "specificity m = best" using w(1) by auto
    then have "best \<le> specificity r" using r(2) by blast
    then show "r \<in> ?N" using r(1) w(2) by force
  qed (use w(2) in \<open>auto simp: narrowest_rows_def\<close>)
  have "cov = {} \<longleftrightarrow> (\<forall>r \<in> ?N. sr_agent_groups r = [])" unfolding w(3) by auto
  then have "unr \<or> cov = {} \<longleftrightarrow> ?N = {} \<or> unr" unfolding w(4) by blast
  then show ?thesis unfolding permitted_groups_def narrowest_groups_def e N using w(3,4) by simp
qed

section \<open>Every target at once\<close>

lemma narrow_bound:
  "foldl (\<lambda>req t. narrow req (permitted t)) acc ts = Some R \<Longrightarrow>
     (\<forall>A. acc = Some A \<longrightarrow> R \<subseteq> A) \<and> (\<forall>t \<in> set ts. \<forall>P. permitted t = Some P \<longrightarrow> R \<subseteq> P)"
proof (induction ts arbitrary: acc)
  case (Cons t ts)
  have IH: "(\<forall>A. narrow acc (permitted t) = Some A \<longrightarrow> R \<subseteq> A) \<and> (\<forall>t \<in> set ts. \<forall>P. permitted t = Some P \<longrightarrow> R \<subseteq> P)"
    using Cons.IH [of "narrow acc (permitted t)"] Cons.prems by simp
  have below: "R \<subseteq> A" if "acc = Some A" for A
    using IH that by (cases "permitted t") (auto simp: narrow_def)
  have "R \<subseteq> P" if "permitted t = Some P" for P
    using IH that by (cases acc) (auto simp: narrow_def)
  then show ?case using IH below by simp
qed simp

lemma narrow_None:
  "foldl (\<lambda>req t. narrow req (permitted t)) acc ts = None \<Longrightarrow> acc = None \<and> (\<forall>t \<in> set ts. permitted t = None)"
proof (induction ts arbitrary: acc)
  case (Cons t ts)
  have "narrow acc (permitted t) = None \<and> (\<forall>t \<in> set ts. permitted t = None)"
    using Cons.prems by (intro Cons.IH) simp
  then show ?case by (cases acc; cases "permitted t") (auto simp: narrow_def)
qed simp

abbreviation allow_rows :: "scope_row list \<Rightarrow> string \<Rightarrow> scope_row list" where
  "allow_rows tbl tid \<equiv> filter (\<lambda>r. sr_effect r = EFFECT_ALLOW) (rows_of tbl tid)"

lemma unrestricted_rows:
  assumes "\<not> list_ex (\<lambda>r. sr_agent_groups r \<noteq> []) rows"
  shows "narrowest_groups rows target = None"
  using assms by (auto simp: narrowest_groups_def narrowest_rows_def covering_rows_def list_ex_iff)

lemma required_agent_groups_bound:
  assumes "target \<in> set (split_target_lines rt @ split_target_lines dt)"
    and "narrowest_groups (allow_rows tbl tid) target = Some P"
  shows "\<exists>R. required_agent_groups tbl tid rt dt = Some R \<and> R \<subseteq> P"
proof -
  have "list_ex (\<lambda>r. sr_agent_groups r \<noteq> []) (allow_rows tbl tid)"
    using unrestricted_rows assms(2) by fastforce
  moreover have "split_target_lines rt @ split_target_lines dt \<noteq> []" using assms(1) by auto
  ultimately have e: "required_agent_groups tbl tid rt dt
      = foldl (\<lambda>req t. narrow req (permitted_groups (allow_rows tbl tid) t)) None
          (split_target_lines rt @ split_target_lines dt)"
    unfolding required_agent_groups_def Let_def by presburger
  show ?thesis
  proof (cases "required_agent_groups tbl tid rt dt")
    case None
    then show ?thesis using narrow_None assms unfolding e permitted_groups_eq by fastforce
  next
    case (Some R)
    then show ?thesis using narrow_bound assms unfolding e permitted_groups_eq by blast
  qed
qed

lemma resolve_for_scan_group:
  assumes "resolve_for_scan groups tid requested required = Ok g"
  shows "(\<forall>n. g = Some n \<longrightarrow> (tid, n) \<in> set groups)
    \<and> (\<forall>R. required = Some R \<longrightarrow> finite R \<longrightarrow> (\<exists>n \<in> R. g = Some n))"
proof -
  have one: "R = {n}" if "sorted_list_of_set R = [n]" "finite R" for R :: "string set" and n
    using that set_sorted_list_of_set by fastforce
  show ?thesis using assms unfolding resolve_for_scan_def
    by (auto simp: bindE_Ok_iff split: if_splits option.splits list.splits dest: one)
qed

lemma finite_permitted: "permitted_groups rows target = Some P \<Longrightarrow> finite P"
  unfolding permitted_groups_eq narrowest_groups_def narrowest_rows_def covering_rows_def
  by (auto split: if_splits)

lemma finite_required:
  assumes "required_agent_groups tbl tid rt dt = Some R"
  shows "finite R"
proof -
  have step: "finite R" if "foldl (\<lambda>req t. narrow req (permitted_groups rows t)) acc ts = Some R"
    "\<forall>A. acc = Some A \<longrightarrow> finite A" for acc ts and rows :: "scope_row list"
    using that
  proof (induction ts arbitrary: acc)
    case (Cons t ts)
    have "\<forall>A. narrow acc (permitted_groups rows t) = Some A \<longrightarrow> finite A"
      using Cons.prems(2) finite_permitted [of rows t] by (cases acc; cases "permitted_groups rows t") (auto simp: narrow_def)
    then show ?case using Cons.prems(1) by (intro Cons.IH) simp_all
  qed simp
  have "foldl (\<lambda>req t. narrow req (permitted_groups (allow_rows tbl tid) t)) None
      (split_target_lines rt @ split_target_lines dt) = Some R"
    using assms unfolding required_agent_groups_def Let_def by (simp only: option.distinct split: if_splits)
  then show ?thesis by (rule step) simp
qed

section \<open>Properties\<close>

text \<open>
  C31. The narrowest entry decides: the groups the loop permits for a target are those of the
  most specific allow entries covering it, and there is no restriction when one of these
  names no group or when nothing covers the target.
\<close>

theorem narrowest_entry_decides: "permitted_groups rows target = narrowest_groups rows target"
  by (rule permitted_groups_eq)

text \<open>
  A scan runs where every one of its targets may be scanned from: when the narrowest
  entries covering a target restrict it to agent groups, the group the scan is given is one of
  them, and whatever group it is given is a group of the tenant.
\<close>

theorem scan_group_is_permitted:
  assumes "resolve_for_scan groups tid requested (required_agent_groups tbl tid rt dt) = Ok g"
  shows "(\<forall>n. g = Some n \<longrightarrow> (tid, n) \<in> set groups)
    \<and> (\<forall>target \<in> set (split_target_lines rt @ split_target_lines dt).
         \<forall>P. narrowest_groups (filter (\<lambda>r. sr_effect r = EFFECT_ALLOW) (rows_of tbl tid)) target = Some P
           \<longrightarrow> (\<exists>n \<in> P. g = Some n))"
proof -
  note r = resolve_for_scan_group [OF assms]
  have "\<exists>n \<in> P. g = Some n" if t: "target \<in> set (split_target_lines rt @ split_target_lines dt)"
    and P: "narrowest_groups (allow_rows tbl tid) target = Some P" for target P
  proof -
    obtain R where R: "required_agent_groups tbl tid rt dt = Some R" "R \<subseteq> P"
      using required_agent_groups_bound [OF t P] by blast
    then show ?thesis using r finite_required [OF R(1)] by blast
  qed
  then show ?thesis using r by blast
qed

theorem scan_group_is_permitted_witness:
  "resolve_for_scan [(''t1'', ''pci'')] ''t1'' None (required_agent_groups demo_rows ''t1'' (Some ''10.3.7.0/24'') None)
     = Ok (Some ''pci'')
   \<and> (''t1'', ''pci'') \<in> set [(''t1'', ''pci'')]"
proof -
  have e: "resolve_for_scan [(''t1'', ''pci'')] ''t1'' None
      (required_agent_groups demo_rows ''t1'' (Some ''10.3.7.0/24'') None) = Ok (Some ''pci'')"
    by code_simp
  then show ?thesis using scan_group_is_permitted [OF e] by simp
qed

end
