(* ===== verification/Promoted_Domains.thy ===== *)
theory Promoted_Domains
  imports Scope_Properties
begin

text \<open>
  Related domains an operator promoted into a tenant's scans,
  \<^verbatim>\<open>api/services/promoted_domains.py\<close>: the table, the two writes with the journal entry each
  leaves, and the split a scan start makes of the promoted names under the scope of that
  moment. The row lost in a race is the winner's row, so an insert is "unless present".
\<close>

section \<open>The table\<close>

record promoted_domain =
  pd_tenant_id :: string
  pd_domain :: string
  pd_source_run_id :: string
  pd_promoted_by :: string
  pd_promoted_at :: int

datatype trust_change =
    PromotedDomainAdded string string string string
  | PromotedDomainWithdrawn string promoted_domain

record promotions =
  pr_rows :: "promoted_domain list"
  pr_journal :: "trust_change list"

definition promoted_row :: "promotions \<Rightarrow> string \<Rightarrow> string \<Rightarrow> promoted_domain option" where
  "promoted_row d tid name = find (\<lambda>r. pd_tenant_id r = tid \<and> pd_domain r = name) (pr_rows d)"

definition promote ::
  "bool \<Rightarrow> (string \<Rightarrow> string list option) \<Rightarrow> int \<Rightarrow> scope_row list \<Rightarrow> promotions \<Rightarrow>
   string \<Rightarrow> string \<Rightarrow> string \<Rightarrow> string \<Rightarrow> scope_error + (promotions \<times> promoted_domain)" where
  "promote resolve_check resolver now tbl d tid raw run by =
     (let name = normalize_domain raw; scope = load_scope tbl tid in
      bindE (check_targets scope [] [name]) (\<lambda>_.
        let resolved = resolution_refusals resolve_check resolver scope [name] in
        if resolved \<noteq> [] then
          Err (ScanScopeDenied tid (''targets resolve into a denied range for tenant '' @ tid @ '': ''
            @ join_with '', '' (map snd resolved)) (map snd resolved))
        else case promoted_row d tid name of
          Some row \<Rightarrow> Ok (d, row)
        | None \<Rightarrow>
            let row = \<lparr>pd_tenant_id = tid, pd_domain = name, pd_source_run_id = take 200 run,
                       pd_promoted_by = take 200 by, pd_promoted_at = now\<rparr> in
            Ok (d\<lparr>pr_rows := pr_rows d @ [row],
                  pr_journal := pr_journal d @ [PromotedDomainAdded by tid name run]\<rparr>, row)))"

definition withdraw :: "promotions \<Rightarrow> string \<Rightarrow> string \<Rightarrow> string \<Rightarrow> promotions \<times> bool" where
  "withdraw d tid raw by =
     (let name = normalize_domain raw in
      case promoted_row d tid name of
        None \<Rightarrow> (d, False)
      | Some row \<Rightarrow>
          (d\<lparr>pr_rows := filter (\<lambda>r. \<not> (pd_tenant_id r = tid \<and> pd_domain r = name)) (pr_rows d),
             pr_journal := pr_journal d @ [PromotedDomainWithdrawn by row]\<rparr>, True))"

definition promoted_names :: "promotions \<Rightarrow> string \<Rightarrow> string list" where
  "promoted_names d tid = sort (map pd_domain (filter (\<lambda>r. pd_tenant_id r = tid) (pr_rows d)))"

definition drop_resolved :: "string list \<times> string list \<Rightarrow> string \<times> string \<Rightarrow> string list \<times> string list" where
  "drop_resolved acc hit = (filter (\<lambda>item. item \<noteq> fst hit) (fst acc), snd acc @ [snd hit])"

definition split_for_scan ::
  "bool \<Rightarrow> (string \<Rightarrow> string list option) \<Rightarrow> scan_scope \<Rightarrow> string list \<Rightarrow> string list \<times> string list" where
  "split_for_scan resolve_check resolver scope domains =
     (let result = filter_names scope domains in
      foldl drop_resolved (fst result, snd result)
        (resolution_refusals resolve_check resolver scope (fst result)))"

section \<open>Lemmas\<close>

lemma foldl_drop_resolved:
  "fst (foldl drop_resolved acc hits) = filter (\<lambda>item. item \<notin> fst ` set hits) (fst acc)"
proof (induction hits arbitrary: acc)
  case (Cons h hits)
  then show ?case by (auto simp: drop_resolved_def intro: filter_cong)
qed simp

text \<open>The table holds, per tenant, distinct names in the form a scan compares.\<close>

definition promotions_ok :: "promotions \<Rightarrow> bool" where
  "promotions_ok d \<longleftrightarrow> distinct (map (\<lambda>r. (pd_tenant_id r, pd_domain r)) (pr_rows d))"

lemma promoted_row_None: "promoted_row d tid name = None \<longleftrightarrow> (tid, name) \<notin> (\<lambda>r. (pd_tenant_id r, pd_domain r)) ` set (pr_rows d)"
  by (auto simp: promoted_row_def find_None_iff image_iff)

lemma promote_stored:
  assumes "promote resolve_check resolver now tbl d tid raw run by = Ok (d', row)"
  shows "promotions_ok d \<Longrightarrow> promotions_ok d'" "rejects_domain (load_scope tbl tid) (normalize_domain raw) = None"
    "set (pr_rows d) \<subseteq> set (pr_rows d')" "\<exists>r \<in> set (pr_rows d'). pd_tenant_id r = tid \<and> pd_domain r = normalize_domain raw"
proof -
  have c: "check_targets (load_scope tbl tid) [] [normalize_domain raw] = Ok ()"
    using assms by (auto simp: promote_def Let_def bindE_Ok_iff)
  then show "rejects_domain (load_scope tbl tid) (normalize_domain raw) = None" by (simp add: check_targets_Ok)
  consider "d' = d" "promoted_row d tid (normalize_domain raw) = Some row"
    | j where "promoted_row d tid (normalize_domain raw) = None" "pr_rows d' = pr_rows d @ [row]"
        "pd_tenant_id row = tid" "pd_domain row = normalize_domain raw"
    using assms by (auto simp: promote_def Let_def bindE_Ok_iff split: if_splits option.splits)
  note cases = this
  show "promotions_ok d \<Longrightarrow> promotions_ok d'"
    using cases by cases (auto simp: promotions_ok_def promoted_row_None)
  show "set (pr_rows d) \<subseteq> set (pr_rows d')" using cases by cases auto
  show "\<exists>r \<in> set (pr_rows d'). pd_tenant_id r = tid \<and> pd_domain r = normalize_domain raw"
    using cases by cases (auto simp: promoted_row_def dest: find_SomeD)
qed

lemma withdraw_stored:
  "promoted_row (fst (withdraw d tid raw by)) tid (normalize_domain raw) = None"
  "promotions_ok d \<Longrightarrow> promotions_ok (fst (withdraw d tid raw by))"
  by (auto simp: withdraw_def Let_def promoted_row_None promotions_ok_def image_iff distinct_map inj_on_def split: option.split)

section \<open>Properties\<close>

text \<open>
  Promoted domains join a scan only while the scope covers them: of the promoted names, in
  stored form, a scan start admits in order exactly those the scope accepts and, with the
  resolve-time check on, whose addresses meet no denied range.
\<close>

theorem promoted_names_admitted:
  assumes "\<forall>n \<in> set names. normalize_domain n = n"
  shows "fst (split_for_scan resolve_check resolver (load_scope tbl tid) names)
    = filter (\<lambda>n. rejects_domain (load_scope tbl tid) n = None
        \<and> \<not> (resolve_check \<and> resolves_denied resolver (load_scope tbl tid) n)) names"
proof -
  let ?s = "load_scope tbl tid"
  let ?kept = "filter (\<lambda>n. rejects_domain ?s n = None) names"
  have "(case rejects_domain ?s n of None \<Rightarrow> True | Some r \<Rightarrow> False \<and> \<not> denied_reason r) = (rejects_domain ?s n = None)" for n
    by (simp split: option.split)
  then have kept: "fst (filter_names ?s names) = ?kept"
    by (simp add: filter_names_def filter_targets_filter(1))
  have "map normalize_domain ?kept = ?kept" using assms by (auto intro: map_idI)
  then have "fst ` set (resolution_refusals resolve_check resolver ?s ?kept)
      = {n \<in> set ?kept. resolve_check \<and> resolves_denied resolver ?s n}"
    using resolution_names [OF wf_load_scope, of resolver tbl tid ?kept]
    by (cases resolve_check) (simp_all add: resolution_refusals_def)
  then show ?thesis
    unfolding split_for_scan_def Let_def kept foldl_drop_resolved fst_conv
    by (auto intro: filter_cong)
qed

theorem promoted_names_admitted_witness:
  "filter (\<lambda>n. rejects_domain (load_scope demo_rows ''t1'') n = None
        \<and> \<not> (True \<and> resolves_denied (\<lambda>n. Some (if n = ''a.example.com'' then [''10.1.0.9''] else [])) (load_scope demo_rows ''t1'') n))
       [''a.example.com'', ''b.example.com'', ''c.org''] = [''b.example.com'']"
proof -
  have "\<forall>n \<in> set [''a.example.com'', ''b.example.com'', ''c.org'']. normalize_domain n = n" by code_simp
  note promoted_names_admitted [OF this, of True "\<lambda>n. Some (if n = ''a.example.com'' then [''10.1.0.9''] else [])" demo_rows "''t1''"]
  moreover have "fst (split_for_scan True (\<lambda>n. Some (if n = ''a.example.com'' then [''10.1.0.9''] else []))
      (load_scope demo_rows ''t1'') [''a.example.com'', ''b.example.com'', ''c.org'']) = [''b.example.com'']"
    unfolding demo_scope_loaded by code_simp
  ultimately show ?thesis by simp
qed

end
