(* ===== verification/Vuln_States.thy ===== *)
theory Vuln_States
  imports Prelude
begin

text \<open>
  The two state machines of \<^verbatim>\<open>api/services/vuln_states.py\<close>: the remediation lifecycle of a
  finding and the accepted-risk workflow beside it. States are strings, as in the columns;
  a refused move is a \<open>vuln_error\<close>, shared by the services above (a \<^verbatim>\<open>ValueError\<close>, a
  \<^verbatim>\<open>PermissionError\<close> and the dispatch error of a verification are further constructors).
\<close>

section \<open>The remediation lifecycle\<close>

definition OPEN :: string where "OPEN = ''OPEN''"
definition ACKNOWLEDGED :: string where "ACKNOWLEDGED = ''ACKNOWLEDGED''"
definition PLANNED :: string where "PLANNED = ''PLANNED''"
definition FIXING :: string where "FIXING = ''FIXING''"
definition VERIFYING :: string where "VERIFYING = ''VERIFYING''"
definition CLOSED :: string where "CLOSED = ''CLOSED''"

definition VULN_TRANSITIONS :: "(string \<times> string list) list" where
  "VULN_TRANSITIONS =
     [(OPEN, [ACKNOWLEDGED, PLANNED, FIXING, CLOSED]),
      (ACKNOWLEDGED, [PLANNED, FIXING, CLOSED]),
      (PLANNED, [ACKNOWLEDGED, FIXING, CLOSED]),
      (FIXING, [PLANNED, VERIFYING, CLOSED]),
      (VERIFYING, [FIXING, CLOSED]),
      (CLOSED, [OPEN])]"

definition VULN_ALL :: "string list" where
  "VULN_ALL = map fst VULN_TRANSITIONS"

text \<open>
  The exceptions of the vulnerability services. The first three carry the finding and the
  states of the refused move; \<open>ValueRefused\<close>, \<open>PermissionRefused\<close> and \<open>DispatchRefused\<close>
  carry the reason of a \<^verbatim>\<open>ValueError\<close>, a \<^verbatim>\<open>PermissionError\<close> and a
  \<^verbatim>\<open>VerificationDispatchError\<close>; \<open>ReconciliationRequired\<close> the job and its status;
  \<open>MultipleRows\<close> is \<^verbatim>\<open>scalar_one_or_none\<close> finding more than one row.
\<close>

datatype vuln_error =
    UnknownState string string
  | IllegalVulnMove string string string
  | InvalidException string string string
  | ValueRefused string
  | PermissionRefused string
  | DispatchRefused string
  | ReconciliationRequired string string
  | MultipleRows

definition vuln_can_transition :: "string \<Rightarrow> string \<Rightarrow> bool" where
  "vuln_can_transition current new = (new \<in> set (or_else (map_of VULN_TRANSITIONS current) []))"

definition vuln_check_transition :: "string \<Rightarrow> string \<Rightarrow> string \<Rightarrow> vuln_error + unit" where
  "vuln_check_transition vuln_id current new =
     (if new \<notin> set VULN_ALL then Err (UnknownState vuln_id new)
      else if \<not> vuln_can_transition current new then Err (IllegalVulnMove vuln_id current new)
      else Ok ())"

section \<open>The accepted-risk workflow\<close>

definition EXCEPTION_NONE :: string where "EXCEPTION_NONE = ''none''"
definition EXCEPTION_REQUESTED :: string where "EXCEPTION_REQUESTED = ''exception_requested''"
definition EXCEPTION_APPROVED :: string where "EXCEPTION_APPROVED = ''exception_approved''"
definition EXCEPTION_REJECTED :: string where "EXCEPTION_REJECTED = ''exception_rejected''"
definition EXCEPTION_EXPIRED :: string where "EXCEPTION_EXPIRED = ''exception_expired''"

definition EXCEPTION_TRANSITIONS :: "(string \<times> string list) list" where
  "EXCEPTION_TRANSITIONS =
     [(EXCEPTION_NONE, [EXCEPTION_REQUESTED]),
      (EXCEPTION_REQUESTED,
        [EXCEPTION_APPROVED, EXCEPTION_REJECTED, EXCEPTION_NONE, EXCEPTION_REQUESTED]),
      (EXCEPTION_APPROVED, [EXCEPTION_EXPIRED, EXCEPTION_NONE, EXCEPTION_REQUESTED]),
      (EXCEPTION_REJECTED, [EXCEPTION_REQUESTED, EXCEPTION_NONE]),
      (EXCEPTION_EXPIRED, [EXCEPTION_REQUESTED, EXCEPTION_NONE])]"

text \<open>\<^verbatim>\<open>current or EXCEPTION_NONE\<close>: an empty column reads as no acceptance.\<close>

definition or_none :: "string \<Rightarrow> string" where
  "or_none current = (if current = [] then EXCEPTION_NONE else current)"

definition can_transition_exception :: "string \<Rightarrow> string \<Rightarrow> bool" where
  "can_transition_exception current new =
     (new \<in> set (or_else (map_of EXCEPTION_TRANSITIONS (or_none current)) []))"

definition check_exception_transition :: "string \<Rightarrow> string \<Rightarrow> string \<Rightarrow> vuln_error + unit" where
  "check_exception_transition vuln_id current new =
     (if new \<notin> set (map fst EXCEPTION_TRANSITIONS) then Err (UnknownState vuln_id new)
      else if \<not> can_transition_exception current new
      then Err (InvalidException vuln_id (or_none current) new) else Ok ())"

section \<open>Facts the other components use\<close>

lemmas vuln_state_defs = OPEN_def ACKNOWLEDGED_def PLANNED_def FIXING_def VERIFYING_def CLOSED_def

lemmas exception_state_defs = EXCEPTION_NONE_def EXCEPTION_REQUESTED_def EXCEPTION_APPROVED_def
  EXCEPTION_REJECTED_def EXCEPTION_EXPIRED_def

lemma vuln_state_distinct [simp]:
  "OPEN \<noteq> ACKNOWLEDGED" "OPEN \<noteq> PLANNED" "OPEN \<noteq> FIXING" "OPEN \<noteq> VERIFYING" "OPEN \<noteq> CLOSED"
  "ACKNOWLEDGED \<noteq> OPEN" "ACKNOWLEDGED \<noteq> PLANNED" "ACKNOWLEDGED \<noteq> FIXING"
  "ACKNOWLEDGED \<noteq> VERIFYING" "ACKNOWLEDGED \<noteq> CLOSED"
  "PLANNED \<noteq> OPEN" "PLANNED \<noteq> ACKNOWLEDGED" "PLANNED \<noteq> FIXING" "PLANNED \<noteq> VERIFYING"
  "PLANNED \<noteq> CLOSED"
  "FIXING \<noteq> OPEN" "FIXING \<noteq> ACKNOWLEDGED" "FIXING \<noteq> PLANNED" "FIXING \<noteq> VERIFYING"
  "FIXING \<noteq> CLOSED"
  "VERIFYING \<noteq> OPEN" "VERIFYING \<noteq> ACKNOWLEDGED" "VERIFYING \<noteq> PLANNED" "VERIFYING \<noteq> FIXING"
  "VERIFYING \<noteq> CLOSED"
  "CLOSED \<noteq> OPEN" "CLOSED \<noteq> ACKNOWLEDGED" "CLOSED \<noteq> PLANNED" "CLOSED \<noteq> FIXING"
  "CLOSED \<noteq> VERIFYING"
  by (simp_all add: vuln_state_defs)

lemma exception_state_distinct [simp]:
  "EXCEPTION_NONE \<noteq> EXCEPTION_REQUESTED" "EXCEPTION_NONE \<noteq> EXCEPTION_APPROVED"
  "EXCEPTION_NONE \<noteq> EXCEPTION_REJECTED" "EXCEPTION_NONE \<noteq> EXCEPTION_EXPIRED"
  "EXCEPTION_REQUESTED \<noteq> EXCEPTION_NONE" "EXCEPTION_REQUESTED \<noteq> EXCEPTION_APPROVED"
  "EXCEPTION_REQUESTED \<noteq> EXCEPTION_REJECTED" "EXCEPTION_REQUESTED \<noteq> EXCEPTION_EXPIRED"
  "EXCEPTION_APPROVED \<noteq> EXCEPTION_NONE" "EXCEPTION_APPROVED \<noteq> EXCEPTION_REQUESTED"
  "EXCEPTION_APPROVED \<noteq> EXCEPTION_REJECTED" "EXCEPTION_APPROVED \<noteq> EXCEPTION_EXPIRED"
  "EXCEPTION_REJECTED \<noteq> EXCEPTION_NONE" "EXCEPTION_REJECTED \<noteq> EXCEPTION_REQUESTED"
  "EXCEPTION_REJECTED \<noteq> EXCEPTION_APPROVED" "EXCEPTION_REJECTED \<noteq> EXCEPTION_EXPIRED"
  "EXCEPTION_EXPIRED \<noteq> EXCEPTION_NONE" "EXCEPTION_EXPIRED \<noteq> EXCEPTION_REQUESTED"
  "EXCEPTION_EXPIRED \<noteq> EXCEPTION_APPROVED" "EXCEPTION_EXPIRED \<noteq> EXCEPTION_REJECTED"
  by (simp_all add: exception_state_defs)

lemma exception_state_nonempty [simp]:
  "EXCEPTION_NONE \<noteq> []" "EXCEPTION_REQUESTED \<noteq> []" "EXCEPTION_APPROVED \<noteq> []"
  "EXCEPTION_REJECTED \<noteq> []" "EXCEPTION_EXPIRED \<noteq> []"
  by (simp_all add: exception_state_defs)

lemma or_none_simps [simp]: "or_none [] = EXCEPTION_NONE" "s \<noteq> [] \<Longrightarrow> or_none s = s"
  by (simp_all add: or_none_def)

lemma vuln_can_transition_iff [state_simps]:
  "vuln_can_transition current new \<longleftrightarrow>
     current = OPEN \<and> new \<in> {ACKNOWLEDGED, PLANNED, FIXING, CLOSED} \<or>
     current = ACKNOWLEDGED \<and> new \<in> {PLANNED, FIXING, CLOSED} \<or>
     current = PLANNED \<and> new \<in> {ACKNOWLEDGED, FIXING, CLOSED} \<or>
     current = FIXING \<and> new \<in> {PLANNED, VERIFYING, CLOSED} \<or>
     current = VERIFYING \<and> new \<in> {FIXING, CLOSED} \<or> current = CLOSED \<and> new = OPEN"
  by (auto simp: vuln_can_transition_def VULN_TRANSITIONS_def)

text \<open>A legal move never ends where it began, and \<open>OPEN\<close> is entered from \<open>CLOSED\<close> alone.\<close>

lemma vuln_can_transition_neq: "vuln_can_transition s s' \<Longrightarrow> s \<noteq> s'"
  by (auto simp: state_simps)

lemma vuln_can_transition_OPEN [simp]: "vuln_can_transition s OPEN \<longleftrightarrow> s = CLOSED"
  by (auto simp: state_simps)

lemma vuln_can_transition_from_CLOSED [simp]: "vuln_can_transition CLOSED s \<longleftrightarrow> s = OPEN"
  by (auto simp: state_simps)

lemma vuln_can_transition_VERIFYING [simp]:
  "vuln_can_transition s VERIFYING \<longleftrightarrow> s = FIXING"
  "vuln_can_transition VERIFYING s \<longleftrightarrow> s = FIXING \<or> s = CLOSED"
  by (auto simp: state_simps)

lemma vuln_can_transition_known:
  "vuln_can_transition s s' \<Longrightarrow> s \<in> set VULN_ALL \<and> s' \<in> set VULN_ALL"
  by (auto simp: state_simps VULN_ALL_def VULN_TRANSITIONS_def)

lemma vuln_check_transition_Ok [simp]:
  "vuln_check_transition v s s' = Ok u \<longleftrightarrow> vuln_can_transition s s'"
  using vuln_can_transition_known [of s s'] by (auto simp: vuln_check_transition_def)

lemma can_transition_exception_iff [state_simps]:
  "can_transition_exception current new \<longleftrightarrow>
     or_none current = EXCEPTION_NONE \<and> new = EXCEPTION_REQUESTED \<or>
     current = EXCEPTION_REQUESTED \<and>
       new \<in> {EXCEPTION_APPROVED, EXCEPTION_REJECTED, EXCEPTION_NONE, EXCEPTION_REQUESTED} \<or>
     current = EXCEPTION_APPROVED \<and> new \<in> {EXCEPTION_EXPIRED, EXCEPTION_NONE, EXCEPTION_REQUESTED} \<or>
     current \<in> {EXCEPTION_REJECTED, EXCEPTION_EXPIRED} \<and> new \<in> {EXCEPTION_REQUESTED, EXCEPTION_NONE}"
  by (auto simp: can_transition_exception_def EXCEPTION_TRANSITIONS_def or_none_def)

lemma check_exception_transition_Ok [simp]:
  "check_exception_transition v s s' = Ok u \<longleftrightarrow> can_transition_exception s s'"
  by (auto simp: check_exception_transition_def state_simps EXCEPTION_TRANSITIONS_def)

text \<open>A decision needs a pending request.\<close>

lemma decision_needs_request [simp]:
  "can_transition_exception s EXCEPTION_APPROVED \<longleftrightarrow> s = EXCEPTION_REQUESTED"
  "can_transition_exception s EXCEPTION_REJECTED \<longleftrightarrow> s = EXCEPTION_REQUESTED"
  by (auto simp: state_simps)

end
