(* ===== verification/Vuln_Model.thy ===== *)
theory Vuln_Model
  imports Vuln_States Json Job_Model
begin

text \<open>
  The data of the vulnerability tracker: the \<^verbatim>\<open>vulnerabilities\<close> row and its neighbours of
  \<^verbatim>\<open>api/db/models.py\<close>. The columns with one prefix (\<open>exception_*\<close>, \<open>fp_*\<close>, \<open>ticket_*\<close>) and
  the fields of one assessment are records of their own inside the row. A database is the
  record \<open>vuln_db\<close>: findings, their event trail, SLA and escalation policies, the registered
  assets, the scan jobs (rows of the job model), the audit log and the publication marks.
  Instants are the integers of the job model; where the code stores an instant as ISO text in
  an event's detail, the detail holds the instant.
\<close>

section \<open>The finding\<close>

record exception_columns =
  ex_until :: "time option"
  ex_reason :: "string option"
  ex_by :: "string option"
  ex_approved_at :: "time option"
  ex_approved_requested_by :: "string option"
  ex_expired_at :: "time option"
  ex_state :: string
  ex_requested_by :: "string option"
  ex_requested_at :: "time option"
  ex_requested_until :: "time option"
  ex_requested_reason :: "string option"
  ex_decided_by :: "string option"
  ex_decided_at :: "time option"
  ex_decision_note :: "string option"

definition no_exception :: exception_columns where
  "no_exception = \<lparr>ex_until = None, ex_reason = None, ex_by = None, ex_approved_at = None,
     ex_approved_requested_by = None, ex_expired_at = None, ex_state = EXCEPTION_NONE,
     ex_requested_by = None, ex_requested_at = None, ex_requested_until = None,
     ex_requested_reason = None, ex_decided_by = None, ex_decided_at = None,
     ex_decision_note = None\<rparr>"

record fp_columns =
  fp_reason :: "string option"
  fp_marked_by :: "string option"
  fp_marked_at :: "time option"
  fp_evidence :: "(string \<times> json) list"
  fp_suppress_until :: "time option"
  fp_observations :: int

definition no_fp :: fp_columns where
  "no_fp = \<lparr>fp_reason = None, fp_marked_by = None, fp_marked_at = None, fp_evidence = [],
     fp_suppress_until = None, fp_observations = 0\<rparr>"

record ticket_columns =
  tk_system :: "string option"
  tk_key :: "string option"
  tk_url :: "string option"
  tk_synced_at :: "time option"
  tk_remote_status :: "string option"
  tk_sync_error :: "string option"

definition no_ticket :: ticket_columns where
  "no_ticket = \<lparr>tk_system = None, tk_key = None, tk_url = None, tk_synced_at = None,
     tk_remote_status = None, tk_sync_error = None\<rparr>"

text \<open>What one observation says of the finding: the columns of the \<^verbatim>\<open>latest\<close> dictionary.\<close>

record assessment =
  as_risk_assessment :: json
  as_severity :: string
  as_risk_level :: json
  as_contextual_score :: json
  as_cvss :: json
  as_in_kev :: bool
  as_exploit_maturity :: "string option"
  as_network_exposure :: "string option"
  as_network_exposure_source :: "string option"
  as_cwe :: json
  as_title :: string
  as_finding_type :: "string option"
  as_detector_source :: "string option"
  as_template_id :: "string option"
  as_remediation :: "string option"
  as_non_cve :: json

text \<open>One entry of the \<open>detectors\<close> column; an absent key is \<open>None\<close>.\<close>

record detector =
  d_detector :: string
  d_ref :: "string option"
  d_host :: "string option"
  d_port :: "string option"
  d_last_run_id :: string
  d_last_seen_at :: time
  d_vantage :: "string option"
  d_vantages :: "string list"
  d_agent_id :: "string option"
  d_agent_group :: "string option"
  d_protocol :: "string option"
  d_ruleset :: "string option"

record vulnerability =
  v_vuln_id :: string
  v_tenant_id :: string
  v_asset_id :: string
  v_finding_key :: string
  v_source :: string
  v_cve :: "string option"
  v_script_id :: "string option"
  v_port :: "string option"
  v_detectors :: "detector list"
  v_assessment :: assessment
  v_state :: string
  v_state_changed_at :: time
  v_state_changed_by :: "string option"
  v_assignee :: "string option"
  v_owner_team :: "string option"
  v_due_at :: "time option"
  v_sla_days :: "int option"
  v_sla_source :: "string option"
  v_sla_started_at :: time
  v_exception :: exception_columns
  v_fp :: fp_columns
  v_ticket :: ticket_columns
  v_first_seen_at :: time
  v_last_seen_at :: time
  v_first_seen_run_id :: "string option"
  v_last_seen_run_id :: "string option"
  v_observation_count :: int
  v_reopen_count :: int
  v_closed_at :: "time option"
  v_machine_verified :: bool
  v_verification_job_id :: "string option"
  v_last_verified_at :: "time option"
  v_closure_reason :: "string option"
  v_match_confidence :: "string option"
  v_finding_evidence :: json
  v_updated_at :: time

text \<open>The severity and what else of the assessment the services read by name.\<close>

abbreviation v_severity :: "vulnerability \<Rightarrow> string" where
  "v_severity row \<equiv> as_severity (v_assessment row)"

section \<open>The audit trail\<close>

datatype event_kind =
    Observed | State_change | Reopened | Assigned | Exception_cleared | Exception_requested
  | Exception_request_withdrawn | Exception_approved | Exception_rejected | Exception_expired
  | Comment | Ticket_set | Ticket_cleared | Verification_started | Verification_passed
  | Verification_failed | Verification_inconclusive | Verification_unreachable | Ticket_synced
  | Escalated | False_positive_set | False_positive_cleared | Fp_reobserved | Fp_overridden

record vuln_event =
  ev_vuln_id :: string
  ev_tenant_id :: string
  ev_occurred_at :: time
  ev_kind :: event_kind
  ev_from_state :: "string option"
  ev_to_state :: "string option"
  ev_actor :: "string option"
  ev_note :: "string option"
  ev_detail :: "(string \<times> json) list"

text \<open>
  \<open>record_event\<close> builds the row that is added to the caller's transaction; its note is cut
  to 2000 characters and an empty note is none. The kind is one of the vocabulary by type.
\<close>

definition event_note :: "string option \<Rightarrow> string option" where
  "event_note note = (case note of None \<Rightarrow> None | Some n \<Rightarrow> if n = [] then None else Some (take 2000 n))"

definition record_event ::
  "vulnerability \<Rightarrow> event_kind \<Rightarrow> time \<Rightarrow> string option \<Rightarrow> string option \<Rightarrow> string option \<Rightarrow>
   string option \<Rightarrow> (string \<times> json) list \<Rightarrow> vuln_event" where
  "record_event row kind occurred_at from_state to_state actor note detail =
     \<lparr>ev_vuln_id = v_vuln_id row, ev_tenant_id = v_tenant_id row, ev_occurred_at = occurred_at,
      ev_kind = kind, ev_from_state = from_state, ev_to_state = to_state, ev_actor = actor,
      ev_note = event_note note, ev_detail = detail\<rparr>"

lemma record_event_simps [simp]:
  "ev_vuln_id (record_event r k t f s a n d) = v_vuln_id r"
  "ev_tenant_id (record_event r k t f s a n d) = v_tenant_id r"
  "ev_occurred_at (record_event r k t f s a n d) = t"
  "ev_kind (record_event r k t f s a n d) = k"
  "ev_from_state (record_event r k t f s a n d) = f"
  "ev_to_state (record_event r k t f s a n d) = s"
  "ev_actor (record_event r k t f s a n d) = a"
  "ev_detail (record_event r k t f s a n d) = d"
  by (simp_all add: record_event_def)

definition jtime :: "time option \<Rightarrow> json" where
  "jtime t = (case t of None \<Rightarrow> JNull | Some x \<Rightarrow> JInt x)"

definition jtext :: "string option \<Rightarrow> json" where
  "jtext s = (case s of None \<Rightarrow> JNull | Some x \<Rightarrow> JStr x)"

definition days :: "int \<Rightarrow> time" where
  "days n = n * 86400000000"

lemma days_mono [simp]: "days a \<le> days b \<longleftrightarrow> a \<le> b" "days a < days b \<longleftrightarrow> a < b"
  by (simp_all add: days_def)

lemma days_pos [simp]: "0 < days a \<longleftrightarrow> 0 < a" "0 \<le> days a \<longleftrightarrow> 0 \<le> a"
  by (simp_all add: days_def)

section \<open>The rows beside it\<close>

record sla_policy =
  sp_policy_id :: string
  sp_tenant_id :: string
  sp_asset_criticality :: "int option"
  sp_severity :: string
  sp_remediation_days :: int
  sp_created_at :: time
  sp_created_by :: "string option"
  sp_updated_at :: "time option"

record escalation_policy =
  ep_tenant_id :: string
  ep_enabled :: bool
  ep_escalate_after_days :: int
  ep_escalate_to :: "string option"
  ep_escalate_owner_team :: "string option"
  ep_bump_severity :: bool
  ep_digest_enabled :: bool
  ep_updated_at :: time
  ep_updated_by :: string

record asset =
  at_asset_id :: string
  at_tenant_id :: string
  at_asset_criticality :: "int option"
  at_owner_email :: "string option"
  at_business_unit :: "string option"
  at_addresses :: "string list"

text \<open>An audit row of the exception workflow: the action and the two documents around it.\<close>

record vuln_audit =
  va_action :: string
  va_resource_id :: string
  va_tenant_id :: string
  va_before :: "(string \<times> json) list option"
  va_after :: "(string \<times> json) list option"

text \<open>Of a run publication, the steps already fed from it (\<open>projected\<close>).\<close>

record publication_mark =
  pm_publication_id :: string
  pm_tenant_id :: string
  pm_run_id :: string
  pm_projected :: "string list"

text \<open>\<open>vd_verification_of\<close> is the key \<open>verification_of\<close> of a job's \<open>scan_options\<close>.\<close>

record vuln_db =
  vd_rows :: "vulnerability list"
  vd_events :: "vuln_event list"
  vd_policies :: "sla_policy list"
  vd_escalations :: "escalation_policy list"
  vd_assets :: "asset list"
  vd_jobs :: "job list"
  vd_audit :: "vuln_audit list"
  vd_marks :: "publication_mark list"
  vd_verification_of :: "(string \<times> string) list"

section \<open>The findings as a table\<close>

definition get_vuln :: "vuln_db \<Rightarrow> string \<Rightarrow> vulnerability option" where
  "get_vuln d k = row_get v_vuln_id (vd_rows d) k"

definition put_vuln :: "vuln_db \<Rightarrow> vulnerability \<Rightarrow> vuln_db" where
  "put_vuln d r = d\<lparr>vd_rows := row_put v_vuln_id (vd_rows d) r\<rparr>"

definition count_vulns :: "(vulnerability \<Rightarrow> bool) \<Rightarrow> vuln_db \<Rightarrow> nat" where
  "count_vulns P d = row_count P (vd_rows d)"

definition wf_vulns :: "vuln_db \<Rightarrow> bool" where
  "wf_vulns d = distinct (map v_vuln_id (vd_rows d))"

interpretation vuln_table: row_store v_vuln_id get_vuln put_vuln count_vulns wf_vulns
proof unfold_locales
  fix t :: vuln_db and k r
  show "get_vuln t k = Some r \<Longrightarrow> v_vuln_id r = k" unfolding get_vuln_def by (rule row_get_key)
next
  fix t :: vuln_db and r k
  show "get_vuln (put_vuln t r) k =
    (if k = v_vuln_id r \<and> get_vuln t k \<noteq> None then Some r else get_vuln t k)"
    by (auto simp: get_vuln_def put_vuln_def row_get_put)
next
  fix t :: vuln_db and r
  show "wf_vulns t \<Longrightarrow> wf_vulns (put_vuln t r)"
    by (simp add: wf_vulns_def put_vuln_def)
next
  fix t :: vuln_db and r old and P :: "vulnerability \<Rightarrow> bool"
  show "wf_vulns t \<Longrightarrow> get_vuln t (v_vuln_id r) = Some old \<Longrightarrow>
    count_vulns P (put_vuln t r) + (if P old then 1 else 0) = count_vulns P t + (if P r then 1 else 0)"
    by (simp add: wf_vulns_def get_vuln_def put_vuln_def count_vulns_def row_count_put)
qed

text \<open>\<open>load\<close> hides the row of another tenant; without a tenant every row is visible.\<close>

definition load :: "vuln_db \<Rightarrow> string option \<Rightarrow> string \<Rightarrow> vulnerability option" where
  "load d tenant_id vuln_id =
     (case get_vuln d vuln_id of None \<Rightarrow> None
      | Some row \<Rightarrow> if tenant_id \<noteq> None \<and> tenant_id \<noteq> Some (v_tenant_id row) then None else Some row)"

text \<open>
  The shape every decision on one finding has: load it, return \<^verbatim>\<open>None\<close> when there is none,
  otherwise compute the new row with the events and audit rows of the same transaction and
  commit them together. An exception commits nothing.
\<close>

type_synonym row_outcome = "vulnerability \<times> vuln_event list \<times> vuln_audit list"

definition commit_row :: "vuln_db \<Rightarrow> row_outcome \<Rightarrow> vuln_db" where
  "commit_row d out = (case out of (row, evs, audits) \<Rightarrow>
     (put_vuln d row)\<lparr>vd_events := vd_events d @ evs, vd_audit := vd_audit d @ audits\<rparr>)"

definition on_row ::
  "vuln_db \<Rightarrow> string option \<Rightarrow> string \<Rightarrow> (vulnerability \<Rightarrow> vuln_error + row_outcome) \<Rightarrow>
   vuln_error + (vuln_db \<times> vulnerability option)" where
  "on_row d tenant_id vuln_id f =
     (case load d tenant_id vuln_id of None \<Rightarrow> Ok (d, None)
      | Some row \<Rightarrow> bindE (f row) (\<lambda>out. Ok (commit_row d out, Some (fst out))))"

section \<open>Facts the other components use\<close>

lemma load_Some_iff:
  "load d t k = Some row \<longleftrightarrow> get_vuln d k = Some row \<and> (t = None \<or> t = Some (v_tenant_id row))"
  by (auto simp: load_def split: option.splits)

lemma commit_row_simps [simp]:
  "vd_events (commit_row d (row, evs, audits)) = vd_events d @ evs"
  "vd_audit (commit_row d (row, evs, audits)) = vd_audit d @ audits"
  "vd_policies (commit_row d out) = vd_policies d"
  "vd_escalations (commit_row d out) = vd_escalations d"
  "vd_assets (commit_row d out) = vd_assets d"
  "vd_jobs (commit_row d out) = vd_jobs d"
  "vd_marks (commit_row d out) = vd_marks d"
  "vd_verification_of (commit_row d out) = vd_verification_of d"
  "get_vuln (commit_row d out) k = get_vuln (put_vuln d (fst out)) k"
  "wf_vulns (commit_row d out) = wf_vulns d"
  by (auto simp: commit_row_def put_vuln_def get_vuln_def wf_vulns_def split: prod.splits)

text \<open>What a completed decision did: nothing, or one row with the events and audit rows beside it.\<close>

lemma on_row_cases [consumes 1, case_names absent written]:
  assumes "on_row d t k f = Ok (d', res)"
  obtains "load d t k = None" "d' = d" "res = None"
  | row row' evs audits where "load d t k = Some row" "f row = Ok (row', evs, audits)"
      "d' = commit_row d (row', evs, audits)" "res = Some row'"
  using assms
  by (cases "load d t k") (auto simp: on_row_def bindE_Ok_iff)

lemma on_row_written [simp]:
  "load d t k = Some row \<Longrightarrow> on_row d t k f = bindE (f row) (\<lambda>out. Ok (commit_row d out, Some (fst out)))"
  by (simp add: on_row_def)

lemma on_row_absent [simp]: "load d t k = None \<Longrightarrow> on_row d t k f = Ok (d, None)"
  by (simp add: on_row_def)

end
