(* ===== verification/Vuln_Sla.thy ===== *)
theory Vuln_Sla
  imports Vuln_Model
begin

text \<open>
  Remediation deadlines of \<^verbatim>\<open>api/services/vulnerabilities.py\<close>: the per-tenant policies and how
  a finding's days are resolved from them, the derived reading of a deadline (\<open>sla_state\<close>),
  and the escalation of a missed one. A policy id is an argument where the code draws a
  random one.
\<close>

section \<open>Vocabulary\<close>

definition SEVERITY_ORDER :: "(string \<times> int) list" where
  "SEVERITY_ORDER = [(''critical'', 4), (''high'', 3), (''medium'', 2), (''low'', 1), (''unknown'', 0)]"

definition severity_rank :: "string \<Rightarrow> int" where
  "severity_rank s = or_else (map_of SEVERITY_ORDER s) 0"

definition DEFAULT_SLA_DAYS :: "(string \<times> int) list" where
  "DEFAULT_SLA_DAYS =
     [(''critical'', 15), (''high'', 30), (''medium'', 90), (''low'', 180), (''unknown'', 90)]"

definition default_days :: "string \<Rightarrow> int" where
  "default_days severity = or_else (map_of DEFAULT_SLA_DAYS severity) 90"

definition DUE_SOON_DAYS :: int where "DUE_SOON_DAYS = 7"
definition MAX_ESCALATE_AFTER_DAYS :: int where "MAX_ESCALATE_AFTER_DAYS = 365"

text \<open>\<^verbatim>\<open>(x or "").strip() or None\<close>.\<close>

definition clean_text :: "string option \<Rightarrow> string option" where
  "clean_text x = (let s = strip (or_else x []) in if s = [] then None else Some s)"

section \<open>Policies\<close>

definition validate_severity :: "string \<Rightarrow> vuln_error + string" where
  "validate_severity severity_in =
     (let severity = lower (strip severity_in) in
      if severity \<in> set (map fst SEVERITY_ORDER) then Ok severity
      else Err (ValueRefused ''unknown severity''))"

definition validate_criticality :: "int option \<Rightarrow> vuln_error + int option" where
  "validate_criticality c = (case c of None \<Rightarrow> Ok None
     | Some n \<Rightarrow> if 0 \<le> n \<and> n \<le> 4 then Ok (Some n)
                 else Err (ValueRefused ''asset_criticality must be between 0 and 4''))"

text \<open>\<^verbatim>\<open>scalar_one_or_none\<close>.\<close>

definition one_or_none :: "'a list \<Rightarrow> vuln_error + 'a option" where
  "one_or_none xs = (case xs of [] \<Rightarrow> Ok None | [x] \<Rightarrow> Ok (Some x) | _ \<Rightarrow> Err MultipleRows)"

definition in_scope :: "string \<Rightarrow> string \<Rightarrow> int option \<Rightarrow> sla_policy \<Rightarrow> bool" where
  "in_scope tenant_id severity criticality p =
     (sp_tenant_id p = tenant_id \<and> sp_severity p = severity \<and> sp_asset_criticality p = criticality)"

definition upsert_sla_policy ::
  "string \<Rightarrow> time \<Rightarrow> vuln_db \<Rightarrow> string \<Rightarrow> string \<Rightarrow> int \<Rightarrow> int option \<Rightarrow> string option \<Rightarrow>
   vuln_error + (vuln_db \<times> sla_policy)" where
  "upsert_sla_policy policy_id now d tenant_id severity_in remediation_days asset_criticality created_by =
     bindE (validate_severity severity_in) (\<lambda>severity.
     bindE (validate_criticality asset_criticality) (\<lambda>criticality.
     if remediation_days < 1 then Err (ValueRefused ''remediation_days must be at least 1'')
     else bindE (one_or_none (filter (in_scope tenant_id severity criticality) (vd_policies d))) (\<lambda>found.
       case found of
         None \<Rightarrow> (let p = \<lparr>sp_policy_id = policy_id, sp_tenant_id = tenant_id,
                        sp_asset_criticality = criticality, sp_severity = severity,
                        sp_remediation_days = remediation_days, sp_created_at = now,
                        sp_created_by = created_by, sp_updated_at = None\<rparr>
                  in Ok (d\<lparr>vd_policies := vd_policies d @ [p]\<rparr>, p))
       | Some p \<Rightarrow> (let p' = p\<lparr>sp_remediation_days := remediation_days, sp_updated_at := Some now\<rparr>
                  in Ok (d\<lparr>vd_policies := row_put sp_policy_id (vd_policies d) p'\<rparr>, p')))))"

definition delete_sla_policy :: "vuln_db \<Rightarrow> string \<Rightarrow> string \<Rightarrow> vuln_db \<times> bool" where
  "delete_sla_policy d tenant_id policy_id =
     (case row_get sp_policy_id (vd_policies d) policy_id of None \<Rightarrow> (d, False)
      | Some p \<Rightarrow>
          if sp_tenant_id p \<noteq> tenant_id then (d, False)
          else (d\<lparr>vd_policies := filter (\<lambda>q. sp_policy_id q \<noteq> policy_id) (vd_policies d)\<rparr>, True))"

text \<open>The exact pair first, then the tenant's fallback for the severity, then the table.\<close>

definition resolve_sla_days ::
  "vuln_db \<Rightarrow> string \<Rightarrow> string \<Rightarrow> int option \<Rightarrow> vuln_error + (int \<times> string)" where
  "resolve_sla_days d tenant_id severity criticality =
     bindE (if criticality = None then Ok None
            else one_or_none (filter (in_scope tenant_id severity criticality) (vd_policies d)))
       (\<lambda>specific. case specific of Some p \<Rightarrow> Ok (sp_remediation_days p, ''policy'')
         | None \<Rightarrow>
             bindE (one_or_none (filter (in_scope tenant_id severity None) (vd_policies d)))
               (\<lambda>fallback. case fallback of Some p \<Rightarrow> Ok (sp_remediation_days p, ''policy'')
                 | None \<Rightarrow> Ok (default_days severity, ''default'')))"

text \<open>\<^verbatim>\<open>row.sla_days or DEFAULT_SLA_DAYS.get(...)\<close>: no days and zero days read alike.\<close>

definition sla_days_or_default :: "vulnerability \<Rightarrow> int" where
  "sla_days_or_default row =
     (case v_sla_days row of Some n \<Rightarrow> if n \<noteq> 0 then n else default_days (v_severity row)
      | None \<Rightarrow> default_days (v_severity row))"

definition asset_criticality_of :: "vuln_db \<Rightarrow> string \<Rightarrow> int option" where
  "asset_criticality_of d asset_id =
     (case row_get at_asset_id (vd_assets d) asset_id of None \<Rightarrow> None
      | Some a \<Rightarrow> at_asset_criticality a)"

section \<open>Reading a deadline\<close>

definition sla_state :: "vulnerability \<Rightarrow> time \<Rightarrow> string" where
  "sla_state row now =
     (if v_state row = CLOSED then ''none''
      else (case v_due_at row of None \<Rightarrow> ''none''
        | Some due \<Rightarrow>
            if (case ex_until (v_exception row) of None \<Rightarrow> False | Some until \<Rightarrow> until > now)
            then ''accepted''
            else if due \<le> now then ''breached''
            else if due - now \<le> days DUE_SOON_DAYS then ''due_soon'' else ''on_track''))"

section \<open>Escalation\<close>

definition upsert_escalation_policy ::
  "time \<Rightarrow> vuln_db \<Rightarrow> string \<Rightarrow> bool \<Rightarrow> int \<Rightarrow> string option \<Rightarrow> string option \<Rightarrow> bool \<Rightarrow> bool \<Rightarrow>
   string option \<Rightarrow> vuln_error + (vuln_db \<times> escalation_policy)" where
  "upsert_escalation_policy now d tenant_id enabled escalate_after_days escalate_to owner_team
     bump_severity digest_enabled updated_by =
     (if escalate_after_days < 0 \<or> escalate_after_days > MAX_ESCALATE_AFTER_DAYS
      then Err (ValueRefused ''escalate_after_days out of range'')
      else
        let assignee = clean_text escalate_to; team = clean_text owner_team in
        if enabled \<and> \<not> (assignee \<noteq> None \<or> team \<noteq> None \<or> bump_severity \<or> digest_enabled)
        then Err (ValueRefused ''escalation is enabled but has no action'')
        else
          let p = \<lparr>ep_tenant_id = tenant_id, ep_enabled = enabled,
                   ep_escalate_after_days = escalate_after_days, ep_escalate_to = assignee,
                   ep_escalate_owner_team = team, ep_bump_severity = bump_severity,
                   ep_digest_enabled = digest_enabled, ep_updated_at = now,
                   ep_updated_by = or_else updated_by []\<rparr>
          in Ok (d\<lparr>vd_escalations :=
                   (if row_get ep_tenant_id (vd_escalations d) tenant_id = None
                    then vd_escalations d @ [p]
                    else row_put ep_tenant_id (vd_escalations d) p)\<rparr>, p))"

definition raise_severity :: "string \<Rightarrow> string" where
  "raise_severity current =
     (let s = lower (strip (if current = [] then ''unknown'' else current)) in
      if s = ''unknown'' then ''medium''
      else if s = ''low'' then ''medium'' else if s = ''medium'' then ''high''
      else if s = ''high'' then ''critical'' else s)"

text \<open>
  \<open>escalate\<close> answers \<open>None\<close> when nothing was left to do: the new owner is already there and
  the severity already at the top.
\<close>

definition escalated_row ::
  "vulnerability \<Rightarrow> string option \<Rightarrow> string option \<Rightarrow> bool \<Rightarrow> vulnerability \<times> (string \<times> json) list" where
  "escalated_row row0 assignee owner_team bump_severity =
     (let target = clean_text assignee;
          (row1, c1) = (if target \<noteq> None \<and> v_assignee row0 \<noteq> target
             then (row0\<lparr>v_assignee := target\<rparr>,
                   [(''assignee_from'', jtext (v_assignee row0)), (''assignee_to'', jtext target)])
             else (row0, []));
          team = clean_text owner_team;
          (row2, c2) = (if team \<noteq> None \<and> v_owner_team row1 \<noteq> team
             then (row1\<lparr>v_owner_team := team\<rparr>,
                   [(''owner_team_from'', jtext (v_owner_team row1)), (''owner_team_to'', jtext team)])
             else (row1, []));
          raised = raise_severity (v_severity row2);
          (row3, c3) = (if bump_severity \<and> raised \<noteq> v_severity row2
             then (row2\<lparr>v_assessment := (v_assessment row2)\<lparr>as_severity := raised\<rparr>\<rparr>,
                   [(''severity_from'', JStr (v_severity row2)), (''severity_to'', JStr raised)])
             else (row2, []))
      in (row3, c1 @ c2 @ c3))"

definition escalate ::
  "time \<Rightarrow> vuln_db \<Rightarrow> string \<Rightarrow> string \<Rightarrow> string option \<Rightarrow> string option \<Rightarrow> bool \<Rightarrow>
   vuln_db \<times> (vulnerability \<times> (string \<times> json) list) option" where
  "escalate now d tenant_id vuln_id assignee owner_team bump_severity =
     (case load d (Some tenant_id) vuln_id of None \<Rightarrow> (d, None)
      | Some row \<Rightarrow>
          (case escalated_row row assignee owner_team bump_severity of (row', changed) \<Rightarrow>
             if changed = [] then (d, None)
             else
               let row'' = row'\<lparr>v_updated_at := now\<rparr>;
                   ev = record_event row'' Escalated now None (Some (v_state row'')) None
                          (Some ''SLA breach escalation'') changed
               in (commit_row d (row'', [ev], []), Some (row'', changed))))"

section \<open>Facts\<close>

lemma one_or_none_simps [simp]:
  "one_or_none [] = Ok None" "one_or_none [x] = Ok (Some x)" "one_or_none (x # y # ys) = Err MultipleRows"
  by (simp_all add: one_or_none_def)

text \<open>One policy per scope: what the unique constraint and the upsert maintain.\<close>

definition policy_scope :: "sla_policy \<Rightarrow> string \<times> string \<times> int option" where
  "policy_scope p = (sp_tenant_id p, sp_severity p, sp_asset_criticality p)"

definition wf_policies :: "vuln_db \<Rightarrow> bool" where
  "wf_policies d \<longleftrightarrow> distinct (map policy_scope (vd_policies d)) \<and> distinct (map sp_policy_id (vd_policies d))"

lemma in_scope_iff: "in_scope t s c p \<longleftrightarrow> policy_scope p = (t, s, c)"
  by (auto simp: in_scope_def policy_scope_def)

lemma one_in_scope:
  assumes "distinct (map policy_scope ps)"
  shows "filter (in_scope t s c) ps =
    (case find (in_scope t s c) ps of None \<Rightarrow> [] | Some p \<Rightarrow> [p])"
  using assms
proof (induction ps)
  case (Cons p ps)
  show ?case
  proof (cases "in_scope t s c p")
    case True
    then have "filter (in_scope t s c) ps = []"
      using Cons.prems by (auto simp: filter_empty_conv in_scope_iff image_iff)
    then show ?thesis using True by simp
  next
    case False
    then show ?thesis using Cons by simp
  qed
qed simp

lemma one_or_none_scope:
  "distinct (map policy_scope ps) \<Longrightarrow> one_or_none (filter (in_scope t s c) ps) = Ok (find (in_scope t s c) ps)"
  by (simp add: one_in_scope split: option.split)

lemma resolve_sla_days_wf:
  assumes "wf_policies d"
  shows "resolve_sla_days d t s c =
    Ok (case (if c = None then None else find (in_scope t s c) (vd_policies d)) of
          Some p \<Rightarrow> (sp_remediation_days p, ''policy'')
        | None \<Rightarrow> (case find (in_scope t s None) (vd_policies d) of
            Some p \<Rightarrow> (sp_remediation_days p, ''policy'')
          | None \<Rightarrow> (default_days s, ''default'')))"
  using assms by (simp add: resolve_sla_days_def wf_policies_def one_or_none_scope split: option.split)

lemma sla_state_accepted_iff:
  "sla_state row now = ''accepted'' \<longleftrightarrow>
     v_state row \<noteq> CLOSED \<and> v_due_at row \<noteq> None \<and>
     (\<exists>u. ex_until (v_exception row) = Some u \<and> now < u)"
  by (auto simp: sla_state_def split: option.splits)

lemma default_days_pos [simp]: "0 < default_days s"
  by (auto simp: default_days_def DEFAULT_SLA_DAYS_def)

lemma clean_text_not_blank [simp]: "clean_text x \<noteq> Some []"
  by (simp add: clean_text_def Let_def)

text \<open>An escalation writes the two owners and the severity and nothing else.\<close>

lemma escalated_row_frame:
  assumes "escalated_row row a t b = (row', changed)"
  shows "\<exists>a' t' s'. row' = row\<lparr>v_assignee := a', v_owner_team := t',
    v_assessment := (v_assessment row)\<lparr>as_severity := s'\<rparr>\<rparr>"
proof -
  have "row\<lparr>v_assignee := v_assignee row\<rparr> = row" "row\<lparr>v_owner_team := v_owner_team row\<rparr> = row"
    "row\<lparr>v_assessment := (v_assessment row)\<lparr>as_severity := v_severity row\<rparr>\<rparr> = row"
    by simp_all
  show ?thesis
    using assms
    by (intro exI [of _ "v_assignee row'"] exI [of _ "v_owner_team row'"]
        exI [of _ "v_severity row'"])
       (auto simp: escalated_row_def Let_def split: if_splits)
qed

end
