(* ===== verification/Vuln_Exceptions.thy ===== *)
theory Vuln_Exceptions
  imports Vuln_Sla
begin

text \<open>
  Accepted risk, of \<^verbatim>\<open>api/services/vulnerabilities.py\<close>: the request for an acceptance and its
  withdrawal, the approval and the refusal by a second person, the revocation of a granted
  window, the sweep that records lapsed ones, and the erasure every closing path performs.
  Each operation on one finding is a function on its row (the new row, its event, its audit
  row) under \<open>on_row\<close>.
\<close>

section \<open>Helpers\<close>

definition same_person :: "string option \<Rightarrow> string option \<Rightarrow> bool" where
  "same_person one other =
     (let a = casefold (strip (or_else one [])); b = casefold (strip (or_else other []))
      in a = b \<and> b \<noteq> [])"

definition exception_document :: "vulnerability \<Rightarrow> (string \<times> json) list" where
  "exception_document row = (let e = v_exception row in
     [(''vuln_id'', JStr (v_vuln_id row)), (''title'', JStr (as_title (v_assessment row))),
      (''severity'', JStr (v_severity row)), (''state'', JStr (v_state row)),
      (''due_at'', jtime (v_due_at row)), (''exception_state'', JStr (ex_state e)),
      (''exception_until'', jtime (ex_until e)), (''exception_reason'', jtext (ex_reason e)),
      (''exception_by'', jtext (ex_by e)), (''exception_requested_by'', jtext (ex_requested_by e)),
      (''exception_requested_until'', jtime (ex_requested_until e)),
      (''exception_requested_reason'', jtext (ex_requested_reason e)),
      (''exception_decided_by'', jtext (ex_decided_by e)),
      (''exception_decision_note'', jtext (ex_decision_note e)),
      (''exception_approved_at'', jtime (ex_approved_at e)),
      (''exception_approved_requested_by'', jtext (ex_approved_requested_by e)),
      (''exception_expired_at'', jtime (ex_expired_at e))])"

definition audit_row :: "string \<Rightarrow> vulnerability option \<Rightarrow> vulnerability \<Rightarrow> vuln_audit" where
  "audit_row action before after =
     \<lparr>va_action = action, va_resource_id = v_vuln_id after, va_tenant_id = v_tenant_id after,
      va_before = map_option exception_document before,
      va_after = Some (exception_document after)\<rparr>"

definition drop_exception :: "vulnerability \<Rightarrow> vulnerability \<times> (string \<times> json) list" where
  "drop_exception row =
     (let e = v_exception row;
          detail = (if ex_until e \<noteq> None then [(''cleared_exception_until'', jtime (ex_until e))] else []) @
                   (if or_none (ex_state e) \<noteq> EXCEPTION_NONE
                    then [(''cleared_exception_state'', JStr (ex_state e))] else [])
      in if detail = [] then (row, detail) else (row\<lparr>v_exception := no_exception\<rparr>, detail))"

text \<open>\<^verbatim>\<open>(note or "").strip()[:2000] or None\<close>.\<close>

definition decision_note :: "string option \<Rightarrow> string option" where
  "decision_note note =
     (let s = take 2000 (strip (or_else note [])) in if s = [] then None else Some s)"

definition state_behind_a_request :: "exception_columns \<Rightarrow> time \<Rightarrow> string" where
  "state_behind_a_request e now =
     (case ex_until e of None \<Rightarrow> EXCEPTION_NONE
      | Some granted \<Rightarrow> if granted > now then EXCEPTION_APPROVED else EXCEPTION_EXPIRED)"

section \<open>Asking\<close>

definition request_row ::
  "time \<Rightarrow> time \<Rightarrow> string \<Rightarrow> string option \<Rightarrow> vulnerability \<Rightarrow> vuln_error + row_outcome" where
  "request_row now until reason actor row =
     (let e = v_exception row in
      if v_state row = CLOSED then Err (ValueRefused ''a closed finding has no risk to accept'')
      else bindE (check_exception_transition (v_vuln_id row) (ex_state e) EXCEPTION_REQUESTED) (\<lambda>_.
        if ex_state e = EXCEPTION_REQUESTED \<and> \<not> same_person (ex_requested_by e) actor
        then Err (InvalidException (v_vuln_id row) EXCEPTION_REQUESTED EXCEPTION_REQUESTED)
        else
          let row' = row\<lparr>v_exception := e\<lparr>ex_state := EXCEPTION_REQUESTED,
                       ex_requested_by := actor, ex_requested_at := Some now,
                       ex_requested_until := Some until,
                       ex_requested_reason := Some (take 2000 reason),
                       ex_decided_by := None, ex_decided_at := None, ex_decision_note := None\<rparr>,
                     v_updated_at := now\<rparr>;
              ev = record_event row' Exception_requested now None (Some (v_state row')) actor
                     (Some reason) [(''requested_until'', jtime (Some until))]
          in Ok (row', [ev], [audit_row ''vulnerability.exception_request'' (Some row) row'])))"

definition request_exception ::
  "time \<Rightarrow> vuln_db \<Rightarrow> string option \<Rightarrow> string \<Rightarrow> time \<Rightarrow> string option \<Rightarrow> string option \<Rightarrow>
   vuln_error + (vuln_db \<times> vulnerability option)" where
  "request_exception now d tenant_id vuln_id until reason_in actor =
     (let reason = strip (or_else reason_in []) in
      if reason = [] then Err (ValueRefused ''an exception needs a reason'')
      else if until \<le> now then Err (ValueRefused ''exception_until must be in the future'')
      else on_row d tenant_id vuln_id (request_row now until reason actor))"

definition withdraw_row ::
  "time \<Rightarrow> string option \<Rightarrow> string option \<Rightarrow> vulnerability \<Rightarrow> vuln_error + row_outcome" where
  "withdraw_row now actor note row =
     (let e = v_exception row in
      if or_none (ex_state e) \<noteq> EXCEPTION_REQUESTED
      then Err (InvalidException (v_vuln_id row) (or_none (ex_state e)) EXCEPTION_NONE)
      else if \<not> same_person (ex_requested_by e) actor
      then Err (PermissionRefused ''only the person who filed an exception request may withdraw it'')
      else
        let row' = row\<lparr>v_exception := e\<lparr>ex_state := state_behind_a_request e now,
                     ex_requested_by := None, ex_requested_at := None,
                     ex_requested_until := None, ex_requested_reason := None\<rparr>,
                   v_updated_at := now\<rparr>;
            ev = record_event row' Exception_request_withdrawn now None (Some (v_state row')) actor note
                   [(''requested_until'', jtime (ex_requested_until e)),
                    (''exception_state'', JStr (ex_state (v_exception row')))]
        in Ok (row', [ev], [audit_row ''vulnerability.exception_request_withdraw'' (Some row) row']))"

definition withdraw_exception_request ::
  "time \<Rightarrow> vuln_db \<Rightarrow> string option \<Rightarrow> string \<Rightarrow> string option \<Rightarrow> string option \<Rightarrow>
   vuln_error + (vuln_db \<times> vulnerability option)" where
  "withdraw_exception_request now d tenant_id vuln_id actor note =
     on_row d tenant_id vuln_id (withdraw_row now actor note)"

section \<open>Deciding\<close>

definition approve_row ::
  "time \<Rightarrow> string \<Rightarrow> string option \<Rightarrow> vulnerability \<Rightarrow> vuln_error + row_outcome" where
  "approve_row now actor note row =
     (let e = v_exception row in
      bindE (check_exception_transition (v_vuln_id row) (ex_state e) EXCEPTION_APPROVED) (\<lambda>_.
        if same_person (ex_requested_by e) (Some actor)
        then Err (PermissionRefused ''the person who requested an exception cannot approve it'')
        else (case ex_requested_until e of
            None \<Rightarrow> Err (ValueRefused ''the requested window has already passed'')
          | Some until \<Rightarrow>
              if until \<le> now then Err (ValueRefused ''the requested window has already passed'')
              else
                let row' = row\<lparr>v_exception := e\<lparr>ex_state := EXCEPTION_APPROVED,
                             ex_decided_by := Some actor, ex_decided_at := Some now,
                             ex_decision_note := decision_note note,
                             ex_until := Some until, ex_by := Some actor,
                             ex_reason := (if truthy_text (ex_requested_reason e)
                                           then ex_requested_reason e else ex_reason e),
                             ex_approved_at := Some now,
                             ex_approved_requested_by := ex_requested_by e,
                             ex_expired_at := None\<rparr>,
                           v_due_at := Some until, v_sla_source := Some ''exception'',
                           v_updated_at := now\<rparr>;
                    ev = record_event row' Exception_approved now None (Some (v_state row'))
                           (Some actor) note
                           [(''exception_until'', jtime (Some until)),
                            (''requested_by'', jtext (ex_requested_by e))]
                in Ok (row', [ev], [audit_row ''vulnerability.exception_approve'' (Some row) row']))))"

definition approve_exception ::
  "time \<Rightarrow> vuln_db \<Rightarrow> string option \<Rightarrow> string \<Rightarrow> string \<Rightarrow> string option \<Rightarrow>
   vuln_error + (vuln_db \<times> vulnerability option)" where
  "approve_exception now d tenant_id vuln_id actor note =
     on_row d tenant_id vuln_id (approve_row now actor note)"

definition reject_row ::
  "time \<Rightarrow> string \<Rightarrow> string option \<Rightarrow> vulnerability \<Rightarrow> vuln_error + row_outcome" where
  "reject_row now actor note row =
     (let e = v_exception row in
      bindE (check_exception_transition (v_vuln_id row) (ex_state e) EXCEPTION_REJECTED) (\<lambda>_.
        if same_person (ex_requested_by e) (Some actor)
        then Err (PermissionRefused ''the person who requested an exception cannot decide it'')
        else
          let row' = row\<lparr>v_exception := e\<lparr>ex_state := EXCEPTION_REJECTED,
                       ex_decided_by := Some actor, ex_decided_at := Some now,
                       ex_decision_note := decision_note note\<rparr>,
                     v_updated_at := now\<rparr>;
              ev = record_event row' Exception_rejected now None (Some (v_state row')) (Some actor) note
                     [(''requested_until'', jtime (ex_requested_until e)),
                      (''requested_by'', jtext (ex_requested_by e))]
          in Ok (row', [ev], [audit_row ''vulnerability.exception_reject'' (Some row) row'])))"

definition reject_exception ::
  "time \<Rightarrow> vuln_db \<Rightarrow> string option \<Rightarrow> string \<Rightarrow> string \<Rightarrow> string option \<Rightarrow>
   vuln_error + (vuln_db \<times> vulnerability option)" where
  "reject_exception now d tenant_id vuln_id actor note =
     on_row d tenant_id vuln_id (reject_row now actor note)"

section \<open>Revoking and lapsing\<close>

definition clear_row ::
  "time \<Rightarrow> vuln_db \<Rightarrow> string option \<Rightarrow> string option \<Rightarrow> vulnerability \<Rightarrow> vuln_error + row_outcome" where
  "clear_row now d actor note row =
     (let e = v_exception row; state = or_none (ex_state e) in
      if ex_until e = None then Err (InvalidException (v_vuln_id row) state EXCEPTION_NONE)
      else
        let keeps = (state = EXCEPTION_REQUESTED);
            e1 = e\<lparr>ex_state := (if keeps then EXCEPTION_REQUESTED else EXCEPTION_NONE)\<rparr>;
            e2 = (if keeps then e1
                  else e1\<lparr>ex_requested_by := None, ex_requested_at := None,
                          ex_requested_until := None, ex_requested_reason := None\<rparr>);
            e3 = e2\<lparr>ex_decided_by := None, ex_decided_at := None, ex_decision_note := None,
                   ex_reason := None, ex_by := None, ex_approved_at := None,
                   ex_approved_requested_by := None, ex_expired_at := None, ex_until := None\<rparr>
        in bindE (resolve_sla_days d (v_tenant_id row) (v_severity row)
                    (asset_criticality_of d (v_asset_id row))) (\<lambda>(n, source).
          let row' = row\<lparr>v_exception := e3, v_updated_at := now, v_sla_days := Some n,
                       v_sla_source := Some source,
                       v_due_at := Some (v_sla_started_at row + days n)\<rparr>;
              ev = record_event row' Exception_cleared now None (Some (v_state row')) actor note
                     [(''was_until'', jtime (ex_until e)), (''was_exception_state'', JStr state),
                      (''due_at'', jtime (v_due_at row'))]
          in Ok (row', [ev], [audit_row ''vulnerability.exception_withdraw'' (Some row) row'])))"

definition clear_exception ::
  "time \<Rightarrow> vuln_db \<Rightarrow> string option \<Rightarrow> string \<Rightarrow> string option \<Rightarrow> string option \<Rightarrow>
   vuln_error + (vuln_db \<times> vulnerability option)" where
  "clear_exception now d tenant_id vuln_id actor note =
     on_row d tenant_id vuln_id (clear_row now d actor note)"

definition lapsed_unrecorded :: "time \<Rightarrow> string option \<Rightarrow> vulnerability \<Rightarrow> bool" where
  "lapsed_unrecorded now tenant_id row =
     (let e = v_exception row in
      v_state row \<noteq> CLOSED \<and> ex_by e \<noteq> None \<and> ex_expired_at e = None \<and>
      (case ex_until e of None \<Rightarrow> False | Some until \<Rightarrow> until \<le> now) \<and>
      (tenant_id = None \<or> tenant_id = Some (v_tenant_id row)))"

definition lapse_row :: "time \<Rightarrow> vulnerability \<Rightarrow> row_outcome" where
  "lapse_row now row =
     (let e = v_exception row;
          e1 = e\<lparr>ex_expired_at := Some now\<rparr>;
          e2 = (if or_none (ex_state e) = EXCEPTION_APPROVED
                then e1\<lparr>ex_state := EXCEPTION_EXPIRED\<rparr> else e1);
          row' = row\<lparr>v_exception := e2, v_updated_at := now\<rparr>;
          ev = record_event row' Exception_expired now None (Some (v_state row')) None None
                 [(''exception_until'', jtime (ex_until e)), (''approved_by'', jtext (ex_by e)),
                  (''requested_by'', jtext (if truthy_text (ex_approved_requested_by e)
                                            then ex_approved_requested_by e else ex_requested_by e))]
      in (row', [ev], [audit_row ''vulnerability.exception_expire'' None row']))"

text \<open>The oldest window first, at most \<open>limit\<close> rows; equal windows keep the table's order.\<close>

definition swept_rows :: "time \<Rightarrow> string option \<Rightarrow> nat \<Rightarrow> vuln_db \<Rightarrow> vulnerability list" where
  "swept_rows now tenant_id limit d =
     take limit (sort_key (\<lambda>r. the (ex_until (v_exception r)))
       (filter (lapsed_unrecorded now tenant_id) (vd_rows d)))"

definition expire_exceptions :: "time \<Rightarrow> string option \<Rightarrow> nat \<Rightarrow> vuln_db \<Rightarrow> vuln_db \<times> nat" where
  "expire_exceptions now tenant_id limit d =
     (let rows = swept_rows now tenant_id limit d
      in (foldl (\<lambda>d row. commit_row d (lapse_row now row)) d rows, length rows))"

section \<open>Facts\<close>

lemma same_person_refl_iff: "same_person x x \<longleftrightarrow> casefold (strip (or_else x [])) \<noteq> []"
  by (simp add: same_person_def Let_def)

lemma same_person_sym: "same_person x y \<longleftrightarrow> same_person y x"
  by (auto simp: same_person_def Let_def)

lemma no_exception_simps [simp]:
  "ex_until no_exception = None" "ex_reason no_exception = None" "ex_by no_exception = None"
  "ex_approved_at no_exception = None" "ex_approved_requested_by no_exception = None"
  "ex_expired_at no_exception = None" "ex_state no_exception = EXCEPTION_NONE"
  "ex_requested_by no_exception = None" "ex_requested_at no_exception = None"
  "ex_requested_until no_exception = None" "ex_requested_reason no_exception = None"
  "ex_decided_by no_exception = None" "ex_decided_at no_exception = None"
  "ex_decision_note no_exception = None"
  by (simp_all add: no_exception_def)

text \<open>
  A well-formed acceptance. A granted window names who signed it and who had asked, and they
  are two people; without one no trace of a grant is left. A pending or refused request
  keeps its window, a pending one has no decision yet, and the state \<open>none\<close> has no column
  left.
\<close>

definition signed :: "exception_columns \<Rightarrow> bool" where
  "signed e \<longleftrightarrow> (ex_until e \<noteq> None \<longrightarrow> ex_by e \<noteq> None \<and> ex_approved_at e \<noteq> None \<and>
     \<not> same_person (ex_approved_requested_by e) (ex_by e))"

definition wf_exception :: "exception_columns \<Rightarrow> bool" where
  "wf_exception e \<longleftrightarrow> signed e \<and>
     (ex_until e = None \<longrightarrow> ex_by e = None \<and> ex_reason e = None \<and> ex_approved_at e = None \<and>
        ex_approved_requested_by e = None \<and> ex_expired_at e = None) \<and>
     (ex_state e \<in> {EXCEPTION_APPROVED, EXCEPTION_EXPIRED} \<longrightarrow> ex_until e \<noteq> None) \<and>
     (ex_state e \<in> {EXCEPTION_REQUESTED, EXCEPTION_REJECTED} \<longrightarrow> ex_requested_until e \<noteq> None) \<and>
     (ex_state e = EXCEPTION_REQUESTED \<longrightarrow>
        ex_decided_by e = None \<and> ex_decided_at e = None \<and> ex_decision_note e = None) \<and>
     ex_state e \<in> {EXCEPTION_NONE, EXCEPTION_REQUESTED, EXCEPTION_APPROVED, EXCEPTION_REJECTED,
                    EXCEPTION_EXPIRED} \<and>
     (ex_state e = EXCEPTION_NONE \<longrightarrow> e = no_exception)"

lemma wf_no_exception [simp]: "wf_exception no_exception" "signed no_exception"
  by (simp_all add: wf_exception_def signed_def)

lemma wf_exceptionD:
  assumes "wf_exception e"
  shows "signed e" "ex_state e \<noteq> []" "ex_state e = EXCEPTION_NONE \<Longrightarrow> e = no_exception"
proof -
  show "signed e" "ex_state e = EXCEPTION_NONE \<Longrightarrow> e = no_exception"
    using assms unfolding wf_exception_def by blast+
  have "ex_state e \<in> {EXCEPTION_NONE, EXCEPTION_REQUESTED, EXCEPTION_APPROVED, EXCEPTION_REJECTED,
      EXCEPTION_EXPIRED}"
    using assms unfolding wf_exception_def by blast
  then show "ex_state e \<noteq> []" by fastforce
qed

lemma drop_exception_keeps:
  "ex_until (v_exception row) = None \<Longrightarrow> or_none (ex_state (v_exception row)) = EXCEPTION_NONE \<Longrightarrow>
     drop_exception row = (row, [])"
  unfolding drop_exception_def Let_def by simp

lemma drop_exception_erases:
  "ex_until (v_exception row) \<noteq> None \<Longrightarrow> fst (drop_exception row) = row\<lparr>v_exception := no_exception\<rparr>"
  "or_none (ex_state (v_exception row)) \<noteq> EXCEPTION_NONE \<Longrightarrow>
     fst (drop_exception row) = row\<lparr>v_exception := no_exception\<rparr>"
  unfolding drop_exception_def Let_def by simp_all

lemma drop_exception_wf:
  assumes "wf_exception (v_exception row)"
  shows "fst (drop_exception row) = row\<lparr>v_exception := no_exception\<rparr>"
proof (cases "or_none (ex_state (v_exception row)) = EXCEPTION_NONE")
  case True
  with assms have none: "v_exception row = no_exception"
    by (simp add: or_none_def wf_exceptionD)
  have "row\<lparr>v_exception := v_exception row\<rparr> = row" by simp
  with none show ?thesis by (simp add: drop_exception_keeps)
next
  case False
  then show ?thesis by (rule drop_exception_erases)
qed

end
