(* ===== verification/Vuln_Verdicts.thy ===== *)
theory Vuln_Verdicts
  imports Vuln_Exceptions
begin

text \<open>
  False-positive verdicts, of \<^verbatim>\<open>api/services/vulnerabilities.py\<close>: marking a finding as never
  having been real, withdrawing the verdict, and weighing a re-observation against one that
  still holds. \<open>latest\<close> is the assessment of the observation; an observer that does not
  provide a field passes the row's own value for it, which no rule below tells apart from
  an absent key.
\<close>

section \<open>Worsening\<close>

definition FALSE_POSITIVE :: string where "FALSE_POSITIVE = ''false_positive''"
definition MIN_FP_SUPPRESS_DAYS :: int where "MIN_FP_SUPPRESS_DAYS = 1"
definition MAX_FP_SUPPRESS_DAYS :: int where "MAX_FP_SUPPRESS_DAYS = 365"

definition MATURITY_ORDER :: "string list" where
  "MATURITY_ORDER = [''theoretical'', ''unproven'', ''proof_of_concept'', ''weaponized'', ''attacked'']"

fun index_of :: "'a \<Rightarrow> 'a list \<Rightarrow> int option" where
  "index_of x [] = None"
| "index_of x (y # ys) = (if x = y then Some 0 else map_option (\<lambda>i. i + 1) (index_of x ys))"

definition maturity_rank :: "string option \<Rightarrow> int" where
  "maturity_rank v = or_else (index_of (lower (strip (or_else v []))) MATURITY_ORDER) (- 1)"

definition fp_suppressed :: "vulnerability \<Rightarrow> time \<Rightarrow> bool" where
  "fp_suppressed row now =
     (v_state row = CLOSED \<and> v_closure_reason row = Some FALSE_POSITIVE \<and>
      (case fp_suppress_until (v_fp row) of None \<Rightarrow> False | Some until \<Rightarrow> until > now))"

definition fp_escalations :: "vulnerability \<Rightarrow> assessment \<Rightarrow> string list" where
  "fp_escalations row latest =
     (let a = v_assessment row in
      (if severity_rank (as_severity latest) > severity_rank (as_severity a) then [''severity''] else []) @
      (if as_in_kev latest \<and> \<not> as_in_kev a then [''in_kev''] else []) @
      (if as_network_exposure latest = Some ''external'' \<and> as_network_exposure a \<noteq> Some ''external''
       then [''network_exposure''] else []) @
      (if maturity_rank (as_exploit_maturity latest) > maturity_rank (as_exploit_maturity a)
       then [''exploit_maturity''] else []))"

section \<open>Weighing a re-observation\<close>

datatype fp_outcome = Fp_none | Fp_held | Fp_overridden_now

text \<open>The receipt of a new run inside the risk assessment is provenance, not content.\<close>

definition semantic_value :: "json \<Rightarrow> json" where
  "semantic_value v = (case v of JObj kvs \<Rightarrow> JObj (filter (\<lambda>(k, _). k \<noteq> ''risk_assessment'') kvs) | _ \<Rightarrow> v)"

definition assessment_changed :: "assessment \<Rightarrow> assessment \<Rightarrow> bool" where
  "assessment_changed old new =
     (old\<lparr>as_risk_assessment := semantic_value (as_risk_assessment old)\<rparr>
      \<noteq> new\<lparr>as_risk_assessment := semantic_value (as_risk_assessment new)\<rparr>)"

definition weigh_fp_verdict ::
  "time \<Rightarrow> vulnerability \<Rightarrow> assessment \<Rightarrow> (string \<times> json) list \<Rightarrow>
   fp_outcome \<times> vulnerability \<times> vuln_event list" where
  "weigh_fp_verdict now row latest detail =
     (if \<not> fp_suppressed row now then (Fp_none, row, [])
      else
        let escalations = fp_escalations row latest in
        if escalations \<noteq> []
        then (Fp_overridden_now, row,
              [record_event row Fp_overridden now (Some (v_state row)) None None
                 (Some ''False-positive suppression overridden by a worse assessment'')
                 (detail @
                  [(''changed'', JArr (map JStr escalations)),
                   (''fp_observations'', JInt (fp_observations (v_fp row))),
                   (''fp_suppress_until'', jtime (fp_suppress_until (v_fp row))),
                   (''fp_marked_by'', jtext (fp_marked_by (v_fp row)))])])
        else
          let changed = assessment_changed (v_assessment row) latest;
              row' = row\<lparr>v_fp := (v_fp row)\<lparr>fp_observations := fp_observations (v_fp row) + 1\<rparr>\<rparr>
          in (Fp_held, row',
              if fp_observations (v_fp row') = 1 \<or> changed
              then [record_event row' Fp_reobserved now None (Some (v_state row')) None
                      (Some ''Still observed while suppressed as a false positive'')
                      (detail @
                       [(''fp_observations'', JInt (fp_observations (v_fp row'))),
                        (''fp_suppress_until'', jtime (fp_suppress_until (v_fp row')))])]
              else []))"

definition clear_fp :: "vulnerability \<Rightarrow> vulnerability" where
  "clear_fp row = row\<lparr>v_fp := no_fp\<rparr>"

definition drop_fp_verdict_on_reopen :: "vulnerability \<Rightarrow> vulnerability \<times> bool" where
  "drop_fp_verdict_on_reopen row =
     (if v_closure_reason row \<noteq> Some FALSE_POSITIVE then (row, False) else (clear_fp row, True))"

section \<open>Marking and withdrawing\<close>

definition mark_row ::
  "time \<Rightarrow> string \<Rightarrow> int \<Rightarrow> (string \<times> json) list \<Rightarrow> string option \<Rightarrow> vulnerability \<Rightarrow>
   vuln_error + row_outcome" where
  "mark_row now reason suppress_days evidence actor row =
     bindE (vuln_check_transition (v_vuln_id row) (v_state row) CLOSED) (\<lambda>_.
       let until = now + days suppress_days;
           row1 = row\<lparr>v_state := CLOSED, v_state_changed_at := now, v_state_changed_by := actor,
                    v_closed_at := Some now, v_machine_verified := False,
                    v_closure_reason := Some FALSE_POSITIVE,
                    v_fp := \<lparr>fp_reason = Some (take 2000 reason), fp_marked_by = actor,
                             fp_marked_at = Some now, fp_evidence = evidence,
                             fp_suppress_until = Some until, fp_observations = 0\<rparr>,
                    v_updated_at := now\<rparr>;
           (row2, dropped) = drop_exception row1;
           ev = record_event row2 False_positive_set now (Some (v_state row)) (Some CLOSED) actor
                  (Some reason)
                  ([(''closure_reason'', JStr FALSE_POSITIVE), (''fp_suppress_until'', jtime (Some until)),
                    (''suppress_days'', JInt suppress_days)] @ dropped)
       in Ok (row2, [ev], []))"

definition mark_false_positive ::
  "time \<Rightarrow> vuln_db \<Rightarrow> string option \<Rightarrow> string \<Rightarrow> string option \<Rightarrow> int \<Rightarrow> (string \<times> json) list \<Rightarrow>
   string option \<Rightarrow> vuln_error + (vuln_db \<times> vulnerability option)" where
  "mark_false_positive now d tenant_id vuln_id reason_in suppress_days evidence actor =
     (let reason = strip (or_else reason_in []) in
      if reason = [] then Err (ValueRefused ''a false-positive verdict needs a reason'')
      else if \<not> (MIN_FP_SUPPRESS_DAYS \<le> suppress_days \<and> suppress_days \<le> MAX_FP_SUPPRESS_DAYS)
      then Err (ValueRefused ''suppress_days out of range'')
      else on_row d tenant_id vuln_id (mark_row now reason suppress_days evidence actor))"

definition unmark_row ::
  "time \<Rightarrow> vuln_db \<Rightarrow> string option \<Rightarrow> string option \<Rightarrow> vulnerability \<Rightarrow> vuln_error + row_outcome" where
  "unmark_row now d actor note row =
     (if v_state row \<noteq> CLOSED \<or> v_closure_reason row \<noteq> Some FALSE_POSITIVE
      then Err (ValueRefused ''not closed as a false positive'')
      else bindE (resolve_sla_days d (v_tenant_id row) (v_severity row)
                    (asset_criticality_of d (v_asset_id row))) (\<lambda>(n, source).
        let row' = (clear_fp (row\<lparr>v_state := OPEN, v_state_changed_at := now,
                     v_state_changed_by := actor, v_closed_at := None, v_closure_reason := None,
                     v_machine_verified := False, v_sla_started_at := now, v_sla_days := Some n,
                     v_sla_source := Some source, v_due_at := Some (now + days n)\<rparr>))
                   \<lparr>v_updated_at := now\<rparr>;
            ev = record_event row' False_positive_cleared now (Some (v_state row)) (Some OPEN) actor note
                   [(''was_suppressed_until'', jtime (fp_suppress_until (v_fp row))),
                    (''fp_observations'', JInt (fp_observations (v_fp row))),
                    (''due_at'', jtime (v_due_at row'))]
        in Ok (row', [ev], [])))"

definition clear_false_positive ::
  "time \<Rightarrow> vuln_db \<Rightarrow> string option \<Rightarrow> string \<Rightarrow> string option \<Rightarrow> string option \<Rightarrow>
   vuln_error + (vuln_db \<times> vulnerability option)" where
  "clear_false_positive now d tenant_id vuln_id actor note =
     on_row d tenant_id vuln_id (unmark_row now d actor note)"

section \<open>Facts\<close>

lemma weigh_fp_verdict_cases [case_names none overridden held]:
  obtains "\<not> fp_suppressed row now" "weigh_fp_verdict now row latest detail = (Fp_none, row, [])"
  | ev where "fp_suppressed row now" "fp_escalations row latest \<noteq> []"
      "weigh_fp_verdict now row latest detail = (Fp_overridden_now, row, [ev])"
      "ev_from_state ev = Some (v_state row)" "ev_to_state ev = None"
      "ev_vuln_id ev = v_vuln_id row" "ev_kind ev = Fp_overridden"
  | evs where "fp_suppressed row now" "fp_escalations row latest = []"
      "weigh_fp_verdict now row latest detail =
        (Fp_held, row\<lparr>v_fp := (v_fp row)\<lparr>fp_observations := fp_observations (v_fp row) + 1\<rparr>\<rparr>, evs)"
      "length evs \<le> 1"
      "\<And>ev. ev \<in> set evs \<Longrightarrow> ev_from_state ev = None \<and> ev_to_state ev = Some (v_state row) \<and>
          ev_vuln_id ev = v_vuln_id row"
proof (cases "fp_suppressed row now")
  case False
  then show thesis using that(1) by (simp add: weigh_fp_verdict_def)
next
  case sup: True
  show thesis
  proof (cases "fp_escalations row latest = []")
    case True
    with sup show thesis
      by (intro that(3) [OF sup True]) (auto simp: weigh_fp_verdict_def Let_def split: if_splits)
  next
    case False
    with sup show thesis
      by (intro that(2) [OF sup False, of "hd (snd (snd (weigh_fp_verdict now row latest detail)))"])
         (simp_all add: weigh_fp_verdict_def Let_def)
  qed
qed

lemma fp_suppressedD:
  "fp_suppressed row now \<Longrightarrow> v_state row = CLOSED \<and> v_closure_reason row = Some FALSE_POSITIVE"
  by (simp add: fp_suppressed_def)

lemma maturity_rank_bounds: "- 1 \<le> maturity_rank v" "maturity_rank v \<le> 4"
proof -
  have "index_of x xs = Some i \<Longrightarrow> 0 \<le> i \<and> i < int (length xs)" for x :: string and xs i
    by (induction xs arbitrary: i) (auto split: if_splits)
  from this [of "lower (strip (or_else v []))" MATURITY_ORDER]
  show "- 1 \<le> maturity_rank v" "maturity_rank v \<le> 4"
    by (auto simp: maturity_rank_def MATURITY_ORDER_def or_else_def split: option.splits)
qed

end
