(* ===== verification/Vuln_Actions.thy ===== *)
theory Vuln_Actions
  imports Vuln_Verdicts
begin

text \<open>
  What people and the ticket poller do to a finding, of \<^verbatim>\<open>api/services/vulnerabilities.py\<close>:
  the lifecycle move, assignment, comments, linking and unlinking a ticket, reconciling with
  what the tracker says, and the two ends of a verification scan that are not the run itself
  (the receipt that parks the finding in \<open>VERIFYING\<close>, the release when its job did not
  succeed). What follows the commit (the outbound ticket update, workflow events) is left
  out: it writes no finding.
\<close>

section \<open>The lifecycle move\<close>

text \<open>The bookkeeping of a re-opening by hand or by ticket: a fresh clock, no verdict left.\<close>

definition reopened_row :: "time \<Rightarrow> vulnerability \<Rightarrow> vulnerability \<times> bool" where
  "reopened_row now row =
     (case drop_fp_verdict_on_reopen (row\<lparr>v_closed_at := None, v_machine_verified := False\<rparr>) of
        (row1, dropped) \<Rightarrow>
          (row1\<lparr>v_closure_reason := None, v_sla_started_at := now,
                v_due_at := Some (now + days (sla_days_or_default row1)),
                v_reopen_count := v_reopen_count row1 + 1\<rparr>, dropped))"

definition transition_row ::
  "time \<Rightarrow> string \<Rightarrow> string option \<Rightarrow> string option \<Rightarrow> vulnerability \<Rightarrow> vuln_error + row_outcome" where
  "transition_row now to_state actor note row =
     bindE (vuln_check_transition (v_vuln_id row) (v_state row) to_state) (\<lambda>_.
       let row1 = row\<lparr>v_state := to_state, v_state_changed_at := now, v_state_changed_by := actor,
                    v_updated_at := now\<rparr>;
           (row2, kind, detail) =
             (if to_state = CLOSED
              then (case drop_exception (row1\<lparr>v_closed_at := Some now, v_machine_verified := False,
                                             v_closure_reason := Some ''manual''\<rparr>) of
                      (r, dropped) \<Rightarrow>
                        (r, State_change, (''closure_reason'', JStr ''manual'') # dropped))
              else if v_state row = CLOSED
              then (case reopened_row now row1 of
                      (r, dropped) \<Rightarrow>
                        (r, Reopened,
                         (if dropped then [(''after_fp_suppression'', JBool True)] else []) @
                         [(''reopen_count'', JInt (v_reopen_count r))]))
              else (row1, State_change, []))
       in Ok (row2, [record_event row2 kind now (Some (v_state row)) (Some to_state) actor note detail], []))"

definition transition ::
  "time \<Rightarrow> vuln_db \<Rightarrow> string option \<Rightarrow> string \<Rightarrow> string option \<Rightarrow> string option \<Rightarrow> string option \<Rightarrow>
   vuln_error + (vuln_db \<times> vulnerability option)" where
  "transition now d tenant_id vuln_id to_state actor note =
     on_row d tenant_id vuln_id (transition_row now (upper (strip (or_else to_state []))) actor note)"

section \<open>Ownership and comments\<close>

text \<open>\<open>sent\<close> names the keys the request carried; without it both are touched.\<close>

definition assign_row ::
  "time \<Rightarrow> string option \<Rightarrow> string option \<Rightarrow> string option \<Rightarrow> string option \<Rightarrow> string list option \<Rightarrow>
   vulnerability \<Rightarrow> vuln_error + row_outcome" where
  "assign_row now assignee owner_team actor note sent row =
     (let touched = or_else sent [''assignee'', ''owner_team''];
          (row1, c1) = (if ''assignee'' \<in> set touched
             then (row\<lparr>v_assignee := clean_text assignee\<rparr>,
                   [(''assignee_from'', jtext (v_assignee row)),
                    (''assignee_to'', jtext (clean_text assignee))])
             else (row, []));
          (row2, c2) = (if ''owner_team'' \<in> set touched
             then (row1\<lparr>v_owner_team := clean_text owner_team\<rparr>,
                   [(''owner_team_from'', jtext (v_owner_team row1)),
                    (''owner_team_to'', jtext (clean_text owner_team))])
             else (row1, []));
          row3 = row2\<lparr>v_updated_at := now\<rparr>
      in Ok (row3, [record_event row3 Assigned now None (Some (v_state row3)) actor note (c1 @ c2)], []))"

definition assign ::
  "time \<Rightarrow> vuln_db \<Rightarrow> string option \<Rightarrow> string \<Rightarrow> string option \<Rightarrow> string option \<Rightarrow> string option \<Rightarrow>
   string option \<Rightarrow> string list option \<Rightarrow> vuln_error + (vuln_db \<times> vulnerability option)" where
  "assign now d tenant_id vuln_id assignee owner_team actor note sent =
     on_row d tenant_id vuln_id (assign_row now assignee owner_team actor note sent)"

definition add_comment ::
  "time \<Rightarrow> vuln_db \<Rightarrow> string option \<Rightarrow> string \<Rightarrow> string option \<Rightarrow> string option \<Rightarrow>
   vuln_error + (vuln_db \<times> vulnerability option)" where
  "add_comment now d tenant_id vuln_id note actor =
     (let body = strip (or_else note []) in
      if body = [] then Err (ValueRefused ''comment cannot be empty'')
      else on_row d tenant_id vuln_id (\<lambda>row.
        Ok (row, [record_event row Comment now None (Some (v_state row)) actor (Some body) []], [])))"

section \<open>Tickets\<close>

definition TICKET_SYSTEMS :: "string list" where
  "TICKET_SYSTEMS = [''jira'', ''servicenow'', ''smax'', ''defectdojo'', ''github'', ''gitlab'', ''other'']"

definition issue_char :: "char \<Rightarrow> bool" where
  "issue_char c = (let n = ord_of c in
     48 \<le> n \<and> n \<le> 57 \<or> 65 \<le> n \<and> n \<le> 90 \<or> 97 \<le> n \<and> n \<le> 122 \<or> n = 95 \<or> n = 46 \<or> n = 45)"

text \<open>\<open>_ISSUE_KEY\<close>: a path of name segments, a number sign, one to twelve digits.\<close>

definition issue_key :: "string \<Rightarrow> bool" where
  "issue_key key = (case partition_at (CHR 0x23) key of (path, found, number) \<Rightarrow>
     found \<and> list_all (\<lambda>seg. seg \<noteq> [] \<and> list_all issue_char seg) (split_on (CHR ''/'') path) \<and>
     1 \<le> length number \<and> length number \<le> 12 \<and> list_all is_ascii_digit number)"

definition ticket_document :: "string option \<Rightarrow> string option \<Rightarrow> string option \<Rightarrow> json" where
  "ticket_document system key url =
     JObj [(''system'', jtext system), (''key'', jtext key), (''url'', jtext url)]"

definition link_row ::
  "time \<Rightarrow> string \<Rightarrow> string option \<Rightarrow> string option \<Rightarrow> string option \<Rightarrow> string option \<Rightarrow>
   vulnerability \<Rightarrow> vuln_error + row_outcome" where
  "link_row now system key url actor note row =
     (let t = v_ticket row;
          row' = row\<lparr>v_ticket := \<lparr>tk_system = Some system, tk_key = key, tk_url = url,
                      tk_synced_at = None, tk_remote_status = None, tk_sync_error = None\<rparr>,
                   v_updated_at := now\<rparr>
      in Ok (row', [record_event row' Ticket_set now None (Some (v_state row')) actor note
                      [(''from'', ticket_document (tk_system t) (tk_key t) (tk_url t)),
                       (''to'', ticket_document (Some system) key url)]], []))"

text \<open>
  \<open>repos tenant system\<close> are the repositories of the tenant's enabled subscription (\<open>None\<close>:
  there is none) and \<open>http_url\<close> the verdict of \<^verbatim>\<open>urlparse\<close> on the scheme and authority.
\<close>

definition set_ticket ::
  "(string option \<Rightarrow> string \<Rightarrow> string list option) \<Rightarrow> (string \<Rightarrow> bool) \<Rightarrow> time \<Rightarrow> vuln_db \<Rightarrow>
   string option \<Rightarrow> string \<Rightarrow> string option \<Rightarrow> string option \<Rightarrow> string option \<Rightarrow> string option \<Rightarrow>
   string option \<Rightarrow> bool \<Rightarrow> vuln_error + (vuln_db \<times> vulnerability option)" where
  "set_ticket repos http_url now d tenant_id vuln_id system_in key_in url_in actor note verify_repository =
     (let system = lower (strip (or_else system_in [])); key = clean_text key_in; url = clean_text url_in in
      if system \<notin> set TICKET_SYSTEMS then Err (ValueRefused ''unknown ticket system'')
      else
        let forge = (key \<noteq> None \<and> system \<in> {''github'', ''gitlab''}); k = or_else key [] in
        if forge \<and> \<not> issue_key k then Err (ValueRefused ''ticket key must look like repository#number'')
        else if forge \<and> verify_repository \<and> repos tenant_id system = None
        then Err (ValueRefused ''no enabled subscription is configured for this tenant'')
        else if forge \<and> verify_repository \<and>
                lower (fst (rpartition_at (CHR 0x23) k)) \<notin> set (or_else (repos tenant_id system) [])
        then Err (ValueRefused ''repository is not one this tenant is configured for'')
        else if url \<noteq> None \<and> \<not> http_url (or_else url [])
        then Err (ValueRefused ''ticket_url must be an http(s) URL'')
        else if key = None \<and> url = None then Err (ValueRefused ''ticket_key or ticket_url is required'')
        else on_row d tenant_id vuln_id (link_row now system key url actor note))"

definition unlink_row :: "time \<Rightarrow> string option \<Rightarrow> vulnerability \<Rightarrow> vuln_error + row_outcome" where
  "unlink_row now actor row =
     (let t = v_ticket row in
      if tk_system t = None \<and> tk_key t = None \<and> tk_url t = None then Ok (row, [], [])
      else
        let row' = row\<lparr>v_ticket := no_ticket, v_updated_at := now\<rparr>
        in Ok (row', [record_event row' Ticket_cleared now None (Some (v_state row')) actor None
                        [(''system'', jtext (tk_system t)), (''key'', jtext (tk_key t)),
                         (''url'', jtext (tk_url t))]], []))"

definition clear_ticket ::
  "time \<Rightarrow> vuln_db \<Rightarrow> string option \<Rightarrow> string \<Rightarrow> string option \<Rightarrow>
   vuln_error + (vuln_db \<times> vulnerability option)" where
  "clear_ticket now d tenant_id vuln_id actor = on_row d tenant_id vuln_id (unlink_row now actor)"

text \<open>
  What the tracker just said: the suggested state and the raw status it read, or the error of
  the read; and the two flags that tell the poller from the button.
\<close>

record ticket_reading =
  tr_suggested_state :: "string option"
  tr_raw_status :: "string option"
  tr_error :: "string option"
  tr_actor :: "string option"
  tr_record_unchanged :: bool
  tr_only_on_remote_change :: bool

definition held_for_verification :: "vuln_db \<Rightarrow> vulnerability \<Rightarrow> bool" where
  "held_for_verification d row =
     (v_state row = VERIFYING \<and> truthy_text (v_verification_job_id row) \<and>
      (case row_get j_job_id (vd_jobs d) (or_else (v_verification_job_id row) []) of
         None \<Rightarrow> False | Some j \<Rightarrow> j_status j \<in> set ACTIVE))"

definition suggestion_applies :: "vuln_db \<Rightarrow> ticket_reading \<Rightarrow> vulnerability \<Rightarrow> bool" where
  "suggestion_applies d r row =
     (let t = v_ticket row;
          remote_changed = (tk_synced_at t = None \<or> tr_raw_status r \<noteq> tk_remote_status t)
      in truthy_text (tr_suggested_state r) \<and> tr_suggested_state r \<noteq> Some (v_state row) \<and>
         \<not> held_for_verification d row \<and> (remote_changed \<or> \<not> tr_only_on_remote_change r) \<and>
         vuln_can_transition (v_state row) (or_else (tr_suggested_state r) []))"

definition ticket_moved_row ::
  "time \<Rightarrow> string \<Rightarrow> string \<Rightarrow> vulnerability \<Rightarrow> vulnerability \<times> (string \<times> json) list \<times> bool" where
  "ticket_moved_row now new by row =
     (let row1 = row\<lparr>v_state := new, v_state_changed_at := now, v_state_changed_by := Some by,
                   v_updated_at := now\<rparr>
      in if new = CLOSED
         then (case drop_exception (row1\<lparr>v_closed_at := Some now, v_machine_verified := False,
                                        v_closure_reason := Some ''ticket_resolved''\<rparr>) of
                 (r, dropped) \<Rightarrow> (r, dropped, False))
         else if v_state row = CLOSED
         then (case reopened_row now row1 of (r, dropped_fp) \<Rightarrow> (r, [], dropped_fp))
         else (row1, [], False))"

definition synced_ticket :: "time \<Rightarrow> ticket_reading \<Rightarrow> ticket_columns \<Rightarrow> ticket_columns" where
  "synced_ticket now r t =
     t\<lparr>tk_synced_at := Some now,
       tk_sync_error := (if truthy_text (tr_error r) then tr_error r else None),
       tk_remote_status := (if tr_error r = None then tr_raw_status r else tk_remote_status t)\<rparr>"

definition ticket_row ::
  "time \<Rightarrow> vuln_db \<Rightarrow> ticket_reading \<Rightarrow> vulnerability \<Rightarrow> vuln_error + row_outcome" where
  "ticket_row now d r row =
     (let t = v_ticket row in
      if \<not> truthy_text (tk_system t) \<or> \<not> truthy_text (tk_key t) then Ok (row, [], [])
      else
        let system = or_else (tk_system t) []; key = or_else (tk_key t) [];
            by = or_text (tr_actor r) (''ticket_sync:'' @ system);
            applied = suggestion_applies d r row;
            held = held_for_verification d row;
            (row1, dropped, dropped_fp) =
              (if applied then ticket_moved_row now (or_else (tr_suggested_state r) []) by row
               else (row, [], False));
            row2 = row1\<lparr>v_ticket := synced_ticket now r t\<rparr>;
            was_failing = (tk_sync_error t \<noteq> None);
            failed = truthy_text (tr_error r);
            note = (if failed
                    then ''Ticket '' @ key @ '' could not be read: '' @ or_else (tr_error r) []
                    else ''Ticket '' @ key @ '' reports '' @ [CHR 0x27] @
                         or_text (tr_raw_status r) ''unknown'' @ [CHR 0x27]);
            ev = record_event row2 Ticket_synced now (Some (v_state row)) (Some (v_state row2)) (Some by)
                   (Some note)
                   ([(''ticket_system'', JStr system), (''ticket_key'', JStr key),
                     (''remote_status'', jtext (tr_raw_status r)),
                     (''suggested_state'', jtext (tr_suggested_state r)), (''applied'', JBool applied)] @
                    (if held \<and> truthy_text (tr_suggested_state r)
                     then [(''held_for_verification'', JBool True)] else []) @
                    dropped @
                    (if failed then [(''error'', jtext (tr_error r))] else []) @
                    (if dropped_fp then [(''after_fp_suppression'', JBool True)] else []))
        in Ok (row2,
               if tr_record_unchanged r \<or> applied \<or> was_failing \<noteq> (tr_error r \<noteq> None) then [ev] else [],
               []))"

definition apply_ticket_status ::
  "time \<Rightarrow> vuln_db \<Rightarrow> string option \<Rightarrow> string \<Rightarrow> ticket_reading \<Rightarrow>
   vuln_error + (vuln_db \<times> vulnerability option)" where
  "apply_ticket_status now d tenant_id vuln_id r = on_row d tenant_id vuln_id (ticket_row now d r)"

end
