(* ===== verification/Vuln_Detectors.thy ===== *)
theory Vuln_Detectors
  imports Vuln_Model Ip_Net
begin

text \<open>
  Who saw a finding and from where: the detector entries of one observation, how they are
  folded into the entries a finding keeps (\<^verbatim>\<open>merge_detectors\<close> of
  \<^verbatim>\<open>api/services/vulnerabilities.py\<close>), and the vantages a later refusal is compared with.
\<close>

section \<open>Names and keys\<close>

definition PULSE :: string where "PULSE = ''pulse''"
definition NUCLEI :: string where "NUCLEI = ''nuclei''"
definition NMAP_NSE :: string where "NMAP_NSE = ''nmap-nse''"
definition PULSE_PLUGIN :: string where "PULSE_PLUGIN = ''pulse-plugin''"
definition MAX_DETECTORS :: nat where "MAX_DETECTORS = 16"
definition MAX_VANTAGES :: nat where "MAX_VANTAGES = 8"
definition UNKNOWN_VANTAGE :: string where "UNKNOWN_VANTAGE = ''unknown''"

text \<open>\<^verbatim>\<open>s.strip("[]")\<close>.\<close>

definition strip_brackets :: "string \<Rightarrow> string" where
  "strip_brackets s =
     (let b = (\<lambda>c. c = CHR 0x5B \<or> c = CHR 0x5D) in rev (dropWhile b (rev (dropWhile b s))))"

text \<open>\<^verbatim>\<open>str(ipaddress.ip_address(text))\<close>: an address has no prefix length.\<close>

definition address_str :: "ip_network \<Rightarrow> string" where
  "address_str a =
     (case net_family a of V4 \<Rightarrow> v4_str (net_address a)
      | V6 \<Rightarrow> v6_str (net_address a) @ zone_suffix (net_zone a))"

definition normalize_host :: "string option \<Rightarrow> string" where
  "normalize_host v =
     (let text = lower (rstrip_char (CHR ''.'') (strip_brackets (strip (or_else v [])))) in
      case parse_address text of Some a \<Rightarrow> address_str a | None \<Rightarrow> text)"

definition detector_protocol :: "detector \<Rightarrow> string option" where
  "detector_protocol e =
     (let recorded = lower (or_else (d_protocol e) []) in
      if recorded = ''tcp'' \<or> recorded = ''udp'' then Some recorded
      else if recorded \<noteq> [] \<and> d_detector e = PULSE_PLUGIN then None
      else if d_detector e \<in> {PULSE, NUCLEI, PULSE_PLUGIN} then Some ''tcp'' else None)"

definition nonblank :: "string option \<Rightarrow> string option" where
  "nonblank x = (if truthy_text x then x else None)"

type_synonym detector_key =
  "string \<times> string option \<times> string option \<times> string \<times> string option"

definition detector_key :: "detector \<Rightarrow> detector_key" where
  "detector_key e =
     (d_detector e, nonblank (d_ref e),
      (if truthy_text (d_host e) then Some (normalize_host (d_host e)) else None),
      or_else (d_port e) [],
      (if d_detector e = PULSE_PLUGIN then detector_protocol e else None))"

definition loose_detector_key :: "detector \<Rightarrow> string \<times> string option \<times> string \<times> string option" where
  "loose_detector_key e =
     (d_detector e, nonblank (d_ref e), or_else (d_port e) [],
      (if d_detector e = PULSE_PLUGIN then detector_protocol e else None))"

section \<open>What one entry of a run stands for\<close>

text \<open>
  The entry's own claim and those of \<^verbatim>\<open>also_detected_by\<close>; the vantage is what the run's job
  says of where it looked from.
\<close>

record detector_claim =
  dc_source :: "string option"
  dc_script_id :: "string option"
  dc_protocol :: "string option"
  dc_ruleset :: "string option"

record vantage =
  vt_vantage :: string
  vt_agent_id :: "string option"
  vt_agent_group :: "string option"

definition detector_of :: "string option \<Rightarrow> string option \<Rightarrow> (string \<times> string) option" where
  "detector_of source script_id =
     (let name = take 32 (lower (strip (or_else source [])));
          script = strip (or_else script_id []);
          derived =
            (if startswith script ''nuclei:'' then Some (NUCLEI, drop 7 script)
             else if startswith script ''pulse-plugin:'' then Some (PULSE_PLUGIN, drop 13 script)
             else if startswith script ''pulse:'' then Some (PULSE, drop 6 script)
             else if script \<noteq> [] then Some (NMAP_NSE, script) else None)
      in if name = [] then derived
         else Some (name, (case derived of Some (n, ref) \<Rightarrow> if n = name then ref else script
                                         | None \<Rightarrow> script)))"

definition claim_entry ::
  "string option \<Rightarrow> string option \<Rightarrow> string \<Rightarrow> time \<Rightarrow> vantage option \<Rightarrow> detector_claim \<Rightarrow>
   detector option" where
  "claim_entry host port run_id now v c =
     (case detector_of (dc_source c) (dc_script_id c) of None \<Rightarrow> None
      | Some (name, ref) \<Rightarrow>
          let protocol = lower (strip (or_else (dc_protocol c) []));
              ruleset = take 80 (strip (or_else (dc_ruleset c) []))
          in Some \<lparr>d_detector = name, d_ref = nonblank (Some (take 200 ref)), d_host = host,
                   d_port = port, d_last_run_id = run_id, d_last_seen_at = now,
                   d_vantage = map_option vt_vantage v, d_vantages = [],
                   d_agent_id = (case v of None \<Rightarrow> None | Some x \<Rightarrow> vt_agent_id x),
                   d_agent_group = (case v of None \<Rightarrow> None | Some x \<Rightarrow> vt_agent_group x),
                   d_protocol = (if protocol \<in> {''tcp'', ''udp''} then Some protocol
                                 else if protocol \<noteq> [] \<and> name = PULSE_PLUGIN then Some ''unknown''
                                 else None),
                   d_ruleset = (if name \<in> {PULSE, PULSE_PLUGIN} \<and> ruleset \<noteq> [] then Some ruleset
                                else None)\<rparr>)"

definition add_entry :: "detector list \<Rightarrow> detector option \<Rightarrow> detector list" where
  "add_entry out e =
     (case e of None \<Rightarrow> out
      | Some x \<Rightarrow> if detector_key x \<in> set (map detector_key out) then out else out @ [x])"

definition observed_detectors ::
  "string option \<Rightarrow> detector_claim list \<Rightarrow> string option \<Rightarrow> string \<Rightarrow> time \<Rightarrow> vantage option \<Rightarrow>
   detector list" where
  "observed_detectors host_in claims port run_id now v =
     (let host = nonblank (Some (take 255 (strip (or_else host_in [])))) in
      foldl add_entry [] (map (claim_entry host port run_id now v) claims))"

section \<open>Vantages\<close>

definition vantages_of :: "detector \<Rightarrow> string list" where
  "vantages_of e = (if d_vantages e \<noteq> [] then d_vantages e else [or_text (d_vantage e) UNKNOWN_VANTAGE])"

definition observed_vantages :: "detector list \<Rightarrow> string set" where
  "observed_vantages es = (\<Union>e\<in>set es. set (vantages_of e))"

definition add_new :: "string list \<Rightarrow> string list \<Rightarrow> string list" where
  "add_new out vals = foldl (\<lambda>o' v. if v \<in> set o' then o' else o' @ [v]) out vals"

definition union_vantages :: "string list list \<Rightarrow> string list" where
  "union_vantages vss = take MAX_VANTAGES (foldl add_new [] vss)"

definition handed_on :: "detector \<Rightarrow> detector \<Rightarrow> string list" where
  "handed_on old new =
     (if detector_key old = detector_key new then vantages_of old
      else filter (\<lambda>v. v \<noteq> UNKNOWN_VANTAGE) (vantages_of old))"

text \<open>Whether a finding was only ever observed from where the verifying run looked.\<close>

definition same_vantage :: "detector list \<Rightarrow> vantage option \<Rightarrow> bool" where
  "same_vantage detectors verifying =
     (case verifying of None \<Rightarrow> False
      | Some v \<Rightarrow> vt_vantage v \<noteq> [] \<and> observed_vantages detectors = {vt_vantage v})"

section \<open>Folding an observation into the row\<close>

definition replaced_by :: "detector \<Rightarrow> detector \<Rightarrow> bool" where
  "replaced_by old new =
     (detector_key old = detector_key new \<or>
      \<not> truthy_text (d_host old) \<and> truthy_text (d_host new) \<and>
      loose_detector_key old = loose_detector_key new)"

definition renewed_entry :: "detector list \<Rightarrow> detector \<Rightarrow> detector" where
  "renewed_entry previous e =
     e\<lparr>d_vantages := union_vantages
         (vantages_of e # map (\<lambda>old. handed_on old e) (filter (\<lambda>old. replaced_by old e) previous))\<rparr>"

definition kept_entries :: "detector list \<Rightarrow> detector list \<Rightarrow> detector list" where
  "kept_entries previous observed =
     (let fresh = map detector_key observed;
          located = map loose_detector_key (filter (\<lambda>e. truthy_text (d_host e)) observed)
      in filter (\<lambda>e. detector_key e \<notin> set fresh \<and>
           \<not> (\<not> truthy_text (d_host e) \<and> loose_detector_key e \<in> set located)) previous)"

text \<open>
  Over the cap: entries that repeat a detector and ref held by a newer entry go first, the
  oldest of them first, then the oldest outright; what they saw goes to the newest entry.
\<close>

definition name_and_ref :: "detector \<Rightarrow> string \<times> string option" where
  "name_and_ref e = (d_detector e, nonblank (d_ref e))"

definition repeat_positions :: "detector list \<Rightarrow> nat list" where
  "repeat_positions es =
     filter (\<lambda>i. name_and_ref (es ! i) \<in> set (map name_and_ref (take i es))) [0..<length es]"

definition survivors :: "detector list \<Rightarrow> nat list" where
  "survivors es =
     (let dropped = take (length es - MAX_DETECTORS) (rev (repeat_positions es))
      in take MAX_DETECTORS (filter (\<lambda>i. i \<notin> set dropped) [0..<length es]))"

definition cap_detectors :: "detector list \<Rightarrow> detector list" where
  "cap_detectors es =
     (if length es \<le> MAX_DETECTORS then es
      else
        let live = survivors es; capped = map (\<lambda>i. es ! i) live;
            lost = concat (map (\<lambda>i. vantages_of (es ! i)) (filter (\<lambda>i. i \<notin> set live) [0..<length es]))
        in (case capped of [] \<Rightarrow> []
            | e # rest \<Rightarrow> e\<lparr>d_vantages := union_vantages [vantages_of e, lost]\<rparr> # rest))"

definition merge_detectors :: "detector list \<Rightarrow> detector list \<Rightarrow> detector list" where
  "merge_detectors existing observed =
     cap_detectors (map (renewed_entry existing) observed @ kept_entries existing observed)"

section \<open>What a merge keeps\<close>

lemma add_new_simps [simp]:
  "add_new out [] = out"
  "add_new out (v # vs) = add_new (if v \<in> set out then out else out @ [v]) vs"
  by (simp_all add: add_new_def)

lemma set_add_new [simp]: "set (add_new out vs) = set out \<union> set vs"
  by (induction vs arbitrary: out) auto

lemma distinct_add_new: "distinct out \<Longrightarrow> distinct (add_new out vs)"
  by (induction vs arbitrary: out) auto

lemma set_add_all: "set (foldl add_new out vss) = set out \<union> (\<Union>vs\<in>set vss. set vs)"
  by (induction vss arbitrary: out) auto

lemma distinct_add_all: "distinct out \<Longrightarrow> distinct (foldl add_new out vss)"
  by (induction vss arbitrary: out) (auto intro: distinct_add_new)

text \<open>The cap of a list of distinct vantages keeps a second one when there is a second one.\<close>

lemma cap_singleton:
  assumes "distinct xs" "set (take n xs) \<subseteq> {k}" "2 \<le> n"
  shows "set xs \<subseteq> {k}"
proof (cases xs)
  case Nil
  then show ?thesis by simp
next
  case (Cons x ys)
  show ?thesis
  proof (cases ys)
    case Nil
    with Cons assms show ?thesis by simp
  next
    case (Cons y zs)
    from \<open>2 \<le> n\<close> obtain m where "n = 2 + m" using le_Suc_ex by blast
    then have "n = Suc (Suc m)" by simp
    with \<open>xs = x # ys\<close> Cons have "set (take n xs) = {x, y} \<union> set (take m zs)" by auto
    moreover have "x \<noteq> y" using \<open>xs = x # ys\<close> Cons assms(1) by simp
    ultimately show ?thesis using assms(2) by blast
  qed
qed

lemma union_vantages_singleton:
  assumes "set (union_vantages vss) \<subseteq> {k}" "vs \<in> set vss"
  shows "set vs \<subseteq> {k}"
proof -
  have "distinct (foldl add_new [] vss)" by (rule distinct_add_all) simp
  moreover have "set (take MAX_VANTAGES (foldl add_new [] vss)) \<subseteq> {k}"
    using assms(1) unfolding union_vantages_def .
  moreover have "2 \<le> MAX_VANTAGES" by (simp add: MAX_VANTAGES_def)
  ultimately have "set (foldl add_new [] vss) \<subseteq> {k}" by (rule cap_singleton)
  then have "(\<Union>vs\<in>set vss. set vs) \<subseteq> {k}" by (simp add: set_add_all)
  with assms(2) show ?thesis by blast
qed

lemma union_vantages_nonempty:
  assumes "vs \<in> set vss" "vs \<noteq> []"
  shows "union_vantages vss \<noteq> []"
proof -
  from assms(2) obtain v where "v \<in> set vs" by (cases vs) auto
  then have "v \<in> set (foldl add_new [] vss)" using assms by (auto simp: set_add_all)
  then show ?thesis by (auto simp: union_vantages_def MAX_VANTAGES_def)
qed

lemma vantages_of_nonempty [simp]: "vantages_of e \<noteq> []"
  by (simp add: vantages_of_def)

lemma vantages_of_renewed:
  assumes "set (vantages_of (renewed_entry previous e)) \<subseteq> {k}"
  shows "set (vantages_of e) \<subseteq> {k}"
    and "old \<in> set previous \<Longrightarrow> replaced_by old e \<Longrightarrow> set (handed_on old e) \<subseteq> {k}"
proof -
  let ?vss = "vantages_of e # map (\<lambda>old. handed_on old e) (filter (\<lambda>old. replaced_by old e) previous)"
  have "union_vantages ?vss \<noteq> []"
    by (rule union_vantages_nonempty [of "vantages_of e"]) simp_all
  with assms have sub: "set (union_vantages ?vss) \<subseteq> {k}"
    by (simp add: renewed_entry_def vantages_of_def)
  show "set (vantages_of e) \<subseteq> {k}"
    by (rule union_vantages_singleton [OF sub]) simp
  show "set (handed_on old e) \<subseteq> {k}" if "old \<in> set previous" "replaced_by old e"
    by (rule union_vantages_singleton [OF sub]) (use that in simp)
qed

lemma observed_vantages_subset:
  "observed_vantages es \<subseteq> K \<longleftrightarrow> (\<forall>e\<in>set es. set (vantages_of e) \<subseteq> K)"
  by (auto simp: observed_vantages_def)

lemma survivors_bound: "i \<in> set (survivors es) \<Longrightarrow> i < length es"
  by (auto simp: survivors_def Let_def dest: in_set_takeD)

lemma survivors_nonempty: "MAX_DETECTORS < length es \<Longrightarrow> survivors es \<noteq> []"
proof -
  assume long: "MAX_DETECTORS < length es"
  have "0 \<notin> set (repeat_positions es)" by (simp add: repeat_positions_def)
  with long have "0 \<in> set (filter (\<lambda>i. i \<notin> set (take (length es - MAX_DETECTORS)
      (rev (repeat_positions es)))) [0..<length es])"
    by (auto dest: in_set_takeD)
  then have "filter (\<lambda>i. i \<notin> set (take (length es - MAX_DETECTORS) (rev (repeat_positions es))))
      [0..<length es] \<noteq> []"
    by (metis empty_iff list.set(1))
  then show ?thesis by (simp add: survivors_def MAX_DETECTORS_def)
qed

lemma cap_detectors_vantages:
  assumes "observed_vantages (cap_detectors es) \<subseteq> {k}"
  shows "observed_vantages es \<subseteq> {k}"
proof (cases "length es \<le> MAX_DETECTORS")
  case True
  with assms show ?thesis by (simp add: cap_detectors_def)
next
  case False
  obtain i rest where live: "survivors es = i # rest"
    using survivors_nonempty [of es] False by (cases "survivors es") auto
  let ?lost = "concat (map (\<lambda>i. vantages_of (es ! i)) (filter (\<lambda>i. i \<notin> set (survivors es)) [0..<length es]))"
  let ?union = "union_vantages [vantages_of (es ! i), ?lost]"
  have "?union \<noteq> []"
    by (rule union_vantages_nonempty [of "vantages_of (es ! i)"]) simp_all
  moreover have cap: "cap_detectors es = (es ! i)\<lparr>d_vantages := ?union\<rparr> # map (\<lambda>i. es ! i) rest"
    using False live by (simp add: cap_detectors_def Let_def)
  ultimately have sub: "set ?union \<subseteq> {k}" "\<forall>j\<in>set rest. set (vantages_of (es ! j)) \<subseteq> {k}"
    using assms by (simp_all add: observed_vantages_subset vantages_of_def)
  have first: "set (vantages_of (es ! i)) \<subseteq> {k}" and lost: "set ?lost \<subseteq> {k}"
    by (rule union_vantages_singleton [OF sub(1)], simp)+
  have "set (vantages_of (es ! j)) \<subseteq> {k}" if "j < length es" for j
  proof (cases "j \<in> set (survivors es)")
    case True
    with live sub(2) first show ?thesis by auto
  next
    case dead: False
    with that have "set (vantages_of (es ! j)) \<subseteq> set ?lost" by auto
    with lost show ?thesis by blast
  qed
  then show ?thesis unfolding observed_vantages_subset by (metis in_set_conv_nth)
qed

lemma length_cap_detectors: "length (cap_detectors es) \<le> MAX_DETECTORS"
  by (auto simp: cap_detectors_def survivors_def Let_def split: list.split)
     (metis length_Cons length_map length_take min.cobounded2 min.commute)

text \<open>Every earlier entry is replaced by an observed one or kept.\<close>

lemma kept_or_replaced:
  assumes "old \<in> set previous" "old \<notin> set (kept_entries previous observed)"
  obtains e where "e \<in> set observed" "replaced_by old e"
  using assms that by (auto simp: kept_entries_def Let_def replaced_by_def)

end
