(* ===== verification/Run_Coverage.thy ===== *)
theory Run_Coverage
  imports Vuln_Detectors
begin

text \<open>
  What a verification run demonstrably re-checked, \<^verbatim>\<open>api/services/verification_coverage.py\<close>:
  the rule of each detector over the artifacts of the run, \<^verbatim>\<open>assess\<close> over the detectors of a
  finding, and the evidence that a port is unreachable. The artifacts are records with the
  fields the rules read, after the JSON and XML readers: a document that is missing or not an
  object is \<open>None\<close>, a URL nuclei was given is its host name and effective port, completion
  receipts are per normalised host.
\<close>

section \<open>Ports\<close>

text \<open>\<^verbatim>\<open>int(text)\<close>: an optional sign, digits with single underscores between them.\<close>

definition int_body :: "string \<Rightarrow> int option" where
  "int_body s =
     (let parts = split_on (CHR ''_'') s in
      if list_all (\<lambda>p. p \<noteq> [] \<and> list_all is_ascii_digit p) parts
      then Some (int (digits_value 0 (concat parts))) else None)"

definition py_int :: "string \<Rightarrow> int option" where
  "py_int s = (case strip s of [] \<Rightarrow> None
     | c # cs \<Rightarrow> if c = CHR ''-'' then map_option uminus (int_body cs)
                 else if c = CHR ''+'' then int_body cs else int_body (c # cs))"

definition port_number :: "string \<Rightarrow> int option" where
  "port_number v =
     (case py_int (hd (split_on (CHR ''/'') (strip v))) of None \<Rightarrow> None
      | Some n \<Rightarrow> if 1 \<le> n \<and> n \<le> 65535 then Some n else None)"

text \<open>\<^verbatim>\<open>_port(None)\<close> is \<^verbatim>\<open>None\<close>: the text of it is no number.\<close>

definition port_of :: "string option \<Rightarrow> int option" where
  "port_of v = (case v of None \<Rightarrow> None | Some s \<Rightarrow> port_number s)"

text \<open>\<^verbatim>\<open>host:port\<close> as nuclei spells a skipped target.\<close>

definition endpoint_of :: "string \<Rightarrow> string \<times> int option" where
  "endpoint_of v = (case rpartition_at (CHR '':'') (strip v) of (host, _, port) \<Rightarrow>
     (normalize_host (Some host), port_number port))"

definition explicit_part :: "string \<Rightarrow> (int \<times> int) option" where
  "explicit_part part_in =
     (let part = strip part_in in
      if startswith part ''u:'' then None
      else (case partition_at (CHR ''-'') part of (low, _, high) \<Rightarrow>
        (case (port_number low, if high \<noteq> [] then port_number high else port_number low) of
           (Some first, Some last') \<Rightarrow> if first \<le> last' then Some (first, last') else None
         | _ \<Rightarrow> None)))"

text \<open>The argument after the first \<open>-p\<close>, and whether its list names a port.\<close>

definition explicit_ports :: "string list \<Rightarrow> (int \<times> int) list" where
  "explicit_ports args =
     (case dropWhile (\<lambda>a. a \<noteq> ''-p'') args of
        _ # ports # _ \<Rightarrow> List.map_filter explicit_part (split_on (CHR '','') ports)
      | _ \<Rightarrow> [])"

definition names_port :: "string list \<Rightarrow> int \<Rightarrow> bool" where
  "names_port args port = list_ex (\<lambda>(lo, hi). lo \<le> port \<and> port \<le> hi) (explicit_ports args)"

section \<open>Rulesets\<close>

definition leap_year :: "int \<Rightarrow> bool" where
  "leap_year y = (y mod 4 = 0 \<and> (y mod 100 \<noteq> 0 \<or> y mod 400 = 0))"

definition days_in_month :: "int \<Rightarrow> int \<Rightarrow> int" where
  "days_in_month y m =
     (if m = 2 then (if leap_year y then 29 else 28) else if m \<in> {4, 6, 9, 11} then 30 else 31)"

definition valid_date :: "int \<Rightarrow> int \<Rightarrow> int \<Rightarrow> bool" where
  "valid_date y m d = (1 \<le> y \<and> y \<le> 9999 \<and> 1 \<le> m \<and> m \<le> 12 \<and> 1 \<le> d \<and> d \<le> days_in_month y m)"

definition number_of :: "string \<Rightarrow> int" where
  "number_of s = int (digits_value 0 s)"

definition parse_ruleset :: "string \<Rightarrow> (int \<times> int \<times> int \<times> int) option" where
  "parse_ruleset v =
     (case partition_at (CHR ''-'') (lower (strip v)) of (body, sep, tail) \<Rightarrow>
       (case split_on (CHR ''.'') body of
          [y, m, d] \<Rightarrow>
            if list_all is_ascii_digit (y @ m @ d) \<and> length y = 4 \<and> length m \<in> {1, 2} \<and> length d \<in> {1, 2} \<and>
               (sep \<longrightarrow> length tail \<ge> 2 \<and> hd tail = CHR ''h'' \<and> list_all is_ascii_digit (tl tail)) \<and>
               valid_date (number_of y) (number_of m) (number_of d)
            then Some (number_of y, number_of m, number_of d, if sep then number_of (tl tail) else 0)
            else None
        | _ \<Rightarrow> None))"

definition ruleset_less :: "int \<times> int \<times> int \<times> int \<Rightarrow> int \<times> int \<times> int \<times> int \<Rightarrow> bool" where
  "ruleset_less a b = (case a of (y, m, d, h) \<Rightarrow> case b of (y', m', d', h') \<Rightarrow>
     y < y' \<or> y = y' \<and> (m < m' \<or> m = m' \<and> (d < d' \<or> d = d' \<and> h < h')))"

section \<open>The artifacts of a run\<close>

record nuclei_coverage =
  nc_ran :: bool
  nc_returncode :: json
  nc_missing :: "string list"
  nc_excluded :: "string list"
  nc_requested :: "string list"
  nc_ambiguous :: "string list"
  nc_loaded :: "int option"
  nc_expected :: "int option"
  nc_targets :: "(string \<times> int option) list"
  nc_skipped_targets :: "string list"

record nuclei_doc =
  nu_skipped_reason :: "string option"
  nu_coverage :: "nuclei_coverage option"

record plugin_error =
  pe_plugin :: string
  pe_hosts :: "string list"
  pe_ports :: "string list"

record plugin_receipt =
  pr_loaded :: "(string \<times> string) list"
  pr_errors :: "plugin_error list"

text \<open>\<open>pa_cve\<close> is \<open>None\<close> when the adapter has no such key.\<close>

record pulse_open =
  po_host :: "string option"
  po_port :: string
  po_service :: string
  po_banner :: string

record pulse_doc =
  pa_cve :: "bool option"
  pa_cve_online :: bool
  pa_ruleset :: "string option"
  pa_plugins :: "plugin_receipt option"
  pu_receipts :: "(string \<times> int list) list"
  pu_open :: "pulse_open list"

record nse_run =
  ns_scripts :: "string list"
  ns_open_ports :: "(string \<times> (int \<times> string) list) list"

record port_scan =
  ps_hosts :: "string list"
  ps_complete :: bool
  ps_port_args :: "string list"
  ps_exclude_ports :: "int list"

record run_artifacts =
  ra_nuclei :: "nuclei_doc option"
  ra_pulse :: "pulse_doc option"
  ra_nse :: "nse_run list"
  ra_reachability :: "((string \<times> int) \<times> string) list"
  ra_port_scans :: "port_scan list"
  ra_open_tcp :: "(string \<times> int) list"

section \<open>The rule of each detector\<close>

text \<open>Each rule answers the reason why the endpoint was not re-checked, or \<open>None\<close>.\<close>

definition nuclei_gap :: "run_artifacts \<Rightarrow> string \<Rightarrow> string list \<Rightarrow> int option \<Rightarrow> string option" where
  "nuclei_gap ra ref hosts port =
     (case ra_nuclei ra of None \<Rightarrow> Some ''nuclei_not_run''
      | Some doc \<Rightarrow>
        if truthy_text (nu_skipped_reason doc)
        then Some (''nuclei_skipped:'' @ or_else (nu_skipped_reason doc) [])
        else (case nu_coverage doc of None \<Rightarrow> Some ''nuclei_coverage_not_recorded''
          | Some c \<Rightarrow>
            if \<not> nc_ran c then Some (''nuclei_did_not_complete:'' @ py_str (nc_returncode c))
            else if ref \<in> set (nc_missing c) then Some ''template_missing''
            else if ref \<in> set (nc_excluded c) then Some ''template_excluded''
            else if ref = [] \<or> ref \<notin> set (nc_requested c) then Some ''template_not_pinned''
            else if ref \<in> set (nc_ambiguous c) then Some ''nuclei_template_ambiguous''
            else if nc_loaded c = None \<or> nc_expected c = None then Some ''nuclei_templates_loaded_not_recorded''
            else if nc_loaded c \<noteq> nc_expected c then Some ''nuclei_templates_not_loaded''
            else if port = None then Some ''no_port''
            else
              let targets = map (\<lambda>(h, p). (normalize_host (Some h), p)) (nc_targets c);
                  given = filter (\<lambda>h. (h, port) \<in> set targets) hosts;
                  skipped = map endpoint_of (nc_skipped_targets c)
              in if given = [] then Some ''endpoint_not_targeted''
                 else if list_all (\<lambda>h. (h, port) \<in> set skipped) given then Some ''nuclei_target_skipped''
                 else None))"

definition probed :: "pulse_doc \<Rightarrow> string \<Rightarrow> int option \<Rightarrow> bool" where
  "probed doc host port =
     (case map_of (rev (map (\<lambda>(h, ps). (normalize_host (Some h), ps)) (pu_receipts doc))) host of
        None \<Rightarrow> False
      | Some ports \<Rightarrow> ports \<noteq> [] \<and> (case port of None \<Rightarrow> True | Some p \<Rightarrow> p \<in> set ports))"

definition pulse_gap ::
  "run_artifacts \<Rightarrow> string \<Rightarrow> string option \<Rightarrow> string list \<Rightarrow> int option \<Rightarrow> string option" where
  "pulse_gap ra ref ruleset hosts port =
     (case ra_pulse ra of None \<Rightarrow> Some ''pulse_not_run''
      | Some doc \<Rightarrow>
        if pa_cve doc = None then Some ''pulse_cve_matching_not_recorded''
        else if pa_cve doc \<noteq> Some True then Some ''pulse_cve_matching_off''
        else if ref = ''nvd'' \<and> \<not> pa_cve_online doc then Some ''pulse_cve_online_off''
        else
          let stale =
            (if \<not> truthy_text ruleset then None
             else if \<not> truthy_text (pa_ruleset doc) then Some ''pulse_ruleset_not_recorded''
             else (case (parse_ruleset (or_else ruleset []), parse_ruleset (or_else (pa_ruleset doc) [])) of
                 (Some found_with, Some run_with) \<Rightarrow>
                   if ruleset_less run_with found_with then Some ''pulse_ruleset_older'' else None
               | _ \<Rightarrow> Some ''pulse_ruleset_unparseable''))
          in if stale \<noteq> None then stale
             else if list_ex (\<lambda>h. probed doc h port) hosts then None else Some ''endpoint_not_probed'')"

text \<open>\<open>APPLICABILITY\<close>: the services, banner prefixes (with a second string) and ports a plugin acts on.\<close>

definition APPLICABILITY :: "(string \<times> string list \<times> (string \<times> string) list \<times> int list) list" where
  "APPLICABILITY =
     [(''shapo_rsync_modules'', [''rsync''], [], [873]),
      (''shapo_zookeeper_envi'', [''zookeeper''], [], [2181]),
      (''shapo_redis_info'', [''redis''], [], [6379]),
      (''shapo_memcached_stats'', [''memcached'', ''memcache''], [], [11211]),
      (''shapo_ssh_algorithms'', [''ssh''], [(''ssh-'', [])], []),
      (''shapo_ssh_banner'', [''ssh''], [(''ssh-'', [])], []),
      (''shapo_ftp_anonymous'', [''ftp''], [(''220'', ''ftp'')], []),
      (''shapo_http_trace'', [''http''], [(''http/'', [])], []),
      (''shapo_cleartext_services'', [''telnet'', ''ftp'', ''pop3'', ''imap'', ''smtp''],
         [(''220'', ''ftp''), (''+ok'', []), (''* ok'', []), (''220'', ''smtp'')], [23]),
      (''shapo_ssh_hostkey'', [''ssh''], [], [22]),
      (''shapo_snmp_info'', [''snmp''], [], [161]),
      (''shapo_ms17_010'', [''smb'', ''microsoft-ds'', ''netbios-ssn''], [], [445, 139]),
      (''shapo_smb_protocols'', [''smb'', ''microsoft-ds'', ''netbios-ssn''], [], [445, 139]),
      (''shapo_rdp_ntlm_info'', [''rdp'', ''ms-wbt-server''], [], [3389]),
      (''shapo_vnc_security'', [''vnc''], [(''rfb '', [])],
         [5900, 5901, 5902, 5903, 5904, 5905, 5906, 5907, 5908, 5909]),
      (''shapo_smb1'', [''smb'', ''microsoft-ds''], [], [445]),
      (''shapo_smb_signing'', [''smb'', ''microsoft-ds''], [], [445]),
      (''shapo_rdp_negotiation'', [''rdp'', ''ms-wbt-server''], [], [3389]),
      (''shapo_smb_exposure'', [''smb'', ''microsoft-ds'', ''netbios-ssn''], [], [445, 139]),
      (''shapo_remote_admin_exposure'', [''rdp'', ''ms-wbt-server'', ''vnc''], [(''rfb '', [])], [3389])]"

fun occurs_in :: "string \<Rightarrow> string \<Rightarrow> bool" where
  "occurs_in needle [] = (needle = [])"
| "occurs_in needle (c # cs) = (startswith (c # cs) needle \<or> occurs_in needle cs)"

definition plugin_applies :: "string \<Rightarrow> string \<Rightarrow> int \<Rightarrow> string \<Rightarrow> bool" where
  "plugin_applies plugin service port banner =
     (case map_of APPLICABILITY plugin of None \<Rightarrow> False
      | Some (services, banners, ports) \<Rightarrow>
          service \<in> set services \<or>
          list_ex (\<lambda>(prefix, needle). startswith (lower banner) prefix \<and> occurs_in needle (lower banner)) banners \<or>
          service \<in> {[], ''unknown''} \<and> port \<in> set ports)"

definition error_covers :: "plugin_error \<Rightarrow> string \<Rightarrow> string list \<Rightarrow> int option \<Rightarrow> bool" where
  "error_covers e ref hosts port =
     (let ehosts = map (\<lambda>h. normalize_host (Some h)) (pe_hosts e);
          eports = List.map_filter port_number (pe_ports e)
      in pe_plugin e = ref \<and> (ehosts = [] \<or> list_ex (\<lambda>h. h \<in> set ehosts) hosts) \<and>
         (eports = [] \<or> (case port of None \<Rightarrow> True | Some p \<Rightarrow> p \<in> set eports)))"

definition open_row_applies :: "pulse_open \<Rightarrow> string \<Rightarrow> string list \<Rightarrow> int option \<Rightarrow> bool" where
  "open_row_applies o' ref hosts port =
     (normalize_host (po_host o') \<in> set hosts \<and>
      (port = None \<or> port_number (po_port o') = port) \<and>
      plugin_applies ref (po_service o') (or_else (port_number (po_port o')) 0) (po_banner o'))"

definition plugin_gap ::
  "run_artifacts \<Rightarrow> string \<Rightarrow> string option \<Rightarrow> string list \<Rightarrow> int option \<Rightarrow> string option \<Rightarrow>
   string option" where
  "plugin_gap ra ref expected hosts port protocol =
     (if protocol \<noteq> Some ''tcp'' then Some ''plugin_transport_not_probed''
      else (case ra_pulse ra of None \<Rightarrow> Some ''pulse_not_run''
        | Some doc \<Rightarrow>
          (case pa_plugins doc of None \<Rightarrow> Some ''plugin_receipt_not_recorded''
           | Some receipt \<Rightarrow>
             (case map_of (rev (pr_loaded receipt)) ref of
                None \<Rightarrow> Some ''plugin_not_loaded''
              | Some sha \<Rightarrow>
                let wanted = or_else expected [] in
                if ref = [] then Some ''plugin_not_loaded''
                else if \<not> startswith wanted ''sha256:'' then Some ''plugin_version_not_recorded''
                else if sha \<noteq> drop 7 wanted then Some ''plugin_changed''
                else if \<not> list_ex (\<lambda>h. probed doc h port) hosts then Some ''endpoint_not_probed''
                else if \<not> list_ex (\<lambda>o'. open_row_applies o' ref hosts port) (pu_open doc)
                then Some ''plugin_not_applicable''
                else if list_ex (\<lambda>e. error_covers e ref hosts port) (pr_errors receipt)
                then Some ''plugin_error''
                else None))))"

definition nse_gap ::
  "run_artifacts \<Rightarrow> string \<Rightarrow> string list \<Rightarrow> int option \<Rightarrow> string option \<Rightarrow> string option" where
  "nse_gap ra ref hosts port protocol =
     (if ra_nse ra = [] then Some ''nse_not_run''
      else
        let with_script = filter (\<lambda>r. ref \<noteq> [] \<and> ref \<in> set (ns_scripts r)) (ra_nse ra) in
        if with_script = [] then Some ''script_not_run''
        else if list_ex (\<lambda>r. list_ex (\<lambda>h. case map_of (ns_open_ports r) h of None \<Rightarrow> False
                  | Some ports \<Rightarrow> (case port of None \<Rightarrow> True
                      | Some q \<Rightarrow> list_ex (\<lambda>(p, proto). p = q \<and> (protocol = None \<or> Some proto = protocol)) ports))
                hosts) with_script
        then None else Some ''endpoint_not_scanned'')"

definition gap_reason :: "run_artifacts \<Rightarrow> detector \<Rightarrow> string list \<Rightarrow> int option \<Rightarrow> string option" where
  "gap_reason ra e hosts port =
     (let ref = or_else (d_ref e) [] in
      if d_detector e = NUCLEI then nuclei_gap ra ref hosts port
      else if d_detector e = PULSE then pulse_gap ra ref (d_ruleset e) hosts port
      else if d_detector e = PULSE_PLUGIN
      then plugin_gap ra ref (d_ruleset e) hosts port (detector_protocol e)
      else if d_detector e = NMAP_NSE then nse_gap ra ref hosts port (detector_protocol e)
      else Some ''no_coverage_rule'')"

section \<open>Assessing a finding\<close>

record gap =
  gp_detector :: string
  gp_ref :: "string option"
  gp_host :: "string option"
  gp_port :: "string option"
  gp_reason :: string
  gp_legacy_rule :: bool
  gp_covered_by :: "string option"

definition is_ip :: "string \<Rightarrow> bool" where
  "is_ip v \<longleftrightarrow> parse_address v \<noteq> None"

text \<open>The addresses a detector without a host is held to: every IP of the asset, or its names.\<close>

definition hostless_hosts :: "string list \<Rightarrow> string list" where
  "hostless_hosts asset_hosts =
     (let known = map (\<lambda>h. normalize_host (Some h)) (filter (\<lambda>h. h \<noteq> []) asset_hosts);
          ips = filter is_ip known
      in sort (remdups (if ips \<noteq> [] then ips else known)))"

text \<open>One assessed entry: the entry, the hosts it was held to, the reason and where it failed.\<close>

type_synonym assessed = "detector \<times> string list \<times> string option \<times> string option"

definition first_failing ::
  "run_artifacts \<Rightarrow> detector \<Rightarrow> int option \<Rightarrow> string list \<Rightarrow> string option \<times> string option" where
  "first_failing ra e port hosts =
     (case find (\<lambda>h. gap_reason ra e [h] port \<noteq> None) hosts of
        None \<Rightarrow> (None, None) | Some h \<Rightarrow> (gap_reason ra e [h] port, Some h))"

definition assess_entry ::
  "run_artifacts \<Rightarrow> string option \<Rightarrow> string list \<Rightarrow> detector \<Rightarrow> assessed" where
  "assess_entry ra port hostless e =
     (let endpoint_port = port_of (if truthy_text (d_port e) then d_port e else port) in
      if truthy_text (d_host e)
      then (let h = normalize_host (d_host e) in (e, [h], gap_reason ra e [h] endpoint_port, None))
      else if hostless = [] then (e, [], Some ''no_address'', None)
      else (case first_failing ra e endpoint_port hostless of (r, w) \<Rightarrow> (e, hostless, r, w)))"

definition legacy_entry :: "string option \<Rightarrow> detector" where
  "legacy_entry port =
     \<lparr>d_detector = PULSE, d_ref = None, d_host = None, d_port = port, d_last_run_id = [],
      d_last_seen_at = 0, d_vantage = None, d_vantages = [], d_agent_id = None,
      d_agent_group = None, d_protocol = None, d_ruleset = None\<rparr>"

definition stand_in :: "assessed list \<Rightarrow> string list \<Rightarrow> detector option" where
  "stand_in results hosts =
     map_option fst (find (\<lambda>(e, other_hosts, r, _). r = None \<and> d_detector e \<in> {PULSE, NUCLEI} \<and>
       list_ex (\<lambda>h. h \<in> set hosts) other_hosts) results)"

definition gap_row :: "bool \<Rightarrow> string option \<Rightarrow> assessed \<Rightarrow> string \<Rightarrow> gap" where
  "gap_row legacy port a r = (case a of (e, hosts, _, where_) \<Rightarrow>
     \<lparr>gp_detector = (if d_detector e = [] then ''unknown'' else d_detector e),
      gp_ref = nonblank (d_ref e),
      gp_host = (if truthy_text (d_host e) then d_host e else where_),
      gp_port = (if truthy_text (d_port e) then d_port e else port),
      gp_reason = r, gp_legacy_rule = legacy, gp_covered_by = None\<rparr>)"

text \<open>A gap of one entry, and whether another detector stands in for it.\<close>

definition judge_entry ::
  "bool \<Rightarrow> string option \<Rightarrow> assessed list \<Rightarrow> assessed \<Rightarrow> (gap + gap) option" where
  "judge_entry legacy port results a = (case a of (e, hosts, r, _) \<Rightarrow>
     (case r of None \<Rightarrow> None
      | Some why \<Rightarrow>
          let row = gap_row legacy port a why in
          if d_detector e = NMAP_NSE
          then (case stand_in results hosts of None \<Rightarrow> Some (Inl row)
                | Some other \<Rightarrow> Some (Inr (row\<lparr>gp_covered_by := Some (d_detector other)\<rparr>)))
          else Some (Inl row)))"

fun lefts :: "('a + 'b) list \<Rightarrow> 'a list" where
  "lefts [] = []"
| "lefts (Inl a # xs) = a # lefts xs"
| "lefts (Inr b # xs) = lefts xs"

fun rights :: "('a + 'b) list \<Rightarrow> 'b list" where
  "rights [] = []"
| "rights (Inl a # xs) = rights xs"
| "rights (Inr b # xs) = b # rights xs"

definition assessed_entries ::
  "run_artifacts \<Rightarrow> detector list \<Rightarrow> string option \<Rightarrow> string list \<Rightarrow> assessed list" where
  "assessed_entries ra detectors port asset_hosts =
     map (assess_entry ra port (hostless_hosts asset_hosts))
       (if detectors = [] then [legacy_entry port] else detectors)"

definition assess ::
  "run_artifacts \<Rightarrow> detector list \<Rightarrow> string option \<Rightarrow> string list \<Rightarrow> gap list \<times> gap list" where
  "assess ra detectors port asset_hosts =
     (let results = assessed_entries ra detectors port asset_hosts;
          judged = List.map_filter (judge_entry (detectors = []) port results) results
      in (lefts judged, rights judged))"

section \<open>Unreachable endpoints\<close>

definition finding_protocol :: "detector list \<Rightarrow> string option" where
  "finding_protocol detectors =
     (case remdups (map detector_protocol detectors) of [Some p] \<Rightarrow> Some p | _ \<Rightarrow> None)"

definition refused_there :: "run_artifacts \<Rightarrow> int \<Rightarrow> string \<Rightarrow> bool" where
  "refused_there ra port host =
     (let batches = filter (\<lambda>s. host \<in> set (map (\<lambda>h. normalize_host (Some h)) (ps_hosts s))) (ra_port_scans ra) in
      is_ip host \<and> (host, port) \<notin> set (ra_open_tcp ra) \<and>
      map_of (rev (ra_reachability ra)) (host, port) = Some ''refused'' \<and>
      batches \<noteq> [] \<and> list_all ps_complete batches \<and>
      list_ex (\<lambda>s. names_port (ps_port_args s) port \<and> port \<notin> set (ps_exclude_ports s)) batches)"

definition endpoint_unreachable ::
  "run_artifacts \<Rightarrow> string list \<Rightarrow> int option \<Rightarrow> string option \<Rightarrow> (string \<times> int) list option" where
  "endpoint_unreachable ra hosts port protocol =
     (case port of None \<Rightarrow> None
      | Some p \<Rightarrow>
          if hosts = [] \<or> protocol \<noteq> Some ''tcp'' then None
          else if list_all (refused_there ra p) (sort (remdups hosts))
          then Some (map (\<lambda>h. (h, p)) (sort (remdups hosts))) else None)"

section \<open>Facts\<close>

lemma lefts_Nil_iff: "lefts xs = [] \<longleftrightarrow> (\<forall>x\<in>set xs. \<exists>b. x = Inr b)"
  by (induction xs rule: lefts.induct) auto

lemma set_rights: "b \<in> set (rights xs) \<longleftrightarrow> Inr b \<in> set xs"
  by (induction xs rule: rights.induct) auto

lemma first_failing_None:
  "first_failing ra e port hosts = (None, w) \<longleftrightarrow> w = None \<and> (\<forall>h\<in>set hosts. gap_reason ra e [h] port = None)"
  by (auto simp: first_failing_def find_None_iff split: option.splits dest!: find_SomeD)

text \<open>What it means for an entry to be covered: its own host, or every address it is held to.\<close>

definition entry_covered ::
  "run_artifacts \<Rightarrow> string option \<Rightarrow> string list \<Rightarrow> detector \<Rightarrow> bool" where
  "entry_covered ra port hostless e \<longleftrightarrow>
     (let p = port_of (if truthy_text (d_port e) then d_port e else port) in
      if truthy_text (d_host e) then gap_reason ra e [normalize_host (d_host e)] p = None
      else hostless \<noteq> [] \<and> (\<forall>h\<in>set hostless. gap_reason ra e [h] p = None))"

lemma assess_entry_covered:
  "assess_entry ra port hostless e = (e', hosts, r, w) \<Longrightarrow> e' = e \<and> (r = None \<longleftrightarrow> entry_covered ra port hostless e)"
  by (auto simp: assess_entry_def entry_covered_def Let_def first_failing_None split: if_splits prod.splits)
     (metis first_failing_None prod.collapse prod.inject)+

lemma judge_entry_not_gap:
  assumes "\<And>g. judge_entry legacy port results (e, hosts, r, w) \<noteq> Some (Inl g)"
  shows "r = None \<or> d_detector e = NMAP_NSE \<and> stand_in results hosts \<noteq> None"
proof (cases r)
  case (Some why)
  have "judge_entry legacy port results (e, hosts, r, w) \<noteq> Some (Inl (gap_row legacy port (e, hosts, r, w) why))"
    by (rule assms)
  with Some show ?thesis
    by (auto simp: judge_entry_def Let_def split: if_splits option.splits)
qed simp

lemma in_map_filter: "y \<in> set (List.map_filter f xs) \<longleftrightarrow> (\<exists>x\<in>set xs. f x = Some y)"
  by (force simp: map_filter_def)

lemma assess_no_gaps:
  assumes "fst (assess ra detectors port asset_hosts) = []"
    and "(e, hosts, r, w) \<in> set (assessed_entries ra detectors port asset_hosts)"
  shows "r = None \<or> d_detector e = NMAP_NSE \<and>
    stand_in (assessed_entries ra detectors port asset_hosts) hosts \<noteq> None"
proof (rule judge_entry_not_gap)
  fix g
  show "judge_entry (detectors = []) port (assessed_entries ra detectors port asset_hosts) (e, hosts, r, w)
      \<noteq> Some (Inl g)"
  proof
    assume "judge_entry (detectors = []) port (assessed_entries ra detectors port asset_hosts) (e, hosts, r, w)
      = Some (Inl g)"
    with assms(2) have "Inl g \<in> set (List.map_filter (judge_entry (detectors = []) port
        (assessed_entries ra detectors port asset_hosts)) (assessed_entries ra detectors port asset_hosts))"
      unfolding in_map_filter by blast
    moreover have "lefts (List.map_filter (judge_entry (detectors = []) port
        (assessed_entries ra detectors port asset_hosts)) (assessed_entries ra detectors port asset_hosts)) = []"
      using assms(1) by (simp add: assess_def Let_def)
    ultimately show False unfolding lefts_Nil_iff by blast
  qed
qed

lemma stand_in_SomeD:
  assumes "stand_in results hosts = Some other"
  obtains other_hosts w where "(other, other_hosts, None, w) \<in> set results"
    "d_detector other \<in> {PULSE, NUCLEI}" "set other_hosts \<inter> set hosts \<noteq> {}"
proof -
  let ?P = "\<lambda>(e, other_hosts, r, w). r = None \<and> d_detector e \<in> {PULSE, NUCLEI} \<and>
       list_ex (\<lambda>h. h \<in> set hosts) other_hosts"
  from assms obtain a where f: "find ?P results = Some a" and o': "fst a = other"
    by (auto simp: stand_in_def)
  obtain e oh r w where a: "a = (e, oh, r, w)" by (cases a) auto
  from find_SomeD [OF f] have "a \<in> set results" "?P a" by simp_all
  with a o' that show thesis by (auto simp: list_ex_iff)
qed

end
