(* ===== verification/Vuln_Verification.thy ===== *)
theory Vuln_Verification
  imports Vuln_Actions Run_Coverage
begin

text \<open>
  Closed-loop verification, of \<^verbatim>\<open>api/services/vulnerabilities.py\<close>: which findings may be sent
  to a re-scan, the receipt that parks one in \<open>VERIFYING\<close> once its job is durable, what the
  run of that job decides, and the release when the job ended without a run. The exact-object
  receipt of a non-CVE finding (\<^verbatim>\<open>non_cve_gaps\<close>) is an argument; the key that ties a job to a
  finding and its plan is an argument too (a hash of the row and of the plan built from it).
\<close>

section \<open>Dispatch\<close>

definition RECEIPT_STATUSES :: "string list" where
  "RECEIPT_STATUSES = [QUEUED, CLAIMED, RUNNING]"

definition dispatch_allowed :: "vulnerability \<Rightarrow> vuln_error + unit" where
  "dispatch_allowed row =
     (if v_source row = ''endpoint_software''
      then Err (DispatchRefused ''came from the endpoint software inventory'')
      else if v_source row = ''retro_match''
      then Err (DispatchRefused ''was inferred by retro matching from a stored service fingerprint'')
      else vuln_check_transition (v_vuln_id row) (v_state row) VERIFYING)"

text \<open>
  The receipt: the job must still be there and not ended, carry the key and name the
  finding, and the finding must still be the one the key was made of.
\<close>

definition receipt_row ::
  "time \<Rightarrow> string \<Rightarrow> string option \<Rightarrow> vulnerability \<Rightarrow> row_outcome" where
  "receipt_row now job_id actor row =
     (let by = or_text actor ''system:verification'';
          row' = row\<lparr>v_state := VERIFYING, v_state_changed_at := now, v_state_changed_by := Some by,
                   v_verification_job_id := Some job_id, v_last_verified_at := Some now,
                   v_updated_at := now\<rparr>
      in (row', [record_event row' Verification_started now (Some (v_state row)) (Some VERIFYING)
                   (Some by) (Some (''Targeted verification scan dispatched (job '' @ job_id @ '')''))
                   [(''job_id'', JStr job_id), (''asset_id'', JStr (v_asset_id row)),
                    (''port'', jtext (v_port row)), (''cve'', jtext (v_cve row)),
                    (''script_id'', jtext (v_script_id row))]], []))"

definition verification_receipt ::
  "(vuln_db \<Rightarrow> vulnerability \<Rightarrow> string) \<Rightarrow> time \<Rightarrow> vuln_db \<Rightarrow> string \<Rightarrow> string \<Rightarrow> string \<Rightarrow> string \<Rightarrow>
   string option \<Rightarrow> vuln_error + (vuln_db \<times> vulnerability option)" where
  "verification_receipt intent_key now d tenant_id vuln_id job_id key actor =
     (case row_get j_job_id (vd_jobs d) job_id of
        None \<Rightarrow> Err (ReconciliationRequired job_id ''missing'')
      | Some j \<Rightarrow>
          if j_tenant_id j \<noteq> tenant_id then Err (ReconciliationRequired job_id ''missing'')
          else if j_status j \<notin> set RECEIPT_STATUSES \<or> j_idempotency_key j \<noteq> Some key \<or>
                  map_of (vd_verification_of d) job_id \<noteq> Some vuln_id
          then Err (ReconciliationRequired job_id (j_status j))
          else (case load d (Some tenant_id) vuln_id of
              None \<Rightarrow> Err (ReconciliationRequired job_id (j_status j))
            | Some row \<Rightarrow>
                if intent_key d row \<noteq> key then Err (ReconciliationRequired job_id (j_status j))
                else (let out = receipt_row now job_id actor row
                      in Ok (commit_row d out, Some (fst out)))))"

section \<open>Nothing shown either way\<close>

definition send_back_inconclusive ::
  "time \<Rightarrow> string \<Rightarrow> (string \<times> json) list \<Rightarrow> vulnerability \<Rightarrow> row_outcome" where
  "send_back_inconclusive now note detail row =
     (let row' = row\<lparr>v_state := FIXING, v_state_changed_at := now,
                   v_state_changed_by := Some ''system:verification'',
                   v_last_verified_at := Some now, v_updated_at := now\<rparr>
      in (row', [record_event row' Verification_inconclusive now (Some VERIFYING) (Some FIXING)
                   (Some ''system:verification'') (Some note) detail], []))"

definition awaits_job :: "string \<Rightarrow> string list \<Rightarrow> vulnerability \<Rightarrow> bool" where
  "awaits_job tenant_id job_ids row =
     (v_tenant_id row = tenant_id \<and> v_state row = VERIFYING \<and>
      (case v_verification_job_id row of None \<Rightarrow> False | Some j \<Rightarrow> j \<in> set job_ids))"

definition release_unfinished_verification ::
  "time \<Rightarrow> vuln_db \<Rightarrow> string \<Rightarrow> string \<Rightarrow> string option \<Rightarrow> string \<Rightarrow> vuln_db \<times> nat" where
  "release_unfinished_verification now d tenant_id job_id run_id status =
     (let rows = filter (awaits_job tenant_id [job_id]) (vd_rows d);
          note = ''Verification job '' @ job_id @ '' ended '' @ status @
                 '' before its run could show anything; the finding is neither verified fixed nor seen again'';
          detail = [(''run_id'', jtext run_id), (''job_id'', JStr job_id), (''job_status'', JStr status),
                    (''gaps'', JArr [])]
      in (foldl (\<lambda>d row. commit_row d (send_back_inconclusive now note detail row)) d rows, length rows))"

section \<open>What a verification run decides\<close>

text \<open>\<^verbatim>\<open>closure_gaps\<close>: endpoint coverage cannot attest checks of an HTTP object or a name.\<close>

definition jget :: "json \<Rightarrow> string \<Rightarrow> json" where
  "jget v k = (case v of JObj kvs \<Rightarrow> dict_get kvs k JNull | _ \<Rightarrow> JNull)"

definition jlist :: "json \<Rightarrow> json list" where
  "jlist v = (case v of JArr xs \<Rightarrow> xs | _ \<Rightarrow> [])"

definition evidence_gap :: "string \<Rightarrow> gap" where
  "evidence_gap r = \<lparr>gp_detector = ''evidence'', gp_ref = None, gp_host = None, gp_port = None,
     gp_reason = r, gp_legacy_rule = False, gp_covered_by = None\<rparr>"

definition closure_gaps :: "json \<Rightarrow> json list \<Rightarrow> gap list" where
  "closure_gaps evidence covered =
     (case evidence of
        JObj _ \<Rightarrow>
          if jget evidence ''projection_incomplete'' \<noteq> JBool False then [evidence_gap ''evidence_incomplete'']
          else
            let subjects = map (\<lambda>g. jget (jget g ''identity'') ''subject'') (jlist (jget evidence ''findings'')) in
            if subjects \<noteq> [] \<and> covered \<noteq> [] \<and> list_all (\<lambda>s. s \<in> set covered) subjects then []
            else if list_ex (\<lambda>s. truthy (jget s ''authority'') \<or> truthy (jget s ''sni'') \<or>
                                 truthy (jget s ''object_id'')) subjects
            then [evidence_gap ''precise_subject_coverage_unproven'']
            else if length (remdups subjects) > 1 then [evidence_gap ''multiple_subject_coverage_unproven'']
            else []
      | _ \<Rightarrow> [])"

definition asset_hosts :: "vuln_db \<Rightarrow> vulnerability \<Rightarrow> string list" where
  "asset_hosts d row =
     (case row_get at_asset_id (vd_assets d) (v_asset_id row) of None \<Rightarrow> []
      | Some a \<Rightarrow> if at_tenant_id a \<noteq> v_tenant_id row then []
                  else remdups (filter (\<lambda>h. h \<noteq> []) (map strip (at_addresses a))))"

definition finding_hosts :: "vulnerability \<Rightarrow> string list \<Rightarrow> string list" where
  "finding_hosts row addresses =
     (let asset_ips = filter is_ip (map (\<lambda>a. normalize_host (Some a)) addresses);
          ds = v_detectors row;
          hosts = map (\<lambda>e. normalize_host (d_host e)) (filter (\<lambda>e. truthy_text (d_host e)) ds)
      in hosts @ (if ds = [] \<or> list_ex (\<lambda>e. \<not> truthy_text (d_host e)) ds then asset_ips else []))"

definition gap_json :: "gap \<Rightarrow> json" where
  "gap_json g = JObj [(''detector'', JStr (gp_detector g)), (''ref'', jtext (gp_ref g)),
     (''host'', jtext (gp_host g)), (''port'', jtext (gp_port g)), (''reason'', JStr (gp_reason g))]"

definition describe :: "gap list \<Rightarrow> string" where
  "describe gaps = join_with ''; '' (map (\<lambda>g.
     gp_detector g @ (if truthy_text (gp_ref g) then '' '' @ or_else (gp_ref g) [] else []) @ '' on '' @
     or_text (gp_host g) ''any address of the asset'' @ '':'' @ or_text (gp_port g) ''-'' @ '': '' @
     gp_reason g) gaps)"

definition vantage_json :: "vantage option \<Rightarrow> json" where
  "vantage_json v = (case v of None \<Rightarrow> JNull
     | Some x \<Rightarrow> JObj [(''vantage'', JStr (vt_vantage x)), (''agent_id'', jtext (vt_agent_id x)),
                       (''agent_group'', jtext (vt_agent_group x))])"

definition vantage_gap :: "vulnerability \<Rightarrow> gap" where
  "vantage_gap row = \<lparr>gp_detector = ''vantage'', gp_ref = None, gp_host = None, gp_port = v_port row,
     gp_reason = ''vantage_differs'', gp_legacy_rule = False, gp_covered_by = None\<rparr>"

text \<open>
  What the closing loop learns of one finding: every gap, whether the endpoint was shown
  unreachable from the one vantage that ever observed it, and the detectors waived.
\<close>

definition closing_evidence ::
  "(vulnerability \<Rightarrow> gap list) \<Rightarrow> run_artifacts \<Rightarrow> vantage option \<Rightarrow> string list \<Rightarrow> vulnerability \<Rightarrow>
   gap list \<times> (string \<times> int) list option \<times> gap list" where
  "closing_evidence precise ra v addresses row =
     (let (gaps0, waived) = assess ra (v_detectors row) (v_port row) addresses;
          is_non_cve = (as_non_cve (v_assessment row) \<noteq> JNull \<and> \<not> truthy_text (v_cve row));
          precise_gaps = (if is_non_cve then precise row else []);
          exact = (if is_non_cve \<and> precise_gaps = []
                   then [jget (as_non_cve (v_assessment row)) ''subject''] else []);
          evidence_gaps = closure_gaps (v_finding_evidence row) exact;
          gaps = gaps0 @ precise_gaps @ evidence_gaps;
          unreachable = (if gaps \<noteq> [] \<and> evidence_gaps = []
             then endpoint_unreachable ra (finding_hosts row addresses) (port_of (v_port row))
                    (finding_protocol (v_detectors row))
             else None)
      in if unreachable \<noteq> None \<and> \<not> same_vantage (v_detectors row) v
         then (gaps @ [vantage_gap row], None, waived) else (gaps, unreachable, waived))"

definition verified_row ::
  "time \<Rightarrow> string \<Rightarrow> vantage option \<Rightarrow> vulnerability \<Rightarrow> bool \<Rightarrow> string \<Rightarrow> event_kind \<Rightarrow>
   string \<Rightarrow> (string \<times> json) list \<Rightarrow> row_outcome" where
  "verified_row now run_id v row machine_verified closure_reason kind note detail =
     (case drop_exception (row\<lparr>v_state := CLOSED, v_state_changed_at := now,
               v_state_changed_by := Some ''system:verification'', v_closed_at := Some now,
               v_last_verified_at := Some now, v_machine_verified := machine_verified,
               v_closure_reason := Some closure_reason\<rparr>) of
        (row1, dropped) \<Rightarrow>
          let row' = row1\<lparr>v_updated_at := now\<rparr>
          in (row', [record_event row' kind now (Some VERIFYING) (Some CLOSED)
                (Some ''system:verification'') (Some note)
                ([(''run_id'', JStr run_id), (''job_id'', jtext (v_verification_job_id row)),
                  (''machine_verified'', JBool machine_verified),
                  (''closure_reason'', JStr closure_reason), (''verified_from'', vantage_json v)] @
                 detail @ dropped)], []))"

definition verify_row ::
  "(vulnerability \<Rightarrow> gap list) \<Rightarrow> time \<Rightarrow> string \<Rightarrow> vantage option \<Rightarrow> run_artifacts \<Rightarrow> string list \<Rightarrow>
   vulnerability \<Rightarrow> row_outcome" where
  "verify_row precise now run_id v ra addresses row =
     (if v_last_seen_run_id row = Some run_id
      then
        let row' = row\<lparr>v_state := FIXING, v_state_changed_at := now,
                     v_state_changed_by := Some ''system:verification'',
                     v_last_verified_at := Some now, v_updated_at := now\<rparr>
        in (row', [record_event row' Verification_failed now (Some VERIFYING) (Some FIXING)
                     (Some ''system:verification'') (Some (''Still observed by verification run '' @ run_id))
                     [(''run_id'', JStr run_id), (''job_id'', jtext (v_verification_job_id row))]], [])
      else (case closing_evidence precise ra v addresses row of (gaps, unreachable, waived) \<Rightarrow>
        if unreachable \<noteq> None
        then verified_row now run_id v row False ''endpoint_unreachable'' Verification_unreachable
               (''Verification run '' @ run_id @ '': port '' @ or_else (v_port row) ''None'' @
                '' not reachable from '' @
                or_text (case v of None \<Rightarrow> None | Some x \<Rightarrow> Some (vt_vantage x)) UNKNOWN_VANTAGE @
                '' (connect refused on every attempt); closed, not machine-verified'')
               [(''gaps'', JArr (map gap_json gaps))]
        else if gaps \<noteq> []
        then send_back_inconclusive now
               (''Not observed by verification run '' @ run_id @
                '', but the run does not show that it looked: '' @ describe gaps)
               [(''run_id'', JStr run_id), (''job_id'', jtext (v_verification_job_id row)),
                (''gaps'', JArr (map gap_json gaps)), (''verified_from'', vantage_json v)] row
        else verified_row now run_id v row True ''verified_remediated'' Verification_passed
               (''Not observed by verification run '' @ run_id)
               ((''coverage_rule'', JStr (if v_detectors row = [] then ''legacy'' else ''detectors'')) #
                (if waived = [] then [] else [(''waived'', JArr (map gap_json waived))]))))"

text \<open>
  The closing block of a run: every finding of the tenant that waits on one of the jobs that
  produced it, whatever tenant those jobs are of.
\<close>

definition close_awaiting ::
  "(vulnerability \<Rightarrow> gap list) \<Rightarrow> time \<Rightarrow> string \<Rightarrow> string \<Rightarrow> vantage option \<Rightarrow> run_artifacts \<Rightarrow>
   vuln_db \<Rightarrow> vuln_db" where
  "close_awaiting precise now tenant_id run_id v ra d =
     (let job_ids = map j_job_id (filter (\<lambda>j. j_run_id j = Some run_id) (vd_jobs d));
          rows = filter (awaits_job tenant_id job_ids) (vd_rows d)
      in foldl (\<lambda>d row. commit_row d (verify_row precise now run_id v ra (asset_hosts d row) row)) d rows)"

end
