(* ===== verification/Vuln_Observation.thy ===== *)
theory Vuln_Observation
  imports Vuln_Verification
begin

text \<open>
  A finished run folded into the tracker: \<^verbatim>\<open>register_findings_from_run\<close> of
  \<^verbatim>\<open>api/services/vulnerabilities.py\<close>, from the resolved entries on. Scoring, asset resolution
  and the hash of an entry's identity come before it: an observation carries their results.
  What \<^verbatim>\<open>production_evidence\<close> says of two evidence documents (their disposition, their union,
  whether a replay is of the current cohort) is the record \<open>evidence_rules\<close>. The counters the
  function returns are not part of the model.
\<close>

section \<open>Observations\<close>

record observation =
  ob_asset :: "asset option"
  ob_finding_key :: string
  ob_new_id :: string
  ob_cve :: "string option"
  ob_script_id :: "string option"
  ob_port :: "string option"
  ob_actionable :: bool
  ob_latest :: assessment
  ob_detectors :: "detector list"
  ob_evidence :: json
  ob_execution :: "string option"

record evidence_rules =
  er_disposition :: "json \<Rightarrow> json \<Rightarrow> string"
  er_merge :: "json \<Rightarrow> json \<Rightarrow> json"
  er_current_cohort :: "json \<Rightarrow> json \<Rightarrow> string \<Rightarrow> bool"

definition ENDPOINT_UNREACHABLE :: string where "ENDPOINT_UNREACHABLE = ''endpoint_unreachable''"
definition UNREACHABLE_WINDOW_MIN_DAYS :: int where "UNREACHABLE_WINDOW_MIN_DAYS = 30"

text \<open>A first sighting: the row that is created, and its event.\<close>

definition new_vulnerability ::
  "time \<Rightarrow> string \<Rightarrow> string \<Rightarrow> observation \<Rightarrow> asset \<Rightarrow> int \<Rightarrow> string \<Rightarrow> vulnerability" where
  "new_vulnerability now tenant_id run_id ob a n source =
     \<lparr>v_vuln_id = ob_new_id ob, v_tenant_id = tenant_id, v_asset_id = at_asset_id a,
      v_finding_key = ob_finding_key ob, v_source = ''scan'', v_cve = clean_text (ob_cve ob),
      v_script_id = clean_text (ob_script_id ob), v_port = ob_port ob,
      v_detectors = merge_detectors [] (ob_detectors ob), v_assessment = ob_latest ob,
      v_state = OPEN, v_state_changed_at = now, v_state_changed_by = None,
      v_assignee = at_owner_email a, v_owner_team = at_business_unit a,
      v_due_at = Some (now + days n), v_sla_days = Some n, v_sla_source = Some source,
      v_sla_started_at = now, v_exception = no_exception, v_fp = no_fp, v_ticket = no_ticket,
      v_first_seen_at = now, v_last_seen_at = now, v_first_seen_run_id = Some run_id,
      v_last_seen_run_id = Some run_id, v_observation_count = 1, v_reopen_count = 0,
      v_closed_at = None, v_machine_verified = False, v_verification_job_id = None,
      v_last_verified_at = None, v_closure_reason = None, v_match_confidence = None,
      v_finding_evidence = ob_evidence ob, v_updated_at = now\<rparr>"

definition insert_vuln :: "vuln_db \<Rightarrow> vulnerability \<Rightarrow> vuln_event list \<Rightarrow> vuln_db" where
  "insert_vuln d row evs = d\<lparr>vd_rows := vd_rows d @ [row], vd_events := vd_events d @ evs\<rparr>"

section \<open>A re-observation\<close>

definition execution_id_of :: "assessment \<Rightarrow> string option" where
  "execution_id_of a =
     (case jget (jget (as_risk_assessment a) ''risk_assessment'') ''execution_id'' of
        JStr s \<Rightarrow> Some s | _ \<Rightarrow> None)"

text \<open>
  A regression: a closed finding is back. The clock restarts, except after a closure that only
  said the endpoint was out of reach, within the window of that closure.
\<close>

definition continue_clock :: "time \<Rightarrow> int \<Rightarrow> vulnerability \<Rightarrow> bool" where
  "continue_clock now n row =
     (v_closure_reason row = Some ENDPOINT_UNREACHABLE \<and>
      (case v_closed_at row of None \<Rightarrow> False
       | Some closed \<Rightarrow>
           now - closed \<le> days (max (case v_sla_days row of Some m \<Rightarrow> if m \<noteq> 0 then m else n | None \<Rightarrow> n)
                                   UNREACHABLE_WINDOW_MIN_DAYS)))"

definition regressed_row ::
  "time \<Rightarrow> string \<Rightarrow> fp_outcome \<Rightarrow> int \<Rightarrow> string \<Rightarrow> vulnerability \<Rightarrow> vulnerability \<times> vuln_event" where
  "regressed_row now run_id outcome n source row =
     (let continued = continue_clock now n row;
          row1 = row\<lparr>v_state := OPEN, v_state_changed_at := now, v_state_changed_by := None,
                   v_closed_at := None, v_machine_verified := False\<rparr>;
          row2 = (if continued then row1
                  else row1\<lparr>v_sla_started_at := now, v_due_at := Some (now + days n),
                            v_sla_days := Some n, v_sla_source := Some source\<rparr>);
          row3 = row2\<lparr>v_reopen_count := v_reopen_count row2 + 1\<rparr>;
          (row4, dropped) = drop_fp_verdict_on_reopen row3;
          row5 = row4\<lparr>v_closure_reason := None\<rparr>
      in (row5, record_event row5 Reopened now (Some (v_state row)) (Some OPEN) None
                  (Some ''Re-observed after being closed'')
                  ([(''run_id'', JStr run_id), (''reopen_count'', JInt (v_reopen_count row5))] @
                   (if continued then [(''sla_continued'', JBool True), (''after'', JStr ENDPOINT_UNREACHABLE)]
                    else []) @
                   (if dropped then (''after_fp_suppression'', JBool True) #
                      (if outcome = Fp_overridden_now then [(''fp_overridden'', JBool True)] else [])
                    else []))))"

definition is_replay ::
  "evidence_rules \<Rightarrow> string \<Rightarrow> bool \<Rightarrow> observation \<Rightarrow> vulnerability \<Rightarrow> bool" where
  "is_replay er run_id distinct_publication ob row =
     (er_disposition er (v_finding_evidence row) (ob_evidence ob) = ''replay'' \<or>
      \<not> truthy (jget (ob_evidence ob) ''observation_count'') \<and> v_last_seen_run_id row = Some run_id \<and>
      (ob_evidence ob \<noteq> JNull \<or> ob_actionable ob \<and> \<not> distinct_publication))"

text \<open>
  The part after the verdict was weighed: the new assessment is written, a retro match becomes
  a scan finding, a held verdict stops there, a closed finding regresses.
\<close>

definition seen_again ::
  "time \<Rightarrow> string \<Rightarrow> vuln_db \<Rightarrow> evidence_rules \<Rightarrow> observation \<Rightarrow> asset \<Rightarrow> bool \<Rightarrow> fp_outcome \<Rightarrow>
   vulnerability \<Rightarrow> vuln_error + (vulnerability \<times> vuln_event list)" where
  "seen_again now run_id d er ob a replay_escalation outcome row0 =
     (let row1 = row0\<lparr>v_assessment := ob_latest ob\<rparr>;
          row2 = (if replay_escalation then row1
                  else row1\<lparr>v_last_seen_at := now, v_last_seen_run_id := Some run_id,
                            v_detectors := merge_detectors (v_detectors row1) (ob_detectors ob),
                            v_finding_evidence := er_merge er (v_finding_evidence row1) (ob_evidence ob),
                            v_observation_count := v_observation_count row1 + 1\<rparr>);
          row3 = row2\<lparr>v_updated_at := now\<rparr>;
          row4 = (if v_source row3 = ''retro_match''
                  then row3\<lparr>v_source := ''scan'', v_match_confidence := None\<rparr> else row3)
      in if outcome = Fp_held then Ok (row4, [])
         else if v_state row4 = CLOSED
         then bindE (resolve_sla_days d (v_tenant_id row4) (as_severity (ob_latest ob))
                       (at_asset_criticality a)) (\<lambda>(n, source).
                case regressed_row now run_id outcome n source row4 of (row5, ev) \<Rightarrow> Ok (row5, [ev]))
         else Ok (row4, [record_event row4 Observed now None (Some (v_state row4)) None None
                    [(''run_id'', JStr run_id), (''severity'', JStr (as_severity (ob_latest ob)))]]))"

definition observe_row ::
  "time \<Rightarrow> string \<Rightarrow> vuln_db \<Rightarrow> evidence_rules \<Rightarrow> observation \<Rightarrow> asset \<Rightarrow> vulnerability \<Rightarrow>
   vuln_error + row_outcome" where
  "observe_row now run_id d er ob a row =
     (let current = ob_execution ob;
          distinct_publication = (truthy_text current \<and> current \<noteq> execution_id_of (v_assessment row));
          replay = is_replay er run_id distinct_publication ob row;
          refresh = (replay \<and> distinct_publication \<and> v_last_seen_run_id row = Some run_id \<and>
                     er_current_cohort er (v_finding_evidence row) (ob_evidence ob) run_id);
          replay_escalation = (refresh \<and> fp_suppressed row now \<and> fp_escalations row (ob_latest ob) \<noteq> []);
          detail = [(''run_id'', JStr run_id), (''severity'', JStr (as_severity (ob_latest ob)))];
          (outcome0, row0, evs0) =
            (if replay_escalation
             then weigh_fp_verdict now row (ob_latest ob) (detail @ [(''replay'', JBool True)])
             else (Fp_none, row, []));
          row1 = (if refresh \<and> \<not> replay_escalation
                  then row0\<lparr>v_assessment := ob_latest ob, v_updated_at := now\<rparr> else row0);
          row2 = (if replay
                  then row1\<lparr>v_finding_evidence := er_merge er (v_finding_evidence row1) (ob_evidence ob)\<rparr>
                  else row1)
      in if replay \<and> \<not> replay_escalation then Ok (row2, evs0, [])
         else if er_disposition er (v_finding_evidence row) (ob_evidence ob) = ''historical''
         then let row3 = row2\<lparr>v_finding_evidence := er_merge er (v_finding_evidence row2) (ob_evidence ob),
                        v_detectors := merge_detectors (ob_detectors ob) (v_detectors row2),
                        v_observation_count := v_observation_count row2 + 1, v_updated_at := now\<rparr>
              in Ok (row3, evs0 @ [record_event row3 Observed now None None None None
                       [(''run_id'', JStr run_id), (''historical'', JBool True)]], [])
         else
           let (outcome, row3, evs1) =
                 (if replay_escalation then (outcome0, row2, [])
                  else weigh_fp_verdict now row2 (ob_latest ob) detail)
           in bindE (seen_again now run_id d er ob a replay_escalation outcome row3) (\<lambda>(row4, evs2).
                Ok (row4, evs0 @ evs1 @ evs2, [])))"

section \<open>The fold over a run\<close>

definition find_finding :: "vuln_db \<Rightarrow> string \<Rightarrow> string \<Rightarrow> vulnerability option" where
  "find_finding d tenant_id key =
     find (\<lambda>r. v_tenant_id r = tenant_id \<and> v_finding_key r = key) (vd_rows d)"

definition observe_one ::
  "time \<Rightarrow> string \<Rightarrow> string \<Rightarrow> evidence_rules \<Rightarrow> vuln_db \<Rightarrow> observation \<Rightarrow> vuln_error + vuln_db" where
  "observe_one now tenant_id run_id er d ob =
     (case ob_asset ob of None \<Rightarrow> Ok d
      | Some a \<Rightarrow>
          if clean_text (ob_cve ob) = None \<and> clean_text (ob_script_id ob) = None then Ok d
          else (case find_finding d tenant_id (ob_finding_key ob) of
              None \<Rightarrow>
                bindE (resolve_sla_days d tenant_id (as_severity (ob_latest ob)) (at_asset_criticality a))
                  (\<lambda>(n, source).
                    let row = new_vulnerability now tenant_id run_id ob a n source
                    in Ok (insert_vuln d row
                         [record_event row Observed now None (Some OPEN) None None
                            [(''run_id'', JStr run_id), (''first_seen'', JBool True),
                             (''severity'', JStr (as_severity (ob_latest ob))),
                             (''due_at'', jtime (v_due_at row)), (''sla_days'', JInt n),
                             (''sla_source'', JStr source)]]))
            | Some row \<Rightarrow>
                bindE (observe_row now run_id d er ob a row) (\<lambda>out. Ok (commit_row d out))))"

fun observe_all ::
  "time \<Rightarrow> string \<Rightarrow> string \<Rightarrow> evidence_rules \<Rightarrow> vuln_db \<Rightarrow> observation list \<Rightarrow> vuln_error + vuln_db" where
  "observe_all now tenant_id run_id er d [] = Ok d"
| "observe_all now tenant_id run_id er d (ob # obs) =
     bindE (observe_one now tenant_id run_id er d ob) (\<lambda>d'. observe_all now tenant_id run_id er d' obs)"

text \<open>\<^verbatim>\<open>publication_marks.first_pass\<close>: whether this transaction feeds the step, and the mark.\<close>

definition first_pass :: "vuln_db \<Rightarrow> string option \<Rightarrow> string \<Rightarrow> vuln_db \<times> bool" where
  "first_pass d publication_id step' =
     (case publication_id of None \<Rightarrow> (d, True)
      | Some p \<Rightarrow>
        (case row_get pm_publication_id (vd_marks d) p of None \<Rightarrow> (d, False)
         | Some m \<Rightarrow>
            if step' \<in> set (pm_projected m) then (d, False)
            else (d\<lparr>vd_marks := row_put pm_publication_id (vd_marks d)
                       (m\<lparr>pm_projected := pm_projected m @ [step']\<rparr>)\<rparr>, True)))"

definition publication_matches :: "vuln_db \<Rightarrow> string option \<Rightarrow> string \<Rightarrow> string \<Rightarrow> bool" where
  "publication_matches d publication_id tenant_id run_id =
     (case publication_id of None \<Rightarrow> True
      | Some p \<Rightarrow> (case row_get pm_publication_id (vd_marks d) p of None \<Rightarrow> True
          | Some m \<Rightarrow> pm_tenant_id m = tenant_id \<and> pm_run_id m = run_id))"

definition register_findings_from_run ::
  "(vulnerability \<Rightarrow> gap list) \<Rightarrow> evidence_rules \<Rightarrow> time \<Rightarrow> vuln_db \<Rightarrow> string \<Rightarrow> string \<Rightarrow>
   string option \<Rightarrow> bool \<Rightarrow> vantage option \<Rightarrow> run_artifacts \<Rightarrow> observation list \<Rightarrow>
   vuln_error + vuln_db" where
  "register_findings_from_run precise er now d tenant_id run_id publication_id run_dir_present v ra obs =
     (if obs = [] \<and> \<not> run_dir_present then Ok d
      else (case first_pass d publication_id ''findings'' of (d1, fresh) \<Rightarrow>
        if \<not> fresh then Ok d
        else if \<not> publication_matches d1 publication_id tenant_id run_id
        then Err (ValueRefused ''risk publication belongs to a different tenant/run'')
        else bindE (observe_all now tenant_id run_id er d1 obs) (\<lambda>d2.
          Ok (close_awaiting precise now tenant_id run_id v ra d2))))"

end
