(* ===== verification/Vuln_Software.thy ===== *)
theory Vuln_Software
  imports Vuln_Observation
begin

text \<open>
  The endpoint-software observer, the row half of \<^verbatim>\<open>api/services/software_findings.py\<close>: what an
  accepted inventory snapshot does to a finding it creates, matches again or no longer
  matches. Which matches are trackable, and whether the snapshot can carry a closure at all,
  are the fields of \<open>snapshot_verdict\<close>.
\<close>

definition SOFTWARE_SOURCE :: string where "SOFTWARE_SOURCE = ''endpoint_software''"

definition new_software_finding ::
  "time \<Rightarrow> time \<Rightarrow> string \<Rightarrow> observation \<Rightarrow> asset \<Rightarrow> int \<Rightarrow> string \<Rightarrow> vulnerability" where
  "new_software_finding now observed_at tenant_id ob a n source =
     \<lparr>v_vuln_id = ob_new_id ob, v_tenant_id = tenant_id, v_asset_id = at_asset_id a,
      v_finding_key = ob_finding_key ob, v_source = SOFTWARE_SOURCE, v_cve = ob_cve ob,
      v_script_id = None, v_port = None, v_detectors = [], v_assessment = ob_latest ob,
      v_state = OPEN, v_state_changed_at = now, v_state_changed_by = None,
      v_assignee = at_owner_email a, v_owner_team = at_business_unit a,
      v_due_at = Some (observed_at + days n), v_sla_days = Some n, v_sla_source = Some source,
      v_sla_started_at = observed_at, v_exception = no_exception, v_fp = no_fp, v_ticket = no_ticket,
      v_first_seen_at = observed_at, v_last_seen_at = observed_at, v_first_seen_run_id = None,
      v_last_seen_run_id = None, v_observation_count = 1, v_reopen_count = 0, v_closed_at = None,
      v_machine_verified = False, v_verification_job_id = None, v_last_verified_at = None,
      v_closure_reason = None, v_match_confidence = None, v_finding_evidence = JNull,
      v_updated_at = now\<rparr>"

definition software_create ::
  "time \<Rightarrow> time \<Rightarrow> vuln_db \<Rightarrow> string \<Rightarrow> observation \<Rightarrow> asset \<Rightarrow> (string \<times> json) list \<Rightarrow>
   vuln_error + vuln_db" where
  "software_create now observed_at d tenant_id ob a detail =
     bindE (resolve_sla_days d tenant_id (as_severity (ob_latest ob)) (at_asset_criticality a))
       (\<lambda>(n, source).
         let row = new_software_finding now observed_at tenant_id ob a n source
         in Ok (insert_vuln d row
              [record_event row Observed now None (Some OPEN) None None
                 (detail @ [(''first_seen'', JBool True), (''due_at'', jtime (v_due_at row)),
                            (''sla_days'', JInt n), (''sla_source'', JStr source)])]))"

definition software_reopened ::
  "time \<Rightarrow> time \<Rightarrow> fp_outcome \<Rightarrow> int \<Rightarrow> string \<Rightarrow> (string \<times> json) list \<Rightarrow> vulnerability \<Rightarrow>
   vulnerability \<times> vuln_event" where
  "software_reopened now observed_at outcome n source detail row =
     (let row1 = row\<lparr>v_state := OPEN, v_state_changed_at := now, v_state_changed_by := None,
                   v_closed_at := None, v_machine_verified := False\<rparr>;
          (row2, dropped) = drop_fp_verdict_on_reopen row1;
          row3 = row2\<lparr>v_closure_reason := None, v_sla_started_at := observed_at,
                   v_due_at := Some (observed_at + days n), v_sla_days := Some n,
                   v_sla_source := Some source, v_reopen_count := v_reopen_count row2 + 1\<rparr>
      in (row3, record_event row3 Reopened now (Some (v_state row)) (Some OPEN) None
                  (Some ''Matched again by a later inventory snapshot'')
                  (detail @
                   (if dropped then (''after_fp_suppression'', JBool True) #
                      (if outcome = Fp_overridden_now then [(''fp_overridden'', JBool True)] else [])
                    else []) @
                   [(''reopen_count'', JInt (v_reopen_count row3))])))"

definition software_reobserve ::
  "time \<Rightarrow> time \<Rightarrow> vuln_db \<Rightarrow> assessment \<Rightarrow> asset \<Rightarrow> (string \<times> json) list \<Rightarrow> vulnerability \<Rightarrow>
   vuln_error + row_outcome" where
  "software_reobserve now observed_at d latest a detail row =
     (let fresh = (observed_at > v_last_seen_at row);
          (outcome, row0, evs0) =
            (if fresh then weigh_fp_verdict now row latest detail else (Fp_none, row, []));
          row1 = row0\<lparr>v_assessment := latest, v_updated_at := now\<rparr>
      in if \<not> fresh then Ok (row1, evs0, [])
         else
           let row2 = row1\<lparr>v_last_seen_at := observed_at,
                        v_observation_count := v_observation_count row1 + 1\<rparr>
           in if outcome = Fp_held then Ok (row2, evs0, [])
              else if v_state row2 = CLOSED
              then bindE (resolve_sla_days d (v_tenant_id row2) (as_severity latest)
                            (at_asset_criticality a)) (\<lambda>(n, source).
                     case software_reopened now observed_at outcome n source detail row2 of
                       (row3, ev) \<Rightarrow> Ok (row3, evs0 @ [ev], []))
              else Ok (row2, evs0 @ [record_event row2 Observed now None (Some (v_state row2)) None None
                                       detail], []))"

record snapshot_verdict =
  sv_seen :: bool
  sv_still_vulnerable :: bool
  sv_assessment_possible :: bool
  sv_coverage_unknown :: bool
  sv_unknown_key :: bool
  sv_rpm_device :: bool
  sv_rpm_incomplete :: bool
  sv_confirmed_key :: bool

definition closure_possible :: "time \<Rightarrow> snapshot_verdict \<Rightarrow> vulnerability \<Rightarrow> bool" where
  "closure_possible observed_at sv row =
     (\<not> sv_seen sv \<and> v_state row \<noteq> CLOSED \<and> \<not> sv_still_vulnerable sv \<and>
      observed_at > v_last_seen_at row \<and> sv_assessment_possible sv \<and> \<not> sv_coverage_unknown sv \<and>
      \<not> sv_unknown_key sv \<and> (\<not> sv_rpm_device sv \<or> \<not> sv_rpm_incomplete sv \<and> sv_confirmed_key sv))"

text \<open>
  The closure. Unlike every other closing path it erases three columns of a granted window by
  hand and leaves the rest of the acceptance, a pending request included.
\<close>

definition software_close ::
  "time \<Rightarrow> time \<Rightarrow> snapshot_verdict \<Rightarrow> (string \<times> json) list \<Rightarrow> string \<Rightarrow> vulnerability \<Rightarrow>
   vuln_error + row_outcome" where
  "software_close now observed_at sv detail note row =
     (if \<not> closure_possible observed_at sv row then Ok (row, [], [])
      else
        let row1 = row\<lparr>v_state := CLOSED, v_state_changed_at := now,
                     v_state_changed_by := Some ''system:inventory'', v_closed_at := Some now,
                     v_last_verified_at := Some now, v_machine_verified := True,
                     v_closure_reason := Some ''patched'', v_updated_at := now\<rparr>;
            e = v_exception row1;
            row2 = (if ex_until e \<noteq> None
                    then row1\<lparr>v_exception := e\<lparr>ex_until := None, ex_reason := None, ex_by := None\<rparr>\<rparr>
                    else row1)
        in Ok (row2, [record_event row2 Verification_passed now (Some (v_state row)) (Some CLOSED)
                        (Some ''system:inventory'') (Some note)
                        (detail @ [(''assessment_possible'', JBool True), (''machine_verified'', JBool True),
                                   (''closure_reason'', JStr ''patched'')])], []))"

text \<open>The fold looks at the findings of this source alone.\<close>

definition on_software_row ::
  "vuln_db \<Rightarrow> string \<Rightarrow> string \<Rightarrow> (vulnerability \<Rightarrow> vuln_error + row_outcome) \<Rightarrow>
   vuln_error + (vuln_db \<times> vulnerability option)" where
  "on_software_row d tenant_id vuln_id f =
     on_row d (Some tenant_id) vuln_id
       (\<lambda>row. if v_source row = SOFTWARE_SOURCE then f row else Ok (row, [], []))"

end
