(* ===== verification/Vuln_Invariants.thy ===== *)
theory Vuln_Invariants
  imports Vuln_Software
begin

text \<open>
  What every operation keeps of one finding: the row invariant, and the trail that explains
  its state. The locale \<open>row_operation\<close> is the contract of a decision on one row, proved once
  to carry to the database; every operation of the tracker is an interpretation of it.
\<close>

section \<open>The trail of a finding\<close>

text \<open>
  Reading events from a state on: an event without a new state says nothing of it, one
  without an old state repeats it, any other starts where the last one ended and is a legal
  move or none.
\<close>

definition event_fits :: "string \<Rightarrow> vuln_event \<Rightarrow> string option" where
  "event_fits s ev =
     (case ev_to_state ev of
        None \<Rightarrow> (if ev_from_state ev \<in> {None, Some s} then Some s else None)
      | Some t \<Rightarrow>
          if ev_from_state ev = None then (if t = s then Some s else None)
          else if ev_from_state ev = Some s \<and> (t = s \<or> vuln_can_transition s t) then Some t else None)"

fun follow :: "string \<Rightarrow> vuln_event list \<Rightarrow> string option" where
  "follow s [] = Some s"
| "follow s (ev # evs) = (case event_fits s ev of None \<Rightarrow> None | Some t \<Rightarrow> follow t evs)"

lemma follow_append:
  "follow s (xs @ ys) = (case follow s xs of None \<Rightarrow> None | Some t \<Rightarrow> follow t ys)"
  by (induction xs arbitrary: s) (simp_all split: option.split)

lemma follow_single [simp]: "follow s [ev] = event_fits s ev"
  by (simp split: option.split)

lemma event_fits_record [simp]:
  "event_fits s (record_event r k t None (Some s') a n d) = (if s' = s then Some s else None)"
  "event_fits s (record_event r k t None None a n d) = Some s"
  "event_fits s (record_event r k t (Some s) None a n d) = Some s"
  "event_fits s (record_event r k t (Some s) (Some s') a n d) =
     (if s' = s \<or> vuln_can_transition s s' then Some s' else None)"
  by (simp_all add: event_fits_def)

definition trail :: "vuln_db \<Rightarrow> string \<Rightarrow> vuln_event list" where
  "trail d k = filter (\<lambda>ev. ev_vuln_id ev = k) (vd_events d)"

section \<open>The row invariant\<close>

definition wf_lifecycle :: "vulnerability \<Rightarrow> bool" where
  "wf_lifecycle row \<longleftrightarrow>
     (v_state row = CLOSED \<longleftrightarrow> v_closed_at row \<noteq> None) \<and>
     (v_state row = CLOSED \<longleftrightarrow> v_closure_reason row \<noteq> None) \<and>
     (v_machine_verified row \<longrightarrow>
        v_closure_reason row \<in> {Some ''verified_remediated'', Some ''patched''}) \<and>
     v_due_at row \<noteq> None"

definition wf_verdict :: "vulnerability \<Rightarrow> bool" where
  "wf_verdict row \<longleftrightarrow>
     (if v_closure_reason row = Some FALSE_POSITIVE
      then fp_suppress_until (v_fp row) \<noteq> None \<and> fp_reason (v_fp row) \<noteq> None
      else v_fp row = no_fp)"

text \<open>
  A closed finding carries no acceptance and a granted window is the deadline, unless the
  endpoint-software observer owns the row, which closes it without the common erasure.
\<close>

definition wf_acceptance :: "vulnerability \<Rightarrow> bool" where
  "wf_acceptance row \<longleftrightarrow>
     signed (v_exception row) \<and>
     (v_source row \<noteq> SOFTWARE_SOURCE \<longrightarrow>
        wf_exception (v_exception row) \<and>
        (v_state row = CLOSED \<longrightarrow> v_exception row = no_exception) \<and>
        (ex_until (v_exception row) \<noteq> None \<longrightarrow>
           v_due_at row = ex_until (v_exception row) \<and> v_sla_source row = Some ''exception''))"

definition wf_row :: "vulnerability \<Rightarrow> bool" where
  "wf_row row \<longleftrightarrow> wf_lifecycle row \<and> wf_verdict row \<and> wf_acceptance row"

lemmas wf_row_defs = wf_row_def wf_lifecycle_def wf_verdict_def wf_acceptance_def

definition same_finding :: "vulnerability \<Rightarrow> vulnerability \<Rightarrow> bool" where
  "same_finding row row' \<longleftrightarrow> v_vuln_id row' = v_vuln_id row \<and> v_tenant_id row' = v_tenant_id row \<and>
     v_finding_key row' = v_finding_key row"

definition sound_outcome :: "vulnerability \<Rightarrow> row_outcome \<Rightarrow> bool" where
  "sound_outcome row out = (case out of (row', evs, audits) \<Rightarrow>
     wf_row row' \<and> same_finding row row' \<and> (\<forall>ev\<in>set evs. ev_vuln_id ev = v_vuln_id row) \<and>
     follow (v_state row) evs = Some (v_state row'))"

lemma sound_unchanged: "wf_row row \<Longrightarrow> sound_outcome row (row, [], audits)"
  by (simp add: sound_outcome_def same_finding_def)

text \<open>The closing erasure, on a row whose other columns already say closed.\<close>

lemma drop_exception_closed:
  assumes "drop_exception row = (row', detail)"
    and "v_source row \<noteq> SOFTWARE_SOURCE \<Longrightarrow> wf_exception (v_exception row)"
    and "signed (v_exception row)"
  shows "row' = row\<lparr>v_exception := v_exception row'\<rparr>"
    and "signed (v_exception row')"
    and "v_source row \<noteq> SOFTWARE_SOURCE \<Longrightarrow> v_exception row' = no_exception"
proof -
  have cases: "row' = row \<or> row' = row\<lparr>v_exception := no_exception\<rparr>"
  proof (cases "ex_until (v_exception row) = None \<and> or_none (ex_state (v_exception row)) = EXCEPTION_NONE")
    case True
    with assms(1) show ?thesis by (simp add: drop_exception_keeps)
  next
    case False
    then have "fst (drop_exception row) = row\<lparr>v_exception := no_exception\<rparr>"
      using drop_exception_erases [of row] by blast
    with assms(1) show ?thesis by simp
  qed
  have self: "row\<lparr>v_exception := v_exception row\<rparr> = row" by simp
  with cases show "row' = row\<lparr>v_exception := v_exception row'\<rparr>" by auto
  show "signed (v_exception row')" using cases assms(3) by auto
  show "v_exception row' = no_exception" if "v_source row \<noteq> SOFTWARE_SOURCE"
    using drop_exception_wf [OF assms(2) [OF that]] assms(1) by simp
qed

text \<open>Dropping the verdict on a re-opening leaves none, whatever closed the finding.\<close>

lemma drop_fp_verdict_clean:
  assumes "drop_fp_verdict_on_reopen row = (row', dropped)"
    and "v_closure_reason row \<noteq> Some FALSE_POSITIVE \<Longrightarrow> v_fp row = no_fp"
  shows "row' = row\<lparr>v_fp := no_fp\<rparr>"
proof -
  have self: "row\<lparr>v_fp := v_fp row\<rparr> = row" by simp
  show ?thesis
    using assms self by (auto simp: drop_fp_verdict_on_reopen_def clear_fp_def split: if_splits)
qed

section \<open>The database invariant\<close>

definition known_ids :: "vuln_db \<Rightarrow> string set" where
  "known_ids d = v_vuln_id ` set (vd_rows d)"

definition finding_identity :: "vulnerability \<Rightarrow> string \<times> string" where
  "finding_identity row = (v_tenant_id row, v_finding_key row)"

definition vuln_inv :: "vuln_db \<Rightarrow> bool" where
  "vuln_inv d \<longleftrightarrow>
     wf_vulns d \<and> distinct (map finding_identity (vd_rows d)) \<and>
     (\<forall>row\<in>set (vd_rows d). wf_row row \<and> follow OPEN (trail d (v_vuln_id row)) = Some (v_state row)) \<and>
     (\<forall>ev\<in>set (vd_events d). ev_vuln_id ev \<in> known_ids d)"

lemma vuln_invI [intro?]:
  assumes "wf_vulns d" "distinct (map finding_identity (vd_rows d))"
    and "\<And>row. row \<in> set (vd_rows d) \<Longrightarrow> wf_row row"
    and "\<And>row. row \<in> set (vd_rows d) \<Longrightarrow> follow OPEN (trail d (v_vuln_id row)) = Some (v_state row)"
    and "\<And>ev. ev \<in> set (vd_events d) \<Longrightarrow> ev_vuln_id ev \<in> known_ids d"
  shows "vuln_inv d"
  using assms unfolding vuln_inv_def by blast

lemma vuln_invD:
  assumes "vuln_inv d"
  shows "wf_vulns d" "distinct (map finding_identity (vd_rows d))"
    and "row \<in> set (vd_rows d) \<Longrightarrow> wf_row row"
    and "row \<in> set (vd_rows d) \<Longrightarrow> follow OPEN (trail d (v_vuln_id row)) = Some (v_state row)"
    and "ev \<in> set (vd_events d) \<Longrightarrow> ev_vuln_id ev \<in> known_ids d"
  using assms unfolding vuln_inv_def by blast+

lemma get_vuln_mem: "get_vuln d k = Some row \<Longrightarrow> row \<in> set (vd_rows d) \<and> v_vuln_id row = k"
  unfolding get_vuln_def using row_get_mem row_get_key by fast

lemma get_vuln_iff: "wf_vulns d \<Longrightarrow> get_vuln d k = Some row \<longleftrightarrow> row \<in> set (vd_rows d) \<and> v_vuln_id row = k"
  unfolding get_vuln_def wf_vulns_def by (rule row_get_Some_iff)

lemma map_row_put:
  assumes "distinct (map key tbl)" "old \<in> set tbl" "key old = key new" "f old = f new"
  shows "map f (row_put key tbl new) = map f tbl"
proof -
  have "x = old" if "x \<in> set tbl" "key x = key new" for x
    using assms that by (metis distinct_map inj_on_eq_iff)
  with assms(4) show ?thesis by (auto simp: row_put_def)
qed

text \<open>One sound outcome, committed on the row it was computed from.\<close>

lemma commit_row_inv:
  assumes inv: "vuln_inv d" and row: "get_vuln d (v_vuln_id row) = Some row"
    and sound: "sound_outcome row (row', evs, audits)"
  shows "vuln_inv (commit_row d (row', evs, audits))"
proof
  let ?d = "commit_row d (row', evs, audits)"
  have mem: "row \<in> set (vd_rows d)" using get_vuln_mem [OF row] by simp
  have same: "v_vuln_id row' = v_vuln_id row" "finding_identity row' = finding_identity row"
    using sound by (auto simp: sound_outcome_def same_finding_def finding_identity_def)
  have wf: "distinct (map v_vuln_id (vd_rows d))"
    using vuln_invD(1) [OF inv] by (simp add: wf_vulns_def)
  have rows: "vd_rows ?d = row_put v_vuln_id (vd_rows d) row'"
    by (simp add: commit_row_def put_vuln_def)
  show "wf_vulns ?d" using vuln_invD(1) [OF inv] by simp
  show "distinct (map finding_identity (vd_rows ?d))"
    using vuln_invD(2) [OF inv] map_row_put [OF wf mem, of row' finding_identity] same rows by simp
  have ids: "known_ids ?d = known_ids d"
    unfolding known_ids_def rows by (metis image_set map_key_row_put)
  have trail: "trail ?d k = trail d k @ filter (\<lambda>ev. ev_vuln_id ev = k) evs" for k
    by (simp add: trail_def)
  have evs: "ev_vuln_id ev = v_vuln_id row" if "ev \<in> set evs" for ev
    using sound that by (simp add: sound_outcome_def)
  fix x assume "x \<in> set (vd_rows ?d)"
  then consider "x = row'" | "x \<in> set (vd_rows d)" "v_vuln_id x \<noteq> v_vuln_id row"
    using same by (auto simp: rows row_put_def)
  then have "wf_row x \<and> follow OPEN (trail ?d (v_vuln_id x)) = Some (v_state x)"
  proof cases
    case 1
    have all: "filter (\<lambda>ev. ev_vuln_id ev = v_vuln_id row) evs = evs"
      using evs by (simp add: filter_id_conv)
    show ?thesis
      using sound vuln_invD(4) [OF inv mem]
      by (simp add: 1 sound_outcome_def trail same all follow_append)
  next
    case 2
    then have "filter (\<lambda>ev. ev_vuln_id ev = v_vuln_id x) evs = []"
      using evs by (auto simp: filter_empty_conv)
    with 2 show ?thesis using vuln_invD(3,4) [OF inv 2(1)] by (simp add: trail)
  qed
  then show "wf_row x" "follow OPEN (trail ?d (v_vuln_id x)) = Some (v_state x)" by simp_all
next
  fix ev
  assume "ev \<in> set (vd_events (commit_row d (row', evs, audits)))"
  then have "ev_vuln_id ev \<in> known_ids d"
    using vuln_invD(5) [OF inv] sound get_vuln_mem [OF row]
    by (auto simp: sound_outcome_def known_ids_def)
  moreover have "known_ids (commit_row d (row', evs, audits)) = known_ids d"
    unfolding known_ids_def by (simp add: commit_row_def put_vuln_def) (metis image_set map_key_row_put)
  ultimately show "ev_vuln_id ev \<in> known_ids (commit_row d (row', evs, audits))" by simp
qed

section \<open>The contract of a decision on one row\<close>

locale row_operation =
  fixes f :: "vulnerability \<Rightarrow> vuln_error + row_outcome"
  assumes sound: "wf_row row \<Longrightarrow> f row = Ok out \<Longrightarrow> sound_outcome row out"
begin

lemma on_row_inv:
  assumes "vuln_inv d" "on_row d t k f = Ok (d', res)"
  shows "vuln_inv d'"
  using assms(2)
proof (cases rule: on_row_cases)
  case absent
  with assms(1) show ?thesis by simp
next
  case (written row row' evs audits)
  have got: "get_vuln d (v_vuln_id row) = Some row"
    using written(1) by (auto simp: load_Some_iff dest: get_vuln_mem)
  moreover have "sound_outcome row (row', evs, audits)"
    by (rule sound [OF vuln_invD(3) [OF assms(1)] written(2)]) (use get_vuln_mem [OF got] in simp)
  ultimately show ?thesis unfolding written(3) by (rule commit_row_inv [OF assms(1)])
qed

end

text \<open>Sweeps run over rows of the table.\<close>

lemma filtered_rows:
  assumes "wf_vulns d"
  shows "distinct (map v_vuln_id (filter P (vd_rows d)))"
    and "row \<in> set (filter P (vd_rows d)) \<Longrightarrow> P row \<and> get_vuln d (v_vuln_id row) = Some row"
proof -
  show "distinct (map v_vuln_id (filter P (vd_rows d)))"
    using assms by (simp add: wf_vulns_def distinct_map_filter)
  show "row \<in> set (filter P (vd_rows d)) \<Longrightarrow> P row \<and> get_vuln d (v_vuln_id row) = Some row"
    using get_vuln_iff [OF assms] by simp
qed

text \<open>The contract of a sweep: one outcome per selected row, committed one after the other.\<close>

locale row_sweep =
  fixes g :: "vuln_db \<Rightarrow> vulnerability \<Rightarrow> row_outcome" and P :: "vulnerability \<Rightarrow> bool"
  assumes sound_if: "wf_row row \<Longrightarrow> P row \<Longrightarrow> sound_outcome row (g d row)"
begin

lemma sweep_inv:
  assumes "vuln_inv d" "distinct (map v_vuln_id rows)"
    and "\<And>row. row \<in> set rows \<Longrightarrow> P row \<and> get_vuln d (v_vuln_id row) = Some row"
  shows "vuln_inv (foldl (\<lambda>d row. commit_row d (g d row)) d rows)"
  using assms
proof (induction rows arbitrary: d)
  case (Cons row rows)
  have row: "P row" "get_vuln d (v_vuln_id row) = Some row" using Cons.prems(3) by auto
  have "wf_row row"
    using vuln_invD(3) [OF Cons.prems(1)] get_vuln_mem [OF row(2)] by blast
  then have sound: "sound_outcome row (g d row)" using row(1) by (rule sound_if)
  obtain row' evs audits where out: "g d row = (row', evs, audits)" by (metis prod_cases3)
  have id: "v_vuln_id row' = v_vuln_id row"
    using sound by (simp add: out sound_outcome_def same_finding_def)
  have "vuln_inv (commit_row d (g d row))"
    unfolding out using sound by (intro commit_row_inv [OF Cons.prems(1) row(2)]) (simp add: out)
  moreover have "P x \<and> get_vuln (commit_row d (g d row)) (v_vuln_id x) = Some x" if "x \<in> set rows" for x
  proof -
    from that have "v_vuln_id x \<in> v_vuln_id ` set rows" by simp
    with Cons.prems(2) have "v_vuln_id x \<noteq> v_vuln_id row" by auto
    then show ?thesis using Cons.prems(3) [of x] that
      by (simp add: out id vuln_table.get_put)
  qed
  ultimately show ?case using Cons.prems(2) by (simp add: Cons.IH)
qed simp

lemma sweep_filter_inv:
  assumes "vuln_inv d"
  shows "vuln_inv (foldl (\<lambda>d row. commit_row d (g d row)) d (filter P (vd_rows d)))"
proof (rule sweep_inv [OF assms])
  show "distinct (map v_vuln_id (filter P (vd_rows d)))"
    by (rule filtered_rows(1) [OF vuln_invD(1) [OF assms]])
  show "P row \<and> get_vuln d (v_vuln_id row) = Some row" if "row \<in> set (filter P (vd_rows d))" for row
    by (rule filtered_rows(2) [OF vuln_invD(1) [OF assms] that])
qed

end

end
