(* ===== verification/Vuln_Contracts.thy ===== *)
theory Vuln_Contracts
  imports Vuln_Invariants
begin

text \<open>
  Every operation of the tracker meets the contract of \<^verbatim>\<open>Vuln_Invariants\<close>: one lemma per
  operation, one interpretation of \<open>row_operation\<close> or \<open>row_sweep\<close> on the model of the code.
\<close>

section \<open>Rows that keep most of their columns\<close>

lemma wf_row_keep:
  assumes "wf_row row" "v_state row' = v_state row" "v_closed_at row' = v_closed_at row"
    "v_closure_reason row' = v_closure_reason row" "v_machine_verified row' = v_machine_verified row"
    "v_fp row' = v_fp row" "v_due_at row' \<noteq> None" "wf_acceptance row'"
  shows "wf_row row'"
proof -
  have "wf_lifecycle row'"
    using assms(1-5,7) unfolding wf_row_def wf_lifecycle_def by (elim conjE) (intro conjI; simp)
  moreover have "wf_verdict row'"
    using assms(1,4,6) unfolding wf_row_def wf_verdict_def by simp
  ultimately show ?thesis using assms(8) by (simp add: wf_row_def)
qed

lemma wf_acceptance_keep:
  assumes "wf_acceptance row" "v_exception row' = v_exception row" "v_state row' = v_state row"
    "v_due_at row' = v_due_at row" "v_sla_source row' = v_sla_source row"
    "v_source row' = SOFTWARE_SOURCE \<longleftrightarrow> v_source row = SOFTWARE_SOURCE"
  shows "wf_acceptance row'"
  using assms unfolding wf_acceptance_def by simp

lemma wf_row_same:
  assumes "wf_row row" "v_state row' = v_state row" "v_closed_at row' = v_closed_at row"
    "v_closure_reason row' = v_closure_reason row" "v_machine_verified row' = v_machine_verified row"
    "v_fp row' = v_fp row" "v_due_at row' = v_due_at row" "v_exception row' = v_exception row"
    "v_sla_source row' = v_sla_source row"
    "v_source row' = SOFTWARE_SOURCE \<longleftrightarrow> v_source row = SOFTWARE_SOURCE"
  shows "wf_row row'"
proof (rule wf_row_keep [OF assms(1-6)])
  show "v_due_at row' \<noteq> None" using assms(1,7) by (simp add: wf_row_def wf_lifecycle_def)
  show "wf_acceptance row'"
    by (rule wf_acceptance_keep [of row]) (use assms in \<open>simp_all add: wf_row_def\<close>)
qed

lemma wf_acceptance_open:
  assumes "v_state row' \<noteq> CLOSED" "signed (v_exception row')"
    "v_source row' \<noteq> SOFTWARE_SOURCE \<Longrightarrow> wf_exception (v_exception row') \<and>
       (ex_until (v_exception row') \<noteq> None \<longrightarrow>
          v_due_at row' = ex_until (v_exception row') \<and> v_sla_source row' = Some ''exception'')"
  shows "wf_acceptance row'"
  using assms unfolding wf_acceptance_def by simp

text \<open>Moves between open states, closings and re-openings.\<close>

lemma wf_row_moved:
  assumes "wf_row row" "v_state row \<noteq> CLOSED" "v_state row' \<noteq> CLOSED"
    "v_closed_at row' = v_closed_at row" "v_closure_reason row' = v_closure_reason row"
    "v_machine_verified row' = v_machine_verified row"
    "v_fp row' = v_fp row" "v_due_at row' = v_due_at row" "v_exception row' = v_exception row"
    "v_sla_source row' = v_sla_source row" "v_source row' = v_source row"
  shows "wf_row row'"
proof -
  have "wf_lifecycle row'"
    using assms unfolding wf_row_def wf_lifecycle_def by (elim conjE) (intro conjI; simp)
  moreover have "wf_verdict row'"
    using assms unfolding wf_row_def wf_verdict_def by simp
  moreover have "wf_acceptance row'"
    using assms unfolding wf_row_def wf_acceptance_def by simp
  ultimately show ?thesis by (simp add: wf_row_def)
qed

lemma wf_row_closed:
  assumes "v_state row' = CLOSED" "v_closed_at row' \<noteq> None" "v_closure_reason row' = Some c"
    "v_machine_verified row' \<Longrightarrow> c \<in> {''verified_remediated'', ''patched''}" "v_due_at row' \<noteq> None"
    "if c = FALSE_POSITIVE then fp_suppress_until (v_fp row') \<noteq> None \<and> fp_reason (v_fp row') \<noteq> None
     else v_fp row' = no_fp"
    "signed (v_exception row')" "v_source row' \<noteq> SOFTWARE_SOURCE \<Longrightarrow> v_exception row' = no_exception"
  shows "wf_row row'"
proof -
  have "wf_lifecycle row'" using assms(1-5) by (auto simp: wf_lifecycle_def)
  moreover have "wf_verdict row'" using assms(3,6) by (simp add: wf_verdict_def)
  moreover have "wf_acceptance row'" using assms(1,7,8) by (simp add: wf_acceptance_def)
  ultimately show ?thesis by (simp add: wf_row_def)
qed

lemma wf_row_reopened:
  assumes "v_state row' \<noteq> CLOSED" "v_closed_at row' = None" "v_closure_reason row' = None"
    "\<not> v_machine_verified row'" "v_due_at row' \<noteq> None" "v_fp row' = no_fp"
    "signed (v_exception row')" "v_source row' \<noteq> SOFTWARE_SOURCE \<Longrightarrow> v_exception row' = no_exception"
  shows "wf_row row'"
proof -
  have "wf_lifecycle row'" using assms(1-5) by (simp add: wf_lifecycle_def)
  moreover have "wf_verdict row'" using assms(3,6) by (simp add: wf_verdict_def FALSE_POSITIVE_def)
  moreover have "wf_acceptance row'" using assms(1,7,8) by (simp add: wf_acceptance_def)
  ultimately show ?thesis by (simp add: wf_row_def)
qed

lemma wf_row_no_fp: "wf_row row \<Longrightarrow> v_state row \<noteq> CLOSED \<Longrightarrow> v_fp row = no_fp \<and> v_closure_reason row = None"
  by (auto simp: wf_row_def wf_lifecycle_def wf_verdict_def)

lemma wf_rowD:
  assumes "wf_row row"
  shows "wf_lifecycle row" "wf_verdict row" "wf_acceptance row" "signed (v_exception row)"
    and "v_source row \<noteq> SOFTWARE_SOURCE \<Longrightarrow> wf_exception (v_exception row)"
    and "v_source row \<noteq> SOFTWARE_SOURCE \<Longrightarrow> v_state row = CLOSED \<Longrightarrow> v_exception row = no_exception"
    and "v_source row \<noteq> SOFTWARE_SOURCE \<Longrightarrow> ex_until (v_exception row) \<noteq> None \<Longrightarrow>
       v_due_at row = ex_until (v_exception row) \<and> v_sla_source row = Some ''exception''"
    and "v_due_at row \<noteq> None"
  using assms unfolding wf_row_def wf_lifecycle_def wf_acceptance_def by blast+

text \<open>
  The outcomes of the operations have two shapes: an event that repeats the state of a row
  that stayed where it was, and one that records a legal move.
\<close>

lemma sound_same_state:
  assumes "wf_row row'" "same_finding row row'" "v_state row' = v_state row"
  shows "sound_outcome row (row', [record_event row' k t None (Some (v_state row')) a n dt], au)"
  using assms by (simp add: sound_outcome_def same_finding_def)

lemma sound_move:
  assumes "wf_row row'" "same_finding row row'" "vuln_can_transition (v_state row) (v_state row')"
  shows "sound_outcome row (row', [record_event row' k t (Some (v_state row)) (Some (v_state row')) a n dt], au)"
  using assms by (simp add: sound_outcome_def same_finding_def)

lemma sound_repeat:
  assumes "wf_row row'" "same_finding row row'" "v_state row' = v_state row"
  shows "sound_outcome row (row', [record_event row' k t None (Some (v_state row)) a n dt], au)"
  using sound_same_state [OF assms] assms(3) by simp

section \<open>Acceptances\<close>

lemma request_sound:
  assumes "wf_row row" "request_row now until reason actor row = Ok out"
  shows "sound_outcome row out"
proof -
  let ?e = "(v_exception row)\<lparr>ex_state := EXCEPTION_REQUESTED, ex_requested_by := actor,
     ex_requested_at := Some now, ex_requested_until := Some until,
     ex_requested_reason := Some (take 2000 reason), ex_decided_by := None, ex_decided_at := None,
     ex_decision_note := None\<rparr>"
  let ?r = "row\<lparr>v_exception := ?e, v_updated_at := now\<rparr>"
  from assms(2) have open': "v_state row \<noteq> CLOSED"
    and out: "out = (?r, [record_event ?r Exception_requested now None (Some (v_state ?r)) actor (Some reason)
        [(''requested_until'', jtime (Some until))]], [audit_row ''vulnerability.exception_request'' (Some row) ?r])"
    by (auto simp: request_row_def Let_def bindE_Ok_iff split: if_splits)
  note wf = wf_rowD [OF assms(1)]
  have signed: "signed ?e" using wf(4) by (simp add: signed_def)
  moreover have "wf_exception ?e" if "wf_exception (v_exception row)"
    using that signed by (simp add: wf_exception_def)
  ultimately have "wf_acceptance ?r"
    using open' wf(5,7) by (intro wf_acceptance_open) simp_all
  then have "wf_row ?r" using wf(8) by (intro wf_row_keep [OF assms(1)]) simp_all
  then show ?thesis unfolding out by (rule sound_same_state) (simp_all add: same_finding_def)
qed

lemma withdraw_sound:
  assumes "wf_row row" "withdraw_row now actor note row = Ok out"
  shows "sound_outcome row out"
proof -
  let ?e = "(v_exception row)\<lparr>ex_state := state_behind_a_request (v_exception row) now,
     ex_requested_by := None, ex_requested_at := None, ex_requested_until := None,
     ex_requested_reason := None\<rparr>"
  let ?r = "row\<lparr>v_exception := ?e, v_updated_at := now\<rparr>"
  from assms(2) obtain detail where pending: "or_none (ex_state (v_exception row)) = EXCEPTION_REQUESTED"
    and out: "out = (?r, [record_event ?r Exception_request_withdrawn now None (Some (v_state ?r)) actor note detail],
       [audit_row ''vulnerability.exception_request_withdraw'' (Some row) ?r])"
    by (auto simp: withdraw_row_def Let_def split: if_splits)
  note wf = wf_rowD [OF assms(1)]
  have pending': "ex_state (v_exception row) = EXCEPTION_REQUESTED"
    using pending by (simp add: or_none_def split: if_splits)
  have signed: "signed ?e" using wf(4) by (simp add: signed_def)
  have exc: "wf_exception ?e" if "wf_exception (v_exception row)"
    using that signed pending'
    by (cases "ex_until (v_exception row)")
       (auto simp: wf_exception_def state_behind_a_request_def no_exception_def)
  have open': "v_state row \<noteq> CLOSED" if "v_source row \<noteq> SOFTWARE_SOURCE"
    using wf(6) [OF that] pending' by auto
  have "wf_acceptance ?r"
    using signed exc wf(5,7) open' by (simp add: wf_acceptance_def)
  then have "wf_row ?r" using wf(8) by (intro wf_row_keep [OF assms(1)]) simp_all
  then show ?thesis unfolding out by (rule sound_same_state) (simp_all add: same_finding_def)
qed

lemma approve_sound:
  assumes "wf_row row" "approve_row now actor note row = Ok out"
  shows "sound_outcome row out"
proof -
  from assms(2) obtain until row' detail where
    pending: "ex_state (v_exception row) = EXCEPTION_REQUESTED"
    and two: "\<not> same_person (ex_requested_by (v_exception row)) (Some actor)"
    and row': "row' = row\<lparr>v_exception := (v_exception row)\<lparr>ex_state := EXCEPTION_APPROVED,
        ex_decided_by := Some actor, ex_decided_at := Some now, ex_decision_note := decision_note note,
        ex_until := Some until, ex_by := Some actor,
        ex_reason := (if truthy_text (ex_requested_reason (v_exception row))
           then ex_requested_reason (v_exception row) else ex_reason (v_exception row)),
        ex_approved_at := Some now,
        ex_approved_requested_by := ex_requested_by (v_exception row), ex_expired_at := None\<rparr>,
      v_due_at := Some until, v_sla_source := Some ''exception'', v_updated_at := now\<rparr>"
    and out: "out = (row', [record_event row' Exception_approved now None (Some (v_state row')) (Some actor) note detail],
       [audit_row ''vulnerability.exception_approve'' (Some row) row'])"
    by (auto simp: approve_row_def Let_def bindE_Ok_iff split: if_splits option.splits)
  note wf = wf_rowD [OF assms(1)]
  have signed: "signed (v_exception row')" using two by (simp add: row' signed_def)
  have exc: "wf_exception (v_exception row')"
    using signed by (simp add: wf_exception_def row')
  have open': "v_state row \<noteq> CLOSED" if "v_source row \<noteq> SOFTWARE_SOURCE"
    using wf(6) [OF that] pending by auto
  have "wf_acceptance row'"
    using signed exc open' unfolding wf_acceptance_def by (simp add: row')
  then have "wf_row row'" by (rule wf_row_keep [OF assms(1), rotated -1]) (simp_all add: row')
  then show ?thesis unfolding out by (rule sound_same_state) (simp_all add: same_finding_def row')
qed

lemma reject_sound:
  assumes "wf_row row" "reject_row now actor note row = Ok out"
  shows "sound_outcome row out"
proof -
  let ?e = "(v_exception row)\<lparr>ex_state := EXCEPTION_REJECTED, ex_decided_by := Some actor,
     ex_decided_at := Some now, ex_decision_note := decision_note note\<rparr>"
  let ?r = "row\<lparr>v_exception := ?e, v_updated_at := now\<rparr>"
  from assms(2) obtain detail where pending: "ex_state (v_exception row) = EXCEPTION_REQUESTED"
    and out: "out = (?r, [record_event ?r Exception_rejected now None (Some (v_state ?r)) (Some actor) note detail],
       [audit_row ''vulnerability.exception_reject'' (Some row) ?r])"
    by (auto simp: reject_row_def Let_def bindE_Ok_iff split: if_splits)
  note wf = wf_rowD [OF assms(1)]
  have signed: "signed ?e" using wf(4) by (simp add: signed_def)
  have exc: "wf_exception ?e" if "wf_exception (v_exception row)"
    using that signed pending by (simp add: wf_exception_def)
  have open': "v_state row \<noteq> CLOSED" if "v_source row \<noteq> SOFTWARE_SOURCE"
    using wf(6) [OF that] pending by auto
  have "wf_acceptance ?r"
    using signed exc wf(5,7) open' by (simp add: wf_acceptance_def)
  then have "wf_row ?r" using wf(8) by (intro wf_row_keep [OF assms(1)]) simp_all
  then show ?thesis unfolding out by (rule sound_same_state) (simp_all add: same_finding_def)
qed

interpretation request: row_operation "request_row now until reason actor" for now until reason actor
  by unfold_locales (rule request_sound)
interpretation withdraw: row_operation "withdraw_row now actor why" for now actor why
  by unfold_locales (rule withdraw_sound)
interpretation approve: row_operation "approve_row now actor why" for now actor why
  by unfold_locales (rule approve_sound)
interpretation reject: row_operation "reject_row now actor why" for now actor why
  by unfold_locales (rule reject_sound)

lemma clear_sound:
  assumes "wf_row row" "clear_row now d actor note row = Ok out"
  shows "sound_outcome row out"
proof -
  let ?e = "v_exception row"
  let ?keeps = "or_none (ex_state ?e) = EXCEPTION_REQUESTED"
  let ?e1 = "?e\<lparr>ex_state := (if ?keeps then EXCEPTION_REQUESTED else EXCEPTION_NONE)\<rparr>"
  let ?e2 = "if ?keeps then ?e1 else ?e1\<lparr>ex_requested_by := None, ex_requested_at := None,
     ex_requested_until := None, ex_requested_reason := None\<rparr>"
  let ?e3 = "?e2\<lparr>ex_decided_by := None, ex_decided_at := None, ex_decision_note := None,
     ex_reason := None, ex_by := None, ex_approved_at := None, ex_approved_requested_by := None,
     ex_expired_at := None, ex_until := None\<rparr>"
  from assms(2) obtain n src row' detail where granted: "ex_until ?e \<noteq> None"
    and row': "row' = row\<lparr>v_exception := ?e3, v_updated_at := now, v_sla_days := Some n,
       v_sla_source := Some src, v_due_at := Some (v_sla_started_at row + days n)\<rparr>"
    and out: "out = (row', [record_event row' Exception_cleared now None (Some (v_state row')) actor note detail],
       [audit_row ''vulnerability.exception_withdraw'' (Some row) row'])"
    unfolding clear_row_def Let_def by (auto simp: bindE_Ok_iff split: if_splits prod.splits)
  note wf = wf_rowD [OF assms(1)]
  have until: "ex_until ?e3 = None" by simp
  have signed: "signed ?e3" by (simp add: signed_def)
  have exc: "wf_exception ?e3" if "wf_exception ?e"
  proof (cases ?keeps)
    case True
    then have "ex_state ?e = EXCEPTION_REQUESTED" by (simp add: or_none_def split: if_splits)
    with True that signed show ?thesis by (simp add: wf_exception_def)
  next
    case False
    then have "?e3 = no_exception" by (simp add: no_exception_def)
    then show ?thesis by simp
  qed
  have open': "v_state row \<noteq> CLOSED" if "v_source row \<noteq> SOFTWARE_SOURCE"
    using wf(6) [OF that] granted by auto
  have fields: "v_exception row' = ?e3" "v_state row' = v_state row" "v_source row' = v_source row"
    by (simp_all add: row')
  have "wf_acceptance row'"
    using signed exc wf(5) open' until unfolding wf_acceptance_def fields by auto
  then have "wf_row row'" by (rule wf_row_keep [OF assms(1), rotated -1]) (simp_all add: row')
  then show ?thesis unfolding out by (rule sound_same_state) (simp_all add: same_finding_def row')
qed

lemma lapse_sound:
  assumes "wf_row row" "lapsed_unrecorded now' tenant_id row"
  shows "sound_outcome row (lapse_row now row)"
proof -
  let ?e = "v_exception row"
  let ?e1 = "?e\<lparr>ex_expired_at := Some now\<rparr>"
  let ?e2 = "if or_none (ex_state ?e) = EXCEPTION_APPROVED then ?e1\<lparr>ex_state := EXCEPTION_EXPIRED\<rparr> else ?e1"
  let ?r = "row\<lparr>v_exception := ?e2, v_updated_at := now\<rparr>"
  from assms(2) have granted: "ex_until ?e \<noteq> None" "v_state row \<noteq> CLOSED"
    by (auto simp: lapsed_unrecorded_def Let_def split: option.splits)
  note wf = wf_rowD [OF assms(1)]
  have signed: "signed ?e2" using wf(4) by (simp add: signed_def)
  have exc: "wf_exception ?e2" if "wf_exception ?e"
    using that signed granted(1) wf_exceptionD(2) [OF that]
    by (auto simp: wf_exception_def or_none_def no_exception_def)
  have until: "ex_until ?e2 = ex_until ?e" by simp
  have "wf_acceptance ?r"
    using granted signed exc wf(5,7) until by (intro wf_acceptance_open) simp_all
  then have "wf_row ?r" using wf(8) by (intro wf_row_keep [OF assms(1)]) simp_all
  then show ?thesis unfolding lapse_row_def Let_def
    by (intro sound_same_state) (simp_all add: same_finding_def)
qed

interpretation clear: row_operation "clear_row now d actor why" for now d actor why
  by unfold_locales (rule clear_sound)
interpretation lapse: row_sweep "\<lambda>_. lapse_row now" "lapsed_unrecorded now tenant_id" for now tenant_id
  by unfold_locales (rule lapse_sound)

section \<open>Verdicts\<close>

text \<open>
  The last step of every closing: the acceptance is dropped from a row whose other columns
  already say closed, and a legal move is recorded.
\<close>

lemma closing_touched_sound:
  assumes "wf_row row" "vuln_can_transition (v_state row) CLOSED"
    and "drop_exception row1 = (row2, detail)" "same_finding row row1" "v_state row1 = CLOSED"
    "v_closed_at row1 \<noteq> None" "v_closure_reason row1 = Some c"
    "v_machine_verified row1 \<Longrightarrow> c \<in> {''verified_remediated'', ''patched''}"
    "v_due_at row1 = v_due_at row" "v_exception row1 = v_exception row" "v_source row1 = v_source row"
    "if c = FALSE_POSITIVE then fp_suppress_until (v_fp row1) \<noteq> None \<and> fp_reason (v_fp row1) \<noteq> None
     else v_fp row1 = no_fp"
    and "row3 = row2\<lparr>v_updated_at := u\<rparr>"
  shows "sound_outcome row (row3, [record_event row3 k t (Some (v_state row)) (Some CLOSED) a n dt], au)"
proof -
  note wf = wf_rowD [OF assms(1)]
  have pre: "signed (v_exception row1)" "v_source row1 \<noteq> SOFTWARE_SOURCE \<Longrightarrow> wf_exception (v_exception row1)"
    using wf(4,5) assms(10,11) by simp_all
  have row2: "row2 = row1\<lparr>v_exception := v_exception row2\<rparr>"
    by (rule drop_exception_closed(1) [OF assms(3)]) (use pre in simp_all)
  have signed: "signed (v_exception row2)"
    by (rule drop_exception_closed(2) [OF assms(3)]) (use pre in simp_all)
  have none: "v_source row1 \<noteq> SOFTWARE_SOURCE \<Longrightarrow> v_exception row2 = no_exception"
    by (rule drop_exception_closed(3) [OF assms(3)]) (use pre in simp_all)
  obtain e where e: "row2 = row1\<lparr>v_exception := e\<rparr>" using row2 by blast
  then have ve: "v_exception row2 = e" by simp
  from assms(13) e have row3: "row3 = row1\<lparr>v_exception := e, v_updated_at := u\<rparr>" by simp
  have "wf_row row3"
    by (rule wf_row_closed [where c = c])
       (use assms(5-9,12) wf(8) signed none in \<open>simp_all add: row3 ve\<close>)
  moreover have "v_state row3 = CLOSED" "same_finding row row3"
    using assms(4,5) by (simp_all add: row3 same_finding_def)
  ultimately show ?thesis using sound_move [of row3 row] assms(2) by simp
qed

lemmas closing_sound = closing_touched_sound [where u = "v_updated_at row2" and ?row2.0 = row2 and ?row3.0 = row2
    for row2, simplified]

lemma mark_sound:
  assumes "wf_row row" "mark_row now why suppress_days evidence actor row = Ok out"
  shows "sound_outcome row out"
proof -
  let ?row1 = "row\<lparr>v_state := CLOSED, v_state_changed_at := now, v_state_changed_by := actor,
     v_closed_at := Some now, v_machine_verified := False, v_closure_reason := Some FALSE_POSITIVE,
     v_fp := \<lparr>fp_reason = Some (take 2000 why), fp_marked_by = actor, fp_marked_at = Some now,
        fp_evidence = evidence, fp_suppress_until = Some (now + days suppress_days), fp_observations = 0\<rparr>,
     v_updated_at := now\<rparr>"
  obtain row2 dropped where drop: "drop_exception ?row1 = (row2, dropped)" by fastforce
  from assms(2) drop obtain detail where move: "vuln_can_transition (v_state row) CLOSED"
    and out: "out = (row2, [record_event row2 False_positive_set now (Some (v_state row)) (Some CLOSED)
       actor (Some why) detail], [])"
    by (auto simp: mark_row_def Let_def bindE_Ok_iff)
  show ?thesis unfolding out
    by (rule closing_sound [OF assms(1) move drop, where c = FALSE_POSITIVE])
       (simp_all add: same_finding_def)
qed

lemma unmark_sound:
  assumes "wf_row row" "unmark_row now d actor note row = Ok out"
  shows "sound_outcome row out"
proof -
  from assms(2) obtain n src row' detail where closed: "v_state row = CLOSED"
    and row': "row' = row\<lparr>v_state := OPEN, v_state_changed_at := now, v_state_changed_by := actor,
       v_closed_at := None, v_closure_reason := None, v_machine_verified := False,
       v_sla_started_at := now, v_sla_days := Some n, v_sla_source := Some src,
       v_due_at := Some (now + days n), v_fp := no_fp, v_updated_at := now\<rparr>"
    and out: "out = (row', [record_event row' False_positive_cleared now (Some (v_state row)) (Some OPEN)
       actor note detail], [])"
    by (auto simp: unmark_row_def clear_fp_def Let_def bindE_Ok_iff split: if_splits prod.splits)
  note wf = wf_rowD [OF assms(1)]
  have "wf_row row'"
    by (rule wf_row_reopened) (use wf(4,6) closed in \<open>simp_all add: row'\<close>)
  moreover have "v_state row' = OPEN" "same_finding row row'" by (simp_all add: row' same_finding_def)
  ultimately show ?thesis unfolding out using sound_move [of row' row] closed by simp
qed

section \<open>Moves and bookkeeping\<close>

lemma reopened_row_wf:
  assumes "wf_row row" "v_state row = CLOSED"
    and "reopened_row now (row\<lparr>v_state := s, v_state_changed_at := now, v_state_changed_by := by,
           v_updated_at := now\<rparr>) = (row', dropped)" "s \<noteq> CLOSED"
  shows "wf_row row'" "same_finding row row'" "v_state row' = s"
proof -
  let ?r = "row\<lparr>v_state := s, v_state_changed_at := now, v_state_changed_by := by, v_updated_at := now,
     v_closed_at := None, v_machine_verified := False\<rparr>"
  note wf = wf_rowD [OF assms(1)]
  obtain row1 b where drop: "drop_fp_verdict_on_reopen ?r = (row1, b)" by fastforce
  have row1: "row1 = ?r\<lparr>v_fp := no_fp\<rparr>"
    by (rule drop_fp_verdict_clean [OF drop]) (use wf(2) in \<open>simp add: wf_verdict_def split: if_splits\<close>)
  have row': "row' = row1\<lparr>v_closure_reason := None, v_sla_started_at := now,
     v_due_at := Some (now + days (sla_days_or_default row1)), v_reopen_count := v_reopen_count row1 + 1\<rparr>"
    using assms(3) drop by (simp add: reopened_row_def)
  show "wf_row row'"
    by (rule wf_row_reopened) (use wf(4,6) assms(2,4) in \<open>simp_all add: row' row1\<close>)
  show "same_finding row row'" "v_state row' = s" by (simp_all add: row' row1 same_finding_def)
qed

lemma transition_sound:
  assumes "wf_row row" "transition_row now s actor note row = Ok out"
  shows "sound_outcome row out"
proof -
  let ?row1 = "row\<lparr>v_state := s, v_state_changed_at := now, v_state_changed_by := actor, v_updated_at := now\<rparr>"
  from assms(2) have move: "vuln_can_transition (v_state row) s" by (auto simp: transition_row_def bindE_Ok_iff)
  note fp = wf_row_no_fp [OF assms(1)]
  consider "s = CLOSED" | "s \<noteq> CLOSED" "v_state row = CLOSED" | "s \<noteq> CLOSED" "v_state row \<noteq> CLOSED" by blast
  then show ?thesis
  proof cases
    case 1
    let ?r = "?row1\<lparr>v_closed_at := Some now, v_machine_verified := False, v_closure_reason := Some ''manual''\<rparr>"
    obtain row2 dropped where drop: "drop_exception ?r = (row2, dropped)" by fastforce
    have out: "out = (row2, [record_event row2 State_change now (Some (v_state row)) (Some CLOSED) actor note
        ((''closure_reason'', JStr ''manual'') # dropped)], [])"
      using assms(2) 1 drop by (simp add: transition_row_def bindE_Ok_iff)
    have open': "v_state row \<noteq> CLOSED" using move 1 by (auto simp: state_simps)
    show ?thesis unfolding out
      by (rule closing_sound [OF assms(1) _ drop, where c = "''manual''"])
         (use move 1 fp open' in \<open>simp_all add: same_finding_def FALSE_POSITIVE_def\<close>)
  next
    case 2
    obtain row2 dropped where r: "reopened_row now ?row1 = (row2, dropped)" by fastforce
    from assms(2) 2 r obtain detail where
      out: "out = (row2, [record_event row2 Reopened now (Some (v_state row)) (Some s) actor note detail], [])"
      by (auto simp: transition_row_def bindE_Ok_iff Let_def)
    from reopened_row_wf [OF assms(1) 2(2) r 2(1)] show ?thesis
      unfolding out using sound_move [of row2 row] move by simp
  next
    case 3
    have out: "out = (?row1, [record_event ?row1 State_change now (Some (v_state row)) (Some s) actor note []], [])"
      using assms(2) 3 by (simp add: transition_row_def bindE_Ok_iff Let_def)
    have "wf_row ?row1" by (rule wf_row_moved [OF assms(1)]) (use 3 in simp_all)
    then show ?thesis unfolding out using sound_move [of ?row1 row] move by (simp add: same_finding_def)
  qed
qed

lemma assign_sound:
  assumes "wf_row row" "assign_row now assignee owner_team actor note sent row = Ok out"
  shows "sound_outcome row out"
  using assms(2) unfolding assign_row_def Let_def
  by (cases "''assignee'' \<in> set (or_else sent [''assignee'', ''owner_team''])";
      cases "''owner_team'' \<in> set (or_else sent [''assignee'', ''owner_team''])")
     (auto intro!: sound_repeat wf_row_same [OF assms(1)] simp: same_finding_def)

lemma comment_sound:
  "wf_row row \<Longrightarrow> sound_outcome row (row, [record_event row Comment now None (Some (v_state row)) actor n []], [])"
  by (simp add: sound_same_state same_finding_def)

lemma link_sound:
  assumes "wf_row row" "link_row now system key url actor note row = Ok out"
  shows "sound_outcome row out"
  using assms(2) unfolding link_row_def Let_def
  by (auto intro!: sound_repeat wf_row_same [OF assms(1)] simp: same_finding_def)

lemma unlink_sound:
  assumes "wf_row row" "unlink_row now actor row = Ok out"
  shows "sound_outcome row out"
  using assms(2) unfolding unlink_row_def Let_def
  by (auto intro!: sound_repeat wf_row_same [OF assms(1)] sound_unchanged [OF assms(1)]
      simp: same_finding_def split: if_splits)

interpretation mark: row_operation "mark_row now why suppress_days evidence actor"
  for now why suppress_days evidence actor
  by unfold_locales (rule mark_sound)
interpretation unmark: row_operation "unmark_row now d actor why" for now d actor why
  by unfold_locales (rule unmark_sound)
interpretation transition: row_operation "transition_row now s actor why" for now s actor why
  by unfold_locales (rule transition_sound)
interpretation assign: row_operation "assign_row now assignee owner_team actor why sent"
  for now assignee owner_team actor why sent
  by unfold_locales (rule assign_sound)
interpretation comment: row_operation
  "\<lambda>row. Ok (row, [record_event row Comment now None (Some (v_state row)) actor (Some body) []], [])"
  for now actor body
  by unfold_locales (auto intro: comment_sound)
interpretation link: row_operation "link_row now system key url actor why" for now system key url actor why
  by unfold_locales (rule link_sound)
interpretation unlink: row_operation "unlink_row now actor" for now actor
  by unfold_locales (rule unlink_sound)

end
