(* ===== verification/Vuln_Observers.thy ===== *)
theory Vuln_Observers
  imports Vuln_Contracts
begin

text \<open>
  The contracts of what the machine does to a finding: the ticket poller, the escalation, the
  verification loop, the runs and the endpoint-software snapshots.
\<close>

section \<open>Tickets and escalation\<close>

lemma sound_frame:
  assumes "sound_outcome row (row1, evs, au)" "wf_row row'" "same_finding row1 row'" "v_state row' = v_state row1"
    and "\<And>ev. ev \<in> set evs' \<Longrightarrow> ev_vuln_id ev = v_vuln_id row"
    and "follow (v_state row) evs' = Some (v_state row1)"
  shows "sound_outcome row (row', evs', au')"
  using assms by (simp add: sound_outcome_def same_finding_def)

lemma ticket_moved_wf:
  assumes "wf_row row" "vuln_can_transition (v_state row) s"
    and "ticket_moved_row now s by row = (row', dropped, fp)"
  shows "wf_row row'" "same_finding row row'" "v_state row' = s"
proof -
  let ?row1 = "row\<lparr>v_state := s, v_state_changed_at := now, v_state_changed_by := Some by, v_updated_at := now\<rparr>"
  note fp = wf_row_no_fp [OF assms(1)]
  consider "s = CLOSED" | "s \<noteq> CLOSED" "v_state row = CLOSED" | "s \<noteq> CLOSED" "v_state row \<noteq> CLOSED" by blast
  then have "wf_row row' \<and> same_finding row row' \<and> v_state row' = s"
  proof cases
    case 1
    let ?r = "?row1\<lparr>v_closed_at := Some now, v_machine_verified := False,
       v_closure_reason := Some ''ticket_resolved''\<rparr>"
    have drop: "drop_exception ?r = (row', dropped)"
      using assms(3) 1 by (auto simp: ticket_moved_row_def Let_def split: prod.splits)
    have open': "v_state row \<noteq> CLOSED" using assms(2) 1 by (auto simp: state_simps)
    have "sound_outcome row (row', [record_event row' State_change 0 (Some (v_state row)) (Some CLOSED) None None []], [])"
      by (rule closing_sound [OF assms(1) _ drop, where c = "''ticket_resolved''"])
         (use assms(2) 1 fp open' in \<open>simp_all add: same_finding_def FALSE_POSITIVE_def\<close>)
    then show ?thesis using 1 assms(2) by (auto simp: sound_outcome_def split: if_splits)
  next
    case 2
    obtain r b where r: "reopened_row now ?row1 = (r, b)" by fastforce
    with assms(3) 2 have "row' = r" by (simp add: ticket_moved_row_def Let_def)
    with reopened_row_wf [OF assms(1) 2(2) r 2(1)] show ?thesis by simp
  next
    case 3
    have row': "row' = ?row1" using assms(3) 3 by (simp add: ticket_moved_row_def Let_def)
    have "wf_row ?row1" by (rule wf_row_moved [OF assms(1)]) (use 3 in simp_all)
    then show ?thesis by (simp add: row' same_finding_def)
  qed
  then show "wf_row row'" "same_finding row row'" "v_state row' = s" by simp_all
qed

lemma wf_row_ticket: "wf_row row \<Longrightarrow> wf_row (row\<lparr>v_ticket := t\<rparr>)"
  by (rule wf_row_same) simp_all

lemma ticket_sound:
  assumes "wf_row row" "ticket_row now d r row = Ok out"
  shows "sound_outcome row out"
proof (cases "truthy_text (tk_system (v_ticket row)) \<and> truthy_text (tk_key (v_ticket row))")
  case False
  then have "out = (row, [], [])" using assms(2) by (auto simp: ticket_row_def Let_def)
  then show ?thesis by (simp add: sound_unchanged [OF assms(1)])
next
  case linked: True
  let ?by = "or_text (tr_actor r) (''ticket_sync:'' @ or_else (tk_system (v_ticket row)) [])"
  let ?s = "or_else (tr_suggested_state r) []"
  define applied where "applied \<longleftrightarrow> suggestion_applies d r row"
  obtain row1 dropped fp where moved:
    "(if applied then ticket_moved_row now ?s ?by row else (row, [], False)) = (row1, dropped, fp)"
    by (metis prod_cases3)
  have row1: "wf_row row1" "same_finding row row1"
    and move: "v_state row1 = v_state row \<or> vuln_can_transition (v_state row) (v_state row1)"
    and still: "\<not> applied \<Longrightarrow> row1 = row"
  proof -
    show "wf_row row1" "same_finding row row1"
      "v_state row1 = v_state row \<or> vuln_can_transition (v_state row) (v_state row1)" "\<not> applied \<Longrightarrow> row1 = row"
      using moved assms(1) ticket_moved_wf [OF assms(1), of ?s now ?by row1 dropped fp]
      by (auto simp: applied_def suggestion_applies_def Let_def same_finding_def split: if_splits)
  qed
  let ?row2 = "row1\<lparr>v_ticket := synced_ticket now r (v_ticket row)\<rparr>"
  obtain n dt where out: "out = (?row2,
      if tr_record_unchanged r \<or> applied \<or> (tk_sync_error (v_ticket row) \<noteq> None) \<noteq> (tr_error r \<noteq> None)
      then [record_event ?row2 Ticket_synced now (Some (v_state row)) (Some (v_state ?row2)) (Some ?by) n dt] else [], [])"
    using assms(2) linked moved
    unfolding ticket_row_def Let_def applied_def by auto
  have wf2: "wf_row ?row2" by (rule wf_row_ticket [OF row1(1)])
  show ?thesis
    unfolding out using wf2 row1(2) move still
    by (auto simp: sound_outcome_def same_finding_def)
qed

interpretation ticket: row_operation "ticket_row now d r" for now d r
  by unfold_locales (rule ticket_sound)

lemma escalated_sound:
  assumes "wf_row row" "escalated_row row a t b = (row', changed)"
  shows "sound_outcome row (row'\<lparr>v_updated_at := now\<rparr>, [record_event (row'\<lparr>v_updated_at := now\<rparr>) Escalated now None
    (Some (v_state (row'\<lparr>v_updated_at := now\<rparr>))) None n dt], [])"
proof -
  obtain a' t' s' where row': "row' = row\<lparr>v_assignee := a', v_owner_team := t',
      v_assessment := (v_assessment row)\<lparr>as_severity := s'\<rparr>\<rparr>"
    using escalated_row_frame [OF assms(2)] by blast
  show ?thesis
    by (intro sound_same_state wf_row_same [OF assms(1)]) (simp_all add: row' same_finding_def)
qed

lemma escalate_inv:
  assumes "vuln_inv d" "escalate now d t k assignee owner_team bump = (d', res)"
  shows "vuln_inv d'"
proof (cases "load d (Some t) k")
  case None
  with assms show ?thesis by (simp add: escalate_def)
next
  case (Some row)
  then have got: "get_vuln d (v_vuln_id row) = Some row"
    by (auto simp: load_Some_iff dest: get_vuln_mem)
  obtain row' changed where e: "escalated_row row assignee owner_team bump = (row', changed)" by fastforce
  have wf: "wf_row row" using vuln_invD(3) [OF assms(1)] get_vuln_mem [OF got] by blast
  show ?thesis
    using assms Some e commit_row_inv [OF assms(1) got escalated_sound [OF wf e]]
    by (auto simp: escalate_def Let_def split: if_splits)
qed

section \<open>Verification\<close>

lemma wf_row_fixing:
  assumes "wf_row row" "v_state row = VERIFYING"
  shows "wf_row (row\<lparr>v_state := FIXING, v_state_changed_at := t, v_state_changed_by := b,
    v_last_verified_at := l, v_updated_at := u\<rparr>)"
  by (rule wf_row_moved [OF assms(1)]) (use assms(2) in simp_all)

lemma sound_fixing:
  assumes "wf_row row" "v_state row = VERIFYING"
    "row' = row\<lparr>v_state := FIXING, v_state_changed_at := t, v_state_changed_by := b,
       v_last_verified_at := l, v_updated_at := u\<rparr>"
  shows "sound_outcome row (row', [record_event row' k now (Some VERIFYING) (Some FIXING) a n dt], au)"
  using sound_move [of row' row] wf_row_fixing [OF assms(1,2)] assms(2,3) by (simp add: same_finding_def)

lemma send_back_sound:
  assumes "wf_row row" "v_state row = VERIFYING"
  shows "sound_outcome row (send_back_inconclusive now note detail row)"
  unfolding send_back_inconclusive_def Let_def by (rule sound_fixing [OF assms]) simp

lemma verified_sound:
  assumes "wf_row row" "v_state row = VERIFYING"
    and "machine_verified \<Longrightarrow> c = ''verified_remediated''" "c \<noteq> FALSE_POSITIVE"
  shows "sound_outcome row (verified_row now run_id v row machine_verified c kind note detail)"
proof -
  let ?r = "row\<lparr>v_state := CLOSED, v_state_changed_at := now,
     v_state_changed_by := Some ''system:verification'', v_closed_at := Some now,
     v_last_verified_at := Some now, v_machine_verified := machine_verified, v_closure_reason := Some c\<rparr>"
  obtain row1 dropped where drop: "drop_exception ?r = (row1, dropped)" by fastforce
  have "verified_row now run_id v row machine_verified c kind note detail =
    (row1\<lparr>v_updated_at := now\<rparr>, [record_event (row1\<lparr>v_updated_at := now\<rparr>) kind now (Some (v_state row)) (Some CLOSED)
       (Some ''system:verification'') (Some note)
       ([(''run_id'', JStr run_id), (''job_id'', jtext (v_verification_job_id row)),
         (''machine_verified'', JBool machine_verified), (''closure_reason'', JStr c),
         (''verified_from'', vantage_json v)] @ detail @ dropped)], [])"
    using assms(2) drop by (simp add: verified_row_def Let_def)
  moreover have "sound_outcome row \<dots>"
    by (rule closing_touched_sound [OF assms(1) _ drop, where c = c and u = now])
       (use assms wf_row_no_fp [OF assms(1)] in \<open>simp_all add: same_finding_def\<close>)
  ultimately show ?thesis by simp
qed

lemma verify_sound:
  assumes "wf_row row" "v_state row = VERIFYING"
  shows "sound_outcome row (verify_row precise now run_id v ra addresses row)"
proof (cases "v_last_seen_run_id row = Some run_id")
  case True
  then show ?thesis
    unfolding verify_row_def Let_def by simp (rule sound_fixing [OF assms], simp)
next
  case False
  obtain gaps unreachable waived where ev: "closing_evidence precise ra v addresses row = (gaps, unreachable, waived)"
    by (metis prod_cases3)
  show ?thesis
    using False send_back_sound [OF assms] verified_sound [OF assms]
    by (simp add: verify_row_def ev FALSE_POSITIVE_def)
qed

interpretation unfinished: row_sweep "\<lambda>_. send_back_inconclusive now why detail" "awaits_job tenant_id job_ids"
  for now why detail tenant_id job_ids
  by unfold_locales (rule send_back_sound, simp_all add: awaits_job_def)

interpretation closing: row_sweep "\<lambda>d row. verify_row precise now run_id v ra (asset_hosts d row) row"
  "awaits_job tenant_id job_ids" for precise now run_id v ra tenant_id job_ids
  by unfold_locales (rule verify_sound, simp_all add: awaits_job_def)

lemma release_inv:
  assumes "vuln_inv d" "release_unfinished_verification now d t job_id run_id status = (d', n)"
  shows "vuln_inv d'"
  using assms(2) unfinished.sweep_filter_inv [OF assms(1)]
  by (auto simp: release_unfinished_verification_def Let_def)

lemma close_awaiting_inv:
  assumes "vuln_inv d"
  shows "vuln_inv (close_awaiting precise now t run_id v ra d)"
  unfolding close_awaiting_def Let_def
  by (rule closing.sweep_filter_inv [OF assms])

lemma expire_inv:
  assumes "vuln_inv d" "expire_exceptions now t limit d = (d', n)"
  shows "vuln_inv d'"
proof -
  let ?rows = "swept_rows now t limit d"
  note wf = vuln_invD(1) [OF assms(1)]
  have "distinct (vd_rows d)" using wf by (simp add: wf_vulns_def distinct_map)
  then have "distinct ?rows" by (simp add: swept_rows_def)
  moreover have sub: "set ?rows \<subseteq> set (filter (lapsed_unrecorded now t) (vd_rows d))"
    by (auto simp: swept_rows_def dest: in_set_takeD)
  moreover have "inj_on v_vuln_id (set (vd_rows d))" using wf by (simp add: wf_vulns_def distinct_map)
  ultimately have "distinct (map v_vuln_id ?rows)"
    unfolding distinct_map by (auto intro: inj_on_subset)
  moreover have "lapsed_unrecorded now t row \<and> get_vuln d (v_vuln_id row) = Some row" if "row \<in> set ?rows" for row
    using filtered_rows(2) [OF wf] sub that by blast
  ultimately have "vuln_inv (foldl (\<lambda>d row. commit_row d (lapse_row now row)) d ?rows)"
    by (rule lapse.sweep_inv [OF assms(1)])
  then show ?thesis using assms(2) by (simp add: expire_exceptions_def Let_def)
qed

lemma receipt_inv:
  assumes "vuln_inv d" "verification_receipt intent_key now d t k job_id key actor = Ok (d', res)"
    and "\<And>row. load d (Some t) k = Some row \<Longrightarrow> intent_key d row = key \<Longrightarrow> v_state row = FIXING"
  shows "vuln_inv d'"
proof -
  from assms(2) obtain row where row: "load d (Some t) k = Some row" "intent_key d row = key"
    and d': "d' = commit_row d (receipt_row now job_id actor row)"
    by (auto simp: verification_receipt_def Let_def split: option.splits if_splits)
  have got: "get_vuln d (v_vuln_id row) = Some row" using row(1) by (auto simp: load_Some_iff dest: get_vuln_mem)
  have fixing: "v_state row = FIXING" by (rule assms(3) [OF row])
  have wf: "wf_row row" using vuln_invD(3) [OF assms(1)] get_vuln_mem [OF got] by blast
  let ?by = "or_text actor ''system:verification''"
  let ?r = "row\<lparr>v_state := VERIFYING, v_state_changed_at := now, v_state_changed_by := Some ?by,
     v_verification_job_id := Some job_id, v_last_verified_at := Some now, v_updated_at := now\<rparr>"
  have "wf_row ?r" by (rule wf_row_moved [OF wf]) (use fixing in simp_all)
  then have "sound_outcome row (?r, [record_event ?r k' now (Some (v_state row)) (Some (v_state ?r)) a n dt], [])"
    for k' a n dt
    by (rule sound_move) (simp_all add: fixing same_finding_def)
  then have "sound_outcome row (receipt_row now job_id actor row)"
    by (simp add: receipt_row_def Let_def)
  then show ?thesis unfolding d' receipt_row_def Let_def by (rule commit_row_inv [OF assms(1) got])
qed

section \<open>Runs\<close>

lemma sound_trans:
  assumes "sound_outcome row (row1, evs1, au1)" "sound_outcome row1 (row2, evs2, au2)"
  shows "sound_outcome row (row2, evs1 @ evs2, au)"
  using assms by (auto simp: sound_outcome_def same_finding_def follow_append)

lemma sound_silent:
  assumes "wf_row row'" "same_finding row row'" "v_state row' = v_state row"
  shows "sound_outcome row (row', [], au)"
  using assms by (simp add: sound_outcome_def)

lemma weigh_sound:
  assumes "wf_row row" "weigh_fp_verdict now row latest detail = (outcome, row', evs)"
  shows "sound_outcome row (row', evs, au)"
proof (rule weigh_fp_verdict_cases [where row = row and now = now and latest = latest and detail = detail], goal_cases none overridden held)
  case none
  then show ?thesis using assms by (simp add: sound_unchanged)
next
  case (overridden ev)
  then show ?thesis using assms by (simp add: sound_outcome_def same_finding_def event_fits_def)
next
  case (held evs')
  let ?r = "row\<lparr>v_fp := (v_fp row)\<lparr>fp_observations := fp_observations (v_fp row) + 1\<rparr>\<rparr>"
  have "wf_verdict ?r"
    using assms(1) fp_suppressedD [OF held(1)] by (simp add: wf_row_def wf_verdict_def)
  moreover have "wf_lifecycle ?r"
    using assms(1) unfolding wf_row_def wf_lifecycle_def by (elim conjE) (intro conjI; simp)
  moreover have "wf_acceptance ?r" using assms(1) by (simp add: wf_row_def wf_acceptance_def)
  ultimately have wf: "wf_row ?r" by (simp add: wf_row_def)
  have eqs: "row' = ?r" "evs = evs'" using held(3) assms(2) by simp_all
  have "follow (v_state row) evs' = Some (v_state row)"
    using held(4,5) by (cases evs') (auto simp: event_fits_def)
  then show ?thesis
    using wf held(5) unfolding eqs by (simp add: sound_outcome_def same_finding_def)
qed

lemma regressed_sound:
  assumes "wf_row row" "v_state row = CLOSED" "regressed_row now run_id outcome n source row = (row', ev)"
  shows "sound_outcome row (row', [ev], au)"
proof -
  define row3 where "row3 = (if continue_clock now n row
     then row\<lparr>v_state := OPEN, v_state_changed_at := now, v_state_changed_by := None, v_closed_at := None,
       v_machine_verified := False, v_reopen_count := v_reopen_count row + 1\<rparr>
     else row\<lparr>v_state := OPEN, v_state_changed_at := now, v_state_changed_by := None, v_closed_at := None,
       v_machine_verified := False, v_sla_started_at := now, v_due_at := Some (now + days n),
       v_sla_days := Some n, v_sla_source := Some source, v_reopen_count := v_reopen_count row + 1\<rparr>)"
  note wf = wf_rowD [OF assms(1)]
  have row3: "v_state row3 = OPEN" "v_closed_at row3 = None" "\<not> v_machine_verified row3"
    "v_due_at row3 \<noteq> None" "v_closure_reason row3 = v_closure_reason row" "v_fp row3 = v_fp row"
    "v_exception row3 = v_exception row" "v_source row3 = v_source row" "same_finding row row3"
    using wf(8) by (simp_all add: row3_def same_finding_def)
  obtain row4 dropped where drop: "drop_fp_verdict_on_reopen row3 = (row4, dropped)" by fastforce
  have row4: "row4 = row3\<lparr>v_fp := no_fp\<rparr>"
    by (rule drop_fp_verdict_clean [OF drop]) (use wf(2) row3 in \<open>simp add: wf_verdict_def split: if_splits\<close>)
  obtain dt where out: "row' = row4\<lparr>v_closure_reason := None\<rparr>"
    "ev = record_event row' Reopened now (Some (v_state row)) (Some OPEN) None
       (Some ''Re-observed after being closed'') dt"
    using assms(3) drop by (auto simp: regressed_row_def row3_def Let_def split: if_splits)
  have "wf_row row'"
    by (rule wf_row_reopened) (use wf(4,6) assms(2) row3 in \<open>simp_all add: out(1) row4\<close>)
  moreover have "same_finding row row'" using row3 by (simp add: out(1) row4 same_finding_def)
  ultimately have "sound_outcome row (row', [record_event row' Reopened now (Some (v_state row))
      (Some (v_state row')) None (Some ''Re-observed after being closed'') dt], au)"
    by (rule sound_move) (simp add: out(1) row4 row3 assms(2))
  then show ?thesis unfolding out(2) by (simp add: out(1) row4 row3)
qed

lemma seen_again_sound:
  assumes "wf_row row" "seen_again now run_id d er ob a re outcome row = Ok (row', evs)"
  shows "sound_outcome row (row', evs, au)"
proof -
  define row1 where "row1 = row\<lparr>v_assessment := ob_latest ob\<rparr>"
  define row2 where "row2 = (if re then row1
     else row1\<lparr>v_last_seen_at := now, v_last_seen_run_id := Some run_id,
            v_detectors := merge_detectors (v_detectors row1) (ob_detectors ob),
            v_finding_evidence := er_merge er (v_finding_evidence row1) (ob_evidence ob),
            v_observation_count := v_observation_count row1 + 1\<rparr>)"
  define row3 where "row3 = row2\<lparr>v_updated_at := now\<rparr>"
  define row4 where "row4 = (if v_source row3 = ''retro_match''
     then row3\<lparr>v_source := ''scan'', v_match_confidence := None\<rparr> else row3)"
  have frame: "v_state row4 = v_state row" "same_finding row row4" "wf_row row4"
  proof -
    show "v_state row4 = v_state row" "same_finding row row4"
      by (simp_all add: row4_def row3_def row2_def row1_def same_finding_def)
    show "wf_row row4"
      by (rule wf_row_same [OF assms(1)])
         (simp_all add: row4_def row3_def row2_def row1_def SOFTWARE_SOURCE_def)
  qed
  have silent: "sound_outcome row (row4, [], [])" by (rule sound_silent) (simp_all add: frame)
  have body: "(if outcome = Fp_held then Ok (row4, [])
         else if v_state row4 = CLOSED
         then bindE (resolve_sla_days d (v_tenant_id row4) (as_severity (ob_latest ob))
                       (at_asset_criticality a)) (\<lambda>(n, source).
                case regressed_row now run_id outcome n source row4 of (row5, ev) \<Rightarrow> Ok (row5, [ev]))
         else Ok (row4, [record_event row4 Observed now None (Some (v_state row4)) None None
                    [(''run_id'', JStr run_id), (''severity'', JStr (as_severity (ob_latest ob)))]]))
       = Ok (row', evs)"
    using assms(2) unfolding seen_again_def Let_def row4_def row3_def row2_def row1_def .
  consider "outcome = Fp_held" | "outcome \<noteq> Fp_held" "v_state row4 = CLOSED"
    | "outcome \<noteq> Fp_held" "v_state row4 \<noteq> CLOSED" by blast
  then show ?thesis
  proof cases
    case 1
    with body silent show ?thesis by (auto simp: sound_outcome_def)
  next
    case 2
    with body obtain n source ev where "regressed_row now run_id outcome n source row4 = (row', ev)" "evs = [ev]"
      by (simp add: bindE_Ok_iff case_prod_beta) (metis prod.collapse)
    with sound_trans [OF silent regressed_sound [OF frame(3) 2(2)], of now run_id outcome n source row' ev]
    show ?thesis by (simp add: sound_outcome_def)
  next
    case 3
    with body have eqs: "row' = row4" "evs = [record_event row4 Observed now None (Some (v_state row4)) None None
        [(''run_id'', JStr run_id), (''severity'', JStr (as_severity (ob_latest ob)))]]"
      by auto
    show ?thesis unfolding eqs by (rule sound_same_state) (simp_all add: frame)
  qed
qed

lemma sound_swap_row:
  assumes "sound_outcome row (row1, evs, au)" "wf_row row'" "same_finding row1 row'" "v_state row' = v_state row1"
  shows "sound_outcome row (row', evs, au')"
  using assms by (auto simp: sound_outcome_def same_finding_def)

lemma observe_sound:
  assumes "wf_row row" "observe_row now run_id d er ob a row = Ok out"
  shows "sound_outcome row out"
proof -
  let ?distinct = "truthy_text (ob_execution ob) \<and> ob_execution ob \<noteq> execution_id_of (v_assessment row)"
  define replay where "replay = is_replay er run_id ?distinct ob row"
  define refresh where "refresh \<longleftrightarrow> replay \<and> ?distinct \<and> v_last_seen_run_id row = Some run_id \<and>
     er_current_cohort er (v_finding_evidence row) (ob_evidence ob) run_id"
  define re where "re \<longleftrightarrow> refresh \<and> fp_suppressed row now \<and> fp_escalations row (ob_latest ob) \<noteq> []"
  let ?detail = "[(''run_id'', JStr run_id), (''severity'', JStr (as_severity (ob_latest ob)))]"
  obtain outcome0 row0 evs0 where w0:
    "(if re then weigh_fp_verdict now row (ob_latest ob) (?detail @ [(''replay'', JBool True)])
      else (Fp_none, row, [])) = (outcome0, row0, evs0)" by (metis prod_cases3)
  have s0: "sound_outcome row (row0, evs0, [])"
    using w0 weigh_sound [OF assms(1)] sound_unchanged [OF assms(1)] by (auto split: if_splits)
  define row1 where "row1 = (if refresh \<and> \<not> re then row0\<lparr>v_assessment := ob_latest ob, v_updated_at := now\<rparr> else row0)"
  define row2 where "row2 = (if replay
     then row1\<lparr>v_finding_evidence := er_merge er (v_finding_evidence row1) (ob_evidence ob)\<rparr> else row1)"
  have wf0: "wf_row row0" using s0 by (simp add: sound_outcome_def)
  have wf2: "wf_row row2" "same_finding row0 row2" "v_state row2 = v_state row0"
    by (auto simp: row2_def row1_def same_finding_def intro: wf_row_same [OF wf0] wf0)
  have s2: "sound_outcome row (row2, evs0, [])" by (rule sound_swap_row [OF s0 wf2])
  have body: "(if replay \<and> \<not> re then Ok (row2, evs0, [])
    else if er_disposition er (v_finding_evidence row) (ob_evidence ob) = ''historical''
    then let row3 = row2\<lparr>v_finding_evidence := er_merge er (v_finding_evidence row2) (ob_evidence ob),
                        v_detectors := merge_detectors (ob_detectors ob) (v_detectors row2),
                        v_observation_count := v_observation_count row2 + 1, v_updated_at := now\<rparr>
         in Ok (row3, evs0 @ [record_event row3 Observed now None None None None
                       [(''run_id'', JStr run_id), (''historical'', JBool True)]], [])
    else let (outcome, row3, evs1) = (if re then (outcome0, row2, [])
                  else weigh_fp_verdict now row2 (ob_latest ob) ?detail)
         in bindE (seen_again now run_id d er ob a re outcome row3) (\<lambda>(row4, evs2).
                Ok (row4, evs0 @ evs1 @ evs2, []))) = Ok out"
    using assms(2) w0 unfolding observe_row_def Let_def re_def refresh_def replay_def row2_def row1_def
    by (simp only: case_prod_conv)
  consider "replay \<and> \<not> re"
    | "\<not> (replay \<and> \<not> re)" "er_disposition er (v_finding_evidence row) (ob_evidence ob) = ''historical''"
    | "\<not> (replay \<and> \<not> re)" "er_disposition er (v_finding_evidence row) (ob_evidence ob) \<noteq> ''historical''"
    by blast
  then show ?thesis
  proof cases
    case 1
    with body s2 show ?thesis by auto
  next
    case 2
    define row3 where "row3 = row2\<lparr>v_finding_evidence := er_merge er (v_finding_evidence row2) (ob_evidence ob),
       v_detectors := merge_detectors (ob_detectors ob) (v_detectors row2),
       v_observation_count := v_observation_count row2 + 1, v_updated_at := now\<rparr>"
    from 2 body have out: "out = (row3, evs0 @ [record_event row3 Observed now None None None None
        [(''run_id'', JStr run_id), (''historical'', JBool True)]], [])"
      by (auto simp: Let_def row3_def)
    have "wf_row row3" by (rule wf_row_same [OF wf2(1)]) (simp_all add: row3_def)
    then have "sound_outcome row2 (row3, [record_event row3 Observed now None None None None
        [(''run_id'', JStr run_id), (''historical'', JBool True)]], [])"
      by (simp add: sound_outcome_def same_finding_def row3_def)
    from sound_trans [OF s2 this] show ?thesis unfolding out .
  next
    case 3
    obtain outcome row3 evs1 where w: "(if re then (outcome0, row2, [])
        else weigh_fp_verdict now row2 (ob_latest ob) ?detail) = (outcome, row3, evs1)"
      by (metis prod_cases3)
    have s3: "sound_outcome row2 (row3, evs1, [])"
      using w weigh_sound [OF wf2(1)] sound_unchanged [OF wf2(1)] by (auto split: if_splits)
    then have wf3: "wf_row row3" by (simp add: sound_outcome_def)
    from 3 body w obtain row4 evs2 where
      seen: "seen_again now run_id d er ob a re outcome row3 = Ok (row4, evs2)"
      and out: "out = (row4, evs0 @ evs1 @ evs2, [])"
      by (auto simp: bindE_Ok_iff)
    from sound_trans [OF s2 sound_trans [OF s3 seen_again_sound [OF wf3 seen]]]
    show ?thesis unfolding out .
  qed
qed

interpretation observation: row_operation "observe_row now run_id d er ob a" for now run_id d er ob a
  by unfold_locales (rule observe_sound)

text \<open>A created finding: a fresh id, an identity nobody holds, one event.\<close>

lemma insert_inv:
  assumes inv: "vuln_inv d" and "v_vuln_id row \<notin> known_ids d"
    and "finding_identity row \<notin> finding_identity ` set (vd_rows d)"
    and "wf_row row" "v_state row = OPEN"
  shows "vuln_inv (insert_vuln d row [record_event row k t None (Some OPEN) a n dt])"
proof
  let ?ev = "record_event row k t None (Some OPEN) a n dt"
  let ?d = "insert_vuln d row [?ev]"
  note inv = vuln_invD [OF inv]
  show "wf_vulns ?d" using inv(1) assms(2) by (auto simp: wf_vulns_def insert_vuln_def known_ids_def)
  show "distinct (map finding_identity (vd_rows ?d))" using inv(2) assms(3) by (auto simp: insert_vuln_def)
  have old: "trail d (v_vuln_id row) = []"
    using inv(5) assms(2) unfolding trail_def filter_empty_conv by metis
  have trail: "trail ?d k = trail d k @ (if k = v_vuln_id row then [?ev] else [])" for k
    by (simp add: trail_def insert_vuln_def)
  fix x assume "x \<in> set (vd_rows ?d)"
  then have "x = row \<or> x \<in> set (vd_rows d)" by (auto simp: insert_vuln_def)
  then consider "x = row" | "x \<in> set (vd_rows d)" "v_vuln_id x \<noteq> v_vuln_id row"
    using assms(2) unfolding known_ids_def by (metis imageI)
  then have "wf_row x \<and> follow OPEN (trail ?d (v_vuln_id x)) = Some (v_state x)"
  proof cases
    case 1
    then show ?thesis using assms(4,5) by (simp add: trail old)
  next
    case 2
    then show ?thesis using inv(3,4) [OF 2(1)] by (simp add: trail)
  qed
  then show "wf_row x" "follow OPEN (trail ?d (v_vuln_id x)) = Some (v_state x)" by simp_all
next
  fix ev assume "ev \<in> set (vd_events (insert_vuln d row [record_event row k t None (Some OPEN) a n dt]))"
  then show "ev_vuln_id ev \<in> known_ids (insert_vuln d row [record_event row k t None (Some OPEN) a n dt])"
    using vuln_invD(5) [OF inv] by (auto simp: insert_vuln_def known_ids_def)
qed

lemma wf_new_vulnerability: "wf_row (new_vulnerability now t run_id ob a n source)"
  by (rule wf_row_reopened) (simp_all add: new_vulnerability_def)

lemma wf_new_software_finding: "wf_row (new_software_finding now at t ob a n source)"
  by (rule wf_row_reopened) (simp_all add: new_software_finding_def)

lemma find_finding_Some: "find_finding d t key = Some row \<Longrightarrow> row \<in> set (vd_rows d)"
  unfolding find_finding_def using find_SomeD by fast

lemma find_finding_None:
  "find_finding d t key = None \<Longrightarrow> (t, key) \<notin> finding_identity ` set (vd_rows d)"
  by (auto simp: find_finding_def find_None_iff finding_identity_def)

lemma known_ids_commit: "known_ids (commit_row d (row, evs, au)) = known_ids d"
  unfolding known_ids_def by (simp add: commit_row_def put_vuln_def) (metis image_set map_key_row_put)

lemma observe_one_inv:
  assumes inv: "vuln_inv d" and "observe_one now t run_id er d ob = Ok d'" "ob_new_id ob \<notin> known_ids d"
  shows "vuln_inv d' \<and> known_ids d' \<subseteq> insert (ob_new_id ob) (known_ids d)"
proof (cases "d' = d")
  case True
  with inv show ?thesis by auto
next
  case False
  with assms(2) obtain a where a: "ob_asset ob = Some a"
    and named: "\<not> (clean_text (ob_cve ob) = None \<and> clean_text (ob_script_id ob) = None)"
    by (auto simp: observe_one_def split: option.splits if_splits)
  show ?thesis
  proof (cases "find_finding d t (ob_finding_key ob)")
    case None
    with assms(2) a named obtain n source dt where
      d': "d' = insert_vuln d (new_vulnerability now t run_id ob a n source)
        [record_event (new_vulnerability now t run_id ob a n source) Observed now None (Some OPEN) None None dt]"
      by (auto simp: observe_one_def bindE_Ok_iff Let_def split: prod.splits if_splits)
    have "vuln_inv d'" unfolding d'
      by (rule insert_inv [OF inv])
         (use assms(3) find_finding_None [OF None] in
            \<open>simp_all add: wf_new_vulnerability\<close>, simp_all add: new_vulnerability_def finding_identity_def)
    moreover have "known_ids d' \<subseteq> insert (ob_new_id ob) (known_ids d)"
      by (auto simp: d' known_ids_def insert_vuln_def new_vulnerability_def)
    ultimately show ?thesis ..
  next
    case (Some row)
    with assms(2) a named obtain row' evs au where obs: "observe_row now run_id d er ob a row = Ok (row', evs, au)"
      and d': "d' = commit_row d (row', evs, au)"
      by (auto simp: observe_one_def bindE_Ok_iff split: if_splits)
    have mem: "row \<in> set (vd_rows d)" by (rule find_finding_Some [OF Some])
    then have got: "get_vuln d (v_vuln_id row) = Some row" by (simp add: get_vuln_iff [OF vuln_invD(1) [OF inv]])
    have "sound_outcome row (row', evs, au)"
      by (rule observe_sound [OF vuln_invD(3) [OF inv mem] obs])
    then show ?thesis unfolding d' by (auto simp: known_ids_commit intro: commit_row_inv [OF inv got])
  qed
qed

lemma observe_all_inv:
  assumes "vuln_inv d" "observe_all now t run_id er d obs = Ok d'"
    and "distinct (map ob_new_id obs)" "\<And>ob. ob \<in> set obs \<Longrightarrow> ob_new_id ob \<notin> known_ids d"
  shows "vuln_inv d'"
  using assms
proof (induction obs arbitrary: d)
  case (Cons ob obs)
  from Cons.prems(2) obtain d1 where d1: "observe_one now t run_id er d ob = Ok d1"
    and rest: "observe_all now t run_id er d1 obs = Ok d'" by (auto simp: bindE_Ok_iff)
  have one: "vuln_inv d1 \<and> known_ids d1 \<subseteq> insert (ob_new_id ob) (known_ids d)"
    by (rule observe_one_inv [OF Cons.prems(1) d1]) (simp add: Cons.prems(4))
  show ?case
  proof (rule Cons.IH [OF _ rest])
    show "vuln_inv d1" using one by simp
    show "distinct (map ob_new_id obs)" using Cons.prems(3) by simp
    show "ob_new_id o' \<notin> known_ids d1" if "o' \<in> set obs" for o'
    proof -
      have "ob_new_id o' \<in> ob_new_id ` set obs" using that by simp
      with Cons.prems(3) have "ob_new_id o' \<noteq> ob_new_id ob" by auto
      moreover have "ob_new_id o' \<notin> known_ids d" using Cons.prems(4) that by simp
      ultimately show ?thesis using one by blast
    qed
  qed
qed simp

lemma first_pass_rows:
  "first_pass d p st = (d', fresh) \<Longrightarrow> vd_rows d' = vd_rows d \<and> vd_events d' = vd_events d"
  by (auto simp: first_pass_def split: option.splits if_splits)

lemma vuln_inv_frame:
  "vd_rows d' = vd_rows d \<Longrightarrow> vd_events d' = vd_events d \<Longrightarrow> vuln_inv d' = vuln_inv d"
  by (simp add: vuln_inv_def wf_vulns_def known_ids_def trail_def)

lemma register_inv:
  assumes inv: "vuln_inv d"
    and reg: "register_findings_from_run precise er now d t run_id pub present v ra obs = Ok d'"
    and ids: "distinct (map ob_new_id obs)" "\<And>ob. ob \<in> set obs \<Longrightarrow> ob_new_id ob \<notin> known_ids d"
  shows "vuln_inv d'"
proof -
  obtain d1 fresh where fp: "first_pass d pub ''findings'' = (d1, fresh)" by fastforce
  note same = first_pass_rows [OF fp]
  from reg fp consider "d' = d"
    | d2 where "observe_all now t run_id er d1 obs = Ok d2" "d' = close_awaiting precise now t run_id v ra d2"
    by (auto simp: register_findings_from_run_def bindE_Ok_iff split: if_splits)
  then show ?thesis
  proof cases
    case 1
    with inv show ?thesis by simp
  next
    case 2
    have "vuln_inv d1" using inv vuln_inv_frame same by blast
    then have "vuln_inv d2"
      by (rule observe_all_inv [OF _ 2(1) ids(1)]) (use ids(2) same in \<open>simp add: known_ids_def\<close>)
    then show ?thesis unfolding 2(2) by (rule close_awaiting_inv)
  qed
qed

end
