(* ===== verification/Vuln_Plan.thy ===== *)
theory Vuln_Plan
  imports Vuln_Verification
begin

text \<open>
  The re-scan of one finding, \<^verbatim>\<open>_verification_plan\<close> and the first half of
  \<^verbatim>\<open>_trigger_verification_claimed\<close> in \<^verbatim>\<open>api/services/vulnerabilities.py\<close>: what it is sent to
  look at, from which sensor group, and the key that ties the job to the finding as it was
  then. Arguments: \<open>exact\<close> is \<^verbatim>\<open>validate_target\<close> on the finding's exact HTTP subject, \<open>h\<close> the
  hexadecimal SHA-256 of a JSON document.
\<close>

section \<open>The plan\<close>

definition MAX_NUCLEI_TEMPLATE_IDS :: nat where "MAX_NUCLEI_TEMPLATE_IDS = 64"

text \<open>\<open>NUCLEI_TEMPLATE_ID_RE\<close>: a hyphen nowhere in front, at most 200 characters.\<close>

definition template_id :: "string \<Rightarrow> bool" where
  "template_id s =
     (case s of [] \<Rightarrow> False
      | c # cs \<Rightarrow> issue_char c \<and> c \<noteq> CHR ''-'' \<and> list_all issue_char cs \<and> length cs \<le> 199)"

text \<open>The tracker's own reading of an address: brackets around it do not matter.\<close>

definition plan_is_ip :: "string \<Rightarrow> bool" where
  "plan_is_ip v = is_ip (strip_brackets (strip v))"

record VerificationPlan =
  vp_ips :: "string list"
  vp_names :: "string list"
  vp_template_ids :: "string list"
  vp_nse :: bool
  vp_from_detectors :: bool
  vp_agent_group :: "string option"
  vp_exact_targets :: "json list"

definition sorted_set :: "string list \<Rightarrow> string list" where
  "sorted_set xs = sort (remdups xs)"

definition plan_hosts :: "string list \<Rightarrow> vulnerability \<Rightarrow> json list \<Rightarrow> string list" where
  "plan_hosts addresses row exact_targets =
     (let ds = v_detectors row;
          own = map (\<lambda>e. strip (or_else (d_host e) [])) (filter (\<lambda>e. truthy_text (d_host e)) ds);
          ips = filter plan_is_ip addresses;
          extra = (if ds = [] \<or> list_ex (\<lambda>e. \<not> truthy_text (d_host e)) ds
                   then (if ips \<noteq> [] then ips else addresses) else []);
          target = (case exact_targets of [] \<Rightarrow> [] | t # _ \<Rightarrow> [py_str (jget (jget t ''subject'') ''host'')])
      in own @ extra @ target)"

definition nuclei_refs :: "detector list \<Rightarrow> string list" where
  "nuclei_refs ds =
     sorted_set (filter (\<lambda>r. r \<noteq> [])
       (map (\<lambda>e. strip (or_else (d_ref e) [])) (filter (\<lambda>e. d_detector e = NUCLEI) ds)))"

definition exact_targets_of :: "(json \<Rightarrow> json option) \<Rightarrow> vulnerability \<Rightarrow> vuln_error + json list" where
  "exact_targets_of exact row =
     (if as_non_cve (v_assessment row) \<noteq> JNull \<and> \<not> truthy_text (v_cve row)
      then (case exact (as_non_cve (v_assessment row)) of
              None \<Rightarrow> Err (DispatchRefused ''no reproducible exact HTTP subject'')
            | Some t \<Rightarrow> Ok [t])
      else Ok [])"

definition verification_plan ::
  "(json \<Rightarrow> json option) \<Rightarrow> vuln_db \<Rightarrow> vulnerability \<Rightarrow> vuln_error + VerificationPlan" where
  "verification_plan exact d row =
     bindE (exact_targets_of exact row) (\<lambda>targets.
       let ds = v_detectors row; hosts = plan_hosts (asset_hosts d row) row targets;
           refs = nuclei_refs ds;
           nse = list_ex (\<lambda>e. d_detector e = NMAP_NSE) ds
       in if hosts = [] then Err (DispatchRefused ''has no scannable address on record'')
          else if \<not> list_all template_id refs \<or> length refs > MAX_NUCLEI_TEMPLATE_IDS
          then Err (DispatchRefused ''nuclei templates a sensor cannot be asked to load by id'')
          else if nse \<and> \<not> list_ex (\<lambda>e. d_detector e \<in> {PULSE, NUCLEI, PULSE_PLUGIN}) ds
          then Err (DispatchRefused ''was found only by an Nmap NSE script'')
          else Ok \<lparr>vp_ips = sorted_set (filter plan_is_ip hosts),
                   vp_names = sorted_set (filter (\<lambda>h. \<not> plan_is_ip h) hosts),
                   vp_template_ids = refs, vp_nse = nse,
                   vp_from_detectors = (ds \<noteq> [] \<and> list_all (\<lambda>e. truthy_text (d_host e)) ds),
                   vp_agent_group = (case filter (\<lambda>e. truthy_text (d_agent_group e)) ds of
                                       [] \<Rightarrow> None | e # _ \<Rightarrow> d_agent_group e),
                   vp_exact_targets = targets\<rparr>)"

definition overlay_version :: "VerificationPlan \<Rightarrow> int" where
  "overlay_version plan = (if vp_exact_targets plan \<noteq> [] then 3 else 2)"

definition config_extra :: "VerificationPlan \<Rightarrow> json" where
  "config_extra plan = JObj ((''reachability'', JObj [(''enabled'', JBool True)]) #
     (if vp_template_ids plan = [] then []
      else [(''nuclei'', JObj ([(''enabled'', JBool True),
               (''template_ids'', JArr (map JStr (vp_template_ids plan)))] @
             (if vp_exact_targets plan = [] then []
              else [(''verification_targets'', JArr (vp_exact_targets plan))])))]))"

section \<open>The identity of a dispatch\<close>

definition plan_document :: "VerificationPlan \<Rightarrow> json" where
  "plan_document plan = JObj
     [(''ips'', JArr (map JStr (vp_ips plan))), (''names'', JArr (map JStr (vp_names plan))),
      (''template_ids'', JArr (map JStr (vp_template_ids plan))), (''nse'', JBool (vp_nse plan)),
      (''from_detectors'', JBool (vp_from_detectors plan)),
      (''agent_group'', jtext (vp_agent_group plan)), (''exact_targets'', JArr (vp_exact_targets plan))]"

definition digest_document :: "vulnerability \<Rightarrow> VerificationPlan \<Rightarrow> json" where
  "digest_document row plan = JObj
     [(''vuln_id'', JStr (v_vuln_id row)), (''port'', jtext (v_port row)),
      (''source'', JStr (v_source row)), (''state'', JStr (v_state row)),
      (''plan'', plan_document plan)]"

definition verification_plan_digest ::
  "(json \<Rightarrow> string) \<Rightarrow> vulnerability \<Rightarrow> VerificationPlan \<Rightarrow> string" where
  "verification_plan_digest h row plan = h (digest_document row plan)"

definition intent_document ::
  "(json \<Rightarrow> string) \<Rightarrow> vulnerability \<Rightarrow> VerificationPlan \<Rightarrow> json" where
  "intent_document h row plan = JObj
     [(''tenant_id'', JStr (v_tenant_id row)), (''vuln_id'', JStr (v_vuln_id row)),
      (''state_changed_at'', JInt (v_state_changed_at row)),
      (''previous_job_id'', jtext (v_verification_job_id row)),
      (''plan_sha256'', JStr (verification_plan_digest h row plan))]"

definition verification_intent_key ::
  "(json \<Rightarrow> string) \<Rightarrow> vulnerability \<Rightarrow> VerificationPlan \<Rightarrow> string" where
  "verification_intent_key h row plan = ''verification:'' @ h (intent_document h row plan)"

text \<open>
  The key the receipt compares: of the finding as it is now and the plan it has now. A finding
  without a plan has none (the dispatch error of the plan leaves the receipt).
\<close>

definition current_key ::
  "(json \<Rightarrow> string) \<Rightarrow> (json \<Rightarrow> json option) \<Rightarrow> vuln_db \<Rightarrow> vulnerability \<Rightarrow> string" where
  "current_key h exact d row =
     (case verification_plan exact d row of Err _ \<Rightarrow> [] | Ok plan \<Rightarrow> verification_intent_key h row plan)"

section \<open>From which sensors\<close>

definition GROUP_DELETED :: string where "GROUP_DELETED = ''group_deleted''"
definition NO_LIVE_SENSOR_FOR :: string where "NO_LIVE_SENSOR_FOR = ''no_live_sensor_for_''"

definition duration :: "int \<Rightarrow> string" where
  "duration seconds0 =
     (let seconds = max 0 seconds0 in
      if seconds \<ge> 86400 then str_int (seconds div 86400) @ ''d''
      else if seconds \<ge> 3600 then str_int (seconds div 3600) @ ''h''
      else if seconds \<ge> 60 then str_int (seconds div 60) @ ''m'' else str_int seconds @ ''s'')"

text \<open>
  What the dispatch asks the installation: whether scans may start, whether sensors run them,
  the live sensors of a group and when it was last heard of (in seconds), the group a request
  resolves to, and the capabilities of the sensors that would be offered the job.
\<close>

record dispatch_env =
  de_allow_scan_start :: bool
  de_agent_mode :: bool
  de_live_group :: "string \<Rightarrow> bool"
  de_silent_seconds :: "string \<Rightarrow> int option"
  de_grace_seconds :: int
  de_resolve_group :: "string option \<Rightarrow> string option \<Rightarrow> string option \<Rightarrow> string + string option"
  de_sensors :: "string option \<Rightarrow> string list list"

definition observing_group_gone ::
  "dispatch_env \<Rightarrow> string option \<Rightarrow> vuln_error + string option" where
  "observing_group_gone env grp =
     (if \<not> truthy_text grp then Ok None
      else
        let g = or_else grp [] in
        if de_live_group env g then Ok None
        else (case de_silent_seconds env g of
            None \<Rightarrow> Ok (Some GROUP_DELETED)
          | Some silent \<Rightarrow>
              if silent > de_grace_seconds env then Ok (Some (NO_LIVE_SENSOR_FOR @ duration silent))
              else Err (DispatchRefused ''The observing sensor group has no live sensor right now'')))"

record scan_order =
  vo_ranges :: "string option"
  vo_domains :: "string option"
  vo_ports :: "string option"
  vo_agent_group :: "string option"
  vo_config :: json
  vo_min_overlay :: int
  vo_verification_of :: string
  vo_key :: string
  vo_regrouped :: "string option"

definition lines_or_none :: "string list \<Rightarrow> string option" where
  "lines_or_none xs = nonblank (Some (join_with [CHR 0x0A] xs))"

definition required_capability :: "VerificationPlan \<Rightarrow> string" where
  "required_capability plan = ''config_overlay.v'' @ str_int (overlay_version plan)"

definition verification_order ::
  "dispatch_env \<Rightarrow> (json \<Rightarrow> string) \<Rightarrow> vulnerability \<Rightarrow> VerificationPlan \<Rightarrow>
   vuln_error + scan_order" where
  "verification_order env h row plan =
     (let ranges = lines_or_none (vp_ips plan); domains = lines_or_none (vp_names plan);
          order = (\<lambda>grp regrouped.
            \<lparr>vo_ranges = ranges, vo_domains = domains,
             vo_ports = nonblank (map_option strip (v_port row)), vo_agent_group = grp,
             vo_config = config_extra plan, vo_min_overlay = overlay_version plan,
             vo_verification_of = v_vuln_id row, vo_key = verification_intent_key h row plan,
             vo_regrouped = regrouped\<rparr>)
      in if \<not> de_agent_mode env then Ok (order (vp_agent_group plan) None)
         else bindE (observing_group_gone env (vp_agent_group plan)) (\<lambda>gone.
           let requested = (if truthy_text gone then None else vp_agent_group plan)
           in (case de_resolve_group env requested ranges domains of
                 Inl why \<Rightarrow> Err (DispatchRefused why)
               | Inr grp \<Rightarrow>
                   if \<not> list_ex (\<lambda>caps. required_capability plan \<in> set caps) (de_sensors env grp)
                   then Err (DispatchRefused ''No live sensor can run a verification re-scan'')
                   else Ok (order requested gone))))"

definition prepare_verification ::
  "dispatch_env \<Rightarrow> (json \<Rightarrow> string) \<Rightarrow> (json \<Rightarrow> json option) \<Rightarrow> vuln_db \<Rightarrow> string option \<Rightarrow> string \<Rightarrow>
   string option \<Rightarrow> vuln_error + scan_order option" where
  "prepare_verification env h exact d tenant_id vuln_id expected =
     (case load d tenant_id vuln_id of None \<Rightarrow> Ok None
      | Some row \<Rightarrow>
          bindE (dispatch_allowed row) (\<lambda>_.
          bindE (verification_plan exact d row) (\<lambda>plan.
            if expected \<noteq> None \<and> Some (verification_plan_digest h row plan) \<noteq> expected
            then Err (DispatchRefused ''Confirmed verification plan changed; prepare a new proposal'')
            else if \<not> de_allow_scan_start env
            then Err (DispatchRefused ''Scan dispatch is disabled on this server'')
            else bindE (verification_order env h row plan) (\<lambda>order. Ok (Some order)))))"

section \<open>Facts\<close>

lemma dispatch_allowed_fixing:
  "dispatch_allowed row = Ok () \<Longrightarrow> v_state row = FIXING \<and> v_source row \<noteq> ''endpoint_software''"
  by (auto simp: dispatch_allowed_def vuln_check_transition_def vuln_can_transition_def
      VULN_TRANSITIONS_def or_else_def vuln_state_defs split: if_splits option.splits)

lemma verification_order_key:
  assumes "verification_order env h row plan = Ok order"
  shows "vo_key order = verification_intent_key h row plan"
proof (cases "de_agent_mode env")
  case True
  with assms obtain gone where
    "(case de_resolve_group env (if truthy_text gone then None else vp_agent_group plan)
        (lines_or_none (vp_ips plan)) (lines_or_none (vp_names plan)) of
        Inl why \<Rightarrow> Err (DispatchRefused why)
      | Inr grp \<Rightarrow> if \<not> list_ex (\<lambda>caps. required_capability plan \<in> set caps) (de_sensors env grp)
          then Err (DispatchRefused ''No live sensor can run a verification re-scan'')
          else Ok \<lparr>vo_ranges = lines_or_none (vp_ips plan), vo_domains = lines_or_none (vp_names plan),
             vo_ports = nonblank (map_option strip (v_port row)),
             vo_agent_group = (if truthy_text gone then None else vp_agent_group plan),
             vo_config = config_extra plan, vo_min_overlay = overlay_version plan,
             vo_verification_of = v_vuln_id row, vo_key = verification_intent_key h row plan,
             vo_regrouped = gone\<rparr>) = Ok order"
    by (fastforce simp: verification_order_def Let_def bindE_Ok_iff)
  then show ?thesis by (auto split: sum.splits if_splits)
next
  case False
  with assms show ?thesis by (auto simp: verification_order_def Let_def)
qed

lemma prepare_SomeD:
  assumes "prepare_verification env h exact d t k expected = Ok (Some order)"
  obtains row plan where "load d t k = Some row" "v_state row = FIXING"
    "verification_plan exact d row = Ok plan" "vo_key order = verification_intent_key h row plan"
proof -
  from assms obtain row plan where "load d t k = Some row" "dispatch_allowed row = Ok ()"
    "verification_plan exact d row = Ok plan" "verification_order env h row plan = Ok order"
    by (auto simp: prepare_verification_def bindE_Ok_iff split: option.splits if_splits)
  then show thesis using that dispatch_allowed_fixing verification_order_key by blast
qed

text \<open>
  The hash is only relied on to tell apart the documents of the two keys compared: those of the
  finding when it was dispatched and of the finding when the receipt arrives.
\<close>

definition key_documents ::
  "(json \<Rightarrow> string) \<Rightarrow> (json \<Rightarrow> json option) \<Rightarrow> vuln_db \<Rightarrow> vulnerability \<Rightarrow> json set" where
  "key_documents h exact d row =
     (case verification_plan exact d row of Err _ \<Rightarrow> {}
      | Ok plan \<Rightarrow> {digest_document row plan, intent_document h row plan})"

definition keys_apart ::
  "(json \<Rightarrow> string) \<Rightarrow> (json \<Rightarrow> json option) \<Rightarrow> vuln_db \<Rightarrow> vulnerability \<Rightarrow> vuln_db \<Rightarrow> vulnerability \<Rightarrow> bool" where
  "keys_apart h exact d row d' row' \<longleftrightarrow> inj_on h (key_documents h exact d row \<union> key_documents h exact d' row')"

lemma keys_apart_inj: "inj h \<Longrightarrow> keys_apart h exact d row d' row'"
  unfolding keys_apart_def using inj_on_subset by blast

lemma jtext_inject: "jtext x = jtext y \<longleftrightarrow> x = y"
  by (auto simp: jtext_def split: option.splits)

lemma plan_document_inject: "plan_document p = plan_document q \<longleftrightarrow> p = q"
proof -
  have "inj JStr" by (rule injI) simp
  then have "map JStr xs = map JStr ys \<longleftrightarrow> xs = ys" for xs ys by (simp add: inj_map_eq_map)
  then show ?thesis by (cases p; cases q) (auto simp: plan_document_def jtext_inject)
qed

lemma current_key_injective:
  assumes "keys_apart h exact d row d' row'" "current_key h exact d row = current_key h exact d' row'"
    "current_key h exact d row \<noteq> []"
  shows "verification_plan exact d row = verification_plan exact d' row' \<and>
    v_state row = v_state row' \<and> v_state_changed_at row = v_state_changed_at row' \<and>
    v_tenant_id row = v_tenant_id row' \<and> v_vuln_id row = v_vuln_id row' \<and> v_source row = v_source row' \<and>
    v_port row = v_port row' \<and> v_verification_job_id row = v_verification_job_id row'"
proof -
  from assms(2,3) obtain plan plan' where plan: "verification_plan exact d row = Ok plan"
    "verification_plan exact d' row' = Ok plan'"
    and key: "h (intent_document h row plan) = h (intent_document h row' plan')"
    by (auto simp: current_key_def verification_intent_key_def split: sum.splits)
  have inj: "inj_on h {digest_document row plan, intent_document h row plan,
      digest_document row' plan', intent_document h row' plan'}"
    using assms(1) by (simp add: keys_apart_def key_documents_def plan insert_commute)
  have intent: "intent_document h row plan = intent_document h row' plan'"
    by (rule inj_onD [OF inj key]) simp_all
  then have "h (digest_document row plan) = h (digest_document row' plan')"
    by (simp add: intent_document_def verification_plan_digest_def)
  then have "digest_document row plan = digest_document row' plan'"
    by (rule inj_onD [OF inj]) simp_all
  with intent show ?thesis
    by (simp add: plan intent_document_def digest_document_def jtext_inject plan_document_inject)
qed

end
