(* ===== verification/Vuln_System.thy ===== *)
theory Vuln_System
  imports Vuln_Observers Vuln_Plan
begin

text \<open>
  The tracker as a whole: every operation of the modelled services as a step between
  databases, the states reachable from an empty tracker, and the invariant of all of them.
  The endpoint-software observer closes a finding without asking the state machine, so its
  rows need one fact more than \<open>row_operation\<close> has, that a tracked state is one of the six.
\<close>

section \<open>Rows whose state is known\<close>

lemma event_fits_known: "event_fits s ev = Some t \<Longrightarrow> s \<in> set VULN_ALL \<Longrightarrow> t \<in> set VULN_ALL"
  by (auto simp: event_fits_def vuln_can_transition_def VULN_TRANSITIONS_def VULN_ALL_def or_else_def
      split: option.splits if_splits)

lemma follow_known: "follow s evs = Some t \<Longrightarrow> s \<in> set VULN_ALL \<Longrightarrow> t \<in> set VULN_ALL"
  by (induction evs arbitrary: s) (auto split: option.splits dest: event_fits_known)

lemma OPEN_known: "OPEN \<in> set VULN_ALL"
  by (simp add: VULN_ALL_def VULN_TRANSITIONS_def)

lemma vuln_inv_state: "vuln_inv d \<Longrightarrow> row \<in> set (vd_rows d) \<Longrightarrow> v_state row \<in> set VULN_ALL"
  using vuln_invD(4) follow_known OPEN_known by blast

lemma known_closes: "s \<in> set VULN_ALL \<Longrightarrow> s \<noteq> CLOSED \<Longrightarrow> vuln_can_transition s CLOSED"
  by (auto simp: VULN_ALL_def VULN_TRANSITIONS_def vuln_can_transition_def or_else_def)

locale tracked_operation =
  fixes f :: "vulnerability \<Rightarrow> vuln_error + row_outcome"
  assumes sound_tracked:
    "wf_row row \<Longrightarrow> v_state row \<in> set VULN_ALL \<Longrightarrow> f row = Ok out \<Longrightarrow> sound_outcome row out"
begin

lemma tracked_inv:
  assumes "vuln_inv d" "on_row d t k f = Ok (d', res)"
  shows "vuln_inv d'"
  using assms(2)
proof (cases rule: on_row_cases)
  case absent
  with assms(1) show ?thesis by simp
next
  case (written row row' evs audits)
  have got: "get_vuln d (v_vuln_id row) = Some row"
    using written(1) by (auto simp: load_Some_iff dest: get_vuln_mem)
  then have mem: "row \<in> set (vd_rows d)" using get_vuln_mem by blast
  have "sound_outcome row (row', evs, audits)"
    by (rule sound_tracked [OF vuln_invD(3) [OF assms(1) mem] vuln_inv_state [OF assms(1) mem] written(2)])
  then show ?thesis unfolding written(3) by (rule commit_row_inv [OF assms(1) got])
qed

end

sublocale row_operation \<subseteq> tracked: tracked_operation f
  by unfold_locales (rule sound)

section \<open>The endpoint-software observer\<close>

lemma software_reopened_sound:
  assumes "wf_row row" "v_source row = SOFTWARE_SOURCE" "v_state row = CLOSED"
    "software_reopened now at outcome n source dt row = (row', ev)"
  shows "sound_outcome row (row', [ev], au)"
proof -
  note wf = wf_rowD [OF assms(1)]
  let ?row1 = "row\<lparr>v_state := OPEN, v_state_changed_at := now, v_state_changed_by := None,
     v_closed_at := None, v_machine_verified := False\<rparr>"
  obtain row2 dropped where drop: "drop_fp_verdict_on_reopen ?row1 = (row2, dropped)" by fastforce
  have row2: "row2 = ?row1\<lparr>v_fp := no_fp\<rparr>"
    by (rule drop_fp_verdict_clean [OF drop]) (use wf(2) in \<open>simp add: wf_verdict_def split: if_splits\<close>)
  define row3 where "row3 = row2\<lparr>v_closure_reason := None, v_sla_started_at := at,
     v_due_at := Some (at + days n), v_sla_days := Some n, v_sla_source := Some source,
     v_reopen_count := v_reopen_count row2 + 1\<rparr>"
  have wf3: "wf_row row3"
    by (rule wf_row_reopened) (use wf(4) assms(2) in \<open>simp_all add: row3_def row2\<close>)
  let ?dt = "dt @ (if dropped then (''after_fp_suppression'', JBool True) #
      (if outcome = Fp_overridden_now then [(''fp_overridden'', JBool True)] else []) else []) @
    [(''reopen_count'', JInt (v_reopen_count row3))]"
  have "software_reopened now at outcome n source dt row = (row3, record_event row3 Reopened now
      (Some (v_state row)) (Some OPEN) None (Some ''Matched again by a later inventory snapshot'') ?dt)"
    unfolding software_reopened_def Let_def drop case_prod_conv row3_def by simp
  moreover have "OPEN = v_state row3" by (simp add: row3_def row2)
  ultimately have row': "row' = row3" and ev: "ev = record_event row3 Reopened now (Some (v_state row))
      (Some (v_state row3)) None (Some ''Matched again by a later inventory snapshot'') ?dt"
    using assms(4) by simp_all
  show ?thesis unfolding row' ev
    by (rule sound_move [OF wf3]) (simp_all add: row3_def row2 same_finding_def assms(3))
qed

lemma software_reobserve_sound:
  assumes "wf_row row" "v_source row = SOFTWARE_SOURCE"
    "software_reobserve now at d latest a dt row = Ok out"
  shows "sound_outcome row out"
proof -
  let ?fresh = "at > v_last_seen_at row"
  obtain outcome row0 evs0 where w: "(if ?fresh then weigh_fp_verdict now row latest dt
      else (Fp_none, row, [])) = (outcome, row0, evs0)" by (metis prod_cases3)
  have s0: "sound_outcome row (row0, evs0, [])"
    using w weigh_sound [OF assms(1)] sound_unchanged [OF assms(1)] by (auto split: if_splits)
  have src: "v_source row0 = SOFTWARE_SOURCE"
  proof (cases ?fresh)
    case True
    then have "weigh_fp_verdict now row latest dt = (outcome, row0, evs0)" using w by simp
    then show ?thesis
      using assms(2) by (cases rule: weigh_fp_verdict_cases [of row now latest dt]) auto
  next
    case False
    then show ?thesis using w assms(2) by simp
  qed
  have wf0: "wf_row row0" using s0 by (simp add: sound_outcome_def)
  define row1 where "row1 = row0\<lparr>v_assessment := latest, v_updated_at := now\<rparr>"
  define row2 where "row2 = row1\<lparr>v_last_seen_at := at, v_observation_count := v_observation_count row1 + 1\<rparr>"
  have fr: "wf_row row1" "same_finding row0 row1" "v_state row1 = v_state row0"
    "wf_row row2" "same_finding row0 row2" "v_state row2 = v_state row0" "v_source row2 = SOFTWARE_SOURCE"
    by (auto simp: row2_def row1_def same_finding_def src intro: wf_row_same [OF wf0])
  have s1: "sound_outcome row (row1, evs0, [])" and s2: "sound_outcome row (row2, evs0, [])"
    by (rule sound_swap_row [OF s0], rule fr(1), rule fr(2), rule fr(3))
       (rule sound_swap_row [OF s0], rule fr(4), rule fr(5), rule fr(6))
  have body: "(if \<not> ?fresh then Ok (row1, evs0, [])
     else if outcome = Fp_held then Ok (row2, evs0, [])
     else if v_state row2 = CLOSED
     then bindE (resolve_sla_days d (v_tenant_id row2) (as_severity latest) (at_asset_criticality a))
       (\<lambda>(n, source). case software_reopened now at outcome n source dt row2 of
          (row3, ev) \<Rightarrow> Ok (row3, evs0 @ [ev], []))
     else Ok (row2, evs0 @ [record_event row2 Observed now None (Some (v_state row2)) None None dt], []))
     = Ok out"
    using assms(3) w unfolding software_reobserve_def Let_def row2_def row1_def
    by (simp only: case_prod_conv)
  consider "\<not> ?fresh" | "?fresh" "outcome = Fp_held" | "?fresh" "outcome \<noteq> Fp_held" "v_state row2 = CLOSED"
    | "?fresh" "outcome \<noteq> Fp_held" "v_state row2 \<noteq> CLOSED" by blast
  then show ?thesis
  proof cases
    case 1
    with body s1 show ?thesis by simp
  next
    case 2
    with body s2 show ?thesis by simp
  next
    case 3
    with body obtain n source row3 ev where "software_reopened now at outcome n source dt row2 = (row3, ev)"
      and out: "out = (row3, evs0 @ [ev], [])"
      by (simp add: bindE_Ok_iff case_prod_beta) (metis prod.collapse)
    then show ?thesis unfolding out
      using sound_trans [OF s2 software_reopened_sound [OF fr(4) fr(7) 3(3)]] by blast
  next
    case 4
    with body have out: "out = (row2, evs0 @ [record_event row2 Observed now None (Some (v_state row2)) None None dt], [])"
      by simp
    show ?thesis unfolding out
      by (rule sound_trans [OF s2 sound_same_state]) (simp_all add: fr same_finding_def)
  qed
qed

lemma software_close_sound:
  assumes "wf_row row" "v_state row \<in> set VULN_ALL" "v_source row = SOFTWARE_SOURCE"
    "software_close now at sv dt note' row = Ok out"
  shows "sound_outcome row out"
proof (cases "closure_possible at sv row")
  case False
  with assms show ?thesis by (auto simp: software_close_def intro: sound_unchanged)
next
  case True
  then have open': "v_state row \<noteq> CLOSED" by (simp add: closure_possible_def)
  note wf = wf_rowD [OF assms(1)]
  let ?row1 = "row\<lparr>v_state := CLOSED, v_state_changed_at := now,
     v_state_changed_by := Some ''system:inventory'', v_closed_at := Some now,
     v_last_verified_at := Some now, v_machine_verified := True,
     v_closure_reason := Some ''patched'', v_updated_at := now\<rparr>"
  let ?e = "v_exception row"
  define row2 where "row2 = (if ex_until ?e \<noteq> None
     then ?row1\<lparr>v_exception := ?e\<lparr>ex_until := None, ex_reason := None, ex_by := None\<rparr>\<rparr> else ?row1)"
  have fr: "v_state row2 = CLOSED" "v_closed_at row2 = Some now" "v_closure_reason row2 = Some ''patched''"
    "v_due_at row2 = v_due_at row" "v_fp row2 = v_fp row" "v_source row2 = SOFTWARE_SOURCE"
    "same_finding row row2"
    by (simp_all add: row2_def assms(3) same_finding_def)
  have "signed (v_exception row2)" using wf(4) by (simp add: row2_def signed_def)
  then have wf2: "wf_row row2"
    by (intro wf_row_closed [where c = "''patched''"])
       (use fr wf(8) wf_row_no_fp [OF assms(1) open'] in \<open>simp_all add: FALSE_POSITIVE_def\<close>)
  from True assms(4) obtain dt' where out: "out = (row2, [record_event row2 Verification_passed now
      (Some (v_state row)) (Some (v_state row2)) (Some ''system:inventory'') (Some note') dt'], [])"
    by (auto simp: software_close_def Let_def row2_def split: if_splits)
  show ?thesis unfolding out
    by (rule sound_move [OF wf2 fr(7)]) (simp add: fr known_closes [OF assms(2) open'])
qed

definition software_row :: "(vulnerability \<Rightarrow> vuln_error + row_outcome) \<Rightarrow> vulnerability \<Rightarrow> vuln_error + row_outcome" where
  "software_row f row = (if v_source row = SOFTWARE_SOURCE then f row else Ok (row, [], []))"

lemma on_software_row_eq: "on_software_row d t k f = on_row d (Some t) k (software_row f)"
proof -
  have "(\<lambda>row. if v_source row = SOFTWARE_SOURCE then f row else Ok (row, [], [])) = software_row f"
    by (rule ext) (simp add: software_row_def)
  then show ?thesis by (simp add: on_software_row_def)
qed

interpretation software_reobserve: row_operation "software_row (software_reobserve now at d latest a dt)"
  for now at d latest a dt
  by unfold_locales (auto simp: software_row_def intro: sound_unchanged software_reobserve_sound split: if_splits)

interpretation software_close: tracked_operation "software_row (software_close now at sv dt note')"
  for now at sv dt note'
  by unfold_locales (auto simp: software_row_def intro: sound_unchanged software_close_sound split: if_splits)

section \<open>Steps\<close>

text \<open>
  Every operation of the services, for whatever tenant, caller and clock; and the rest of the
  installation, which may change the jobs, assets, marks and policies but writes neither
  findings nor their events. The receipt of a verification belongs to an order prepared on
  an earlier database, and the hash tells the two keys' documents apart; a created finding gets
  an id nobody has.
\<close>

inductive vuln_step :: "vuln_db \<Rightarrow> vuln_db \<Rightarrow> bool" where
  request: "request_exception now d t k until why actor = Ok (d', res) \<Longrightarrow> vuln_step d d'"
| withdraw: "withdraw_exception_request now d t k actor why = Ok (d', res) \<Longrightarrow> vuln_step d d'"
| approve: "approve_exception now d t k actor' why = Ok (d', res) \<Longrightarrow> vuln_step d d'"
| reject: "reject_exception now d t k actor' why = Ok (d', res) \<Longrightarrow> vuln_step d d'"
| clear: "clear_exception now d t k actor why = Ok (d', res) \<Longrightarrow> vuln_step d d'"
| expire: "expire_exceptions now t limit d = (d', n) \<Longrightarrow> vuln_step d d'"
| mark: "mark_false_positive now d t k why n evidence actor = Ok (d', res) \<Longrightarrow> vuln_step d d'"
| unmark: "clear_false_positive now d t k actor why = Ok (d', res) \<Longrightarrow> vuln_step d d'"
| move: "transition now d t k s actor why = Ok (d', res) \<Longrightarrow> vuln_step d d'"
| assign: "assign now d t k who team actor why sent = Ok (d', res) \<Longrightarrow> vuln_step d d'"
| comment: "add_comment now d t k why actor = Ok (d', res) \<Longrightarrow> vuln_step d d'"
| link: "set_ticket repos http_url now d t k sys tkey url actor why b = Ok (d', res) \<Longrightarrow> vuln_step d d'"
| unlink: "clear_ticket now d t k actor = Ok (d', res) \<Longrightarrow> vuln_step d d'"
| sync: "apply_ticket_status now d t k r = Ok (d', res) \<Longrightarrow> vuln_step d d'"
| escalated: "escalate now d t' k who team b = (d', res') \<Longrightarrow> vuln_step d d'"
| receipt: "prepare_verification env h exact d0 t k expected = Ok (Some order) \<Longrightarrow>
    \<forall>row0 row. load d0 t k = Some row0 \<longrightarrow> load d (Some t') k = Some row \<longrightarrow>
      keys_apart h exact d row d0 row0 \<Longrightarrow>
    verification_receipt (current_key h exact) now d t' k job_id (vo_key order) actor = Ok (d', res) \<Longrightarrow>
    vuln_step d d'"
| release: "release_unfinished_verification now d t' job_id run status = (d', n') \<Longrightarrow> vuln_step d d'"
| run: "register_findings_from_run precise er now d t' run_id pub present v ra obs = Ok d' \<Longrightarrow>
    distinct (map ob_new_id obs) \<Longrightarrow> \<forall>ob\<in>set obs. ob_new_id ob \<notin> known_ids d \<Longrightarrow> vuln_step d d'"
| software_new: "software_create now at d t' ob a dt = Ok d' \<Longrightarrow>
    find_finding d t' (ob_finding_key ob) = None \<Longrightarrow> ob_new_id ob \<notin> known_ids d \<Longrightarrow> vuln_step d d'"
| software_again: "on_software_row d t' k (software_reobserve now at d latest a dt) = Ok (d', res) \<Longrightarrow>
    vuln_step d d'"
| software_gone: "on_software_row d t' k (software_close now at sv dt note') = Ok (d', res) \<Longrightarrow> vuln_step d d'"
| elsewhere: "vd_rows d' = vd_rows d \<Longrightarrow> vd_events d' = vd_events d \<Longrightarrow> vuln_step d d'"

definition empty_tracker :: vuln_db where
  "empty_tracker = \<lparr>vd_rows = [], vd_events = [], vd_policies = [], vd_escalations = [], vd_assets = [],
     vd_jobs = [], vd_audit = [], vd_marks = [], vd_verification_of = []\<rparr>"

definition tracker_reachable :: "vuln_db \<Rightarrow> bool" where
  "tracker_reachable d \<longleftrightarrow> vuln_step\<^sup>*\<^sup>* empty_tracker d"

section \<open>The invariant of every reachable tracker\<close>

lemma software_create_inv:
  assumes inv: "vuln_inv d" and new: "software_create now at d t ob a dt = Ok d'"
    and fresh: "find_finding d t (ob_finding_key ob) = None" "ob_new_id ob \<notin> known_ids d"
  shows "vuln_inv d'"
proof -
  from new obtain n source dt' where
    d': "d' = insert_vuln d (new_software_finding now at t ob a n source)
      [record_event (new_software_finding now at t ob a n source) Observed now None (Some OPEN) None None dt']"
    by (auto simp: software_create_def bindE_Ok_iff Let_def split: prod.splits)
  show ?thesis unfolding d'
    by (rule insert_inv [OF inv])
       (use fresh(2) find_finding_None [OF fresh(1)] in
          \<open>simp_all add: wf_new_software_finding\<close>, simp_all add: new_software_finding_def finding_identity_def)
qed

lemma dispatched_receipt_inv:
  assumes inv: "vuln_inv d"
    and order: "prepare_verification env h exact d0 t k expected = Ok (Some order)"
    and apart: "\<forall>row0 row. load d0 t k = Some row0 \<longrightarrow> load d (Some t') k = Some row \<longrightarrow>
      keys_apart h exact d row d0 row0"
    and "verification_receipt (current_key h exact) now d t' k job_id (vo_key order) actor = Ok (d', res)"
  shows "vuln_inv d'"
proof (rule receipt_inv [OF inv assms(4)])
  fix row assume row: "load d (Some t') k = Some row" and "current_key h exact d row = vo_key order"
  moreover obtain row0 plan where row0: "load d0 t k = Some row0" "v_state row0 = FIXING"
    "verification_plan exact d0 row0 = Ok plan" "vo_key order = verification_intent_key h row0 plan"
    by (rule prepare_SomeD [OF order])
  ultimately have "current_key h exact d row = current_key h exact d0 row0" "current_key h exact d row \<noteq> []"
    by (simp_all add: current_key_def verification_intent_key_def)
  moreover have "keys_apart h exact d row d0 row0" using apart row0(1) row by blast
  ultimately show "v_state row = FIXING"
    using current_key_injective \<open>v_state row0 = FIXING\<close> by metis
qed

lemma vuln_step_inv:
  assumes "vuln_step d d'" and inv: "vuln_inv d"
  shows "vuln_inv d'"
  using assms(1)
proof cases
  case request
  then show ?thesis by (auto simp: request_exception_def Let_def split: if_splits intro: request.on_row_inv [OF inv])
next
  case withdraw
  then show ?thesis unfolding withdraw_exception_request_def by (rule withdraw.on_row_inv [OF inv])
next
  case approve
  then show ?thesis unfolding approve_exception_def by (rule approve.on_row_inv [OF inv])
next
  case reject
  then show ?thesis unfolding reject_exception_def by (rule reject.on_row_inv [OF inv])
next
  case clear
  then show ?thesis unfolding clear_exception_def by (rule clear.on_row_inv [OF inv])
next
  case expire
  then show ?thesis by (rule expire_inv [OF inv])
next
  case mark
  then show ?thesis
    by (auto simp: mark_false_positive_def Let_def split: if_splits intro: mark.on_row_inv [OF inv])
next
  case unmark
  then show ?thesis unfolding clear_false_positive_def by (rule unmark.on_row_inv [OF inv])
next
  case move
  then show ?thesis unfolding transition_def by (rule transition.on_row_inv [OF inv])
next
  case assign
  then show ?thesis unfolding assign_def by (rule assign.on_row_inv [OF inv])
next
  case comment
  then show ?thesis by (auto simp: add_comment_def Let_def split: if_splits intro: comment.on_row_inv [OF inv])
next
  case link
  then show ?thesis by (auto simp: set_ticket_def Let_def split: if_splits intro: link.on_row_inv [OF inv])
next
  case unlink
  then show ?thesis unfolding clear_ticket_def by (rule unlink.on_row_inv [OF inv])
next
  case sync
  then show ?thesis unfolding apply_ticket_status_def by (rule ticket.on_row_inv [OF inv])
next
  case escalated
  then show ?thesis by (rule escalate_inv [OF inv])
next
  case receipt
  then show ?thesis by (rule dispatched_receipt_inv [OF inv])
next
  case release
  then show ?thesis by (rule release_inv [OF inv])
next
  case run
  then show ?thesis using register_inv [OF inv] by blast
next
  case software_new
  then show ?thesis by (rule software_create_inv [OF inv])
next
  case software_again
  then show ?thesis unfolding on_software_row_eq by (rule software_reobserve.on_row_inv [OF inv])
next
  case software_gone
  then show ?thesis unfolding on_software_row_eq by (rule software_close.tracked_inv [OF inv])
next
  case elsewhere
  then show ?thesis using inv vuln_inv_frame by blast
qed

lemma empty_tracker_inv: "vuln_inv empty_tracker"
  by (simp add: vuln_inv_def empty_tracker_def wf_vulns_def)

lemma steps_inv: "vuln_step\<^sup>*\<^sup>* d d' \<Longrightarrow> vuln_inv d \<Longrightarrow> vuln_inv d'"
  by (induction rule: rtranclp_induct) (auto intro: vuln_step_inv)

lemma tracker_reachable_inv: "tracker_reachable d \<Longrightarrow> vuln_inv d"
  unfolding tracker_reachable_def using empty_tracker_inv steps_inv by blast

end
