(* ===== verification/Vuln_Grants.thy ===== *)
theory Vuln_Grants
  imports Vuln_System
begin

text \<open>
  The two claims a finding can make for itself: that its risk was accepted until some day, and
  that a machine saw it fixed. Every operation but three makes neither (\<open>claims_nothing\<close>);
  the approval grants the window a second person asked for, and the closing loop of a
  verification run and of an inventory snapshot assert the fix.
\<close>

definition claims_nothing :: "vulnerability \<Rightarrow> vulnerability \<Rightarrow> bool" where
  "claims_nothing row row' \<longleftrightarrow> v_vuln_id row' = v_vuln_id row \<and>
     (ex_until (v_exception row') = None \<or> ex_until (v_exception row') = ex_until (v_exception row)) \<and>
     (v_machine_verified row' \<longrightarrow> v_machine_verified row)"

lemma claims_nothing_refl [simp]: "claims_nothing row row"
  by (simp add: claims_nothing_def)

lemma claims_nothing_trans: "claims_nothing r1 r2 \<Longrightarrow> claims_nothing r2 r3 \<Longrightarrow> claims_nothing r1 r3"
  by (auto simp: claims_nothing_def)

text \<open>The same of two databases: an old finding claims nothing new, a new one nothing at all.\<close>

definition tracker_claims_nothing :: "vuln_db \<Rightarrow> vuln_db \<Rightarrow> bool" where
  "tracker_claims_nothing d d' \<longleftrightarrow> (\<forall>k row'. get_vuln d' k = Some row' \<longrightarrow>
     (case get_vuln d k of
        None \<Rightarrow> ex_until (v_exception row') = None \<and> \<not> v_machine_verified row'
      | Some row \<Rightarrow> claims_nothing row row'))"

lemma tracker_claims_refl [simp]: "tracker_claims_nothing d d"
  by (simp add: tracker_claims_nothing_def)

lemma tracker_claims_new:
  "tracker_claims_nothing d d' \<Longrightarrow> get_vuln d' k = Some row' \<Longrightarrow> get_vuln d k = None \<Longrightarrow>
     ex_until (v_exception row') = None \<and> \<not> v_machine_verified row'"
  unfolding tracker_claims_nothing_def by (drule spec [of _ k], drule spec [of _ row']) simp

lemma tracker_claims_old:
  "tracker_claims_nothing d d' \<Longrightarrow> get_vuln d' k = Some row' \<Longrightarrow> get_vuln d k = Some row \<Longrightarrow>
     claims_nothing row row'"
  unfolding tracker_claims_nothing_def by (drule spec [of _ k], drule spec [of _ row']) simp

lemma tracker_claims_trans:
  assumes "tracker_claims_nothing d1 d2" "tracker_claims_nothing d2 d3"
  shows "tracker_claims_nothing d1 d3"
  unfolding tracker_claims_nothing_def
proof (intro allI impI)
  fix k row3 assume 3: "get_vuln d3 k = Some row3"
  show "case get_vuln d1 k of
      None \<Rightarrow> ex_until (v_exception row3) = None \<and> \<not> v_machine_verified row3
    | Some row \<Rightarrow> claims_nothing row row3"
  proof (cases "get_vuln d2 k")
    case None
    with tracker_claims_new [OF assms(2) 3]
    have none: "ex_until (v_exception row3) = None \<and> \<not> v_machine_verified row3" by blast
    show ?thesis
    proof (cases "get_vuln d1 k")
      case (Some row1)
      then have "v_vuln_id row3 = v_vuln_id row1" using get_vuln_mem [OF 3] get_vuln_mem by simp
      with none Some show ?thesis by (simp add: claims_nothing_def)
    qed (simp add: none)
  next
    case (Some row2)
    then have c3: "claims_nothing row2 row3" using tracker_claims_old [OF assms(2) 3] by blast
    show ?thesis
    proof (cases "get_vuln d1 k")
      case None
      with tracker_claims_new [OF assms(1) Some] c3 show ?thesis by (simp add: claims_nothing_def)
    next
      case (Some row1)
      with tracker_claims_old [OF assms(1) \<open>get_vuln d2 k = Some row2\<close>] c3 claims_nothing_trans
      show ?thesis by simp
    qed
  qed
qed

lemma commit_claims_nothing:
  assumes "get_vuln d (v_vuln_id row) = Some row" "claims_nothing row row'"
  shows "tracker_claims_nothing d (commit_row d (row', evs, au))"
  unfolding tracker_claims_nothing_def
proof (intro allI impI)
  fix k x assume x: "get_vuln (commit_row d (row', evs, au)) k = Some x"
  have id: "v_vuln_id row' = v_vuln_id row" using assms(2) by (simp add: claims_nothing_def)
  show "case get_vuln d k of None \<Rightarrow> ex_until (v_exception x) = None \<and> \<not> v_machine_verified x
      | Some row \<Rightarrow> claims_nothing row x"
  proof (cases "k = v_vuln_id row")
    case True
    then have "x = row'" using x assms(1) by (simp add: vuln_table.get_put id)
    then show ?thesis using True assms by simp
  next
    case False
    then show ?thesis using x by (simp add: vuln_table.get_put id)
  qed
qed

lemma frame_claims_nothing: "vd_rows d' = vd_rows d \<Longrightarrow> tracker_claims_nothing d d'"
  by (auto simp: tracker_claims_nothing_def get_vuln_def split: option.split)

locale modest_operation =
  fixes f :: "vulnerability \<Rightarrow> vuln_error + row_outcome"
  assumes modest: "f row = Ok (row', evs, au) \<Longrightarrow> claims_nothing row row'"
begin

lemma on_row_modest:
  assumes "on_row d t k f = Ok (d', res)"
  shows "tracker_claims_nothing d d'"
  using assms
proof (cases rule: on_row_cases)
  case (written row row' evs au)
  then have "get_vuln d (v_vuln_id row) = Some row" by (auto simp: load_Some_iff dest: get_vuln_mem)
  then show ?thesis unfolding written(3) by (rule commit_claims_nothing) (rule modest [OF written(2)])
qed simp

end

section \<open>The operations that claim nothing\<close>

lemma drop_exception_modest:
  "drop_exception row = (row', dt) \<Longrightarrow> row' = row \<or> row' = row\<lparr>v_exception := no_exception\<rparr>"
  by (auto simp: drop_exception_def Let_def split: if_splits)

lemma drop_fp_modest:
  "drop_fp_verdict_on_reopen row = (row', b) \<Longrightarrow> row' = row \<or> row' = row\<lparr>v_fp := no_fp\<rparr>"
  by (auto simp: drop_fp_verdict_on_reopen_def clear_fp_def split: if_splits)

interpretation request_modest: modest_operation "request_row now until reason actor" for now until reason actor
  by unfold_locales (auto simp: request_row_def Let_def bindE_Ok_iff claims_nothing_def split: if_splits)

interpretation withdraw_modest: modest_operation "withdraw_row now actor why" for now actor why
  by unfold_locales (auto simp: withdraw_row_def Let_def claims_nothing_def split: if_splits)

interpretation reject_modest: modest_operation "reject_row now actor why" for now actor why
  by unfold_locales (auto simp: reject_row_def Let_def bindE_Ok_iff claims_nothing_def split: if_splits)

interpretation clear_modest: modest_operation "clear_row now d actor why" for now d actor why
  by unfold_locales (auto simp: clear_row_def Let_def bindE_Ok_iff claims_nothing_def split: if_splits prod.splits)

interpretation mark_modest: modest_operation "mark_row now why n evidence actor" for now why n evidence actor
  by unfold_locales (auto simp: mark_row_def Let_def bindE_Ok_iff claims_nothing_def
      dest!: drop_exception_modest split: prod.splits)

interpretation unmark_modest: modest_operation "unmark_row now d actor why" for now d actor why
  by unfold_locales (auto simp: unmark_row_def Let_def bindE_Ok_iff claims_nothing_def clear_fp_def
      split: if_splits prod.splits)

interpretation assign_modest: modest_operation "assign_row now who team actor why sent" for now who team actor why sent
  by unfold_locales (auto simp: assign_row_def Let_def claims_nothing_def split: if_splits)

interpretation link_modest: modest_operation "link_row now sys key url actor why" for now sys key url actor why
  by unfold_locales (auto simp: link_row_def Let_def claims_nothing_def)

interpretation unlink_modest: modest_operation "unlink_row now actor" for now actor
  by unfold_locales (auto simp: unlink_row_def Let_def claims_nothing_def split: if_splits)

lemma reopened_row_modest: "reopened_row now row = (row', b) \<Longrightarrow> claims_nothing row row'"
  by (auto simp: reopened_row_def claims_nothing_def dest!: drop_fp_modest split: prod.splits)

interpretation transition_modest: modest_operation "transition_row now s actor why" for now s actor why
  by unfold_locales (auto simp: transition_row_def Let_def bindE_Ok_iff claims_nothing_def
      dest!: drop_exception_modest reopened_row_modest split: if_splits prod.splits)

lemma ticket_moved_modest: "ticket_moved_row now new' by' row = (row', dt, b) \<Longrightarrow> claims_nothing row row'"
  by (auto simp: ticket_moved_row_def Let_def claims_nothing_def
      dest!: drop_exception_modest reopened_row_modest split: if_splits prod.splits)

interpretation ticket_modest: modest_operation "ticket_row now d r" for now d r
  by unfold_locales (auto simp: ticket_row_def Let_def claims_nothing_def
      dest!: ticket_moved_modest split: if_splits prod.splits)

interpretation comment_modest: modest_operation
  "\<lambda>row. Ok (row, [record_event row Comment now None (Some (v_state row)) actor why []], [])" for now actor why
  by unfold_locales (auto simp: claims_nothing_def)

text \<open>Observations: the weighing of a verdict, the regression, the fold of one entry.\<close>

lemma weigh_modest: "weigh_fp_verdict now row latest dt = (outcome, row', evs) \<Longrightarrow> claims_nothing row row'"
  by (cases rule: weigh_fp_verdict_cases [of row now latest dt]) (auto simp: claims_nothing_def)

lemma regressed_modest: "regressed_row now run_id outcome n source row = (row', ev) \<Longrightarrow> claims_nothing row row'"
  by (auto simp: regressed_row_def Let_def claims_nothing_def dest!: drop_fp_modest split: if_splits prod.splits)

lemma seen_again_modest:
  assumes "seen_again now run_id d er ob a re outcome row = Ok (row', evs)"
  shows "claims_nothing row row'"
proof -
  define row1 where "row1 = row\<lparr>v_assessment := ob_latest ob\<rparr>"
  define row2 where "row2 = (if re then row1
     else row1\<lparr>v_last_seen_at := now, v_last_seen_run_id := Some run_id,
            v_detectors := merge_detectors (v_detectors row1) (ob_detectors ob),
            v_finding_evidence := er_merge er (v_finding_evidence row1) (ob_evidence ob),
            v_observation_count := v_observation_count row1 + 1\<rparr>)"
  define row3 where "row3 = row2\<lparr>v_updated_at := now\<rparr>"
  define row4 where "row4 = (if v_source row3 = ''retro_match''
     then row3\<lparr>v_source := ''scan'', v_match_confidence := None\<rparr> else row3)"
  have four: "claims_nothing row row4"
    by (simp add: row4_def row3_def row2_def row1_def claims_nothing_def)
  have body: "(if outcome = Fp_held then Ok (row4, [])
         else if v_state row4 = CLOSED
         then bindE (resolve_sla_days d (v_tenant_id row4) (as_severity (ob_latest ob))
                       (at_asset_criticality a)) (\<lambda>(n, source).
                case regressed_row now run_id outcome n source row4 of (row5, ev) \<Rightarrow> Ok (row5, [ev]))
         else Ok (row4, [record_event row4 Observed now None (Some (v_state row4)) None None
                    [(''run_id'', JStr run_id), (''severity'', JStr (as_severity (ob_latest ob)))]]))
       = Ok (row', evs)"
    using assms unfolding seen_again_def Let_def row4_def row3_def row2_def row1_def .
  show ?thesis
  proof (cases "outcome \<noteq> Fp_held \<and> v_state row4 = CLOSED")
    case True
    with body obtain n source ev where "regressed_row now run_id outcome n source row4 = (row', ev)"
      by (simp add: bindE_Ok_iff case_prod_beta) (metis prod.collapse)
    with regressed_modest four claims_nothing_trans show ?thesis by blast
  next
    case False
    with body have "row' = row4" by (auto split: if_splits)
    with four show ?thesis by simp
  qed
qed

interpretation observe_modest: modest_operation "observe_row now run_id d er ob a" for now run_id d er ob a
proof
  fix row row' evs au
  assume obs: "observe_row now run_id d er ob a row = Ok (row', evs, au)"
  let ?distinct = "truthy_text (ob_execution ob) \<and> ob_execution ob \<noteq> execution_id_of (v_assessment row)"
  define replay where "replay = is_replay er run_id ?distinct ob row"
  define refresh where "refresh \<longleftrightarrow> replay \<and> ?distinct \<and> v_last_seen_run_id row = Some run_id \<and>
     er_current_cohort er (v_finding_evidence row) (ob_evidence ob) run_id"
  define re where "re \<longleftrightarrow> refresh \<and> fp_suppressed row now \<and> fp_escalations row (ob_latest ob) \<noteq> []"
  let ?detail = "[(''run_id'', JStr run_id), (''severity'', JStr (as_severity (ob_latest ob)))]"
  obtain outcome0 row0 evs0 where w0:
    "(if re then weigh_fp_verdict now row (ob_latest ob) (?detail @ [(''replay'', JBool True)])
      else (Fp_none, row, [])) = (outcome0, row0, evs0)" by (metis prod_cases3)
  have m0: "claims_nothing row row0" using w0 weigh_modest by (auto split: if_splits)
  define row1 where "row1 = (if refresh \<and> \<not> re then row0\<lparr>v_assessment := ob_latest ob, v_updated_at := now\<rparr> else row0)"
  define row2 where "row2 = (if replay
     then row1\<lparr>v_finding_evidence := er_merge er (v_finding_evidence row1) (ob_evidence ob)\<rparr> else row1)"
  have m2: "claims_nothing row row2" using m0 by (simp add: row2_def row1_def claims_nothing_def)
  have body: "(if replay \<and> \<not> re then Ok (row2, evs0, [])
    else if er_disposition er (v_finding_evidence row) (ob_evidence ob) = ''historical''
    then let row3 = row2\<lparr>v_finding_evidence := er_merge er (v_finding_evidence row2) (ob_evidence ob),
                        v_detectors := merge_detectors (ob_detectors ob) (v_detectors row2),
                        v_observation_count := v_observation_count row2 + 1, v_updated_at := now\<rparr>
         in Ok (row3, evs0 @ [record_event row3 Observed now None None None None
                       [(''run_id'', JStr run_id), (''historical'', JBool True)]], [])
    else let (outcome, row3, evs1) = (if re then (outcome0, row2, [])
                  else weigh_fp_verdict now row2 (ob_latest ob) ?detail)
         in bindE (seen_again now run_id d er ob a re outcome row3) (\<lambda>(row4, evs2).
                Ok (row4, evs0 @ evs1 @ evs2, []))) = Ok (row', evs, au)"
    using obs w0 unfolding observe_row_def Let_def re_def refresh_def replay_def row2_def row1_def
    by (simp only: case_prod_conv)
  show "claims_nothing row row'"
  proof (cases "replay \<and> \<not> re \<or> er_disposition er (v_finding_evidence row) (ob_evidence ob) = ''historical''")
    case True
    with body m2 show ?thesis by (auto simp: Let_def claims_nothing_def split: if_splits)
  next
    case False
    obtain outcome row3 evs1 where w: "(if re then (outcome0, row2, [])
        else weigh_fp_verdict now row2 (ob_latest ob) ?detail) = (outcome, row3, evs1)"
      by (metis prod_cases3)
    have "claims_nothing row2 row3" using w weigh_modest by (auto split: if_splits)
    moreover from False body w obtain evs2 where
      "seen_again now run_id d er ob a re outcome row3 = Ok (row', evs2)"
      by (auto simp: bindE_Ok_iff)
    then have "claims_nothing row3 row'" by (rule seen_again_modest)
    ultimately show ?thesis using m2 claims_nothing_trans by metis
  qed
qed

interpretation software_modest: modest_operation "software_row (software_reobserve now at d latest a dt)"
  for now at d latest a dt
proof
  fix row row' evs au
  assume out: "software_row (software_reobserve now at d latest a dt) row = Ok (row', evs, au)"
  obtain outcome row0 evs0 where w: "(if at > v_last_seen_at row then weigh_fp_verdict now row latest dt
      else (Fp_none, row, [])) = (outcome, row0, evs0)" by (metis prod_cases3)
  have m0: "claims_nothing row row0" using w weigh_modest by (auto split: if_splits)
  show "claims_nothing row row'"
    using out w m0
    by (auto simp: software_row_def software_reobserve_def Let_def bindE_Ok_iff software_reopened_def
        claims_nothing_def dest!: drop_fp_modest split: if_splits prod.splits)
qed

section \<open>Sweeps and runs\<close>

lemma sweep_modest:
  assumes "distinct (map v_vuln_id rows)" "\<And>row. row \<in> set rows \<Longrightarrow> get_vuln d (v_vuln_id row) = Some row"
    and "\<And>d row. claims_nothing row (fst (g d row))"
  shows "tracker_claims_nothing d (foldl (\<lambda>d row. commit_row d (g d row)) d rows)"
  using assms(1,2)
proof (induction rows arbitrary: d)
  case (Cons row rows)
  obtain row' evs au where out: "g d row = (row', evs, au)" by (metis prod_cases3)
  have c: "claims_nothing row row'" using assms(3) [of row d] by (simp add: out)
  then have id: "v_vuln_id row' = v_vuln_id row" by (simp add: claims_nothing_def)
  have "tracker_claims_nothing d (commit_row d (g d row))"
    unfolding out by (rule commit_claims_nothing [OF _ c]) (simp add: Cons.prems(2))
  moreover have "tracker_claims_nothing (commit_row d (g d row))
      (foldl (\<lambda>d row. commit_row d (g d row)) (commit_row d (g d row)) rows)"
  proof (rule Cons.IH)
    show "distinct (map v_vuln_id rows)" using Cons.prems(1) by simp
    fix x assume x: "x \<in> set rows"
    then have "v_vuln_id x \<in> v_vuln_id ` set rows" by simp
    with Cons.prems(1) have "v_vuln_id x \<noteq> v_vuln_id row" by auto
    then show "get_vuln (commit_row d (g d row)) (v_vuln_id x) = Some x"
      using Cons.prems(2) x by (simp add: out id vuln_table.get_put)
  qed
  ultimately show ?case using tracker_claims_trans by simp
qed simp

lemma swept_distinct:
  assumes "wf_vulns d"
  shows "distinct (map v_vuln_id (swept_rows now t limit d))"
    and "row \<in> set (swept_rows now t limit d) \<Longrightarrow>
      lapsed_unrecorded now t row \<and> get_vuln d (v_vuln_id row) = Some row"
proof -
  have sub: "set (swept_rows now t limit d) \<subseteq> set (filter (lapsed_unrecorded now t) (vd_rows d))"
    by (auto simp: swept_rows_def dest: in_set_takeD)
  have "distinct (vd_rows d)" using assms by (simp add: wf_vulns_def distinct_map)
  then have "distinct (swept_rows now t limit d)" by (simp add: swept_rows_def)
  moreover have "inj_on v_vuln_id (set (vd_rows d))" using assms by (simp add: wf_vulns_def distinct_map)
  ultimately show "distinct (map v_vuln_id (swept_rows now t limit d))"
    using sub unfolding distinct_map by (auto intro: inj_on_subset)
  show "lapsed_unrecorded now t row \<and> get_vuln d (v_vuln_id row) = Some row"
    if "row \<in> set (swept_rows now t limit d)"
    using filtered_rows(2) [OF assms] sub that by blast
qed

lemma expire_modest:
  assumes "wf_vulns d" "expire_exceptions now t limit d = (d', n)"
  shows "tracker_claims_nothing d d'"
proof -
  have "tracker_claims_nothing d (foldl (\<lambda>d row. commit_row d (lapse_row now row)) d (swept_rows now t limit d))"
    by (rule sweep_modest [OF swept_distinct(1) [OF assms(1)]])
       (use swept_distinct(2) [OF assms(1)] in \<open>auto simp: lapse_row_def Let_def claims_nothing_def\<close>)
  then show ?thesis using assms(2) by (simp add: expire_exceptions_def Let_def)
qed

lemma release_modest:
  assumes "wf_vulns d" "release_unfinished_verification now d t job_id run status = (d', n)"
  shows "tracker_claims_nothing d d'"
proof -
  have "tracker_claims_nothing d (foldl (\<lambda>d row. commit_row d (send_back_inconclusive now why dt row)) d
      (filter (awaits_job t [job_id]) (vd_rows d)))" for why dt
    by (rule sweep_modest [OF filtered_rows(1) [OF assms(1)]])
       (use filtered_rows(2) [OF assms(1)] in \<open>auto simp: send_back_inconclusive_def Let_def claims_nothing_def\<close>)
  then show ?thesis using assms(2) by (auto simp: release_unfinished_verification_def Let_def)
qed

lemma insert_modest:
  assumes "v_vuln_id row \<notin> known_ids d" "ex_until (v_exception row) = None" "\<not> v_machine_verified row"
  shows "tracker_claims_nothing d (insert_vuln d row evs)"
proof -
  have "get_vuln (insert_vuln d row evs) k =
      (case get_vuln d k of Some r \<Rightarrow> Some r | None \<Rightarrow> if v_vuln_id row = k then Some row else None)" for k
    unfolding get_vuln_def insert_vuln_def by (simp add: row_get_append row_get_single split: option.split)
  then show ?thesis using assms(2,3) by (auto simp: tracker_claims_nothing_def split: option.splits)
qed

lemma observe_one_modest:
  assumes "wf_vulns d" "observe_one now t run_id er d ob = Ok d'" "ob_new_id ob \<notin> known_ids d"
  shows "tracker_claims_nothing d d'"
proof (cases "d' = d \<or> (\<exists>row. find_finding d t (ob_finding_key ob) = Some row)")
  case True
  then consider "d' = d" | row where "d' \<noteq> d" "find_finding d t (ob_finding_key ob) = Some row" by blast
  then show ?thesis
  proof cases
    case 2
    with assms(2) obtain a row' evs au where "observe_row now run_id d er ob a row = Ok (row', evs, au)"
      and d': "d' = commit_row d (row', evs, au)"
      by (auto simp: observe_one_def bindE_Ok_iff split: option.splits if_splits)
    then have "claims_nothing row row'" using observe_modest.modest by blast
    moreover have "get_vuln d (v_vuln_id row) = Some row"
      using find_finding_Some [OF 2(2)] get_vuln_iff [OF assms(1)] by simp
    ultimately show ?thesis unfolding d' by (intro commit_claims_nothing)
  qed simp
next
  case False
  with assms(2) obtain a n source evs where
    "d' = insert_vuln d (new_vulnerability now t run_id ob a n source) evs"
    by (cases "find_finding d t (ob_finding_key ob)")
       (auto simp: observe_one_def bindE_Ok_iff Let_def split: option.splits prod.splits if_splits)
  then show ?thesis using assms(3) by (auto intro!: insert_modest simp: new_vulnerability_def)
qed

lemma observe_all_modest:
  assumes "vuln_inv d" "observe_all now t run_id er d obs = Ok d'"
    and "distinct (map ob_new_id obs)" "\<And>ob. ob \<in> set obs \<Longrightarrow> ob_new_id ob \<notin> known_ids d"
  shows "tracker_claims_nothing d d'"
  using assms
proof (induction obs arbitrary: d)
  case (Cons ob obs)
  from Cons.prems(2) obtain d1 where d1: "observe_one now t run_id er d ob = Ok d1"
    and rest: "observe_all now t run_id er d1 obs = Ok d'" by (auto simp: bindE_Ok_iff)
  have new: "ob_new_id ob \<notin> known_ids d" by (simp add: Cons.prems(4))
  have one: "vuln_inv d1" "known_ids d1 \<subseteq> insert (ob_new_id ob) (known_ids d)"
    using observe_one_inv [OF Cons.prems(1) d1 new] by simp_all
  have "tracker_claims_nothing d d1" by (rule observe_one_modest [OF vuln_invD(1) [OF Cons.prems(1)] d1 new])
  moreover have "tracker_claims_nothing d1 d'"
  proof (rule Cons.IH [OF one(1) rest])
    show "distinct (map ob_new_id obs)" using Cons.prems(3) by simp
    show "ob_new_id o' \<notin> known_ids d1" if "o' \<in> set obs" for o'
    proof -
      have "ob_new_id o' \<in> ob_new_id ` set obs" using that by simp
      with Cons.prems(3) have "ob_new_id o' \<noteq> ob_new_id ob" by auto
      moreover have "ob_new_id o' \<notin> known_ids d" using Cons.prems(4) that by simp
      ultimately show ?thesis using one(2) by blast
    qed
  qed
  ultimately show ?case by (rule tracker_claims_trans)
qed simp

lemma observe_one_frame:
  "observe_one now t run_id er d ob = Ok d' \<Longrightarrow> vd_jobs d' = vd_jobs d \<and> vd_assets d' = vd_assets d"
  by (auto simp: observe_one_def bindE_Ok_iff Let_def insert_vuln_def split: option.splits if_splits prod.splits)

lemma observe_all_frame:
  "observe_all now t run_id er d obs = Ok d' \<Longrightarrow> vd_jobs d' = vd_jobs d \<and> vd_assets d' = vd_assets d"
proof (induction obs arbitrary: d)
  case (Cons ob obs)
  then show ?case using observe_one_frame by (fastforce simp: bindE_Ok_iff)
qed simp

lemma first_pass_frame:
  "first_pass d p st = (d', fresh) \<Longrightarrow> vd_jobs d' = vd_jobs d \<and> vd_assets d' = vd_assets d"
  by (auto simp: first_pass_def split: option.splits if_splits)

text \<open>A run is its observations, which claim nothing, and the closing loop over what they left.\<close>

lemma register_split:
  assumes inv: "vuln_inv d"
    and reg: "register_findings_from_run precise er now d t run_id pub present v ra obs = Ok d'"
    and ids: "distinct (map ob_new_id obs)" "\<And>ob. ob \<in> set obs \<Longrightarrow> ob_new_id ob \<notin> known_ids d"
  obtains "d' = d"
  | d2 where "vuln_inv d2" "tracker_claims_nothing d d2" "d' = close_awaiting precise now t run_id v ra d2"
      "vd_jobs d2 = vd_jobs d" "vd_assets d2 = vd_assets d"
proof -
  obtain d1 fresh where fp: "first_pass d pub ''findings'' = (d1, fresh)" by fastforce
  note same = first_pass_rows [OF fp]
  from reg fp consider "d' = d"
    | d2 where "observe_all now t run_id er d1 obs = Ok d2" "d' = close_awaiting precise now t run_id v ra d2"
    by (auto simp: register_findings_from_run_def bindE_Ok_iff split: if_splits)
  then show thesis
  proof cases
    case 2
    have inv1: "vuln_inv d1" using inv vuln_inv_frame same by blast
    have new: "ob_new_id ob \<notin> known_ids d1" if "ob \<in> set obs" for ob
      using ids(2) [OF that] same by (simp add: known_ids_def)
    have "tracker_claims_nothing d d1" using same by (intro frame_claims_nothing) simp
    moreover have "tracker_claims_nothing d1 d2" by (rule observe_all_modest [OF inv1 2(1) ids(1) new])
    ultimately have "tracker_claims_nothing d d2" by (rule tracker_claims_trans)
    moreover have "vuln_inv d2" by (rule observe_all_inv [OF inv1 2(1) ids(1) new])
    moreover have "vd_jobs d2 = vd_jobs d" "vd_assets d2 = vd_assets d"
      using first_pass_frame [OF fp] observe_all_frame [OF 2(1)] by simp_all
    ultimately show ?thesis using 2(2) that(2) by blast
  qed (rule that(1))
qed

section \<open>The closing loop, row by row\<close>

lemma asset_hosts_commit [simp]: "asset_hosts (commit_row d out) row = asset_hosts d row"
  by (simp add: asset_hosts_def)

lemma sweep_get:
  assumes "distinct (map v_vuln_id rows)" "\<And>row. row \<in> set rows \<Longrightarrow> get_vuln d (v_vuln_id row) = Some row"
    and same: "\<And>d' out row. g (commit_row d' out) row = g d' row"
    and id: "\<And>d row. row \<in> set rows \<Longrightarrow> v_vuln_id (fst (g d row)) = v_vuln_id row"
  shows "get_vuln (foldl (\<lambda>d row. commit_row d (g d row)) d rows) k =
    (case get_vuln d k of None \<Rightarrow> None | Some row \<Rightarrow> Some (if row \<in> set rows then fst (g d row) else row))"
  using assms(1,2,4)
proof (induction rows arbitrary: d)
  case Nil
  then show ?case by (simp split: option.split)
next
  case (Cons row rows)
  let ?d = "commit_row d (g d row)"
  have id: "v_vuln_id (fst (g d row)) = v_vuln_id row" using Cons.prems(3) by simp
  have got: "get_vuln d (v_vuln_id row) = Some row" using Cons.prems(2) by simp
  have notin: "row \<notin> set rows" "x \<in> set rows \<Longrightarrow> v_vuln_id x \<noteq> v_vuln_id row" for x
    using Cons.prems(1) by (auto simp: image_iff)
  have get: "get_vuln ?d j = (if j = v_vuln_id row then Some (fst (g d row)) else get_vuln d j)" for j
    using got by (simp add: vuln_table.get_put id)
  have "get_vuln (foldl (\<lambda>d row. commit_row d (g d row)) ?d rows) k =
    (case get_vuln ?d k of None \<Rightarrow> None | Some r \<Rightarrow> Some (if r \<in> set rows then fst (g ?d r) else r))"
    by (rule Cons.IH) (use Cons.prems notin(2) get in simp_all)
  then have ih: "get_vuln (foldl (\<lambda>d row. commit_row d (g d row)) d (row # rows)) k =
    (case get_vuln ?d k of None \<Rightarrow> None | Some r \<Rightarrow> Some (if r \<in> set rows then fst (g d r) else r))"
    by (simp only: foldl_Cons same)
  show ?case
  proof (cases "k = v_vuln_id row")
    case True
    have "fst (g d row) \<notin> set rows" using notin(2) id by metis
    then show ?thesis unfolding ih using True got by (simp only: get) simp
  next
    case False
    have "r \<noteq> row" if "get_vuln d k = Some r" for r
      using get_vuln_mem [OF that] False by auto
    then show ?thesis unfolding ih using False by (simp only: get) (simp split: option.split)
  qed
qed

lemma drop_exception_id: "drop_exception row = (row', dt) \<Longrightarrow> v_vuln_id row' = v_vuln_id row"
  by (auto dest!: drop_exception_modest)

lemma verify_row_id: "v_vuln_id (fst (verify_row precise now run_id v ra hosts row)) = v_vuln_id row"
  by (auto simp: verify_row_def verified_row_def send_back_inconclusive_def Let_def
      dest!: drop_exception_modest split: prod.splits if_splits)

lemma close_awaiting_get:
  assumes "wf_vulns d"
  shows "get_vuln (close_awaiting precise now t run_id v ra d) k =
    (case get_vuln d k of None \<Rightarrow> None | Some row \<Rightarrow>
       Some (if awaits_job t (map j_job_id (filter (\<lambda>j. j_run_id j = Some run_id) (vd_jobs d))) row
             then fst (verify_row precise now run_id v ra (asset_hosts d row) row) else row))"
proof -
  let ?jobs = "map j_job_id (filter (\<lambda>j. j_run_id j = Some run_id) (vd_jobs d))"
  have "get_vuln (close_awaiting precise now t run_id v ra d) k =
    (case get_vuln d k of None \<Rightarrow> None | Some row \<Rightarrow>
       Some (if row \<in> set (filter (awaits_job t ?jobs) (vd_rows d))
             then fst (verify_row precise now run_id v ra (asset_hosts d row) row) else row))"
    unfolding close_awaiting_def Let_def
    by (rule sweep_get [OF filtered_rows(1) [OF assms]])
       (use filtered_rows(2) [OF assms] verify_row_id in simp_all)
  then show ?thesis by (auto dest: get_vuln_mem split: option.splits)
qed

text \<open>What a verdict of the closing loop can say.\<close>

lemma verified_row_fields:
  assumes "verified_row now run_id v row mv reason' kind why dt = (row', evs, au)"
  shows "v_state row' = CLOSED \<and> v_machine_verified row' = mv \<and> v_closure_reason row' = Some reason' \<and>
    v_vuln_id row' = v_vuln_id row \<and>
    (ex_until (v_exception row') = None \<or> ex_until (v_exception row') = ex_until (v_exception row))"
  using assms by (auto simp: verified_row_def Let_def dest!: drop_exception_modest split: prod.splits)

lemma verified_row_says:
  "v_state (fst (verified_row now run_id v row mv c kind why dt)) = CLOSED"
  "v_machine_verified (fst (verified_row now run_id v row mv c kind why dt)) = mv"
  "v_closure_reason (fst (verified_row now run_id v row mv c kind why dt)) = Some c"
  "v_vuln_id (fst (verified_row now run_id v row mv c kind why dt)) = v_vuln_id row"
  "ex_until (v_exception (fst (verified_row now run_id v row mv c kind why dt))) = None \<or>
   ex_until (v_exception (fst (verified_row now run_id v row mv c kind why dt))) = ex_until (v_exception row)"
  using verified_row_fields [of now run_id v row mv c kind why dt] by (metis prod_cases3 prod.collapse)+

lemma verify_row_cases [case_names seen unreachable inconclusive passed]:
  obtains "v_last_seen_run_id row = Some run_id"
    "v_state (fst (verify_row precise now run_id v ra hosts row)) = FIXING"
    "claims_nothing row (fst (verify_row precise now run_id v ra hosts row))"
  | gaps ends waived where "v_last_seen_run_id row \<noteq> Some run_id"
    "closing_evidence precise ra v hosts row = (gaps, Some ends, waived)"
    "v_state (fst (verify_row precise now run_id v ra hosts row)) = CLOSED"
    "v_closure_reason (fst (verify_row precise now run_id v ra hosts row)) = Some ''endpoint_unreachable''"
    "\<not> v_machine_verified (fst (verify_row precise now run_id v ra hosts row))"
    "claims_nothing row (fst (verify_row precise now run_id v ra hosts row))"
  | gaps waived where "v_last_seen_run_id row \<noteq> Some run_id"
    "closing_evidence precise ra v hosts row = (gaps, None, waived)" "gaps \<noteq> []"
    "v_state (fst (verify_row precise now run_id v ra hosts row)) = FIXING"
    "claims_nothing row (fst (verify_row precise now run_id v ra hosts row))"
  | waived where "v_last_seen_run_id row \<noteq> Some run_id"
    "closing_evidence precise ra v hosts row = ([], None, waived)"
    "v_state (fst (verify_row precise now run_id v ra hosts row)) = CLOSED"
    "v_closure_reason (fst (verify_row precise now run_id v ra hosts row)) = Some ''verified_remediated''"
    "v_machine_verified (fst (verify_row precise now run_id v ra hosts row))"
    "ex_until (v_exception (fst (verify_row precise now run_id v ra hosts row))) = None \<or>
     ex_until (v_exception (fst (verify_row precise now run_id v ra hosts row))) = ex_until (v_exception row)"
proof -
  obtain gaps unreachable waived where ce: "closing_evidence precise ra v hosts row = (gaps, unreachable, waived)"
    by (metis prod_cases3)
  consider "v_last_seen_run_id row = Some run_id"
    | ends where "v_last_seen_run_id row \<noteq> Some run_id" "unreachable = Some ends"
    | "v_last_seen_run_id row \<noteq> Some run_id" "unreachable = None" "gaps \<noteq> []"
    | "v_last_seen_run_id row \<noteq> Some run_id" "unreachable = None" "gaps = []" by blast
  then show thesis
  proof cases
    case 1
    then show ?thesis by (intro that(1)) (simp_all add: verify_row_def Let_def claims_nothing_def)
  next
    case (2 ends)
    obtain why dt where "verify_row precise now run_id v ra hosts row =
        verified_row now run_id v row False ''endpoint_unreachable'' Verification_unreachable why dt"
      using 2 ce by (auto simp: verify_row_def)
    then show ?thesis
      using 2 ce verified_row_says by (intro that(2)) (simp_all add: claims_nothing_def verified_row_says)
  next
    case 3
    then show ?thesis using ce
      by (intro that(3)) (simp_all add: verify_row_def send_back_inconclusive_def Let_def claims_nothing_def)
  next
    case 4
    obtain why dt where "verify_row precise now run_id v ra hosts row =
        verified_row now run_id v row True ''verified_remediated'' Verification_passed why dt"
      using 4 ce by (auto simp: verify_row_def)
    then show ?thesis using 4 ce verified_row_says by (intro that(4)) (simp_all add: verified_row_says)
  qed
qed

end
