(* ===== verification/Vuln_Demo.thy ===== *)
theory Vuln_Demo
  imports Vuln_Grants Job_Demo
begin

text \<open>
  Concrete trackers, used where a property is applied to a run of the code: one asset, a nuclei
  finding on its port 443, an acceptance asked for by one person and granted by another, a
  verification run; and a canonical text of a JSON document, which stands for its hash.
\<close>

section \<open>A text for every document\<close>

fun spell_chars :: "string \<Rightarrow> string" where
  "spell_chars [] = ''.''"
| "spell_chars (c # cs) = CHR ''+'' # c # spell_chars cs"

definition spell_int :: "int \<Rightarrow> string" where
  "spell_int i = (if i < 0 then ''-'' else '''') @ replicate (nat (abs i)) (CHR ''1'') @ ''.''"

fun spell :: "json \<Rightarrow> string" and spell_list :: "json list \<Rightarrow> string"
  and spell_pairs :: "(string \<times> json) list \<Rightarrow> string" where
  "spell JNull = ''n''"
| "spell (JBool b) = (if b then ''t'' else ''f'')"
| "spell (JInt i) = CHR ''i'' # spell_int i"
| "spell (JReal r) = CHR ''r'' # spell_chars r"
| "spell (JStr s) = CHR ''s'' # spell_chars s"
| "spell (JArr vs) = CHR ''a'' # spell_list vs"
| "spell (JObj kvs) = CHR ''o'' # spell_pairs kvs"
| "spell_list [] = ''.''"
| "spell_list (v # vs) = CHR ''+'' # spell v @ spell_list vs"
| "spell_pairs [] = ''.''"
| "spell_pairs ((k, v) # kvs) = CHR ''+'' # spell_chars k @ spell v @ spell_pairs kvs"

lemma spell_chars_prefix: "spell_chars s @ xs = spell_chars t @ ys \<Longrightarrow> s = t \<and> xs = ys"
proof (induction s arbitrary: t)
  case Nil
  then show ?case by (cases t) auto
next
  case (Cons c cs)
  then show ?case by (cases t) auto
qed

lemma ones_prefix: "replicate m (CHR ''1'') @ CHR ''.'' # xs = replicate n (CHR ''1'') @ CHR ''.'' # ys \<Longrightarrow> m = n \<and> xs = ys"
proof (induction m arbitrary: n)
  case 0
  then show ?case by (cases n) auto
next
  case (Suc m)
  then show ?case by (cases n) auto
qed

lemma spell_int_sign: "hd (spell_int i @ xs) = CHR ''-'' \<longleftrightarrow> i < 0"
  by (cases "nat (abs i)") (simp_all add: spell_int_def)

lemma spell_int_prefix:
  assumes "spell_int i @ xs = spell_int j @ ys"
  shows "i = j \<and> xs = ys"
proof -
  have sign: "i < 0 \<longleftrightarrow> j < 0"
    using assms spell_int_sign by metis
  with assms have "replicate (nat (abs i)) (CHR ''1'') @ CHR ''.'' # xs = replicate (nat (abs j)) (CHR ''1'') @ CHR ''.'' # ys"
    by (auto simp: spell_int_def split: if_splits)
  then have "nat (abs i) = nat (abs j) \<and> xs = ys" by (rule ones_prefix)
  with sign show ?thesis by (auto simp: nat_eq_iff2 abs_if split: if_splits)
qed

lemma spell_prefix:
  "spell v @ xs = spell w @ ys \<Longrightarrow> v = w \<and> xs = ys"
  "spell_list vs @ xs = spell_list ws @ ys \<Longrightarrow> vs = ws \<and> xs = ys"
  "spell_pairs kvs @ xs = spell_pairs kws @ ys \<Longrightarrow> kvs = kws \<and> xs = ys"
proof (induction v and vs and kvs arbitrary: w xs ys and ws xs ys and kws xs ys
    rule: spell_spell_list_spell_pairs.induct)
  case 1
  then show ?case by (cases w) (auto split: if_splits)
next
  case (2 b)
  then show ?case by (cases w) (auto split: if_splits)
next
  case (3 i)
  then show ?case by (cases w) (auto split: if_splits dest: spell_int_prefix)
next
  case (4 r)
  then show ?case by (cases w) (auto split: if_splits dest: spell_chars_prefix)
next
  case (5 s)
  then show ?case by (cases w) (auto split: if_splits dest: spell_chars_prefix)
next
  case (6 vs)
  from 6(2) obtain ws where "w = JArr ws" "spell_list vs @ xs = spell_list ws @ ys"
    by (cases w) (simp_all split: if_splits)
  then show ?case using 6(1) by simp
next
  case (7 kvs)
  from 7(2) obtain kws where "w = JObj kws" "spell_pairs kvs @ xs = spell_pairs kws @ ys"
    by (cases w) (simp_all split: if_splits)
  then show ?case using 7(1) by simp
next
  case 8
  then show ?case by (cases ws) auto
next
  case (9 v vs)
  show ?case
  proof (cases ws)
    case Nil
    then show ?thesis using 9(3) by simp
  next
    case (Cons u us)
    with 9(3) have "spell v @ (spell_list vs @ xs) = spell u @ (spell_list us @ ys)" by simp
    from 9(1) [OF this] have "v = u" "spell_list vs @ xs = spell_list us @ ys" by simp_all
    moreover from 9(2) [OF this(2)] have "vs = us" "xs = ys" by simp_all
    ultimately show ?thesis by (simp add: Cons)
  qed
next
  case 10
  then show ?case by (cases kws) auto
next
  case (11 k v kvs)
  show ?case
  proof (cases kws)
    case Nil
    then show ?thesis using 11(3) by simp
  next
    case (Cons p ps)
    obtain k' v' where p: "p = (k', v')" by fastforce
    from 11(3) Cons p have "spell_chars k @ (spell v @ spell_pairs kvs @ xs) = spell_chars k' @ (spell v' @ spell_pairs ps @ ys)"
      by simp
    then have "k = k'" "spell v @ spell_pairs kvs @ xs = spell v' @ spell_pairs ps @ ys"
      using spell_chars_prefix by blast+
    moreover from 11(1) [OF this(2)] have "v = v'" "spell_pairs kvs @ xs = spell_pairs ps @ ys" by simp_all
    moreover from 11(2) [OF this(2)] have "kvs = ps" "xs = ys" by simp_all
    ultimately show ?thesis by (simp add: Cons p)
  qed
qed

lemma inj_spell: "inj spell"
proof (rule injI)
  fix v w assume "spell v = spell w"
  then have "spell v @ [] = spell w @ []" by simp
  then show "v = w" using spell_prefix(1) by blast
qed

section \<open>A tracked finding\<close>

definition demo_asset :: asset where
  "demo_asset = \<lparr>at_asset_id = ''ast_1'', at_tenant_id = ''acme'', at_asset_criticality = Some 3,
     at_owner_email = None, at_business_unit = None, at_addresses = [''10.0.0.5'']\<rparr>"

definition demo_assessment :: "string \<Rightarrow> assessment" where
  "demo_assessment severity = \<lparr>as_risk_assessment = JNull, as_severity = severity, as_risk_level = JNull,
     as_contextual_score = JNull, as_cvss = JNull, as_in_kev = False, as_exploit_maturity = None,
     as_network_exposure = None, as_network_exposure_source = None, as_cwe = JNull,
     as_title = ''CVE-2024-1'', as_finding_type = Some ''cve'', as_detector_source = Some ''nuclei'',
     as_template_id = None, as_remediation = None, as_non_cve = JNull\<rparr>"

definition demo_detector :: "string \<Rightarrow> string option \<Rightarrow> string option \<Rightarrow> detector" where
  "demo_detector name ref host = \<lparr>d_detector = name, d_ref = ref, d_host = host, d_port = Some ''443'',
     d_last_run_id = ''run_1'', d_last_seen_at = 0, d_vantage = Some ''group:dmz'', d_vantages = [],
     d_agent_id = Some ''ag_1'', d_agent_group = Some ''dmz'', d_protocol = Some ''tcp'', d_ruleset = None\<rparr>"

definition demo_observation :: "string \<Rightarrow> observation" where
  "demo_observation severity = \<lparr>ob_asset = Some demo_asset, ob_finding_key = ''key_1'', ob_new_id = ''vln_1'',
     ob_cve = Some ''CVE-2024-1'', ob_script_id = Some ''nuclei:CVE-2024-1'', ob_port = Some ''443'',
     ob_actionable = False, ob_latest = demo_assessment severity,
     ob_detectors = [demo_detector NUCLEI (Some ''CVE-2024-1'') (Some ''10.0.0.5'')],
     ob_evidence = JNull, ob_execution = None\<rparr>"

definition demo_rules :: evidence_rules where
  "demo_rules = \<lparr>er_disposition = (\<lambda>_ _. ''current''), er_merge = (\<lambda>_ new'. new'),
     er_current_cohort = (\<lambda>_ _ _. True)\<rparr>"

definition no_artifacts :: run_artifacts where
  "no_artifacts = \<lparr>ra_nuclei = None, ra_pulse = None, ra_nse = [], ra_reachability = [],
     ra_port_scans = [], ra_open_tcp = []\<rparr>"

definition demo_vantage :: vantage where
  "demo_vantage = \<lparr>vt_vantage = ''group:dmz'', vt_agent_id = Some ''ag_1'', vt_agent_group = Some ''dmz''\<rparr>"

definition demo_installed :: vuln_db where
  "demo_installed = empty_tracker\<lparr>vd_assets := [demo_asset]\<rparr>"

definition demo_run ::
  "time \<Rightarrow> string \<Rightarrow> run_artifacts \<Rightarrow> observation list \<Rightarrow> vuln_db \<Rightarrow> vuln_error + vuln_db" where
  "demo_run now run_id ra obs d =
     register_findings_from_run (\<lambda>_. []) demo_rules now d ''acme'' run_id None True (Some demo_vantage) ra obs"

definition or_same :: "'d \<Rightarrow> 'e + 'd \<Rightarrow> 'd" where
  "or_same d r = (case r of Ok d' \<Rightarrow> d' | Err _ \<Rightarrow> d)"

definition or_same_row :: "'d \<Rightarrow> 'e + ('d \<times> 'r) \<Rightarrow> 'd" where
  "or_same_row d r = (case r of Ok p \<Rightarrow> fst p | Err _ \<Rightarrow> d)"

lemma or_same_Ok: "\<not> isl r \<Longrightarrow> r = Ok (or_same d r)"
  by (cases r) (simp_all add: or_same_def)

lemma or_same_row_Ok: "\<not> isl r \<Longrightarrow> \<exists>res. r = Ok (or_same_row d r, res)"
  by (cases r) (simp_all add: or_same_row_def prod_eq_iff)

definition demo_first_row :: vulnerability where
  "demo_first_row = \<lparr>v_vuln_id = ''vln_1'', v_tenant_id = ''acme'', v_asset_id = ''ast_1'',
     v_finding_key = ''key_1'', v_source = ''scan'', v_cve = Some ''CVE-2024-1'',
     v_script_id = Some ''nuclei:CVE-2024-1'', v_port = Some ''443'',
     v_detectors = [(demo_detector NUCLEI (Some ''CVE-2024-1'') (Some ''10.0.0.5''))
                      \<lparr>d_vantages := [''group:dmz'']\<rparr>],
     v_assessment = demo_assessment ''high'', v_state = OPEN, v_state_changed_at = 0,
     v_state_changed_by = None, v_assignee = None, v_owner_team = None,
     v_due_at = Some 2592000000000, v_sla_days = Some 30, v_sla_source = Some ''default'',
     v_sla_started_at = 0, v_exception = no_exception, v_fp = no_fp, v_ticket = no_ticket,
     v_first_seen_at = 0, v_last_seen_at = 0, v_first_seen_run_id = Some ''run_1'',
     v_last_seen_run_id = Some ''run_1'', v_observation_count = 1, v_reopen_count = 0,
     v_closed_at = None, v_machine_verified = False, v_verification_job_id = None,
     v_last_verified_at = None, v_closure_reason = None, v_match_confidence = None,
     v_finding_evidence = JNull, v_updated_at = 0\<rparr>"

definition demo_seen :: vuln_db where
  "demo_seen = demo_installed\<lparr>vd_rows := [demo_first_row],
     vd_events := [record_event demo_first_row Observed 0 None (Some OPEN) None None
       [(''run_id'', JStr ''run_1''), (''first_seen'', JBool True), (''severity'', JStr ''high''),
        (''due_at'', JInt 2592000000000), (''sla_days'', JInt 30), (''sla_source'', JStr ''default'')]]\<rparr>"

definition demo_asked :: vuln_db where
  "demo_asked = or_same_row demo_seen
     (request_exception 10 demo_seen (Some ''acme'') ''vln_1'' (days 60) (Some ''legacy host'') (Some ''ann''))"

definition demo_accepted :: vuln_db where
  "demo_accepted = or_same_row demo_asked
     (approve_exception 20 demo_asked (Some ''acme'') ''vln_1'' ''bob'' None)"

lemma demo_seen_run: "demo_run 0 ''run_1'' no_artifacts [demo_observation ''high''] demo_installed = Ok demo_seen"
  by code_simp

lemma demo_asked_Ok: "\<not> isl (request_exception 10 demo_seen (Some ''acme'') ''vln_1'' (days 60)
    (Some ''legacy host'') (Some ''ann''))"
  by code_simp

lemma demo_accepted_Ok: "\<not> isl (approve_exception 20 demo_asked (Some ''acme'') ''vln_1'' ''bob'' None)"
  by code_simp

definition demo_row :: "vuln_db \<Rightarrow> vulnerability" where
  "demo_row d = hd (vd_rows d)"

lemma demo_row_mem: "vd_rows d \<noteq> [] \<Longrightarrow> demo_row d \<in> set (vd_rows d)"
  by (simp add: demo_row_def)

lemma demo_accepted_facts:
  "vd_rows demo_accepted \<noteq> [] \<and> v_vuln_id (demo_row demo_accepted) = ''vln_1'' \<and>
   v_state (demo_row demo_accepted) = OPEN \<and> sla_state (demo_row demo_accepted) 30 = ''accepted''"
  by code_simp

lemma demo_accepted_row: "demo_row demo_accepted \<in> set (vd_rows demo_accepted)"
  using demo_row_mem demo_accepted_facts by blast

section \<open>A verification\<close>

definition demo_env :: dispatch_env where
  "demo_env = \<lparr>de_allow_scan_start = True, de_agent_mode = True, de_live_group = (\<lambda>_. True),
     de_silent_seconds = (\<lambda>_. None), de_grace_seconds = 3600, de_resolve_group = (\<lambda>g _ _. Inr g),
     de_sensors = (\<lambda>_. [[''config_overlay.v2'']])\<rparr>"

definition demo_fixing :: vuln_db where
  "demo_fixing =
     (let row = demo_first_row\<lparr>v_state := FIXING, v_state_changed_at := 1, v_state_changed_by := Some ''ann'',
                  v_updated_at := 1\<rparr>
      in demo_seen\<lparr>vd_rows := [row], vd_events := vd_events demo_seen @
           [record_event row State_change 1 (Some OPEN) (Some FIXING) (Some ''ann'') None []]\<rparr>)"

definition demo_plan :: VerificationPlan where
  "demo_plan = \<lparr>vp_ips = [''10.0.0.5''], vp_names = [], vp_template_ids = [''CVE-2024-1''], vp_nse = False,
     vp_from_detectors = True, vp_agent_group = Some ''dmz'', vp_exact_targets = []\<rparr>"

definition demo_key :: string where
  "demo_key = verification_intent_key spell (demo_row demo_fixing) demo_plan"

definition demo_dispatched :: "string \<Rightarrow> vuln_db" where
  "demo_dispatched key = demo_fixing
     \<lparr>vd_jobs := [demo_row1\<lparr>j_job_id := ''job_v'', j_tenant_id := ''acme'', j_run_id := Some ''run_2'',
        j_idempotency_key := Some key\<rparr>],
      vd_verification_of := [(''job_v'', ''vln_1'')]\<rparr>"

definition demo_verifying :: "string \<Rightarrow> vuln_db" where
  "demo_verifying key = commit_row (demo_dispatched key) (receipt_row 3 ''job_v'' None (demo_row demo_fixing))"

definition demo_artifacts :: run_artifacts where
  "demo_artifacts = no_artifacts\<lparr>ra_nuclei := Some \<lparr>nu_skipped_reason = None, nu_coverage = Some
     \<lparr>nc_ran = True, nc_returncode = JInt 0, nc_missing = [], nc_excluded = [],
      nc_requested = [''CVE-2024-1''], nc_ambiguous = [], nc_loaded = Some 1, nc_expected = Some 1,
      nc_targets = [(''10.0.0.5'', Some 443)], nc_skipped_targets = []\<rparr>\<rparr>\<rparr>"

definition demo_refusal :: run_artifacts where
  "demo_refusal = no_artifacts\<lparr>ra_reachability := [((''10.0.0.5'', 443), ''refused'')],
     ra_port_scans := [\<lparr>ps_hosts = [''10.0.0.5''], ps_complete = True, ps_port_args = [''-p'', ''443''],
       ps_exclude_ports = []\<rparr>]\<rparr>"

definition demo_closed :: "string \<Rightarrow> vuln_db" where
  "demo_closed key = or_same (demo_verifying key) (demo_run 4 ''run_2'' demo_artifacts [] (demo_verifying key))"

lemma demo_fixing_move:
  "transition 1 demo_seen (Some ''acme'') ''vln_1'' (Some ''fixing'') (Some ''ann'') None
     = Ok (demo_fixing, Some (demo_row demo_fixing))"
  by code_simp

text \<open>The key of the dispatch is never spelled out: the receipt compares it with itself.\<close>

lemma demo_fixing_facts:
  "map v_vuln_id (vd_rows demo_fixing) = [''vln_1''] \<and> v_tenant_id (demo_row demo_fixing) = ''acme'' \<and>
   dispatch_allowed (demo_row demo_fixing) = Ok () \<and>
   verification_plan (\<lambda>_. None) demo_fixing (demo_row demo_fixing) = Ok demo_plan \<and>
   list_ex (\<lambda>caps. required_capability demo_plan \<in> set caps) (de_sensors demo_env (Some ''dmz'')) \<and>
   j_status demo_row1 \<in> set RECEIPT_STATUSES"
  by code_simp

lemma demo_fixing_load: "load demo_fixing (Some ''acme'') ''vln_1'' = Some (demo_row demo_fixing)"
  using demo_fixing_facts by (auto simp: load_def get_vuln_def row_get_def demo_row_def)

lemma demo_prepared:
  "\<exists>order. prepare_verification demo_env spell (\<lambda>_. None) demo_fixing (Some ''acme'') ''vln_1'' None = Ok (Some order) \<and>
     vo_key order = demo_key"
proof -
  have "observing_group_gone demo_env (Some ''dmz'') = Ok None"
    by (simp add: observing_group_gone_def demo_env_def truthy_text_def)
  moreover have "de_agent_mode demo_env" "de_allow_scan_start demo_env"
    "de_resolve_group demo_env (Some ''dmz'') r n = Ok (Some ''dmz'')" for r n
    by (simp_all add: demo_env_def)
  ultimately have "\<exists>order. verification_order demo_env spell (demo_row demo_fixing) demo_plan = Ok order"
    using demo_fixing_facts by (simp add: verification_order_def Let_def truthy_text_def demo_plan_def)
  then show ?thesis
    using verification_order_key demo_fixing_facts \<open>de_allow_scan_start demo_env\<close>
    by (fastforce simp: prepare_verification_def demo_fixing_load demo_key_def)
qed

lemma demo_receipt:
  "verification_receipt (current_key spell (\<lambda>_. None)) 3 (demo_dispatched demo_key) ''acme'' ''vln_1'' ''job_v'' demo_key None
     = Ok (demo_verifying demo_key, Some (fst (receipt_row 3 ''job_v'' None (demo_row demo_fixing))))"
proof -
  have "asset_hosts (demo_dispatched demo_key) = asset_hosts demo_fixing"
    by (rule ext) (simp add: asset_hosts_def demo_dispatched_def)
  then have "verification_plan (\<lambda>_. None) (demo_dispatched demo_key) (demo_row demo_fixing) = Ok demo_plan"
    using demo_fixing_facts by (simp add: verification_plan_def)
  then have "current_key spell (\<lambda>_. None) (demo_dispatched demo_key) (demo_row demo_fixing) = demo_key"
    by (simp add: current_key_def demo_key_def)
  moreover have "load (demo_dispatched demo_key) (Some ''acme'') ''vln_1'' = Some (demo_row demo_fixing)"
    using demo_fixing_load by (simp add: load_def get_vuln_def demo_dispatched_def)
  ultimately show ?thesis
    using demo_fixing_facts
    by (simp add: verification_receipt_def demo_verifying_def) (simp add: demo_dispatched_def row_get_def Let_def)
qed

lemma demo_closed_facts:
  "\<not> isl (demo_run 4 ''run_2'' demo_artifacts [] (demo_verifying key)) \<and>
   map v_machine_verified (vd_rows (demo_verifying key)) = [False] \<and>
   map v_machine_verified (vd_rows (demo_closed key)) = [True] \<and>
   map v_vuln_id (vd_rows (demo_closed key)) = [''vln_1'']"
  by code_simp

lemma demo_seen_reachable: "tracker_reachable demo_seen"
proof -
  have "vuln_step empty_tracker demo_installed"
    by (rule vuln_step.elsewhere) (simp_all add: demo_installed_def empty_tracker_def)
  moreover have "vuln_step demo_installed demo_seen"
    by (rule vuln_step.run [OF demo_seen_run [unfolded demo_run_def]])
       (simp_all add: demo_observation_def known_ids_def demo_installed_def empty_tracker_def)
  ultimately show ?thesis unfolding tracker_reachable_def by simp
qed

lemma tracker_reachable_step: "tracker_reachable d \<Longrightarrow> vuln_step d d' \<Longrightarrow> tracker_reachable d'"
  unfolding tracker_reachable_def by (rule rtranclp.rtrancl_into_rtrancl)

lemma demo_acceptance:
  "\<exists>res. request_exception 10 demo_seen (Some ''acme'') ''vln_1'' (days 60) (Some ''legacy host'') (Some ''ann'')
     = Ok (demo_asked, res)"
  "\<exists>res. approve_exception 20 demo_asked (Some ''acme'') ''vln_1'' ''bob'' None = Ok (demo_accepted, res)"
  using or_same_row_Ok [OF demo_asked_Ok, of demo_seen] or_same_row_Ok [OF demo_accepted_Ok, of demo_asked]
  unfolding demo_asked_def [symmetric] demo_accepted_def [symmetric] by blast+

lemma demo_asked_reachable: "tracker_reachable demo_asked"
  using demo_acceptance(1) tracker_reachable_step [OF demo_seen_reachable] vuln_step.request by blast

lemma demo_accepted_reachable: "tracker_reachable demo_accepted"
  using demo_acceptance(2) tracker_reachable_step [OF demo_asked_reachable] vuln_step.approve by blast

lemma demo_fixing_reachable: "tracker_reachable demo_fixing"
  by (rule tracker_reachable_step [OF demo_seen_reachable vuln_step.move [OF demo_fixing_move]])

lemma demo_dispatched_reachable: "tracker_reachable (demo_dispatched key)"
  by (rule tracker_reachable_step [OF demo_fixing_reachable], rule vuln_step.elsewhere)
     (simp_all add: demo_dispatched_def)

lemma demo_verifying_reachable: "tracker_reachable (demo_verifying demo_key)"
proof -
  obtain order where "prepare_verification demo_env spell (\<lambda>_. None) demo_fixing (Some ''acme'') ''vln_1'' None = Ok (Some order)"
    "vo_key order = demo_key" using demo_prepared by blast
  then show ?thesis
    using tracker_reachable_step [OF demo_dispatched_reachable]
      vuln_step.receipt [where h = spell] keys_apart_inj [OF inj_spell] demo_receipt by metis
qed

lemma demo_closing_run: "demo_run 4 ''run_2'' demo_artifacts [] (demo_verifying key) = Ok (demo_closed key)"
  using or_same_Ok [of "demo_run 4 ''run_2'' demo_artifacts [] (demo_verifying key)" "demo_verifying key"]
    demo_closed_facts
  unfolding demo_closed_def [symmetric] by blast

end
