(* ===== verification/Vuln_Properties.thy ===== *)
theory Vuln_Properties
  imports Vuln_Demo
begin

text \<open>
  What holds of the findings of every reachable tracker, and of the acceptances, verdicts and
  deadlines on them.
\<close>

section \<open>Every reachable tracker\<close>

text \<open>
  C2. In every state reached by any sequence of the tracker's operations (runs, people, the
  ticket poller, the sweeps, verification receipts, the software observer), the events on
  record explain every finding: read from the opening observation on, each event starts in
  the state the one before left, every move is one of the transition table, and the last one
  leads to the state of the row. Every event is of a tracked finding, and no two findings
  share an id or a tenant and identity.
\<close>

theorem trail_explains_state:
  assumes "tracker_reachable d" "row \<in> set (vd_rows d)"
  shows "follow OPEN (filter (\<lambda>ev. ev_vuln_id ev = v_vuln_id row) (vd_events d)) = Some (v_state row) \<and>
    (\<forall>ev\<in>set (vd_events d). ev_vuln_id ev \<in> v_vuln_id ` set (vd_rows d)) \<and>
    distinct (map v_vuln_id (vd_rows d)) \<and>
    distinct (map (\<lambda>r. (v_tenant_id r, v_finding_key r)) (vd_rows d))"
proof -
  note inv = tracker_reachable_inv [OF assms(1)]
  have "(\<lambda>r. (v_tenant_id r, v_finding_key r)) = finding_identity"
    by (rule ext) (simp add: finding_identity_def)
  then show ?thesis
    using vuln_invD [OF inv] assms(2) by (auto simp: trail_def wf_vulns_def known_ids_def)
qed

theorem trail_explains_state_witness:
  "follow OPEN (filter (\<lambda>ev. ev_vuln_id ev = ''vln_1'') (vd_events demo_accepted)) = Some OPEN"
proof -
  have "v_vuln_id (demo_row demo_accepted) = ''vln_1''" "v_state (demo_row demo_accepted) = OPEN"
    using demo_accepted_facts by simp_all
  then show ?thesis using trail_explains_state [OF demo_accepted_reachable demo_accepted_row] by metis
qed

text \<open>
  C15. In every reachable state a closed finding has a reason and a time of closing and an open
  one neither; an open finding has a deadline and carries no false-positive verdict; a row
  closed as a false positive keeps its reason and window; a finding is machine verified only
  if it is closed as remediated or patched; and a closed finding the software observer does
  not own carries no acceptance and no request for one.
\<close>

theorem findings_are_well_formed:
  assumes "tracker_reachable d" "row \<in> set (vd_rows d)"
  shows "(v_state row = CLOSED \<longleftrightarrow> v_closed_at row \<noteq> None) \<and>
    (v_state row = CLOSED \<longleftrightarrow> v_closure_reason row \<noteq> None) \<and> v_due_at row \<noteq> None \<and>
    (v_state row \<noteq> CLOSED \<longrightarrow> v_fp row = no_fp) \<and>
    (v_closure_reason row = Some FALSE_POSITIVE \<longrightarrow>
       fp_reason (v_fp row) \<noteq> None \<and> fp_suppress_until (v_fp row) \<noteq> None) \<and>
    (v_machine_verified row \<longrightarrow> v_closure_reason row \<in> {Some ''verified_remediated'', Some ''patched''}) \<and>
    (v_state row = CLOSED \<and> v_source row \<noteq> SOFTWARE_SOURCE \<longrightarrow> v_exception row = no_exception)"
proof -
  have wf: "wf_row row" using vuln_invD(3) [OF tracker_reachable_inv [OF assms(1)] assms(2)] .
  then show ?thesis
    using wf_rowD [OF wf] wf_row_no_fp [OF wf] unfolding wf_lifecycle_def wf_verdict_def
    by (auto split: if_splits)
qed

theorem findings_are_well_formed_witness:
  "v_closed_at (demo_row demo_accepted) = None \<and> v_fp (demo_row demo_accepted) = no_fp"
proof -
  have "v_state (demo_row demo_accepted) \<noteq> CLOSED" using demo_accepted_facts by simp
  then show ?thesis using findings_are_well_formed [OF demo_accepted_reachable demo_accepted_row] by blast
qed

text \<open>
  C7. A finding that reads as \<open>accepted\<close> in a reachable state is open and has an unexpired
  window that somebody granted who is not the person that had asked for it; unless the
  software observer owns it, its deadline is the end of that window.
\<close>

theorem acceptance_is_signed_by_another:
  assumes "tracker_reachable d" "row \<in> set (vd_rows d)" "sla_state row now = ''accepted''"
  shows "\<exists>until signer. ex_until (v_exception row) = Some until \<and> now < until \<and>
    ex_by (v_exception row) = Some signer \<and>
    \<not> same_person (ex_approved_requested_by (v_exception row)) (Some signer) \<and>
    v_state row \<noteq> CLOSED \<and> (v_source row \<noteq> SOFTWARE_SOURCE \<longrightarrow> v_due_at row = Some until)"
proof -
  have wf: "wf_row row" using vuln_invD(3) [OF tracker_reachable_inv [OF assms(1)] assms(2)] .
  obtain until where until: "v_state row \<noteq> CLOSED" "ex_until (v_exception row) = Some until" "now < until"
    using assms(3) unfolding sla_state_accepted_iff by blast
  with wf_rowD(4) [OF wf] obtain signer where "ex_by (v_exception row) = Some signer"
    "\<not> same_person (ex_approved_requested_by (v_exception row)) (Some signer)"
    by (auto simp: signed_def)
  with until wf_rowD(7) [OF wf] show ?thesis by auto
qed

theorem acceptance_is_signed_by_another_witness:
  "sla_state (demo_row demo_accepted) 30 = ''accepted'' \<and>
   (\<exists>signer. ex_by (v_exception (demo_row demo_accepted)) = Some signer \<and>
      \<not> same_person (ex_approved_requested_by (v_exception (demo_row demo_accepted))) (Some signer))"
proof -
  have acc: "sla_state (demo_row demo_accepted) 30 = ''accepted''" using demo_accepted_facts by simp
  then show ?thesis
    using acceptance_is_signed_by_another [OF demo_accepted_reachable demo_accepted_row acc] by blast
qed

end
