(* ===== verification/Closure_Properties.thy ===== *)
theory Closure_Properties
  imports Vuln_Demo
begin

text \<open>
  What a machine's word is worth: when the artifacts of a run count as a re-check, which
  findings the closing loop may close and from where, what the plan of a verification scan
  covers, and to which finding its receipt belongs.
\<close>

section \<open>A re-check\<close>

definition entry_hosts :: "string list \<Rightarrow> detector \<Rightarrow> string list" where
  "entry_hosts hostless e = (if truthy_text (d_host e) then [normalize_host (d_host e)] else hostless)"

definition judged_entries :: "detector list \<Rightarrow> string option \<Rightarrow> detector list" where
  "judged_entries detectors port = (if detectors = [] then [legacy_entry port] else detectors)"

text \<open>
  The specification: every detector of the finding looked again wherever it is held to look,
  except an NSE script another detector stood in for on one of its hosts.
\<close>

definition every_detector_looked ::
  "run_artifacts \<Rightarrow> detector list \<Rightarrow> string option \<Rightarrow> string list \<Rightarrow> bool" where
  "every_detector_looked ra detectors port addresses \<longleftrightarrow>
     (\<forall>e\<in>set (judged_entries detectors port).
        entry_covered ra port (hostless_hosts addresses) e \<or>
        d_detector e = NMAP_NSE \<and>
        (\<exists>other\<in>set (judged_entries detectors port).
           d_detector other \<in> {PULSE, NUCLEI} \<and> entry_covered ra port (hostless_hosts addresses) other \<and>
           set (entry_hosts (hostless_hosts addresses) other) \<inter> set (entry_hosts (hostless_hosts addresses) e) \<noteq> {}))"

lemma assess_entry_hosts: "assess_entry ra port hostless e = (e', hosts, r, w) \<Longrightarrow> hosts = entry_hosts hostless e"
  by (auto simp: assess_entry_def entry_hosts_def Let_def split: if_splits prod.splits)

lemma assess_entry_shape:
  "\<exists>w. assess_entry ra port hostless e = (e, entry_hosts hostless e,
     fst (snd (snd (assess_entry ra port hostless e))), w) \<and>
   (fst (snd (snd (assess_entry ra port hostless e))) = None \<longleftrightarrow> entry_covered ra port hostless e)"
proof (cases "assess_entry ra port hostless e")
  case (fields e' hosts r w)
  then show ?thesis using assess_entry_covered [OF fields] assess_entry_hosts [OF fields] by simp
qed

lemma stand_in_iff:
  "stand_in (map (assess_entry ra port hostless) es) hosts \<noteq> None \<longleftrightarrow>
   (\<exists>other\<in>set es. d_detector other \<in> {PULSE, NUCLEI} \<and> entry_covered ra port hostless other \<and>
      set (entry_hosts hostless other) \<inter> set hosts \<noteq> {})"
proof -
  have one: "(case assess_entry ra port hostless e of (e, other_hosts, r, _) \<Rightarrow> r = None \<and>
      d_detector e \<in> {PULSE, NUCLEI} \<and> list_ex (\<lambda>h. h \<in> set hosts) other_hosts) \<longleftrightarrow>
    d_detector e \<in> {PULSE, NUCLEI} \<and> entry_covered ra port hostless e \<and>
      set (entry_hosts hostless e) \<inter> set hosts \<noteq> {}" for e
  proof (cases "assess_entry ra port hostless e")
    case (fields e' hs r w)
    then show ?thesis using assess_entry_covered [OF fields] assess_entry_hosts [OF fields]
      by (auto simp: list_ex_iff)
  qed
  show ?thesis unfolding stand_in_def by (simp add: find_None_iff one del: insert_iff) blast
qed


section \<open>Closing on a machine's word\<close>

lemma verify_row_frame:
  "v_detectors (fst (verify_row precise now run_id v ra hosts row)) = v_detectors row"
  "v_port (fst (verify_row precise now run_id v ra hosts row)) = v_port row"
  "v_verification_job_id (fst (verify_row precise now run_id v ra hosts row)) = v_verification_job_id row"
  "v_last_seen_run_id (fst (verify_row precise now run_id v ra hosts row)) = v_last_seen_run_id row"
  "v_tenant_id (fst (verify_row precise now run_id v ra hosts row)) = v_tenant_id row"
  "v_asset_id (fst (verify_row precise now run_id v ra hosts row)) = v_asset_id row"
  by (auto simp: verify_row_def verified_row_def send_back_inconclusive_def Let_def
      dest!: drop_exception_modest split: prod.splits if_splits)

lemma closing_evidence_none:
  assumes "closing_evidence precise ra v hosts row = ([], u, waived)"
  shows "fst (assess ra (v_detectors row) (v_port row) hosts) = []"
  using assms by (auto simp: closing_evidence_def Let_def case_prod_beta split: if_splits)

lemma closing_evidence_unreachable:
  assumes "closing_evidence precise ra v hosts row = (gaps, Some ends, waived)"
  shows "same_vantage (v_detectors row) v \<and>
    endpoint_unreachable ra (finding_hosts row hosts) (port_of (v_port row))
      (finding_protocol (v_detectors row)) = Some ends"
  using assms by (auto simp: closing_evidence_def Let_def case_prod_beta split: if_splits)

lemma asset_hosts_frame: "vd_assets d' = vd_assets d \<Longrightarrow> v_asset_id row' = v_asset_id row \<Longrightarrow>
    v_tenant_id row' = v_tenant_id row \<Longrightarrow> asset_hosts d' row' = asset_hosts d row"
  by (simp add: asset_hosts_def split: option.split)



text \<open>
  C16. The closing loop closes a finding as unreachable only when the run looked from the one
  vantage that ever observed it, did not see it, and got a refusal for the finding's TCP port on
  each of its hosts in scans that ran to their end and asked for that port; such a closure
  never claims a machine verified a fix.
\<close>

theorem refusal_closes_only_from_the_observing_vantage:
  assumes "wf_vulns d" "get_vuln d k = Some row" "v_closure_reason row \<noteq> Some ENDPOINT_UNREACHABLE"
    and "get_vuln (close_awaiting precise now t run_id v ra d) k = Some row'"
    and "v_closure_reason row' = Some ENDPOINT_UNREACHABLE"
  shows "same_vantage (v_detectors row) v \<and> v_last_seen_run_id row \<noteq> Some run_id \<and> \<not> v_machine_verified row' \<and>
    finding_hosts row (asset_hosts d row) \<noteq> [] \<and> finding_protocol (v_detectors row) = Some ''tcp'' \<and>
    (\<exists>p. port_of (v_port row) = Some p \<and>
       (\<forall>host\<in>set (finding_hosts row (asset_hosts d row)). refused_there ra p host))"
proof -
  let ?hosts = "asset_hosts d row"
  have row': "row' = fst (verify_row precise now run_id v ra ?hosts row)"
    using assms close_awaiting_get [OF assms(1), of precise now t run_id v ra k] by (auto split: if_splits)
  have reason': "v_closure_reason (fst (verify_row precise now run_id v ra ?hosts row)) = Some ENDPOINT_UNREACHABLE"
    using assms(5) row' by simp
  have not_sent_back: "v_closure_reason (fst (send_back_inconclusive now why dt row)) \<noteq> Some ENDPOINT_UNREACHABLE"
    for why dt using assms(3) by (simp add: send_back_inconclusive_def Let_def)
  obtain gaps ends waived where ce: "closing_evidence precise ra v ?hosts row = (gaps, Some ends, waived)"
    "v_last_seen_run_id row \<noteq> Some run_id"
  proof (cases rule: verify_row_cases [where precise = precise and now = now and run_id = run_id and v = v
        and ra = ra and hosts = ?hosts and row = row])
    case seen
    then show ?thesis using reason' assms(3) by (simp add: verify_row_def Let_def)
  next
    case (unreachable gaps ends waived)
    then show ?thesis using that by blast
  next
    case (inconclusive gaps waived)
    then show ?thesis using reason' not_sent_back by (simp add: verify_row_def)
  next
    case (passed waived)
    then show ?thesis using reason' by (simp add: ENDPOINT_UNREACHABLE_def)
  qed
  then have "\<not> v_machine_verified row'"
    unfolding row' by (auto simp: verify_row_def verified_row_says)
  moreover from closing_evidence_unreachable [OF ce(1)]
  have vantage: "same_vantage (v_detectors row) v"
    and ends: "endpoint_unreachable ra (finding_hosts row ?hosts) (port_of (v_port row))
      (finding_protocol (v_detectors row)) = Some ends" by simp_all
  from ends have "finding_hosts row ?hosts \<noteq> [] \<and> finding_protocol (v_detectors row) = Some ''tcp'' \<and>
      (\<exists>p. port_of (v_port row) = Some p \<and> (\<forall>host\<in>set (finding_hosts row ?hosts). refused_there ra p host))"
    by (auto simp: endpoint_unreachable_def list_all_iff split: option.splits if_splits)
  ultimately show ?thesis using vantage ce(2) by blast
qed

theorem refusal_closes_only_from_the_observing_vantage_witness:
  "same_vantage (v_detectors (demo_row (demo_verifying demo_key))) (Some demo_vantage) \<and>
   v_closure_reason (demo_row (close_awaiting (\<lambda>_. []) 4 ''acme'' ''run_2'' (Some demo_vantage) demo_refusal
     (demo_verifying demo_key))) = Some ENDPOINT_UNREACHABLE"
proof -
  let ?d = "demo_verifying demo_key"
  let ?d' = "close_awaiting (\<lambda>_. []) 4 ''acme'' ''run_2'' (Some demo_vantage) demo_refusal ?d"
  have facts: "map v_vuln_id (vd_rows (demo_verifying key)) = [''vln_1''] \<and>
      map v_closure_reason (vd_rows (demo_verifying key)) = [None] \<and>
      map v_vuln_id (vd_rows (close_awaiting (\<lambda>_. []) 4 ''acme'' ''run_2'' (Some demo_vantage) demo_refusal
        (demo_verifying key))) = [''vln_1''] \<and>
      map v_closure_reason (vd_rows (close_awaiting (\<lambda>_. []) 4 ''acme'' ''run_2'' (Some demo_vantage) demo_refusal
        (demo_verifying key))) = [Some ENDPOINT_UNREACHABLE]" for key
    by code_simp
  have got: "get_vuln ?d ''vln_1'' = Some (demo_row ?d)" "v_closure_reason (demo_row ?d) = None"
    using facts [of demo_key] by (auto simp: demo_row_def get_vuln_def row_get_def)
  have got': "get_vuln ?d' ''vln_1'' = Some (demo_row ?d')" "v_closure_reason (demo_row ?d') = Some ENDPOINT_UNREACHABLE"
    using facts [of demo_key] by (auto simp: demo_row_def get_vuln_def row_get_def)
  have "wf_vulns ?d" by (rule vuln_invD(1) [OF tracker_reachable_inv [OF demo_verifying_reachable]])
  from refusal_closes_only_from_the_observing_vantage [OF this got(1) _ got'] got(2) got'(2) show ?thesis by simp
qed

text \<open>
  An NSE finding without a host is held to every address of the asset, but one address is enough
  to waive it: with a nuclei detector re-checked on the first address, a run that never looked at
  the second leaves no gap, although neither detector's rule is met there.
\<close>

theorem waived_script_misses_an_address:
  "fst (assess demo_artifacts [demo_detector NMAP_NSE (Some ''http-vuln'') None,
        demo_detector NUCLEI (Some ''CVE-2024-1'') (Some ''10.0.0.5'')] (Some ''443'') [''10.0.0.5'', ''10.0.0.6'']) = [] \<and>
   gap_reason demo_artifacts (demo_detector NMAP_NSE (Some ''http-vuln'') None) [''10.0.0.6''] (Some 443) \<noteq> None \<and>
   gap_reason demo_artifacts (demo_detector NUCLEI (Some ''CVE-2024-1'') (Some ''10.0.0.5'')) [''10.0.0.6''] (Some 443) \<noteq> None"
  by code_simp

end
