(* ===== verification/Verification_Properties.thy ===== *)
theory Verification_Properties
  imports Closure_Properties
begin

text \<open>
  The two ends of a verification: the vantages a finding keeps over any number of
  observations, the scan a finding is sent to, and the receipt that parks it.
\<close>

section \<open>Vantages\<close>

lemma cap_subset:
  assumes "distinct xs" "set (take n xs) \<subseteq> K" "finite K" "card K < n"
  shows "set xs \<subseteq> K"
proof (cases "length xs \<le> n")
  case True
  with assms(2) show ?thesis by simp
next
  case False
  then have "card (set (take n xs)) = n" using assms(1) by (simp add: distinct_card)
  moreover have "card (set (take n xs)) \<le> card K" using assms(2,3) by (rule card_mono [rotated])
  ultimately show ?thesis using assms(4) by simp
qed

lemma union_vantages_subset:
  assumes "set (union_vantages vss) \<subseteq> K" "finite K" "card K < MAX_VANTAGES" "vs \<in> set vss"
  shows "set vs \<subseteq> K"
proof -
  have "distinct (foldl add_new [] vss)" by (rule distinct_add_all) simp
  then have "set (foldl add_new [] vss) \<subseteq> K"
    using assms(1-3) cap_subset unfolding union_vantages_def by blast
  then have "(\<Union>vs\<in>set vss. set vs) \<subseteq> K" by (simp add: set_add_all)
  with assms(4) show ?thesis by blast
qed

lemma renewed_subset:
  assumes "set (vantages_of (renewed_entry previous e)) \<subseteq> K" "finite K" "card K < MAX_VANTAGES" "UNKNOWN_VANTAGE \<in> K"
  shows "set (vantages_of e) \<subseteq> K"
    and "old \<in> set previous \<Longrightarrow> replaced_by old e \<Longrightarrow> set (vantages_of old) \<subseteq> K"
proof -
  let ?vss = "vantages_of e # map (\<lambda>old. handed_on old e) (filter (\<lambda>old. replaced_by old e) previous)"
  have "union_vantages ?vss \<noteq> []"
    by (rule union_vantages_nonempty [of "vantages_of e"]) simp_all
  with assms(1) have sub: "set (union_vantages ?vss) \<subseteq> K"
    by (simp add: renewed_entry_def vantages_of_def)
  show "set (vantages_of e) \<subseteq> K"
    by (rule union_vantages_subset [OF sub assms(2,3)]) simp
  assume "old \<in> set previous" "replaced_by old e"
  then have "set (handed_on old e) \<subseteq> K"
    by (intro union_vantages_subset [OF sub assms(2,3)]) simp
  with assms(4) show "set (vantages_of old) \<subseteq> K"
    by (auto simp: handed_on_def split: if_splits)
qed

lemma cap_detectors_subset:
  assumes "observed_vantages (cap_detectors es) \<subseteq> K" "finite K" "card K < MAX_VANTAGES"
  shows "observed_vantages es \<subseteq> K"
proof (cases "length es \<le> MAX_DETECTORS")
  case True
  with assms show ?thesis by (simp add: cap_detectors_def)
next
  case False
  obtain i rest where live: "survivors es = i # rest"
    using survivors_nonempty [of es] False by (cases "survivors es") auto
  let ?lost = "concat (map (\<lambda>i. vantages_of (es ! i)) (filter (\<lambda>i. i \<notin> set (survivors es)) [0..<length es]))"
  let ?union = "union_vantages [vantages_of (es ! i), ?lost]"
  have "?union \<noteq> []"
    by (rule union_vantages_nonempty [of "vantages_of (es ! i)"]) simp_all
  moreover have cap: "cap_detectors es = (es ! i)\<lparr>d_vantages := ?union\<rparr> # map (\<lambda>i. es ! i) rest"
    using False live by (simp add: cap_detectors_def Let_def)
  ultimately have sub: "set ?union \<subseteq> K" "\<forall>j\<in>set rest. set (vantages_of (es ! j)) \<subseteq> K"
    using assms(1) by (simp_all add: observed_vantages_subset vantages_of_def)
  have first: "set (vantages_of (es ! i)) \<subseteq> K" and lost: "set ?lost \<subseteq> K"
    by (rule union_vantages_subset [OF sub(1) assms(2,3)], simp)+
  have "set (vantages_of (es ! j)) \<subseteq> K" if "j < length es" for j
  proof (cases "j \<in> set (survivors es)")
    case True
    with live sub(2) first show ?thesis by auto
  next
    case dead: False
    with that have "set (vantages_of (es ! j)) \<subseteq> set ?lost" by auto
    with lost show ?thesis by blast
  qed
  then show ?thesis unfolding observed_vantages_subset by (metis in_set_conv_nth)
qed

lemma merge_detectors_subset:
  assumes "observed_vantages (merge_detectors existing observed) \<subseteq> K" "finite K" "card K < MAX_VANTAGES"
    "UNKNOWN_VANTAGE \<in> K"
  shows "observed_vantages existing \<subseteq> K \<and> observed_vantages observed \<subseteq> K"
proof -
  from assms(1) have all: "observed_vantages (map (renewed_entry existing) observed @ kept_entries existing observed) \<subseteq> K"
    unfolding merge_detectors_def by (rule cap_detectors_subset [OF _ assms(2,3)])
  then have renewed: "set (vantages_of (renewed_entry existing e)) \<subseteq> K" if "e \<in> set observed" for e
    using that by (simp add: observed_vantages_subset)
  note one = renewed_subset [OF renewed assms(2-4)]
  have "set (vantages_of old) \<subseteq> K" if old: "old \<in> set existing" for old
  proof (cases "old \<in> set (kept_entries existing observed)")
    case True
    with all show ?thesis by (simp add: observed_vantages_subset)
  next
    case False
    then obtain e where "e \<in> set observed" "replaced_by old e" using kept_or_replaced old by blast
    with one(2) old show ?thesis by blast
  qed
  with one(1) show ?thesis unfolding observed_vantages_subset by blast
qed



section \<open>What the re-scan is sent to look at\<close>

lemma verification_plan_OkD:
  assumes "verification_plan exact d row = Ok plan"
  obtains targets where
    "set (vp_ips plan) \<union> set (vp_names plan) = set (plan_hosts (asset_hosts d row) row targets)"
    "vp_template_ids plan = nuclei_refs (v_detectors row)"
proof -
  from assms obtain targets where "exact_targets_of exact row = Ok targets"
    and plan: "set (vp_ips plan) = set (filter plan_is_ip (plan_hosts (asset_hosts d row) row targets))"
      "set (vp_names plan) = set (filter (\<lambda>h. \<not> plan_is_ip h) (plan_hosts (asset_hosts d row) row targets))"
      "vp_template_ids plan = nuclei_refs (v_detectors row)"
    by (auto simp: verification_plan_def bindE_Ok_iff Let_def sorted_set_def split: if_splits)
  then show thesis by (intro that [of targets]) auto
qed

lemma normalize_strip: "normalize_host (Some (strip h)) = normalize_host (Some h)"
  by (simp add: normalize_host_def or_else_def strip_idem)

lemma hostless_covered:
  assumes "\<forall>a\<in>set addresses. plan_is_ip a \<longleftrightarrow> is_ip (normalize_host (Some a))"
    and "set (if filter plan_is_ip addresses \<noteq> [] then filter plan_is_ip addresses else addresses) \<subseteq> T"
  shows "set (hostless_hosts addresses) \<subseteq> (\<lambda>t. normalize_host (Some t)) ` T"
proof -
  have "filter is_ip (map (\<lambda>h. normalize_host (Some h)) (filter (\<lambda>h. h \<noteq> []) addresses)) =
    map (\<lambda>h. normalize_host (Some h)) (filter (\<lambda>h. h \<noteq> [] \<and> plan_is_ip h) addresses)"
    using assms(1) by (induction addresses) auto
  moreover have "\<not> plan_is_ip []" by code_simp
  then have "filter (\<lambda>h. h \<noteq> [] \<and> plan_is_ip h) addresses = filter plan_is_ip addresses"
    by (metis (mono_tags, lifting) filter_cong)
  ultimately show ?thesis
    using assms(2) by (auto simp: hostless_hosts_def Let_def split: if_splits)
qed



section \<open>The receipt\<close>



end
