(* ===== verification/Acceptance_Properties.thy ===== *)
theory Acceptance_Properties
  imports Closure_Properties
begin

text \<open>
  Accepted risk over the life of a finding: which step of which service can make a window or a
  machine verification appear, how a lapsed window is recorded, and two ways in which a
  closing path leaves more of an acceptance behind than it means to.
\<close>

section \<open>What a step can claim\<close>

lemma escalate_modest:
  assumes "escalate now d t k who team b = (d', res)"
  shows "tracker_claims_nothing d d'"
proof (cases "load d (Some t) k")
  case (Some row)
  then have got: "get_vuln d (v_vuln_id row) = Some row" by (auto simp: load_Some_iff dest: get_vuln_mem)
  obtain row' changed where out: "escalated_row row who team b = (row', changed)" by fastforce
  then have "claims_nothing row (row'\<lparr>v_updated_at := now\<rparr>)"
    by (auto simp: escalated_row_def Let_def claims_nothing_def split: if_splits)
  with got have "tracker_claims_nothing d (commit_row d (row'\<lparr>v_updated_at := now\<rparr>, evs, au))" for evs au
    by (rule commit_claims_nothing)
  then show ?thesis using assms Some out by (auto simp: escalate_def Let_def split: if_splits)
qed (use assms in \<open>simp add: escalate_def\<close>)

lemma receipt_modest:
  assumes "verification_receipt intent_key now d t k job_id key actor = Ok (d', res)"
  shows "tracker_claims_nothing d d'"
proof -
  from assms obtain row where row: "load d (Some t) k = Some row"
    and d': "d' = commit_row d (receipt_row now job_id actor row)"
    by (auto simp: verification_receipt_def Let_def split: option.splits if_splits)
  from row have "get_vuln d (v_vuln_id row) = Some row" by (auto simp: load_Some_iff dest: get_vuln_mem)
  then show ?thesis unfolding d' receipt_row_def Let_def
    by (rule commit_claims_nothing) (simp add: claims_nothing_def)
qed

lemma step_claims [consumes 2, case_names nothing approved ran patched]:
  assumes "vuln_step d d'" "vuln_inv d"
  obtains "tracker_claims_nothing d d'"
  | now t k actor why res where "approve_exception now d t k actor why = Ok (d', res)"
  | precise now er t run_id pub present v ra obs where
      "register_findings_from_run precise er now d t run_id pub present v ra obs = Ok d'"
      "distinct (map ob_new_id obs)" "\<forall>ob\<in>set obs. ob_new_id ob \<notin> known_ids d"
  | now at sv dt note' t k res where "on_software_row d t k (software_close now at sv dt note') = Ok (d', res)"
  using assms(1)
proof cases
  case request
  then show ?thesis
    by (intro that(1)) (auto simp: request_exception_def Let_def split: if_splits intro: request_modest.on_row_modest)
next
  case withdraw
  then show ?thesis unfolding withdraw_exception_request_def by (intro that(1)) (rule withdraw_modest.on_row_modest)
next
  case approve
  then show ?thesis by (rule that(2))
next
  case reject
  then show ?thesis unfolding reject_exception_def by (intro that(1)) (rule reject_modest.on_row_modest)
next
  case clear
  then show ?thesis unfolding clear_exception_def by (intro that(1)) (rule clear_modest.on_row_modest)
next
  case expire
  then show ?thesis using expire_modest [OF vuln_invD(1) [OF assms(2)]] that(1) by blast
next
  case mark
  then show ?thesis
    by (intro that(1)) (auto simp: mark_false_positive_def Let_def split: if_splits intro: mark_modest.on_row_modest)
next
  case unmark
  then show ?thesis unfolding clear_false_positive_def by (intro that(1)) (rule unmark_modest.on_row_modest)
next
  case move
  then show ?thesis unfolding transition_def by (intro that(1)) (rule transition_modest.on_row_modest)
next
  case assign
  then show ?thesis unfolding assign_def by (intro that(1)) (rule assign_modest.on_row_modest)
next
  case comment
  then show ?thesis
    by (intro that(1)) (auto simp: add_comment_def Let_def split: if_splits intro: comment_modest.on_row_modest)
next
  case link
  then show ?thesis
    by (intro that(1)) (auto simp: set_ticket_def Let_def split: if_splits intro: link_modest.on_row_modest)
next
  case unlink
  then show ?thesis unfolding clear_ticket_def by (intro that(1)) (rule unlink_modest.on_row_modest)
next
  case sync
  then show ?thesis unfolding apply_ticket_status_def by (intro that(1)) (rule ticket_modest.on_row_modest)
next
  case escalated
  then show ?thesis using escalate_modest that(1) by blast
next
  case receipt
  then show ?thesis using receipt_modest that(1) by blast
next
  case release
  then show ?thesis using release_modest [OF vuln_invD(1) [OF assms(2)]] that(1) by blast
next
  case run
  then show ?thesis by (rule that(3))
next
  case (software_new now at t ob a dt)
  then obtain n source evs where "d' = insert_vuln d (new_software_finding now at t ob a n source) evs"
    by (auto simp: software_create_def bindE_Ok_iff Let_def split: prod.splits)
  with software_new show ?thesis
    by (intro that(1)) (auto intro!: insert_modest simp: new_software_finding_def)
next
  case software_again
  then show ?thesis unfolding on_software_row_eq by (intro that(1)) (rule software_modest.on_row_modest)
next
  case software_gone
  then show ?thesis by (rule that(4))
next
  case elsewhere
  then show ?thesis using frame_claims_nothing that(1) by blast
qed

section \<open>Where a window comes from\<close>

lemma get_commit:
  assumes "load d t k = Some row" "v_vuln_id row' = v_vuln_id row"
  shows "get_vuln (commit_row d (row', evs, au)) j = (if j = k then Some row' else get_vuln d j)"
proof -
  have "get_vuln d k = Some row" "v_vuln_id row = k"
    using assms(1) by (auto simp: load_Some_iff dest: get_vuln_mem)
  then show ?thesis using assms(2) by (simp add: vuln_table.get_put)
qed

lemma approve_row_facts:
  assumes "approve_row now actor why row = Ok (row', evs, au)"
  shows "v_vuln_id row' = v_vuln_id row \<and> ex_requested_until (v_exception row) = ex_until (v_exception row') \<and>
    \<not> same_person (ex_requested_by (v_exception row)) (Some actor) \<and> v_machine_verified row' = v_machine_verified row \<and>
    (\<exists>until. ex_until (v_exception row') = Some until \<and> now < until)"
  using assms by (auto simp: approve_row_def Let_def bindE_Ok_iff split: if_splits option.splits)

lemma software_row_window:
  assumes "software_row (software_close now at sv dt why) row = Ok (row', evs, au)"
  shows "v_vuln_id row' = v_vuln_id row \<and>
    (ex_until (v_exception row') = None \<or> ex_until (v_exception row') = ex_until (v_exception row))"
  using assms by (auto simp: software_row_def software_close_def Let_def split: if_splits)

lemma verify_row_window:
  "ex_until (v_exception (fst (verify_row precise now run_id v ra hosts row))) = None \<or>
   ex_until (v_exception (fst (verify_row precise now run_id v ra hosts row))) = ex_until (v_exception row)"
  by (cases rule: verify_row_cases [where precise = precise and now = now and run_id = run_id and v = v
        and ra = ra and hosts = hosts and row = row]) (auto simp: claims_nothing_def)

lemma run_window:
  assumes "vuln_inv d"
    and "register_findings_from_run precise er now d t run_id pub present v ra obs = Ok d'"
    and "distinct (map ob_new_id obs)" "\<forall>ob\<in>set obs. ob_new_id ob \<notin> known_ids d"
    and "get_vuln d' k = Some row'" "ex_until (v_exception row') = Some until"
  shows "\<exists>row. get_vuln d k = Some row \<and> ex_until (v_exception row) = Some until"
proof -
  consider "d' = d" | d2 where "vuln_inv d2" "tracker_claims_nothing d d2"
      "d' = close_awaiting precise now t run_id v ra d2"
    by (rule register_split [OF assms(1,2,3)]) (use assms(4) in auto)
  then show ?thesis
  proof cases
    case 1
    then show ?thesis using assms(5,6) by blast
  next
    case (2 d2)
    from assms(5) 2(3) close_awaiting_get [OF vuln_invD(1) [OF 2(1)]]
    obtain row2 where row2: "get_vuln d2 k = Some row2"
      and "row' = row2 \<or> row' = fst (verify_row precise now run_id v ra (asset_hosts d2 row2) row2)"
      by (auto split: option.splits if_splits)
    then have until: "ex_until (v_exception row2) = Some until"
      using assms(6) verify_row_window [of precise now run_id v ra "asset_hosts d2 row2" row2] by auto
    show ?thesis
    proof (cases "get_vuln d k")
      case None
      then show ?thesis using tracker_claims_new [OF 2(2) row2] until by simp
    next
      case (Some row)
      then show ?thesis using tracker_claims_old [OF 2(2) row2] until by (auto simp: claims_nothing_def)
    qed
  qed
qed

text \<open>
  C12. A window never appears by itself. Whatever step of whatever service a reachable tracker
  takes, a finding carrying an acceptance until some day either carried that very window
  before, or the step is the approval of a request for exactly that day, which had not
  passed, by a person other than the one who had filed it.
\<close>

theorem window_is_granted_by_approval:
  assumes "tracker_reachable d" "vuln_step d d'"
    and "get_vuln d' k = Some row'" "ex_until (v_exception row') = Some until"
  shows "(\<exists>row. get_vuln d k = Some row \<and> ex_until (v_exception row) = Some until) \<or>
    (\<exists>now t actor why res row. approve_exception now d t k actor why = Ok (d', res) \<and>
       get_vuln d k = Some row \<and> ex_requested_until (v_exception row) = Some until \<and> now < until \<and>
       \<not> same_person (ex_requested_by (v_exception row)) (Some actor))"
proof -
  note inv = tracker_reachable_inv [OF assms(1)]
  show ?thesis using assms(2) inv
  proof (cases rule: step_claims)
    case nothing
    then have claims: "tracker_claims_nothing d d'" by assumption
    show ?thesis
      using tracker_claims_new [OF claims assms(3)] tracker_claims_old [OF claims assms(3)] assms(4)
      by (cases "get_vuln d k") (auto simp: claims_nothing_def)
  next
    case (approved now t j actor why res)
    note step = approved
    from approved [unfolded approve_exception_def] show ?thesis
    proof (cases rule: on_row_cases)
      case absent
      then show ?thesis using assms(3,4) by blast
    next
      case (written row row1 evs au)
      note facts = approve_row_facts [OF written(2)]
      have get: "get_vuln d' k = (if k = j then Some row1 else get_vuln d k)"
        unfolding written(3) using get_commit [OF written(1)] facts by simp
      show ?thesis
      proof (cases "k = j")
        case True
        then have "row' = row1" using assms(3) get by simp
        then have "ex_requested_until (v_exception row) = Some until" "now < until"
          "\<not> same_person (ex_requested_by (v_exception row)) (Some actor)"
          using facts assms(4) by auto
        moreover have "get_vuln d k = Some row" using written(1) True by (simp add: load_Some_iff)
        ultimately show ?thesis using step [folded True] by blast
      next
        case False
        then show ?thesis using assms(3,4) get by auto
      qed
    qed
  next
    case (ran precise now er t run_id pub present v ra obs)
    from run_window [OF inv ran assms(3,4)] show ?thesis by blast
  next
    case (patched now at sv dt why t j res)
    from patched [unfolded on_software_row_eq] show ?thesis
    proof (cases rule: on_row_cases)
      case absent
      then show ?thesis using assms(3,4) by blast
    next
      case (written row row1 evs au)
      note facts = software_row_window [OF written(2)]
      have "get_vuln d' k = (if k = j then Some row1 else get_vuln d k)" "get_vuln d j = Some row"
        unfolding written(3) using get_commit [OF written(1)] facts written(1) by (simp_all add: load_Some_iff)
      then show ?thesis using assms(3,4) facts by (auto split: if_splits)
    qed
  qed
qed

theorem window_is_granted_by_approval_witness:
  "\<exists>now t actor why res row. approve_exception now demo_asked t ''vln_1'' actor why = Ok (demo_accepted, res) \<and>
     get_vuln demo_asked ''vln_1'' = Some row \<and> ex_requested_until (v_exception row) = Some (days 60) \<and>
     \<not> same_person (ex_requested_by (v_exception row)) (Some actor)"
proof -
  have facts: "map (\<lambda>r. (v_vuln_id r, ex_until (v_exception r))) (vd_rows demo_asked) = [(''vln_1'', None)] \<and>
      map (\<lambda>r. (v_vuln_id r, ex_until (v_exception r))) (vd_rows demo_accepted) = [(''vln_1'', Some (days 60))]"
    by code_simp
  then obtain row where row: "get_vuln demo_accepted ''vln_1'' = Some row" "ex_until (v_exception row) = Some (days 60)"
    by (auto simp: get_vuln_def row_get_def map_eq_Cons_conv)
  have step: "vuln_step demo_asked demo_accepted"
    using demo_acceptance(2) vuln_step.approve by blast
  have "\<not> (\<exists>row. get_vuln demo_asked ''vln_1'' = Some row \<and> ex_until (v_exception row) = Some (days 60))"
    using facts by (auto simp: get_vuln_def row_get_def map_eq_Cons_conv)
  with window_is_granted_by_approval [OF demo_asked_reachable step row] show ?thesis by blast
qed

section \<open>A window that lapses\<close>

lemma lapse_row_id [simp]: "v_vuln_id (fst (lapse_row now row)) = v_vuln_id row"
  by (simp add: lapse_row_def Let_def)

lemma lapse_row_recorded [simp]: "\<not> lapsed_unrecorded now' t (fst (lapse_row now row))"
  by (simp add: lapse_row_def lapsed_unrecorded_def Let_def)

lemma expire_get:
  assumes "wf_vulns d" "length (filter (lapsed_unrecorded now t) (vd_rows d)) \<le> limit"
  shows "get_vuln (fst (expire_exceptions now t limit d)) k =
    (case get_vuln d k of None \<Rightarrow> None
     | Some row \<Rightarrow> Some (if lapsed_unrecorded now t row then fst (lapse_row now row) else row))"
proof -
  have rows: "set (swept_rows now t limit d) = set (filter (lapsed_unrecorded now t) (vd_rows d))"
    using assms(2) by (simp add: swept_rows_def)
  have "get_vuln (fst (expire_exceptions now t limit d)) k =
    (case get_vuln d k of None \<Rightarrow> None
     | Some row \<Rightarrow> Some (if row \<in> set (swept_rows now t limit d) then fst (lapse_row now row) else row))"
    unfolding expire_exceptions_def Let_def fst_conv
    by (rule sweep_get [OF swept_distinct(1) [OF assms(1)]])
       (use swept_distinct(2) [OF assms(1)] in simp_all)
  then show ?thesis by (auto simp: rows dest: get_vuln_mem split: option.splits)
qed

text \<open>
  The sweep records the end of an acceptance once. With room for all of them it counts exactly
  the open findings whose window has passed and was not yet recorded, changes those and no
  others (the moment is noted; deadline, window and signature stay), and a second sweep by the
  same clock finds nothing left.
\<close>

theorem lapse_is_recorded_once:
  assumes "tracker_reachable d" "length (filter (lapsed_unrecorded now t) (vd_rows d)) \<le> limit"
    and "expire_exceptions now t limit d = (d', n)"
  shows "n = length (filter (lapsed_unrecorded now t) (vd_rows d)) \<and>
    (\<forall>k. get_vuln d' k = map_option (\<lambda>row. if lapsed_unrecorded now t row then fst (lapse_row now row) else row)
       (get_vuln d k)) \<and>
    expire_exceptions now t limit' d' = (d', 0)"
proof -
  note inv = tracker_reachable_inv [OF assms(1)]
  have d': "d' = fst (expire_exceptions now t limit d)" using assms(3) by simp
  have get: "get_vuln d' k = map_option (\<lambda>row. if lapsed_unrecorded now t row then fst (lapse_row now row) else row)
      (get_vuln d k)" for k
    unfolding d' expire_get [OF vuln_invD(1) [OF inv] assms(2)] by (simp split: option.split)
  have "wf_vulns d'" using expire_inv [OF inv assms(3)] by (rule vuln_invD(1))
  then have "\<not> lapsed_unrecorded now t row" if "row \<in> set (vd_rows d')" for row
  proof -
    have "get_vuln d' (v_vuln_id row) = Some row"
      using \<open>wf_vulns d'\<close> that by (simp add: get_vuln_iff)
    then obtain old where "row = (if lapsed_unrecorded now t old then fst (lapse_row now old) else old)"
      unfolding get by auto
    then show ?thesis using lapse_row_recorded by simp
  qed
  then have "filter (lapsed_unrecorded now t) (vd_rows d') = []" by (simp add: filter_empty_conv)
  then have "expire_exceptions now t limit' d' = (d', 0)"
    by (simp add: expire_exceptions_def swept_rows_def)
  moreover have "n = length (filter (lapsed_unrecorded now t) (vd_rows d))"
    using assms(2,3) by (auto simp: expire_exceptions_def swept_rows_def Let_def)
  ultimately show ?thesis using get by blast
qed

theorem lapse_is_recorded_once_witness:
  "snd (expire_exceptions (days 61) None 50 demo_accepted) = 1 \<and>
   expire_exceptions (days 61) None 50 (fst (expire_exceptions (days 61) None 50 demo_accepted))
     = (fst (expire_exceptions (days 61) None 50 demo_accepted), 0)"
proof -
  have "map (lapsed_unrecorded (days 61) None) (vd_rows demo_accepted) = [True]" by code_simp
  then have one: "length (filter (lapsed_unrecorded (days 61) None) (vd_rows demo_accepted)) = 1"
    by (auto simp: map_eq_Cons_conv)
  then have "length (filter (lapsed_unrecorded (days 61) None) (vd_rows demo_accepted)) \<le> 50" by simp
  from lapse_is_recorded_once [OF demo_accepted_reachable this prod.collapse [symmetric]] one show ?thesis by simp
qed

section \<open>What two closing paths leave behind\<close>

definition demo_patched_verdict :: snapshot_verdict where
  "demo_patched_verdict = \<lparr>sv_seen = False, sv_still_vulnerable = False, sv_assessment_possible = True,
     sv_coverage_unknown = False, sv_unknown_key = False, sv_rpm_device = False, sv_rpm_incomplete = False,
     sv_confirmed_key = False\<rparr>"

definition demo_software_asked :: vulnerability where
  "demo_software_asked = (demo_row demo_asked)\<lparr>v_source := SOFTWARE_SOURCE\<rparr>"

text \<open>
  C39. The closure of a software finding by an inventory snapshot does not erase a request that is
  still pending, although every closing path is meant to: on the closed finding another person
  can grant it, and when a later snapshot matches the package again the reopened finding reads
  as accepted until that day.
\<close>

theorem patched_close_keeps_request:
  assumes "closure_possible at sv row" "ex_state (v_exception row) = EXCEPTION_REQUESTED"
    and "ex_requested_until (v_exception row) = Some until" "now2 < until"
    and "\<not> same_person (ex_requested_by (v_exception row)) (Some actor)"
    and "software_close now at sv dt why row = Ok (closed, evs, au)"
  shows "v_state closed = CLOSED \<and>
    (\<exists>granted evs2 au2. approve_row now2 actor why2 closed = Ok (granted, evs2, au2) \<and> v_state granted = CLOSED \<and>
       sla_state (fst (software_reopened now3 at3 outcome n source dt2 granted)) now2 = ''accepted'')"
proof -
  have closed: "v_state closed = CLOSED" "ex_state (v_exception closed) = EXCEPTION_REQUESTED"
    "ex_requested_until (v_exception closed) = Some until"
    "ex_requested_by (v_exception closed) = ex_requested_by (v_exception row)"
    using assms(1,2,3,6) by (auto simp: software_close_def Let_def split: if_splits)
  have check: "check_exception_transition k EXCEPTION_REQUESTED EXCEPTION_APPROVED = Ok ()" for k
    by (simp add: check_exception_transition_def can_transition_exception_def EXCEPTION_TRANSITIONS_def or_none_def
        EXCEPTION_NONE_def EXCEPTION_REQUESTED_def EXCEPTION_APPROVED_def EXCEPTION_REJECTED_def EXCEPTION_EXPIRED_def)
  then have "\<exists>granted evs2 au2. approve_row now2 actor why2 closed = Ok (granted, evs2, au2) \<and>
      v_state granted = CLOSED \<and> ex_until (v_exception granted) = Some until"
    using closed assms(4,5) by (simp add: approve_row_def Let_def check)
  then obtain granted evs2 au2 where granted: "approve_row now2 actor why2 closed = Ok (granted, evs2, au2)"
    "v_state granted = CLOSED" "ex_until (v_exception granted) = Some until" by blast
  have "v_state (fst (software_reopened now3 at3 outcome n source dt2 granted)) = OPEN"
    "v_due_at (fst (software_reopened now3 at3 outcome n source dt2 granted)) \<noteq> None"
    "v_exception (fst (software_reopened now3 at3 outcome n source dt2 granted)) = v_exception granted"
    by (auto simp: software_reopened_def Let_def dest!: drop_fp_modest split: prod.split)
  then have "sla_state (fst (software_reopened now3 at3 outcome n source dt2 granted)) now2 = ''accepted''"
    using granted(3) assms(4) by (auto simp: sla_state_def vuln_state_defs)
  with closed(1) granted(1,2) show ?thesis by blast
qed

theorem patched_close_keeps_request_witness:
  "\<exists>closed evs au. software_close 11 11 demo_patched_verdict [] ''gone'' demo_software_asked = Ok (closed, evs, au) \<and>
     v_state closed = CLOSED \<and> (\<exists>granted evs2 au2. approve_row 12 ''bob'' None closed = Ok (granted, evs2, au2))"
proof -
  have facts: "closure_possible 11 demo_patched_verdict demo_software_asked \<and>
      ex_state (v_exception demo_software_asked) = EXCEPTION_REQUESTED \<and>
      ex_requested_until (v_exception demo_software_asked) = Some (days 60) \<and> 12 < days 60 \<and>
      \<not> same_person (ex_requested_by (v_exception demo_software_asked)) (Some ''bob'')"
    by code_simp
  then obtain closed evs au where
    closed: "software_close 11 11 demo_patched_verdict [] ''gone'' demo_software_asked = Ok (closed, evs, au)"
    by (simp add: software_close_def Let_def)
  from patched_close_keeps_request [OF _ _ _ _ _ this, of "days 60" 12 "''bob''"] facts closed show ?thesis by blast
qed

text \<open>
  C40. When an acceptance in force is dropped because a verification found the port refused, and a
  run sees the finding again within the window of such a closure, the finding is open with no
  acceptance but with the deadline of the dropped acceptance, labelled as if one were in force.
\<close>

theorem clock_continues_on_dropped_window:
  assumes "v_due_at row = Some until" "v_sla_source row = Some ''exception''" "ex_until (v_exception row) \<noteq> None"
    and "v_closure_reason (fst (verify_row precise now run_id v ra hosts row)) = Some ENDPOINT_UNREACHABLE"
    and "v_closure_reason row = None"
    and "now2 - now \<le> days UNREACHABLE_WINDOW_MIN_DAYS"
  shows "let (again, ev) = regressed_row now2 run_id2 outcome n source (fst (verify_row precise now run_id v ra hosts row))
    in v_state again = OPEN \<and> v_exception again = no_exception \<and> v_due_at again = Some until \<and>
       v_sla_source again = Some ''exception''"
proof -
  obtain why dt where vr: "verify_row precise now run_id v ra hosts row =
      verified_row now run_id v row False ''endpoint_unreachable'' Verification_unreachable why dt"
    using assms(4,5)
    by (auto simp: verify_row_def send_back_inconclusive_def verified_row_says ENDPOINT_UNREACHABLE_def Let_def
        split: if_splits prod.splits)
  let ?row1 = "row\<lparr>v_state := CLOSED, v_state_changed_at := now, v_state_changed_by := Some ''system:verification'',
     v_closed_at := Some now, v_last_verified_at := Some now, v_machine_verified := False,
     v_closure_reason := Some ''endpoint_unreachable''\<rparr>"
  have "fst (drop_exception ?row1) = ?row1\<lparr>v_exception := no_exception\<rparr>"
    by (rule drop_exception_erases(1)) (simp add: assms(3))
  then have closed: "fst (verify_row precise now run_id v ra hosts row)
      = ?row1\<lparr>v_exception := no_exception, v_updated_at := now\<rparr>"
    unfolding vr verified_row_def by (cases "drop_exception ?row1") (simp add: Let_def)
  have window: "days UNREACHABLE_WINDOW_MIN_DAYS \<le> days (max m UNREACHABLE_WINDOW_MIN_DAYS)" for m
    by (simp add: days_def)
  have "continue_clock now2 n (?row1\<lparr>v_exception := no_exception, v_updated_at := now\<rparr>)"
    using order_trans [OF assms(6) window] by (simp add: continue_clock_def ENDPOINT_UNREACHABLE_def)
  then show ?thesis
    unfolding closed using assms(1,2)
    by (simp add: regressed_row_def Let_def drop_fp_verdict_on_reopen_def FALSE_POSITIVE_def)
qed

definition demo_accepted_verifying :: vulnerability where
  "demo_accepted_verifying = (demo_row demo_accepted)\<lparr>v_state := VERIFYING\<rparr>"

theorem clock_continues_on_dropped_window_witness:
  "v_due_at (fst (regressed_row 31 ''run_3'' Fp_none 30 ''default'' (fst (verify_row (\<lambda>_. []) 30 ''run_2''
     (Some demo_vantage) demo_refusal [''10.0.0.5''] demo_accepted_verifying)))) = Some (days 60)"
proof -
  have "v_due_at demo_accepted_verifying = Some (days 60) \<and> v_sla_source demo_accepted_verifying = Some ''exception'' \<and>
      ex_until (v_exception demo_accepted_verifying) \<noteq> None \<and> v_closure_reason demo_accepted_verifying = None"
    by code_simp
  moreover have "v_closure_reason (fst (verify_row (\<lambda>_. []) 30 ''run_2'' (Some demo_vantage) demo_refusal [''10.0.0.5'']
      demo_accepted_verifying)) = Some ENDPOINT_UNREACHABLE"
    by code_simp
  moreover have "(31 :: int) - 30 \<le> days UNREACHABLE_WINDOW_MIN_DAYS" by code_simp
  ultimately show ?thesis
    using clock_continues_on_dropped_window [of demo_accepted_verifying "days 60" "\<lambda>_. []" 30 "''run_2''"
        "Some demo_vantage" demo_refusal "[''10.0.0.5'']" 31 "''run_3''" Fp_none 30 "''default''"]
    by (simp add: case_prod_beta)
qed

end
