(* ===== verification/Verdict_Properties.thy ===== *)
theory Verdict_Properties
  imports Vuln_Demo
begin

text \<open>
  Outside evidence and the decisions already taken on a finding: a false-positive verdict against
  a re-observation, a publication that arrives twice, a ticket status that was already
  acted on, and the deadlines a tenant's policies give.
\<close>

section \<open>False positives\<close>

lemma weigh_held:
  assumes "fp_suppressed row now" "fp_escalations row latest = []"
  shows "\<exists>evs. weigh_fp_verdict now row latest dt =
    (Fp_held, row\<lparr>v_fp := (v_fp row)\<lparr>fp_observations := fp_observations (v_fp row) + 1\<rparr>\<rparr>, evs)"
  using assms by (simp add: weigh_fp_verdict_def Let_def)

lemma weigh_overridden:
  assumes "fp_suppressed row now" "fp_escalations row latest \<noteq> []"
  shows "\<exists>evs. weigh_fp_verdict now row latest dt = (Fp_overridden_now, row, evs)"
  using assms by (simp add: weigh_fp_verdict_def Let_def)

lemma regressed_drops_verdict:
  assumes "v_closure_reason row = Some FALSE_POSITIVE"
  shows "v_state (fst (regressed_row now run_id outcome n source row)) = OPEN \<and>
    v_fp (fst (regressed_row now run_id outcome n source row)) = no_fp \<and>
    v_due_at (fst (regressed_row now run_id outcome n source row)) = Some (now + days n)"
  using assms
  by (simp add: regressed_row_def continue_clock_def drop_fp_verdict_on_reopen_def clear_fp_def Let_def
      FALSE_POSITIVE_def ENDPOINT_UNREACHABLE_def)

lemma seen_again_held:
  "seen_again now run_id d er ob a re Fp_held row = Ok (row', evs) \<Longrightarrow>
     v_state row' = v_state row \<and> v_closure_reason row' = v_closure_reason row \<and>
     v_due_at row' = v_due_at row \<and> v_fp row' = v_fp row"
  by (auto simp: seen_again_def Let_def)

lemma seen_again_regresses:
  assumes "seen_again now run_id d er ob a False Fp_overridden_now row = Ok (row', evs)" "v_state row = CLOSED"
  shows "\<exists>row4 n source. v_closure_reason row4 = v_closure_reason row \<and>
    row' = fst (regressed_row now run_id Fp_overridden_now n source row4)"
proof -
  define row1 where "row1 = row\<lparr>v_assessment := ob_latest ob\<rparr>"
  define row3 where "row3 = row1\<lparr>v_last_seen_at := now, v_last_seen_run_id := Some run_id,
     v_detectors := merge_detectors (v_detectors row1) (ob_detectors ob),
     v_finding_evidence := er_merge er (v_finding_evidence row1) (ob_evidence ob),
     v_observation_count := v_observation_count row1 + 1, v_updated_at := now\<rparr>"
  define row4 where "row4 = (if v_source row3 = ''retro_match''
     then row3\<lparr>v_source := ''scan'', v_match_confidence := None\<rparr> else row3)"
  have same: "v_closure_reason row4 = v_closure_reason row" "v_state row4 = CLOSED"
    by (simp_all add: row4_def row3_def row1_def assms(2))
  have "(if Fp_overridden_now = Fp_held then Ok (row4, [])
         else if v_state row4 = CLOSED
         then bindE (resolve_sla_days d (v_tenant_id row4) (as_severity (ob_latest ob))
                       (at_asset_criticality a)) (\<lambda>(n, source).
                case regressed_row now run_id Fp_overridden_now n source row4 of (row5, ev) \<Rightarrow> Ok (row5, [ev]))
         else Ok (row4, [record_event row4 Observed now None (Some (v_state row4)) None None
                    [(''run_id'', JStr run_id), (''severity'', JStr (as_severity (ob_latest ob)))]]))
       = Ok (row', evs)"
    using assms(1) unfolding seen_again_def Let_def row4_def row3_def row1_def if_False .
  with same(2) obtain n source where "row' = fst (regressed_row now run_id Fp_overridden_now n source row4)"
    by (auto simp: bindE_Ok_iff case_prod_beta)
  then show ?thesis using same(1) by blast
qed


definition demo_marked :: vulnerability where
  "demo_marked = demo_row (or_same_row demo_seen (mark_false_positive 10 demo_seen (Some ''acme'') ''vln_1''
     (Some ''test page'') 90 [] (Some ''ann'')))"


section \<open>Publications\<close>

lemma observe_one_marks: "observe_one now t run_id er d ob = Ok d' \<Longrightarrow> vd_marks d' = vd_marks d"
  by (auto simp: observe_one_def bindE_Ok_iff Let_def insert_vuln_def split: option.splits if_splits prod.splits)

lemma observe_all_marks: "observe_all now t run_id er d obs = Ok d' \<Longrightarrow> vd_marks d' = vd_marks d"
proof (induction obs arbitrary: d)
  case (Cons ob obs)
  then show ?case using observe_one_marks by (fastforce simp: bindE_Ok_iff)
qed simp

lemma close_awaiting_marks: "vd_marks (close_awaiting precise now t run_id v ra d) = vd_marks d"
proof -
  have "vd_marks (foldl (\<lambda>d row. commit_row d (g d row)) d rows) = vd_marks d" for g rows
    by (induction rows arbitrary: d) simp_all
  then show ?thesis by (simp add: close_awaiting_def Let_def)
qed

text \<open>
  A publication feeds the tracker once: after a run's publication was folded in, the same
  publication delivered again, by whatever worker, with whatever it contains and whatever has
  happened to the findings meanwhile, changes nothing, as long as its mark is kept.
\<close>

theorem publication_folds_once:
  assumes "register_findings_from_run precise er now d t run_id (Some p) present v ra obs = Ok d1"
    and "obs \<noteq> [] \<or> present"
    and "row_get pm_publication_id (vd_marks d2) p = row_get pm_publication_id (vd_marks d1) p"
  shows "register_findings_from_run precise2 er2 now2 d2 t2 run_id2 (Some p) present2 v2 ra2 obs2 = Ok d2"
proof -
  obtain d0 fresh where fp: "first_pass d (Some p) ''findings'' = (d0, fresh)" by fastforce
  have "snd (first_pass d1 (Some p) ''findings'') = False"
  proof (cases fresh)
    case False
    with assms(1,2) fp have "d1 = d" by (auto simp: register_findings_from_run_def)
    then show ?thesis using fp False by simp
  next
    case True
    with assms(1,2) fp obtain d3 where "observe_all now t run_id er d0 obs = Ok d3"
      "d1 = close_awaiting precise now t run_id v ra d3"
      by (auto simp: register_findings_from_run_def bindE_Ok_iff split: if_splits)
    then have "vd_marks d1 = vd_marks d0" using observe_all_marks close_awaiting_marks by simp
    moreover from fp True obtain m where "row_get pm_publication_id (vd_marks d) p = Some m"
      "d0 = d\<lparr>vd_marks := row_put pm_publication_id (vd_marks d) (m\<lparr>pm_projected := pm_projected m @ [''findings'']\<rparr>)\<rparr>"
      by (auto simp: first_pass_def split: option.splits if_splits)
    moreover from this(1) have "pm_publication_id m = p" by (rule row_get_key)
    ultimately show ?thesis by (simp add: first_pass_def row_get_put)
  qed
  then have "first_pass d2 (Some p) ''findings'' = (d2, False)"
    using assms(3) by (auto simp: first_pass_def split: option.splits if_splits)
  then show ?thesis by (simp add: register_findings_from_run_def)
qed

definition demo_published :: vuln_db where
  "demo_published = demo_installed\<lparr>vd_marks :=
     [\<lparr>pm_publication_id = ''pub_1'', pm_tenant_id = ''acme'', pm_run_id = ''run_1'', pm_projected = []\<rparr>]\<rparr>"

theorem publication_folds_once_witness:
  "\<exists>d1. register_findings_from_run (\<lambda>_. []) demo_rules 0 demo_published ''acme'' ''run_1'' (Some ''pub_1'') True
      (Some demo_vantage) no_artifacts [demo_observation ''high''] = Ok d1 \<and>
    register_findings_from_run (\<lambda>_. []) demo_rules 9 d1 ''acme'' ''run_1'' (Some ''pub_1'') True
      (Some demo_vantage) no_artifacts [demo_observation ''critical''] = Ok d1"
proof -
  have "\<not> isl (register_findings_from_run (\<lambda>_. []) demo_rules 0 demo_published ''acme'' ''run_1'' (Some ''pub_1'') True
      (Some demo_vantage) no_artifacts [demo_observation ''high''])"
    by code_simp
  then obtain d1 where d1: "register_findings_from_run (\<lambda>_. []) demo_rules 0 demo_published ''acme'' ''run_1''
      (Some ''pub_1'') True (Some demo_vantage) no_artifacts [demo_observation ''high''] = Ok d1"
    by (metis isl_def obj_sumE)
  from publication_folds_once [OF this, of d1] d1 show ?thesis by simp
qed

section \<open>Tickets\<close>

text \<open>
  The ticket poller acts on a status once: after it read a ticket, reading the same status again
  only renews the time of the reading, whatever state the finding has been moved to in between,
  so an operator's later move is not undone by an old ticket.
\<close>

theorem old_ticket_status_moves_nothing:
  assumes "ticket_row now d r row = Ok (row1, evs1, au1)"
    and "truthy_text (tk_system (v_ticket row))" "truthy_text (tk_key (v_ticket row))" "tr_error r = None"
    and "v_ticket row2 = v_ticket row1"
    and "tr_raw_status r2 = tr_raw_status r" "tr_error r2 = None" "tr_only_on_remote_change r2" "\<not> tr_record_unchanged r2"
  shows "ticket_row now2 d2 r2 row2 = Ok (row2\<lparr>v_ticket := (v_ticket row2)\<lparr>tk_synced_at := Some now2\<rparr>\<rparr>, [], [])"
proof -
  have t: "v_ticket row1 = synced_ticket now r (v_ticket row)"
    using assms(1-3) by (auto simp: ticket_row_def Let_def split: if_splits prod.splits)
  have "\<not> suggestion_applies d2 r2 row2"
    using assms by (simp add: suggestion_applies_def t synced_ticket_def Let_def)
  moreover have "synced_ticket now2 r2 (v_ticket row2) = (v_ticket row2)\<lparr>tk_synced_at := Some now2\<rparr>"
    using assms by (simp add: t synced_ticket_def)
  ultimately show ?thesis
    using assms by (simp add: ticket_row_def Let_def t synced_ticket_def)
qed

definition demo_reading :: "bool \<Rightarrow> ticket_reading" where
  "demo_reading only = \<lparr>tr_suggested_state = Some FIXING, tr_raw_status = Some ''In Progress'', tr_error = None,
     tr_actor = None, tr_record_unchanged = False, tr_only_on_remote_change = only\<rparr>"

definition demo_ticketed :: vulnerability where
  "demo_ticketed = demo_first_row\<lparr>v_ticket := no_ticket\<lparr>tk_system := Some ''jira'', tk_key := Some ''SEC-1''\<rparr>\<rparr>"

theorem old_ticket_status_moves_nothing_witness:
  "\<exists>row1 evs au. ticket_row 5 demo_seen (demo_reading True) demo_ticketed = Ok (row1, evs, au) \<and> v_state row1 = FIXING \<and>
     ticket_row 9 demo_seen (demo_reading True) (row1\<lparr>v_state := OPEN\<rparr>)
       = Ok (row1\<lparr>v_state := OPEN, v_ticket := (v_ticket row1)\<lparr>tk_synced_at := Some 9\<rparr>\<rparr>, [], [])"
proof -
  have "case ticket_row 5 demo_seen (demo_reading True) demo_ticketed of Ok (row1, evs, au) \<Rightarrow> v_state row1 = FIXING | Err _ \<Rightarrow> False"
    by code_simp
  then obtain row1 evs au where row1: "ticket_row 5 demo_seen (demo_reading True) demo_ticketed = Ok (row1, evs, au)"
    "v_state row1 = FIXING" by (auto split: sum.splits)
  have "ticket_row 9 demo_seen (demo_reading True) (row1\<lparr>v_state := OPEN\<rparr>)
      = Ok ((row1\<lparr>v_state := OPEN\<rparr>)\<lparr>v_ticket := (v_ticket (row1\<lparr>v_state := OPEN\<rparr>))\<lparr>tk_synced_at := Some 9\<rparr>\<rparr>, [], [])"
    by (rule old_ticket_status_moves_nothing [OF row1(1)])
       (simp_all add: demo_reading_def demo_ticketed_def truthy_text_def no_ticket_def)
  then show ?thesis using row1 by simp
qed

section \<open>Deadlines\<close>

lemma filter_in_scope_put:
  assumes "distinct (map sp_policy_id ps)" "p \<in> set ps" "policy_scope p' = policy_scope p" "sp_policy_id p' = sp_policy_id p"
  shows "filter (in_scope t s c) (row_put sp_policy_id ps p') = map (\<lambda>q. if q = p then p' else q) (filter (in_scope t s c) ps)"
proof -
  have put: "row_put sp_policy_id ps p' = map (\<lambda>q. if q = p then p' else q) ps"
    unfolding row_put_def assms(4)
    by (rule map_cong [OF refl]) (use assms(1,2) in \<open>auto simp: distinct_map inj_on_def\<close>)
  show ?thesis unfolding put
    by (induction ps) (use assms(3) in \<open>auto simp: in_scope_iff\<close>)
qed

lemma filter_single_mem: "filter P xs = [x] \<Longrightarrow> x \<in> set xs \<and> P x"
  by (auto simp: filter_eq_Cons_iff)

lemma upsert_cases [consumes 1, case_names created updated]:
  assumes "upsert_sla_policy policy_id now d t severity n c by' = Ok (d', p)"
  obtains q where "filter (in_scope t (lower (strip severity)) c) (vd_policies d) = []"
      "vd_policies d' = vd_policies d @ [q]" "policy_scope q = (t, lower (strip severity), c)" "sp_remediation_days q = n"
  | p0 q where "filter (in_scope t (lower (strip severity)) c) (vd_policies d) = [p0]"
      "vd_policies d' = row_put sp_policy_id (vd_policies d) q" "policy_scope q = policy_scope p0"
      "sp_policy_id q = sp_policy_id p0" "sp_remediation_days q = n"
proof -
  let ?s = "lower (strip severity)"
  let ?new = "\<lparr>sp_policy_id = policy_id, sp_tenant_id = t, sp_asset_criticality = c, sp_severity = ?s,
     sp_remediation_days = n, sp_created_at = now, sp_created_by = by', sp_updated_at = None\<rparr>"
  have ok: "?s \<in> set (map fst SEVERITY_ORDER)" "validate_criticality c = Ok c" "\<not> n < 1"
    using assms by (auto simp: upsert_sla_policy_def validate_severity_def validate_criticality_def bindE_Ok_iff Let_def
        split: if_splits option.splits)
  consider "filter (in_scope t ?s c) (vd_policies d) = []" | p0 where "filter (in_scope t ?s c) (vd_policies d) = [p0]"
    | x y zs where "filter (in_scope t ?s c) (vd_policies d) = x # y # zs"
    by (cases "filter (in_scope t ?s c) (vd_policies d)" rule: remdups_adj.cases) auto
  then show thesis
  proof cases
    case 1
    have "vd_policies d' = vd_policies d @ [?new]"
      using assms ok 1 by (auto simp: upsert_sla_policy_def validate_severity_def Let_def)
    with 1 show ?thesis by (rule that(1)) (simp_all add: policy_scope_def)
  next
    case (2 p0)
    have "vd_policies d' = row_put sp_policy_id (vd_policies d) (p0\<lparr>sp_remediation_days := n, sp_updated_at := Some now\<rparr>)"
      using assms ok 2 by (auto simp: upsert_sla_policy_def validate_severity_def Let_def)
    with 2 show ?thesis by (rule that(2)) (simp_all add: policy_scope_def)
  next
    case 3
    with assms ok show ?thesis by (auto simp: upsert_sla_policy_def validate_severity_def Let_def)
  qed
qed

text \<open>
  A stored deadline policy is what later findings get: after an upsert, resolving the days of
  a finding of that tenant, severity and criticality answers the days just stored, and every
  other severity and tenant resolves as before. What one call stores, the other reads.
\<close>

theorem stored_policy_decides_deadline:
  assumes "upsert_sla_policy policy_id now d t severity n c by' = Ok (d', p)" "distinct (map sp_policy_id (vd_policies d))"
  shows "resolve_sla_days d' t (lower (strip severity)) c = Ok (n, ''policy'') \<and>
    (\<forall>t2 s2 c2. (t2, s2) \<noteq> (t, lower (strip severity)) \<longrightarrow> resolve_sla_days d' t2 s2 c2 = resolve_sla_days d t2 s2 c2)"
proof -
  let ?s = "lower (strip severity)"
  have same: "\<exists>q. filter (in_scope t ?s c) (vd_policies d') = [q] \<and> sp_remediation_days q = n"
    using assms(1)
  proof (cases rule: upsert_cases)
    case (created q)
    then show ?thesis by (simp add: in_scope_iff)
  next
    case (updated p0 q)
    then have "p0 \<in> set (vd_policies d)" using filter_single_mem by metis
    from filter_in_scope_put [OF assms(2) this updated(3,4)] updated show ?thesis by simp
  qed
  have other: "filter (in_scope t2 s2 c2) (vd_policies d') = filter (in_scope t2 s2 c2) (vd_policies d)"
    if ne: "(t2, s2) \<noteq> (t, ?s)" for t2 s2 c2
    using assms(1)
  proof (cases rule: upsert_cases)
    case (created q)
    then show ?thesis using ne by (auto simp: in_scope_iff)
  next
    case (updated p0 q)
    then have mem: "p0 \<in> set (vd_policies d)" and scope: "in_scope t ?s c p0"
      using filter_single_mem by metis+
    from scope ne have "p0 \<notin> set (filter (in_scope t2 s2 c2) (vd_policies d))" by (auto simp: in_scope_def)
    then have "map (\<lambda>r. if r = p0 then q else r) (filter (in_scope t2 s2 c2) (vd_policies d))
        = filter (in_scope t2 s2 c2) (vd_policies d)" by (intro map_idI) auto
    with filter_in_scope_put [OF assms(2) mem updated(3,4)] updated(2) show ?thesis by simp
  qed
  from same have "resolve_sla_days d' t ?s c = Ok (n, ''policy'')"
    by (cases c) (auto simp: resolve_sla_days_def)
  with other show ?thesis by (simp add: resolve_sla_days_def)
qed

theorem stored_policy_decides_deadline_witness:
  "\<exists>d' p. upsert_sla_policy ''p1'' 5 demo_seen ''acme'' '' High'' 12 (Some 3) None = Ok (d', p) \<and>
     resolve_sla_days d' ''acme'' ''high'' (Some 3) = Ok (12, ''policy'') \<and>
     resolve_sla_days d' ''acme'' ''low'' (Some 3) = resolve_sla_days demo_seen ''acme'' ''low'' (Some 3)"
proof -
  have facts: "\<not> isl (upsert_sla_policy ''p1'' 5 demo_seen ''acme'' '' High'' 12 (Some 3) None) \<and>
      vd_policies demo_seen = [] \<and> lower (strip '' High'') = ''high''"
    by code_simp
  then obtain d' p where up: "upsert_sla_policy ''p1'' 5 demo_seen ''acme'' '' High'' 12 (Some 3) None = Ok (d', p)"
    by (metis isl_def obj_sumE prod.collapse)
  from stored_policy_decides_deadline [OF this] facts up show ?thesis by auto
qed

end
