(* ===== verification/Pub_Model.thy ===== *)
theory Pub_Model
  imports Job_Results
begin

text \<open>
  Owed publications, \<^verbatim>\<open>api/services/run_publisher.py\<close>: the \<^verbatim>\<open>run_publications\<close> row and every
  transaction on it (the claims of a tick and of the accepting request, the renewal of a hold,
  the marks and outcomes an attempt writes, the hand-back of a peer's row, and the two buttons
  of an operator). One transaction reads the clock once; \<open>locked\<close> are the rows another
  transaction holds (\<^verbatim>\<open>SKIP LOCKED\<close>). What an attempt does between these transactions is
  \<open>Pub_System\<close>. The notes a publication leaves on its job and takes off again, the assessment
  contract it hands to the job, and the column \<^verbatim>\<open>projected\<close> (\<^verbatim>\<open>publication_marks.py\<close>, in
  \<open>Vuln_Observation\<close>) are not part of the row here.
\<close>

section \<open>The row\<close>

definition STATUS_PENDING :: string where "STATUS_PENDING = ''pending''"
definition STATUS_DEAD :: string where "STATUS_DEAD = ''dead''"

definition TREE_IS_GONE :: string where
  "TREE_IS_GONE = ''the extracted upload is no longer on disk; this run needs a re-scan or a manual load''"

definition REPLICA_IS_GONE :: string where
  "REPLICA_IS_GONE = ''the replica that accepted this upload is gone and no peer can see the extracted '' @
     ''tree; this run needs a re-scan''"

definition NEVER_ATTEMPTED :: string where
  "NEVER_ATTEMPTED = ''this publication has been claimed far more often than it may be attempted, without '' @
     ''one attempt reaching an outcome, so whichever replica takes it is dying '' @
     ''mid-publication; this run needs a re-scan or a manual load''"

definition ARCHIVE_IS_GONE :: string where
  "ARCHIVE_IS_GONE = ''the uploaded archive is no longer on disk, so the analytical projection '' @
     ''cannot be fed for this run; the run itself is published''"

record publisher_settings =
  pc_instance_id :: string
  pc_max_attempts :: int
  pc_retry_base_seconds :: int
  pc_retry_max_seconds :: int
  pc_interval_seconds :: int
  pc_orphan_deadline_seconds :: int

record run_publication =
  rp_publication_id :: string
  rp_tenant_id :: string
  rp_job_id :: string
  rp_run_id :: string
  rp_agent_id :: "string option"
  rp_job_status :: string
  rp_risk_assessment :: bool
  rp_exit_code :: "int option"
  rp_scan_error :: "string option"
  rp_surface :: "string option"
  rp_staging_path :: string
  rp_archive_path :: "string option"
  rp_replica :: "string option"
  rp_status :: string
  rp_attempts :: int
  rp_claims :: int
  rp_claims_base :: int
  rp_stored_at :: "time option"
  rp_next_attempt_at :: "time option"
  rp_last_error :: "string option"
  rp_leased_until :: "time option"
  rp_fence :: int
  rp_lease_lapses :: int
  rp_created_at :: time
  rp_updated_at :: time

text \<open>
  The row beside an accepted upload: \<^verbatim>\<open>new_publication\<close> of the ingest with the columns the
  publisher counts in, and the archive kept beside the staging tree.
\<close>

definition staged_archive_path :: "string \<Rightarrow> string" where
  "staged_archive_path staging = staging @ ''.upload''"

definition owed_row :: "publication \<Rightarrow> run_publication" where
  "owed_row p =
     \<lparr>rp_publication_id = pub_id p, rp_tenant_id = pub_tenant_id p, rp_job_id = pub_job_id p,
      rp_run_id = pub_run_id p, rp_agent_id = Some (pub_agent_id p), rp_job_status = pub_job_status p,
      rp_risk_assessment = pub_risk_assessment p, rp_exit_code = Some (pub_exit_code p),
      rp_scan_error = pub_scan_error p, rp_surface = pub_surface p,
      rp_staging_path = pub_staging_path p,
      rp_archive_path = Some (staged_archive_path (pub_staging_path p)),
      rp_replica = Some (pub_replica p), rp_status = STATUS_PENDING, rp_attempts = 0, rp_claims = 0,
      rp_claims_base = 0, rp_stored_at = None, rp_next_attempt_at = Some (pub_next_attempt_at p),
      rp_last_error = None, rp_leased_until = None, rp_fence = 0, rp_lease_lapses = 0,
      rp_created_at = pub_created_at p, rp_updated_at = pub_created_at p\<rparr>"

text \<open>The row of a run the API executed itself.\<close>

definition local_publication_id :: "string \<Rightarrow> string" where
  "local_publication_id job_id = ''local-'' @ job_id"

definition new_local_publication ::
  "publisher_settings \<Rightarrow> time \<Rightarrow> string \<Rightarrow> string \<Rightarrow> string \<Rightarrow> string \<Rightarrow> int option \<Rightarrow>
   string option \<Rightarrow> string option \<Rightarrow> string \<Rightarrow> run_publication" where
  "new_local_publication s now job_id run_id tenant_id job_status exit_code scan_error surface source =
     \<lparr>rp_publication_id = local_publication_id job_id, rp_tenant_id = tenant_id, rp_job_id = job_id,
      rp_run_id = run_id, rp_agent_id = None, rp_job_status = job_status,
      rp_risk_assessment = (job_status = ''succeeded''), rp_exit_code = exit_code,
      rp_scan_error = scan_error, rp_surface = surface, rp_staging_path = source,
      rp_archive_path = None, rp_replica = Some (pc_instance_id s), rp_status = STATUS_PENDING,
      rp_attempts = 0, rp_claims = 0, rp_claims_base = 0, rp_stored_at = None,
      rp_next_attempt_at = Some now, rp_last_error = None, rp_leased_until = None, rp_fence = 0,
      rp_lease_lapses = 0, rp_created_at = now, rp_updated_at = now\<rparr>"

definition is_local :: "run_publication \<Rightarrow> bool" where
  "is_local row = (rp_agent_id row = None \<and> rp_archive_path row = None)"

text \<open>What the audit trail keeps of a decision; the redacted last error of the row is left out.\<close>

record decision_facts =
  df_job_id :: string
  df_run_id :: string
  df_status :: string
  df_attempts :: int
  df_stored_at :: "time option"

datatype publication_decision =
    Requeued string decision_facts decision_facts
  | Discarded string decision_facts

record pub_db =
  pd_rows :: "run_publication list"
  pd_audit :: "publication_decision list"

abbreviation get_pub :: "pub_db \<Rightarrow> string \<Rightarrow> run_publication option" where
  "get_pub d k \<equiv> row_get rp_publication_id (pd_rows d) k"

definition put_pub :: "pub_db \<Rightarrow> run_publication \<Rightarrow> pub_db" where
  "put_pub d r = d\<lparr>pd_rows := row_put rp_publication_id (pd_rows d) r\<rparr>"

definition insert_pub :: "pub_db \<Rightarrow> run_publication \<Rightarrow> pub_db option" where
  "insert_pub d r =
     (if get_pub d (rp_publication_id r) \<noteq> None then None else Some (d\<lparr>pd_rows := pd_rows d @ [r]\<rparr>))"

definition delete_pub :: "pub_db \<Rightarrow> string \<Rightarrow> pub_db" where
  "delete_pub d k = d\<lparr>pd_rows := filter (\<lambda>r. rp_publication_id r \<noteq> k) (pd_rows d)\<rparr>"

definition count_pubs :: "(run_publication \<Rightarrow> bool) \<Rightarrow> pub_db \<Rightarrow> nat" where
  "count_pubs P d = row_count P (pd_rows d)"

definition wf_pubs :: "pub_db \<Rightarrow> bool" where
  "wf_pubs d = distinct (map rp_publication_id (pd_rows d))"

interpretation pub_table: row_store rp_publication_id get_pub put_pub count_pubs wf_pubs
proof unfold_locales
  fix t :: pub_db and k r
  show "get_pub t k = Some r \<Longrightarrow> rp_publication_id r = k" by (rule row_get_key)
next
  fix t :: pub_db and r k
  show "get_pub (put_pub t r) k = (if k = rp_publication_id r \<and> get_pub t k \<noteq> None then Some r else get_pub t k)"
    by (simp add: put_pub_def row_get_put)
next
  fix t :: pub_db and r
  show "wf_pubs t \<Longrightarrow> wf_pubs (put_pub t r)" by (simp add: wf_pubs_def put_pub_def)
next
  fix t :: pub_db and r old and P :: "run_publication \<Rightarrow> bool"
  show "wf_pubs t \<Longrightarrow> get_pub t (rp_publication_id r) = Some old \<Longrightarrow>
    count_pubs P (put_pub t r) + (if P old then 1 else 0) = count_pubs P t + (if P r then 1 else 0)"
    by (simp add: wf_pubs_def put_pub_def count_pubs_def row_count_put)
qed

section \<open>Windows\<close>

definition retry_delay_seconds :: "publisher_settings \<Rightarrow> int \<Rightarrow> int" where
  "retry_delay_seconds s attempts =
     (let exponent = min (max 0 (attempts - 1)) 20
      in min (pc_retry_base_seconds s * 2 ^ nat exponent) (pc_retry_max_seconds s))"

definition adoption_seconds :: "publisher_settings \<Rightarrow> int" where
  "adoption_seconds s = max 300 (10 * pc_interval_seconds s)"

definition lease_horizon_seconds :: "publisher_settings \<Rightarrow> int" where
  "lease_horizon_seconds s = max 60 (pc_interval_seconds s)"

definition orphan_deadline_seconds :: "publisher_settings \<Rightarrow> int" where
  "orphan_deadline_seconds s = max (pc_orphan_deadline_seconds s) (2 * adoption_seconds s)"

definition claim_budget :: "publisher_settings \<Rightarrow> int" where
  "claim_budget s = max (2 * pc_max_attempts s) 4"

section \<open>Claims\<close>

definition hold :: "publisher_settings \<Rightarrow> time \<Rightarrow> nat \<Rightarrow> run_publication \<Rightarrow> run_publication" where
  "hold s now rows row =
     (let base = (if rp_claims row < rp_claims_base row then 0 else rp_claims_base row)
      in row\<lparr>rp_next_attempt_at := Some (now + seconds (lease_horizon_seconds s * max 1 (int rows))),
             rp_claims_base := base, rp_claims := rp_claims row + 1, rp_fence := rp_fence row + 1\<rparr>)"

definition due :: "publisher_settings \<Rightarrow> time \<Rightarrow> run_publication \<Rightarrow> bool" where
  "due s now row =
     (rp_status row = STATUS_PENDING \<and>
      (case rp_next_attempt_at row of None \<Rightarrow> False | Some t \<Rightarrow> t \<le> now) \<and>
      (rp_replica row = Some (pc_instance_id s) \<or> rp_replica row = None \<or>
       rp_created_at row < now - seconds (adoption_seconds s)))"

definition due_rows ::
  "publisher_settings \<Rightarrow> time \<Rightarrow> nat \<Rightarrow> string set \<Rightarrow> pub_db \<Rightarrow> run_publication list" where
  "due_rows s now limit locked d =
     take limit (sort_key (\<lambda>r. the (rp_next_attempt_at r))
       (filter (\<lambda>r. due s now r \<and> rp_publication_id r \<notin> locked) (pd_rows d)))"

definition claim_due ::
  "publisher_settings \<Rightarrow> time \<Rightarrow> nat \<Rightarrow> string set \<Rightarrow> pub_db \<Rightarrow> pub_db \<times> run_publication list" where
  "claim_due s now limit locked d =
     (let rows = due_rows s now limit locked d; held = map (hold s now (length rows)) rows
      in (foldl put_pub d held, held))"

text \<open>
  The accepting request's claim: the row of its own publication, whatever its status and
  whatever hold is on it, unless another transaction has it locked at the moment.
\<close>

definition publish_now_claim ::
  "publisher_settings \<Rightarrow> time \<Rightarrow> string \<Rightarrow> string set \<Rightarrow> pub_db \<Rightarrow> (pub_db \<times> run_publication) option" where
  "publish_now_claim s now publication_id locked d =
     (case get_pub d publication_id of None \<Rightarrow> None
      | Some row \<Rightarrow>
          if publication_id \<in> locked then None
          else (let row' = hold s now 1 row in Some (put_pub d row', row')))"

definition claims_spent :: "publisher_settings \<Rightarrow> run_publication \<Rightarrow> bool" where
  "claims_spent s snap = (rp_claims snap - rp_claims_base snap > claim_budget s)"

text \<open>
  \<^verbatim>\<open>_Lease\<close>: what one attempt remembers between two renewals, and one renewal. \<open>db_now\<close> is the
  database's clock, \<open>now\<close> the replica's; the flag \<open>ls_stopped\<close> is the \<^verbatim>\<open>_stop\<close> event a missing
  row sets. A renewal the database refused is \<open>renewal_lost\<close>.
\<close>

record lease_state =
  ls_held_until :: "time option"
  ls_unrecorded :: int
  ls_superseded :: bool
  ls_stopped :: bool

definition new_lease :: lease_state where
  "new_lease = \<lparr>ls_held_until = None, ls_unrecorded = 0, ls_superseded = False, ls_stopped = False\<rparr>"

definition renewal_lost :: "lease_state \<Rightarrow> lease_state" where
  "renewal_lost ls = ls\<lparr>ls_unrecorded := ls_unrecorded ls + 1\<rparr>"

definition renewed_row ::
  "publisher_settings \<Rightarrow> time \<Rightarrow> time \<Rightarrow> int \<Rightarrow> run_publication \<Rightarrow> run_publication" where
  "renewed_row s now db_now lapses row =
     (let row1 = row\<lparr>rp_lease_lapses := rp_lease_lapses row + lapses\<rparr>;
          held = db_now + seconds (lease_horizon_seconds s);
          row2 = (if (case rp_leased_until row1 of None \<Rightarrow> True | Some t \<Rightarrow> t < held)
                  then row1\<lparr>rp_leased_until := Some held\<rparr> else row1)
      in if rp_status row2 = STATUS_PENDING
         then row2\<lparr>rp_next_attempt_at := Some (now + seconds (lease_horizon_seconds s)),
                   rp_updated_at := now\<rparr>
         else row2)"

definition renewal ::
  "publisher_settings \<Rightarrow> time \<Rightarrow> time \<Rightarrow> run_publication \<Rightarrow> lease_state \<Rightarrow> pub_db \<Rightarrow> pub_db \<times> lease_state" where
  "renewal s now db_now snap ls d =
     (case get_pub d (rp_publication_id snap) of None \<Rightarrow> (d, ls\<lparr>ls_stopped := True\<rparr>)
      | Some row \<Rightarrow>
          let late = (case ls_held_until ls of None \<Rightarrow> False | Some t \<Rightarrow> now > t);
              superseded = (rp_fence row \<noteq> rp_fence snap);
              lapses = ls_unrecorded ls +
                (if superseded \<and> \<not> ls_superseded ls then 1 else if late \<and> \<not> superseded then 1 else 0)
          in (put_pub d (renewed_row s now db_now lapses row),
              ls\<lparr>ls_unrecorded := 0,
                 ls_held_until := Some (now + seconds (lease_horizon_seconds s)),
                 ls_superseded := ls_superseded ls \<or> superseded\<rparr>))"

section \<open>What an attempt writes\<close>

definition mark_stored :: "time \<Rightarrow> run_publication \<Rightarrow> pub_db \<Rightarrow> pub_db" where
  "mark_stored now snap d =
     (case get_pub d (rp_publication_id snap) of None \<Rightarrow> d
      | Some row \<Rightarrow> put_pub d (row\<lparr>rp_stored_at := Some now, rp_updated_at := now\<rparr>))"

definition may_take_back :: "run_publication \<Rightarrow> pub_db \<Rightarrow> bool" where
  "may_take_back snap d =
     (case get_pub d (rp_publication_id snap) of None \<Rightarrow> False
      | Some row \<Rightarrow> rp_stored_at row = None \<and> rp_claims row = rp_claims snap \<and> rp_fence row = rp_fence snap)"

definition failed_row ::
  "publisher_settings \<Rightarrow> time \<Rightarrow> string \<Rightarrow> bool \<Rightarrow> run_publication \<Rightarrow> run_publication" where
  "failed_row s now reason final row =
     (let row1 = row\<lparr>rp_attempts := rp_attempts row + 1, rp_updated_at := now,
                    rp_claims_base := rp_claims row, rp_last_error := Some (take 2000 reason)\<rparr>
      in if final \<or> rp_attempts row1 \<ge> pc_max_attempts s
         then row1\<lparr>rp_status := STATUS_DEAD, rp_next_attempt_at := None\<rparr>
         else row1\<lparr>rp_next_attempt_at := Some (now + seconds (retry_delay_seconds s (rp_attempts row1)))\<rparr>)"

definition record_failure ::
  "publisher_settings \<Rightarrow> time \<Rightarrow> string \<Rightarrow> bool \<Rightarrow> run_publication \<Rightarrow> pub_db \<Rightarrow> pub_db" where
  "record_failure s now reason final snap d =
     (case get_pub d (rp_publication_id snap) of None \<Rightarrow> d
      | Some row \<Rightarrow> put_pub d (failed_row s now reason final row))"

definition record_success :: "run_publication \<Rightarrow> pub_db \<Rightarrow> pub_db" where
  "record_success snap d = delete_pub d (rp_publication_id snap)"

section \<open>Rows of other replicas\<close>

text \<open>
  \<open>exists\<close> is whether the store lists anything under the run, \<open>flat\<close> whether it has the run of this
  tenant at the path of earlier releases, \<open>staged\<close> whether the tree is on this disk.
\<close>

definition tree_is_stored :: "bool \<Rightarrow> bool \<Rightarrow> run_publication \<Rightarrow> bool" where
  "tree_is_stored exists flat snap = (rp_stored_at snap \<noteq> None \<and> (exists \<or> flat))"

definition is_foreign_and_absent ::
  "publisher_settings \<Rightarrow> bool \<Rightarrow> bool \<Rightarrow> bool \<Rightarrow> run_publication \<Rightarrow> bool" where
  "is_foreign_and_absent s staged exists flat snap =
     (rp_replica snap \<noteq> None \<and> rp_replica snap \<noteq> Some (pc_instance_id s) \<and>
      \<not> staged \<and> \<not> tree_is_stored exists flat snap)"

definition is_orphaned :: "publisher_settings \<Rightarrow> time \<Rightarrow> run_publication \<Rightarrow> bool" where
  "is_orphaned s now snap = (now - rp_updated_at snap > seconds (orphan_deadline_seconds s))"

text \<open>The answer is whether the row is still owed.\<close>

definition give_back ::
  "publisher_settings \<Rightarrow> time \<Rightarrow> run_publication \<Rightarrow> pub_db \<Rightarrow> pub_db \<times> bool" where
  "give_back s now snap d =
     (if is_orphaned s now snap then (record_failure s now REPLICA_IS_GONE True snap d, False)
      else (case get_pub d (rp_publication_id snap) of None \<Rightarrow> (d, True)
        | Some row \<Rightarrow>
            (put_pub d (row\<lparr>rp_next_attempt_at := Some (now + seconds (adoption_seconds s)),
                           rp_claims_base := rp_claims_base row + 1\<rparr>), True)))"

section \<open>The operator\<close>

definition backlog :: "pub_db \<Rightarrow> nat \<times> nat" where
  "backlog d = (count_pubs (\<lambda>r. rp_status r = STATUS_PENDING) d, count_pubs (\<lambda>r. rp_status r = STATUS_DEAD) d)"

definition is_backlogged :: "pub_db \<Rightarrow> bool" where
  "is_backlogged d = (snd (backlog d) \<noteq> 0)"

definition is_leased :: "time \<Rightarrow> run_publication \<Rightarrow> bool" where
  "is_leased db_now row = (case rp_leased_until row of None \<Rightarrow> False | Some t \<Rightarrow> t > db_now)"

definition INGEST_KEPT_SECONDS :: int where "INGEST_KEPT_SECONDS = 86400"

definition tree_kept_until :: "run_publication \<Rightarrow> time option" where
  "tree_kept_until row =
     (if is_local row then None else Some (rp_created_at row + seconds INGEST_KEPT_SECONDS))"

definition resolution :: "time \<Rightarrow> run_publication \<Rightarrow> string" where
  "resolution now row =
     (if rp_status row \<noteq> STATUS_DEAD then ''wait''
      else
        let reason = or_else (rp_last_error row) [] in
        if reason = ARCHIVE_IS_GONE then (if is_local row then ''requeue'' else ''discard'')
        else if reason = REPLICA_IS_GONE \<or> reason = TREE_IS_GONE then ''rescan''
        else if rp_stored_at row = None \<and> (case tree_kept_until row of None \<Rightarrow> False | Some t \<Rightarrow> now > t)
        then ''rescan'' else ''requeue'')"

datatype publication_error = NotDead string string | PublicationInFlight time

text \<open>\<^verbatim>\<open>retry_after_seconds\<close>: at least one second, counted up.\<close>

definition retry_after_seconds :: "time \<Rightarrow> time \<Rightarrow> int" where
  "retry_after_seconds leased_until now = max 1 ((leased_until - now) div 1000000 + 1)"

definition operator_row ::
  "pub_db \<Rightarrow> string \<Rightarrow> string option \<Rightarrow> string option \<Rightarrow> run_publication option" where
  "operator_row d publication_id job_id tenant_id =
     (case get_pub d publication_id of None \<Rightarrow> None
      | Some row \<Rightarrow>
          if job_id \<noteq> None \<and> job_id \<noteq> Some (rp_job_id row) then None
          else if tenant_id \<noteq> None \<and> tenant_id \<noteq> Some (rp_tenant_id row) then None else Some row)"

definition refuse_while_leased :: "time \<Rightarrow> run_publication \<Rightarrow> publication_error + unit" where
  "refuse_while_leased db_now row =
     (if rp_status row \<noteq> STATUS_DEAD then Err (NotDead (rp_publication_id row) (rp_status row))
      else if is_leased db_now row then Err (PublicationInFlight (the (rp_leased_until row)))
      else Ok ())"

definition decision_record :: "run_publication \<Rightarrow> decision_facts" where
  "decision_record row =
     \<lparr>df_job_id = rp_job_id row, df_run_id = rp_run_id row, df_status = rp_status row,
      df_attempts = rp_attempts row, df_stored_at = rp_stored_at row\<rparr>"

definition requeued_row :: "time \<Rightarrow> run_publication \<Rightarrow> run_publication" where
  "requeued_row now row =
     row\<lparr>rp_status := STATUS_PENDING, rp_attempts := 0, rp_claims_base := rp_claims row,
         rp_fence := rp_fence row + 1, rp_next_attempt_at := Some now, rp_updated_at := now\<rparr>"

definition requeue_publication ::
  "time \<Rightarrow> time \<Rightarrow> pub_db \<Rightarrow> string \<Rightarrow> string option \<Rightarrow> string option \<Rightarrow>
   publication_error + (pub_db \<times> run_publication option)" where
  "requeue_publication now db_now d publication_id job_id tenant_id =
     (case operator_row d publication_id job_id tenant_id of None \<Rightarrow> Ok (d, None)
      | Some row \<Rightarrow>
          if rp_status row = STATUS_PENDING then Ok (d, Some row)
          else bindE (refuse_while_leased db_now row) (\<lambda>_.
            let row' = requeued_row now row
            in Ok ((put_pub d row')\<lparr>pd_audit := pd_audit d @
                     [Requeued publication_id (decision_record row) (decision_record row')]\<rparr>, Some row')))"

definition discard_publication ::
  "time \<Rightarrow> pub_db \<Rightarrow> string \<Rightarrow> string option \<Rightarrow> string option \<Rightarrow> publication_error + (pub_db \<times> bool)" where
  "discard_publication db_now d publication_id job_id tenant_id =
     (case operator_row d publication_id job_id tenant_id of None \<Rightarrow> Ok (d, False)
      | Some row \<Rightarrow>
          bindE (refuse_while_leased db_now row) (\<lambda>_.
            Ok ((delete_pub d publication_id)\<lparr>pd_audit := pd_audit d @
                  [Discarded publication_id (decision_record row)]\<rparr>, True)))"

section \<open>Facts\<close>

lemma STATUS_distinct [simp]: "STATUS_PENDING \<noteq> STATUS_DEAD" "STATUS_DEAD \<noteq> STATUS_PENDING"
  by (simp_all add: STATUS_PENDING_def STATUS_DEAD_def)

lemma get_put_pub [simp]:
  "get_pub (put_pub d r) k = (if k = rp_publication_id r \<and> get_pub d k \<noteq> None then Some r else get_pub d k)"
  by (rule pub_table.get_put)

lemma row_get_filter_neq:
  "row_get key (filter (\<lambda>r. key r \<noteq> j) rows) k = (if k = j then None else row_get key rows k)"
  by (induction rows) (auto simp: row_get_def)

lemma get_delete_pub [simp]: "get_pub (delete_pub d j) k = (if k = j then None else get_pub d k)"
  by (simp add: delete_pub_def row_get_filter_neq)

lemma get_insert_pub:
  "insert_pub d r = Some d' \<Longrightarrow>
    get_pub d' k = (if k = rp_publication_id r then Some r else get_pub d k)"
  by (auto simp: insert_pub_def row_get_append row_get_single split: if_splits option.splits)

lemma hold_fields [simp]:
  "rp_publication_id (hold s now n row) = rp_publication_id row" "rp_fence (hold s now n row) = rp_fence row + 1"
  "rp_stored_at (hold s now n row) = rp_stored_at row" "rp_status (hold s now n row) = rp_status row"
  "rp_tenant_id (hold s now n row) = rp_tenant_id row" "rp_run_id (hold s now n row) = rp_run_id row"
  "rp_attempts (hold s now n row) = rp_attempts row" "rp_leased_until (hold s now n row) = rp_leased_until row"
  by (simp_all add: hold_def Let_def)

lemma failed_row_fields [simp]:
  "rp_publication_id (failed_row s now why fin row) = rp_publication_id row"
  "rp_fence (failed_row s now why fin row) = rp_fence row"
  "rp_stored_at (failed_row s now why fin row) = rp_stored_at row"
  "rp_tenant_id (failed_row s now why fin row) = rp_tenant_id row"
  "rp_run_id (failed_row s now why fin row) = rp_run_id row"
  "rp_leased_until (failed_row s now why fin row) = rp_leased_until row"
  by (simp_all add: failed_row_def Let_def)

lemma seconds_nonneg [simp]: "0 \<le> seconds n \<longleftrightarrow> 0 \<le> n"
  by (simp add: seconds_def)

lemma lease_horizon_pos [simp]: "0 < lease_horizon_seconds s"
  by (simp add: lease_horizon_seconds_def)

section \<open>What a claim does to the table\<close>

lemma get_pub_mem: "wf_pubs d \<Longrightarrow> r \<in> set (pd_rows d) \<Longrightarrow> get_pub d (rp_publication_id r) = Some r"
  by (simp add: wf_pubs_def row_get_Some_iff)

lemma due_rows_subset: "set (due_rows s now n lk d) \<subseteq> {r \<in> set (pd_rows d). due s now r}"
proof
  fix r assume "r \<in> set (due_rows s now n lk d)"
  then have "r \<in> set (sort_key (\<lambda>r. the (rp_next_attempt_at r)) (filter (\<lambda>r. due s now r \<and> rp_publication_id r \<notin> lk) (pd_rows d)))"
    unfolding due_rows_def by (rule in_set_takeD)
  then show "r \<in> {r \<in> set (pd_rows d). due s now r}" by simp
qed

lemma due_rows_distinct: "wf_pubs d \<Longrightarrow> distinct (map rp_publication_id (due_rows s now n lk d))"
proof -
  assume wf: "wf_pubs d"
  let ?k = "\<lambda>r. the (rp_next_attempt_at r)"
  have "distinct (map rp_publication_id (filter (\<lambda>r. due s now r \<and> rp_publication_id r \<notin> lk) (pd_rows d)))"
    using wf by (simp add: wf_pubs_def distinct_map_filter)
  then have "distinct (map rp_publication_id (sort_key ?k (filter (\<lambda>r. due s now r \<and> rp_publication_id r \<notin> lk) (pd_rows d))))"
    by (simp add: distinct_map)
  then show ?thesis
    unfolding due_rows_def take_map [symmetric] by (rule distinct_take)
qed

lemma get_foldl_put_pub:
  assumes "\<And>r. r \<in> set rows \<Longrightarrow> rp_publication_id (h r) = rp_publication_id r"
    and "distinct (map rp_publication_id rows)"
    and "\<And>r. r \<in> set rows \<Longrightarrow> get_pub d (rp_publication_id r) = Some r"
  shows "get_pub (foldl put_pub d (map h rows)) k =
    (if k \<in> rp_publication_id ` set rows then map_option h (get_pub d k) else get_pub d k)"
  using assms
proof (induction rows arbitrary: d)
  case (Cons r rows)
  let ?d = "put_pub d (h r)"
  have "get_pub ?d (rp_publication_id q) = Some q" if "q \<in> set rows" for q
    using that Cons.prems by (auto simp: image_iff)
  then have "get_pub (foldl put_pub ?d (map h rows)) k =
    (if k \<in> rp_publication_id ` set rows then map_option h (get_pub ?d k) else get_pub ?d k)"
    using Cons.prems by (intro Cons.IH) auto
  then show ?case using Cons.prems by auto
qed simp

lemma wf_foldl_put_pub: "wf_pubs d \<Longrightarrow> wf_pubs (foldl put_pub d rows)"
  by (induction rows arbitrary: d) (auto intro: pub_table.wf_put)

text \<open>Every claimed row was due, and stands in the table as the claim left it.\<close>

lemma claim_dueE:
  assumes wf: "wf_pubs d" and c: "claim_due s now n lk d = (d', held)"
  obtains rows where
    "\<And>r. r \<in> set rows \<Longrightarrow> get_pub d (rp_publication_id r) = Some r \<and> due s now r"
    "distinct (map rp_publication_id rows)" "held = map (hold s now (length rows)) rows" "wf_pubs d'"
    "\<And>k. get_pub d' k = (if k \<in> rp_publication_id ` set rows
        then map_option (hold s now (length rows)) (get_pub d k) else get_pub d k)"
proof
  let ?rows = "due_rows s now n lk d"
  show 1: "get_pub d (rp_publication_id r) = Some r \<and> due s now r" if "r \<in> set ?rows" for r
    using that due_rows_subset wf by (force intro: get_pub_mem)
  show 2: "distinct (map rp_publication_id ?rows)" using wf by (rule due_rows_distinct)
  show "held = map (hold s now (length ?rows)) ?rows" using c by (simp add: claim_due_def Let_def)
  have d': "d' = foldl put_pub d (map (hold s now (length ?rows)) ?rows)"
    using c unfolding claim_due_def Let_def by (auto dest: sym)
  show "wf_pubs d'" unfolding d' using wf by (rule wf_foldl_put_pub)
  show "get_pub d' k = (if k \<in> rp_publication_id ` set ?rows
        then map_option (hold s now (length ?rows)) (get_pub d k) else get_pub d k)" for k
    unfolding d' using 1 2 by (intro get_foldl_put_pub) auto
qed

lemma wf_delete_pub: "wf_pubs d \<Longrightarrow> wf_pubs (delete_pub d k)"
  by (simp add: wf_pubs_def delete_pub_def distinct_map_filter)

lemma wf_insert_pub: "wf_pubs d \<Longrightarrow> insert_pub d r = Some d' \<Longrightarrow> wf_pubs d'"
  by (auto simp: wf_pubs_def insert_pub_def split: if_splits)
    (metis get_pub_mem option.distinct(1) wf_pubs_def)

section \<open>What a transaction may do to a row\<close>

text \<open>
  Every transaction but an insertion leaves each row it does not delete in place, of the same
  run, with a fence that has not fallen, a stored mark that is not taken off and a proof of life
  that only moves forward.
\<close>

definition lease_forward :: "time option \<Rightarrow> time option \<Rightarrow> bool" where
  "lease_forward a b \<longleftrightarrow> (\<forall>t. a = Some t \<longrightarrow> (\<exists>u. b = Some u \<and> t \<le> u))"

lemma lease_forward_refl [simp]: "lease_forward a a"
  by (simp add: lease_forward_def)

definition row_evolves :: "run_publication \<Rightarrow> run_publication \<Rightarrow> bool" where
  "row_evolves r r' \<longleftrightarrow> rp_publication_id r' = rp_publication_id r \<and> rp_tenant_id r' = rp_tenant_id r \<and>
     rp_run_id r' = rp_run_id r \<and> rp_fence r \<le> rp_fence r' \<and>
     (rp_stored_at r \<noteq> None \<longrightarrow> rp_stored_at r' \<noteq> None) \<and>
     lease_forward (rp_leased_until r) (rp_leased_until r')"

definition pubs_evolve :: "pub_db \<Rightarrow> pub_db \<Rightarrow> bool" where
  "pubs_evolve d d' \<longleftrightarrow> (\<forall>k r'. get_pub d' k = Some r' \<longrightarrow> (\<exists>r. get_pub d k = Some r \<and> row_evolves r r'))"

named_theorems evolves

lemma pubs_evolveD:
  assumes "pubs_evolve d d'" and "get_pub d' k = Some r'"
  obtains r where "get_pub d k = Some r" "row_evolves r r'"
  using assms by (auto simp: pubs_evolve_def)

lemma row_evolves_refl [simp]: "row_evolves r r"
  by (simp add: row_evolves_def)

lemma pubs_evolve_refl [evolves]: "pubs_evolve d d"
  by (auto simp: pubs_evolve_def)

lemma pubs_evolve_audit [simp]: "pubs_evolve d (d'\<lparr>pd_audit := a\<rparr>) = pubs_evolve d d'"
  by (simp add: pubs_evolve_def)

lemma pubs_evolve_put:
  "get_pub d k = Some r \<Longrightarrow> row_evolves r r' \<Longrightarrow> pubs_evolve d (put_pub d r')"
  by (auto simp: pubs_evolve_def row_evolves_def dest: row_get_key)

lemma pubs_evolve_delete [evolves]: "pubs_evolve d (delete_pub d k)"
  by (auto simp: pubs_evolve_def)

lemma wf_audit [simp]: "wf_pubs (d\<lparr>pd_audit := a\<rparr>) = wf_pubs d"
  by (simp add: wf_pubs_def)

lemma hold_evolves: "row_evolves r (hold s now n r)"
  by (simp add: row_evolves_def)

lemma claim_due_evolves [evolves]:
  "wf_pubs d \<Longrightarrow> claim_due s now n lk d = (d', held) \<Longrightarrow> pubs_evolve d d'"
  by (erule (1) claim_dueE) (auto simp: pubs_evolve_def hold_evolves split: if_splits)

lemma publish_now_evolves [evolves]:
  "publish_now_claim s now k lk d = Some (d', row) \<Longrightarrow> pubs_evolve d d'"
  by (auto simp: publish_now_claim_def Let_def split: option.splits if_splits intro: pubs_evolve_put hold_evolves)

lemma failed_row_evolves: "row_evolves r (failed_row s now why fin r)"
  by (simp add: row_evolves_def)

lemma record_failure_evolves [evolves]: "pubs_evolve d (record_failure s now why fin snap d)"
  by (auto simp: record_failure_def split: option.split
      intro: pubs_evolve_refl pubs_evolve_put failed_row_evolves)

lemma record_success_evolves [evolves]: "pubs_evolve d (record_success snap d)"
  by (simp add: record_success_def evolves)

lemma mark_stored_evolves [evolves]: "pubs_evolve d (mark_stored now snap d)"
  by (auto simp: mark_stored_def row_evolves_def split: option.split
      intro: pubs_evolve_refl intro!: pubs_evolve_put)

lemma give_back_evolves [evolves]: "give_back s now snap d = (d', b) \<Longrightarrow> pubs_evolve d d'"
  by (auto simp: give_back_def row_evolves_def split: option.splits if_splits
      intro: evolves pubs_evolve_put)

lemma renewed_row_evolves: "row_evolves r (renewed_row s now db_now n r)"
  by (auto simp: renewed_row_def row_evolves_def lease_forward_def Let_def)

lemma renewal_evolves [evolves]: "renewal s now db_now snap ls d = (d', ls') \<Longrightarrow> pubs_evolve d d'"
  by (auto simp: renewal_def Let_def split: option.splits
      intro: pubs_evolve_refl pubs_evolve_put renewed_row_evolves)

lemma operator_row_Some: "operator_row d k job tenant = Some r \<Longrightarrow> get_pub d k = Some r"
  by (simp add: operator_row_def split: option.splits if_splits)

text \<open>Both buttons act on a dead row that no attempt is proving to be at work on.\<close>

lemma requeue_cases:
  assumes "requeue_publication now db_now d k job tenant = Ok (d', answer)"
  obtains "d' = d"
  | r a where "get_pub d k = Some r" "rp_status r = STATUS_DEAD" "\<not> is_leased db_now r"
      "d' = (put_pub d (requeued_row now r))\<lparr>pd_audit := a\<rparr>"
  using assms
  by (fastforce simp: requeue_publication_def refuse_while_leased_def Let_def bindE_def
      split: option.splits if_splits dest: operator_row_Some)

lemma discard_cases:
  assumes "discard_publication db_now d k job tenant = Ok (d', found)"
  obtains "d' = d" "\<not> found"
  | r a where "get_pub d k = Some r" "rp_status r = STATUS_DEAD" "\<not> is_leased db_now r" "found"
      "d' = (delete_pub d k)\<lparr>pd_audit := a\<rparr>"
  using assms
  by (fastforce simp: discard_publication_def refuse_while_leased_def bindE_def
      split: option.splits if_splits dest: operator_row_Some)

lemma requeued_row_evolves: "row_evolves r (requeued_row now r)"
  by (simp add: requeued_row_def row_evolves_def)

lemma requeue_evolves [evolves]:
  "requeue_publication now db_now d k job tenant = Ok (d', row) \<Longrightarrow> pubs_evolve d d'"
  by (erule requeue_cases) (auto intro: pubs_evolve_refl pubs_evolve_put requeued_row_evolves)

lemma discard_evolves [evolves]:
  "discard_publication db_now d k job tenant = Ok (d', found) \<Longrightarrow> pubs_evolve d d'"
  by (erule discard_cases) (auto intro: evolves)

section \<open>The table stays a table\<close>

named_theorems keeps_wf

lemma wf_publish_now [keeps_wf]:
  "publish_now_claim s now k lk d = Some (d', row) \<Longrightarrow> wf_pubs d \<Longrightarrow> wf_pubs d'"
  by (auto simp: publish_now_claim_def Let_def split: option.splits if_splits intro: pub_table.wf_put)

lemma wf_record_failure [keeps_wf]: "wf_pubs d \<Longrightarrow> wf_pubs (record_failure s now why fin snap d)"
  by (auto simp: record_failure_def split: option.split intro: pub_table.wf_put)

lemma wf_record_success [keeps_wf]: "wf_pubs d \<Longrightarrow> wf_pubs (record_success snap d)"
  by (simp add: record_success_def wf_delete_pub)

lemma wf_mark_stored [keeps_wf]: "wf_pubs d \<Longrightarrow> wf_pubs (mark_stored now snap d)"
  by (auto simp: mark_stored_def split: option.split intro: pub_table.wf_put)

lemma wf_give_back [keeps_wf]: "give_back s now snap d = (d', b) \<Longrightarrow> wf_pubs d \<Longrightarrow> wf_pubs d'"
  by (auto simp: give_back_def split: option.splits if_splits intro: pub_table.wf_put keeps_wf)

lemma wf_renewal [keeps_wf]: "renewal s now db_now snap ls d = (d', ls') \<Longrightarrow> wf_pubs d \<Longrightarrow> wf_pubs d'"
  by (auto simp: renewal_def Let_def split: option.splits intro: pub_table.wf_put)

lemma wf_requeue [keeps_wf]:
  "requeue_publication now db_now d k job tenant = Ok (d', row) \<Longrightarrow> wf_pubs d \<Longrightarrow> wf_pubs d'"
  by (erule requeue_cases) (auto intro: pub_table.wf_put)

lemma wf_discard [keeps_wf]:
  "discard_publication db_now d k job tenant = Ok (d', found) \<Longrightarrow> wf_pubs d \<Longrightarrow> wf_pubs d'"
  by (erule discard_cases) (auto intro: wf_delete_pub)

end
