(* ===== verification/Pub_System.thy ===== *)
theory Pub_System
  imports Pub_Model "HOL-Library.Sublist"
begin

text \<open>
  The publisher at work, \<^verbatim>\<open>api/services/run_publisher.py\<close>: accepted uploads, the ticks and the
  inline call that claim their rows, and the attempts between a claim and its outcome, each one
  a sequence of the transactions of \<^verbatim>\<open>Pub_Model\<close> and of writes to the object store. Replicas,
  attempts and operators interleave freely. The store is a remote one, a set of keys at the
  paths of this release; the
  run directory of a replica, the pointer, the bus and the projections only appear as steps
  that may fail. A sweep takes a tree only while no attempt is at work on it.
\<close>

section \<open>Worlds\<close>

text \<open>
  An attempt is \<open>Taken\<close> by a tick and \<open>Entered\<close> once it is under its lease; \<open>Retreating\<close> is the
  time between the answer of \<^verbatim>\<open>_may_take_back\<close> and the deletion it permits; a \<open>Failed\<close> one owes
  its row a recorded failure.
\<close>

datatype phase = Taken | Entered | Uploading | Retreating | Stored | Published | Failed

record attempt =
  am_replica :: string
  am_snap :: run_publication
  am_lease :: lease_state
  am_phase :: phase
  am_written :: "string set"

type_synonym run_ref = "string \<times> string"

text \<open>
  \<open>pw_keys\<close> are the object keys below the run prefixes, \<open>pw_staged\<close> the publications whose
  extracted tree is still on the disk of the replica that accepted it, \<open>pw_trees\<close> what the
  trees hold. \<open>pw_accepted\<close>, \<open>pw_closed\<close> and \<open>pw_discarded\<close> record what has happened.
\<close>

record pub_world =
  pw_db :: pub_db
  pw_attempts :: "attempt list"
  pw_keys :: "(run_ref \<times> string) set"
  pw_staged :: "string set"
  pw_trees :: "string \<Rightarrow> string set"
  pw_accepted :: "run_publication list"
  pw_closed :: "string set"
  pw_discarded :: "string set"

definition BATCH_SIZE :: nat where "BATCH_SIZE = 10"

definition run_ref_of :: "run_publication \<Rightarrow> run_ref" where
  "run_ref_of row = (rp_tenant_id row, rp_run_id row)"

abbreviation am_id :: "attempt \<Rightarrow> string" where "am_id a \<equiv> rp_publication_id (am_snap a)"

abbreviation at_replica :: "publisher_settings \<Rightarrow> string \<Rightarrow> publisher_settings" where
  "at_replica s r \<equiv> s\<lparr>pc_instance_id := r\<rparr>"

definition attempt_on :: "string \<Rightarrow> phase \<Rightarrow> run_publication \<Rightarrow> attempt" where
  "attempt_on r ph snap =
     \<lparr>am_replica = r, am_snap = snap, am_lease = new_lease, am_phase = ph, am_written = {}\<rparr>"

text \<open>Whether anything is listed under the run, and whether the replica can see the tree:
  \<open>mounts r home\<close> is whether \<open>r\<close> has the volume of \<open>home\<close>.\<close>

definition run_exists :: "pub_world \<Rightarrow> run_publication \<Rightarrow> bool" where
  "run_exists w row = (run_ref_of row \<in> fst ` pw_keys w)"

definition on_disk :: "(string \<Rightarrow> string \<Rightarrow> bool) \<Rightarrow> pub_world \<Rightarrow> attempt \<Rightarrow> bool" where
  "on_disk mounts w a =
     (am_id a \<in> pw_staged w \<and>
      (case rp_replica (am_snap a) of None \<Rightarrow> False | Some home \<Rightarrow> mounts (am_replica a) home))"

definition accepted_world :: "pub_world \<Rightarrow> run_publication \<Rightarrow> string set \<Rightarrow> pub_db \<Rightarrow> pub_world" where
  "accepted_world w row files d =
     w\<lparr>pw_db := d, pw_staged := insert (rp_publication_id row) (pw_staged w),
       pw_trees := (pw_trees w)(rp_publication_id row := files),
       pw_accepted := pw_accepted w @ [row]\<rparr>"

definition accepted_ids :: "pub_world \<Rightarrow> string set" where
  "accepted_ids w = rp_publication_id ` set (pw_accepted w)"

definition start_world :: pub_world where
  "start_world =
     \<lparr>pw_db = \<lparr>pd_rows = [], pd_audit = []\<rparr>, pw_attempts = [], pw_keys = {}, pw_staged = {},
      pw_trees = (\<lambda>_. {}), pw_accepted = [], pw_closed = {}, pw_discarded = {}\<rparr>"

section \<open>Steps\<close>

text \<open>
  An attempt writes its outcome and is over (\<open>ended\<close>), or goes on in another phase (\<open>moved\<close>).
\<close>

definition moved :: "pub_world \<Rightarrow> attempt list \<Rightarrow> attempt \<Rightarrow> attempt list \<Rightarrow> phase \<Rightarrow> pub_world" where
  "moved w xs a ys ph = w\<lparr>pw_attempts := xs @ a\<lparr>am_phase := ph\<rparr> # ys\<rparr>"

definition ended :: "pub_world \<Rightarrow> attempt list \<Rightarrow> attempt list \<Rightarrow> pub_db \<Rightarrow> pub_world" where
  "ended w xs ys d = w\<lparr>pw_attempts := xs @ ys, pw_db := d\<rparr>"

text \<open>
  The rules follow the code: the acceptance of an upload or of a local run; the claims of a tick
  and of \<^verbatim>\<open>publish_now\<close>; the checks of \<^verbatim>\<open>reconcile_once\<close> before an attempt; the two ways
  \<^verbatim>\<open>_publish\<close> starts and the one it cannot; the upload, its completion and its refusal with the
  rollback; the promotion; the outcomes; the death of a replica; renewals and the two buttons.
  The rule \<open>missed\<close> is an upload whose tree was promoted away before it listed a file, which
  \<^verbatim>\<open>publish_run\<close> answers with zero files and no error, and \<open>unmarked\<close> a \<^verbatim>\<open>_mark_stored\<close> the
  database refused.
\<close>

inductive pub_step ::
  "publisher_settings \<Rightarrow> (string \<Rightarrow> string \<Rightarrow> bool) \<Rightarrow> pub_world \<Rightarrow> pub_world \<Rightarrow> bool"
  for s mounts where
  accept_upload: "row = owed_row p \<Longrightarrow> rp_publication_id row \<notin> accepted_ids w \<Longrightarrow>
      insert_pub (pw_db w) row = Some d \<Longrightarrow> pub_step s mounts w (accepted_world w row files d)"
| accept_local: "row = new_local_publication (at_replica s r) now job run tenant jstatus exit err surf src \<Longrightarrow>
      rp_publication_id row \<notin> accepted_ids w \<Longrightarrow> insert_pub (pw_db w) row = Some d \<Longrightarrow>
      pub_step s mounts w (accepted_world w row files d)"
| tick: "claim_due (at_replica s r) now BATCH_SIZE locked (pw_db w) = (d, held) \<Longrightarrow>
      pub_step s mounts w
        (w\<lparr>pw_db := d, pw_attempts := pw_attempts w @ map (attempt_on r Taken) held\<rparr>)"
| inline: "publish_now_claim (at_replica s r) now pid locked (pw_db w) = Some (d, row) \<Longrightarrow>
      pub_step s mounts w
        (w\<lparr>pw_db := d, pw_attempts := pw_attempts w @ [attempt_on r Entered row]\<rparr>)"
| hand_back: "pw_attempts w = xs @ a # ys \<Longrightarrow> am_phase a = Taken \<Longrightarrow>
      is_foreign_and_absent (at_replica s (am_replica a)) (on_disk mounts w a)
        (run_exists w (am_snap a)) False (am_snap a) \<Longrightarrow>
      give_back (at_replica s (am_replica a)) now (am_snap a) (pw_db w) = (d, owed) \<Longrightarrow>
      pub_step s mounts w (ended w xs ys d)"
| write_off: "pw_attempts w = xs @ a # ys \<Longrightarrow> am_phase a = Taken \<Longrightarrow>
      \<not> is_foreign_and_absent (at_replica s (am_replica a)) (on_disk mounts w a)
        (run_exists w (am_snap a)) False (am_snap a) \<Longrightarrow> claims_spent s (am_snap a) \<Longrightarrow>
      pub_step s mounts w (ended w xs ys (record_failure s now NEVER_ATTEMPTED True (am_snap a) (pw_db w)))"
| enter: "pw_attempts w = xs @ a # ys \<Longrightarrow> am_phase a = Taken \<Longrightarrow>
      \<not> is_foreign_and_absent (at_replica s (am_replica a)) (on_disk mounts w a)
        (run_exists w (am_snap a)) False (am_snap a) \<Longrightarrow> \<not> claims_spent s (am_snap a) \<Longrightarrow>
      pub_step s mounts w (moved w xs a ys Entered)"
| begin_upload: "pw_attempts w = xs @ a # ys \<Longrightarrow> am_phase a = Entered \<Longrightarrow> on_disk mounts w a \<Longrightarrow>
      pub_step s mounts w (moved w xs (a\<lparr>am_written := {}\<rparr>) ys Uploading)"
| resume: "pw_attempts w = xs @ a # ys \<Longrightarrow> am_phase a = Entered \<Longrightarrow> \<not> on_disk mounts w a \<Longrightarrow>
      tree_is_stored (run_exists w (am_snap a)) False (am_snap a) \<Longrightarrow>
      pub_step s mounts w (moved w xs a ys Published)"
| gone: "pw_attempts w = xs @ a # ys \<Longrightarrow> am_phase a = Entered \<Longrightarrow> \<not> on_disk mounts w a \<Longrightarrow>
      \<not> tree_is_stored (run_exists w (am_snap a)) False (am_snap a) \<Longrightarrow>
      pub_step s mounts w (ended w xs ys (record_failure s now TREE_IS_GONE True (am_snap a) (pw_db w)))"
| put_file: "pw_attempts w = xs @ a # ys \<Longrightarrow> am_phase a = Uploading \<Longrightarrow> on_disk mounts w a \<Longrightarrow>
      f \<in> pw_trees w (am_id a) \<Longrightarrow>
      pub_step s mounts w
        (w\<lparr>pw_keys := insert (run_ref_of (am_snap a), f) (pw_keys w),
           pw_attempts := xs @ a\<lparr>am_written := insert f (am_written a)\<rparr> # ys\<rparr>)"
| uploaded: "pw_attempts w = xs @ a # ys \<Longrightarrow> am_phase a = Uploading \<Longrightarrow>
      pw_trees w (am_id a) \<subseteq> am_written a \<Longrightarrow>
      pub_step s mounts w ((moved w xs a ys Stored)\<lparr>pw_db := mark_stored now (am_snap a) (pw_db w)\<rparr>)"
| missed: "pw_attempts w = xs @ a # ys \<Longrightarrow> am_phase a = Uploading \<Longrightarrow> am_written a = {} \<Longrightarrow>
      \<not> on_disk mounts w a \<Longrightarrow>
      pub_step s mounts w ((moved w xs a ys Stored)\<lparr>pw_db := mark_stored now (am_snap a) (pw_db w)\<rparr>)"
| unmarked: "pw_attempts w = xs @ a # ys \<Longrightarrow> am_phase a = Uploading \<Longrightarrow>
      pw_trees w (am_id a) \<subseteq> am_written a \<Longrightarrow> pub_step s mounts w (moved w xs a ys Failed)"
| refused: "pw_attempts w = xs @ a # ys \<Longrightarrow> am_phase a = Uploading \<Longrightarrow>
      am_written a = {} \<or> \<not> may_take_back (am_snap a) (pw_db w) \<Longrightarrow>
      pub_step s mounts w (moved w xs a ys Failed)"
| retreat: "pw_attempts w = xs @ a # ys \<Longrightarrow> am_phase a = Uploading \<Longrightarrow> am_written a \<noteq> {} \<Longrightarrow>
      may_take_back (am_snap a) (pw_db w) \<Longrightarrow> pub_step s mounts w (moved w xs a ys Retreating)"
| take_back: "pw_attempts w = xs @ a # ys \<Longrightarrow> am_phase a = Retreating \<Longrightarrow> removed \<subseteq> am_written a \<Longrightarrow>
      pub_step s mounts w
        ((moved w xs a ys Failed)\<lparr>pw_keys := pw_keys w - {run_ref_of (am_snap a)} \<times> removed\<rparr>)"
| promote: "pw_attempts w = xs @ a # ys \<Longrightarrow> am_phase a = Stored \<Longrightarrow> on_disk mounts w a \<Longrightarrow>
      pub_step s mounts w ((moved w xs a ys Published)\<lparr>pw_staged := pw_staged w - {am_id a}\<rparr>)"
| stumble: "pw_attempts w = xs @ a # ys \<Longrightarrow> am_phase a \<in> {Entered, Stored, Published} \<Longrightarrow>
      pub_step s mounts w (moved w xs a ys Failed)"
| archive_gone: "pw_attempts w = xs @ a # ys \<Longrightarrow> am_phase a = Published \<Longrightarrow> \<not> is_local (am_snap a) \<Longrightarrow>
      pub_step s mounts w (ended w xs ys (record_failure s now ARCHIVE_IS_GONE True (am_snap a) (pw_db w)))"
| fail: "pw_attempts w = xs @ a # ys \<Longrightarrow> am_phase a = Failed \<Longrightarrow>
      pub_step s mounts w (ended w xs ys (record_failure s now reason False (am_snap a) (pw_db w)))"
| succeed: "pw_attempts w = xs @ a # ys \<Longrightarrow> am_phase a = Published \<Longrightarrow>
      pub_step s mounts w
        ((ended w xs ys (record_success (am_snap a) (pw_db w)))
           \<lparr>pw_closed := (if get_pub (pw_db w) (am_id a) = None then pw_closed w
                          else insert (am_id a) (pw_closed w))\<rparr>)"
| die: "pw_attempts w = xs @ a # ys \<Longrightarrow> pub_step s mounts w (ended w xs ys (pw_db w))"
| sweep: "pid \<notin> am_id ` set (pw_attempts w) \<Longrightarrow>
      pub_step s mounts w (w\<lparr>pw_staged := pw_staged w - {pid}\<rparr>)"
| renew: "pw_attempts w = xs @ a # ys \<Longrightarrow> am_phase a \<notin> {Taken, Failed} \<Longrightarrow> \<not> ls_stopped (am_lease a) \<Longrightarrow>
      renewal s now db_now (am_snap a) (am_lease a) (pw_db w) = (d, ls) \<Longrightarrow>
      pub_step s mounts w (w\<lparr>pw_db := d, pw_attempts := xs @ a\<lparr>am_lease := ls\<rparr> # ys\<rparr>)"
| renewal_refused: "pw_attempts w = xs @ a # ys \<Longrightarrow> am_phase a \<notin> {Taken, Failed} \<Longrightarrow>
      \<not> ls_stopped (am_lease a) \<Longrightarrow>
      pub_step s mounts w (w\<lparr>pw_attempts := xs @ a\<lparr>am_lease := renewal_lost (am_lease a)\<rparr> # ys\<rparr>)"
| requeue: "requeue_publication now db_now (pw_db w) pid job tenant = Ok (d, answer) \<Longrightarrow>
      pub_step s mounts w (w\<lparr>pw_db := d\<rparr>)"
| discard: "discard_publication db_now (pw_db w) pid job tenant = Ok (d, found) \<Longrightarrow>
      pub_step s mounts w
        (w\<lparr>pw_db := d, pw_discarded := (if found then insert pid (pw_discarded w) else pw_discarded w)\<rparr>)"

inductive pub_reachable ::
  "publisher_settings \<Rightarrow> (string \<Rightarrow> string \<Rightarrow> bool) \<Rightarrow> pub_world \<Rightarrow> bool" for s mounts where
  start: "pub_reachable s mounts start_world"
| step: "pub_reachable s mounts w \<Longrightarrow> pub_step s mounts w w' \<Longrightarrow> pub_reachable s mounts w'"

text \<open>
  A run in which the leases do their work, so that no two attempts at one publication overlap,
  and no two publications share a run directory.
\<close>

definition orderly :: "pub_world \<Rightarrow> bool" where
  "orderly w = (distinct (map am_id (pw_attempts w)) \<and> distinct (map run_ref_of (pw_accepted w)))"

inductive orderly_reachable ::
  "publisher_settings \<Rightarrow> (string \<Rightarrow> string \<Rightarrow> bool) \<Rightarrow> pub_world \<Rightarrow> bool" for s mounts where
  orderly_start: "orderly_reachable s mounts start_world"
| orderly_step: "orderly_reachable s mounts w \<Longrightarrow> pub_step s mounts w w' \<Longrightarrow> orderly w' \<Longrightarrow>
    orderly_reachable s mounts w'"

section \<open>Shape of a step\<close>

abbreviation snaps :: "pub_world \<Rightarrow> run_publication list" where
  "snaps w \<equiv> map am_snap (pw_attempts w)"

lemma moved_simps [simp]:
  "pw_db (moved w xs a ys ph) = pw_db w" "pw_accepted (moved w xs a ys ph) = pw_accepted w"
  "pw_attempts (moved w xs a ys ph) = xs @ a\<lparr>am_phase := ph\<rparr> # ys"
  "pw_keys (moved w xs a ys ph) = pw_keys w" "pw_staged (moved w xs a ys ph) = pw_staged w"
  "pw_trees (moved w xs a ys ph) = pw_trees w" "pw_closed (moved w xs a ys ph) = pw_closed w"
  "pw_discarded (moved w xs a ys ph) = pw_discarded w"
  by (simp_all add: moved_def)

lemma ended_simps [simp]:
  "pw_db (ended w xs ys d) = d" "pw_accepted (ended w xs ys d) = pw_accepted w"
  "pw_attempts (ended w xs ys d) = xs @ ys"
  "pw_keys (ended w xs ys d) = pw_keys w" "pw_staged (ended w xs ys d) = pw_staged w"
  "pw_trees (ended w xs ys d) = pw_trees w" "pw_closed (ended w xs ys d) = pw_closed w"
  "pw_discarded (ended w xs ys d) = pw_discarded w"
  by (simp_all add: ended_def)

lemma attempt_on_simps [simp]:
  "am_snap (attempt_on r ph snap) = snap" "am_phase (attempt_on r ph snap) = ph"
  "am_replica (attempt_on r ph snap) = r" "am_written (attempt_on r ph snap) = {}"
  by (simp_all add: attempt_on_def)

lemma snaps_taken [simp]: "map (am_snap \<circ> attempt_on r ph) rows = rows"
  by (induction rows) simp_all

text \<open>What a claim, by a tick or by \<^verbatim>\<open>publish_now\<close>, leaves in the table.\<close>

definition claims_rows :: "pub_db \<Rightarrow> run_publication list \<Rightarrow> pub_db \<Rightarrow> bool" where
  "claims_rows d held d' \<longleftrightarrow> distinct (map rp_publication_id held) \<and>
     (\<forall>h\<in>set held. get_pub d' (rp_publication_id h) = Some h \<and>
        (\<exists>r. get_pub d (rp_publication_id h) = Some r \<and> row_evolves r h \<and>
           rp_fence h = rp_fence r + 1 \<and> rp_stored_at h = rp_stored_at r \<and> rp_status h = rp_status r))"

lemma claim_due_claims:
  assumes "wf_pubs d" and "claim_due s now n lk d = (d', held)"
  shows "claims_rows d held d'"
  using assms
proof (rule claim_dueE)
  fix rows
  assume rows: "\<And>r. r \<in> set rows \<Longrightarrow> get_pub d (rp_publication_id r) = Some r \<and> due s now r"
    and dis: "distinct (map rp_publication_id rows)" and held: "held = map (hold s now (length rows)) rows"
    and d': "\<And>k. get_pub d' k = (if k \<in> rp_publication_id ` set rows
        then map_option (hold s now (length rows)) (get_pub d k) else get_pub d k)"
  have "map rp_publication_id held = map rp_publication_id rows" by (simp add: held)
  with dis have "distinct (map rp_publication_id held)" by simp
  then show ?thesis unfolding claims_rows_def using rows d' by (auto simp: held hold_evolves)
qed

lemma publish_now_claims:
  "publish_now_claim s now k lk d = Some (d', row) \<Longrightarrow> claims_rows d [row] d'"
  by (auto simp: publish_now_claim_def claims_rows_def Let_def hold_evolves split: option.splits if_splits)
    (metis option.distinct(1) row_get_key, metis hold_evolves row_get_key)

text \<open>
  A step accepts a publication, claims rows, or lets the rows evolve and the attempts go on.
\<close>

lemma pub_step_shape:
  assumes "pub_step s mounts w w'" and wf: "wf_pubs (pw_db w)"
  obtains (accepts) row files d where "rp_publication_id row \<notin> accepted_ids w"
      "insert_pub (pw_db w) row = Some d" "w' = accepted_world w row files d"
  | (claims) r ph held d where "claims_rows (pw_db w) held d" "pubs_evolve (pw_db w) d" "wf_pubs d"
      "ph \<in> {Taken, Entered}"
      "w' = w\<lparr>pw_db := d, pw_attempts := pw_attempts w @ map (attempt_on r ph) held\<rparr>"
  | (goes_on) "pubs_evolve (pw_db w) (pw_db w')" "wf_pubs (pw_db w')" "subseq (snaps w') (snaps w)"
      "pw_accepted w' = pw_accepted w"
proof -
  have sub: "subseq (map am_snap xs @ map am_snap ys) (map am_snap xs @ x # map am_snap ys)" for xs ys x
    by (intro list_emb_append_mono) (auto intro: list_emb_Cons)
  show thesis using assms(1)
  proof cases
    case accept_upload then show thesis by (intro accepts)
  next
    case accept_local then show thesis by (intro accepts)
  next
    case (tick r now locked d held)
    have "wf_pubs d" using wf tick(2) by (rule claim_dueE)
    then show thesis using tick wf
      by (intro claims [of held d Taken r]) (auto intro: claim_due_claims claim_due_evolves)
  next
    case (inline r now pid locked d row)
    then show thesis using wf
      by (intro claims [of "[row]" d Entered r]) (auto intro: publish_now_claims evolves keeps_wf)
  qed (rule goes_on; (simp add: sub)?; ((rule evolves keeps_wf wf | assumption)+)?)+
qed

end
