(* ===== verification/Pub_Demo.thy ===== *)
theory Pub_Demo
  imports Pub_System
begin

text \<open>
  Concrete runs of \<^verbatim>\<open>Pub_System\<close> that properties use as witnesses: one upload, published by one
  attempt, and the same upload taken by a tick and by the inline call at once.
\<close>

definition demo_publisher :: publisher_settings where
  "demo_publisher = \<lparr>pc_instance_id = ''a'', pc_max_attempts = 1, pc_retry_base_seconds = 5,
     pc_retry_max_seconds = 300, pc_interval_seconds = 15, pc_orphan_deadline_seconds = 3600\<rparr>"

definition demo_publication :: publication where
  "demo_publication = \<lparr>pub_id = ''tok'', pub_tenant_id = ''t'', pub_job_id = ''j'', pub_run_id = ''r'',
     pub_agent_id = ''ag'', pub_job_status = ''succeeded'', pub_risk_assessment = True, pub_exit_code = 0,
     pub_scan_error = None, pub_surface = None, pub_staging_path = ''/s'', pub_replica = ''a'',
     pub_status = ''pending'', pub_next_attempt_at = 0, pub_created_at = 0\<rparr>"

definition demo_files :: "string set" where "demo_files = {''tenant.json'', ''summary.json''}"

definition claimed_once :: run_publication where
  "claimed_once = hold demo_publisher 0 1 (owed_row demo_publication)"

definition claimed_twice :: run_publication where
  "claimed_twice = hold demo_publisher 0 1 claimed_once"

definition demo_world ::
  "run_publication list \<Rightarrow> attempt list \<Rightarrow> string set \<Rightarrow> string set \<Rightarrow> string set \<Rightarrow> pub_world" where
  "demo_world rows atts files staged closed =
     \<lparr>pw_db = \<lparr>pd_rows = rows, pd_audit = []\<rparr>, pw_attempts = atts,
      pw_keys = {(''t'', ''r'')} \<times> files, pw_staged = staged,
      pw_trees = (\<lambda>k. if k = ''tok'' then demo_files else {}), pw_accepted = [owed_row demo_publication],
      pw_closed = closed, pw_discarded = {}\<rparr>"

definition demo_attempt :: "run_publication \<Rightarrow> phase \<Rightarrow> string set \<Rightarrow> attempt" where
  "demo_attempt snap ph files =
     \<lparr>am_replica = ''a'', am_snap = snap, am_lease = new_lease, am_phase = ph, am_written = files\<rparr>"

lemma demo_attempt_simps [simp]:
  "am_snap (demo_attempt snap ph files) = snap" "am_phase (demo_attempt snap ph files) = ph"
  "am_replica (demo_attempt snap ph files) = ''a''" "am_written (demo_attempt snap ph files) = files"
  "(demo_attempt snap ph files)\<lparr>am_phase := ph'\<rparr> = demo_attempt snap ph' files"
  "(demo_attempt snap ph files)\<lparr>am_written := files'\<rparr> = demo_attempt snap ph files'"
  "attempt_on ''a'' ph snap = demo_attempt snap ph {}"
  by (simp_all add: demo_attempt_def attempt_on_def)

abbreviation demo_reachable :: "pub_world \<Rightarrow> bool" where
  "demo_reachable \<equiv> pub_reachable demo_publisher (=)"

abbreviation demo_step :: "pub_world \<Rightarrow> pub_world \<Rightarrow> bool" where
  "demo_step \<equiv> pub_step demo_publisher (=)"

lemma demo_ids [simp]:
  "rp_publication_id claimed_once = ''tok''" "rp_publication_id claimed_twice = ''tok''"
  "rp_publication_id (owed_row demo_publication) = ''tok''"
  "run_ref_of claimed_once = (''t'', ''r'')" "run_ref_of claimed_twice = (''t'', ''r'')"
  "rp_replica claimed_once = Some ''a''" "rp_replica claimed_twice = Some ''a''"
  "rp_fence claimed_once = 1" "rp_fence claimed_twice = 2"
  "rp_claims claimed_once = 1" "rp_claims claimed_twice = 2" "rp_claims_base claimed_once = 0"
  "rp_stored_at claimed_once = None" "rp_stored_at claimed_twice = None"
  by (simp_all add: claimed_once_def claimed_twice_def hold_def owed_row_def demo_publication_def run_ref_of_def)


lemma demo_world_simps [simp]:
  "pw_db (demo_world rows atts files st cl) = \<lparr>pd_rows = rows, pd_audit = []\<rparr>"
  "pw_attempts (demo_world rows atts files st cl) = atts"
  "pw_keys (demo_world rows atts files st cl) = {(''t'', ''r'')} \<times> files"
  "pw_staged (demo_world rows atts files st cl) = st" "pw_closed (demo_world rows atts files st cl) = cl"
  "pw_trees (demo_world rows atts files st cl) ''tok'' = demo_files"
  by (simp_all add: demo_world_def)

lemma demo_accept: "demo_step start_world (demo_world [owed_row demo_publication] [] {} {''tok''} {})"
  using pub_step.accept_upload [where w = start_world and s = demo_publisher and mounts = "(=)" and
    p = demo_publication and files = demo_files and d = "\<lparr>pd_rows = [owed_row demo_publication], pd_audit = []\<rparr>"]
  by (simp add: start_world_def demo_world_def accepted_ids_def insert_pub_def row_get_def
      accepted_world_def fun_upd_def)


lemma demo_settings [simp]: "at_replica demo_publisher ''a'' = demo_publisher"
  by (simp add: demo_publisher_def)

lemma due_demo: "due demo_publisher 0 (owed_row demo_publication)"
  by (simp add: due_def owed_row_def demo_publication_def demo_publisher_def)

lemma claim_demo: "claim_due demo_publisher 0 BATCH_SIZE {} \<lparr>pd_rows = [owed_row demo_publication], pd_audit = []\<rparr> =
  (\<lparr>pd_rows = [claimed_once], pd_audit = []\<rparr>, [claimed_once])"
  by (simp add: claim_due_def due_rows_def due_demo BATCH_SIZE_def claimed_once_def Let_def
      put_pub_def row_put_def)

lemma inline_demo: "publish_now_claim demo_publisher 0 ''tok'' {} \<lparr>pd_rows = [claimed_once], pd_audit = []\<rparr> =
  Some (\<lparr>pd_rows = [claimed_twice], pd_audit = []\<rparr>, claimed_twice)"
  by (simp add: publish_now_claim_def row_get_def put_pub_def row_put_def claimed_twice_def [symmetric, simplified])

lemma demo_update [simp]:
  "demo_world rows atts files st cl\<lparr>pw_db := \<lparr>pd_rows = rows', pd_audit = []\<rparr>\<rparr> = demo_world rows' atts files st cl"
  "demo_world rows atts files st cl\<lparr>pw_attempts := atts'\<rparr> = demo_world rows atts' files st cl"
  "demo_world rows atts files st cl\<lparr>pw_staged := st'\<rparr> = demo_world rows atts files st' cl"
  "demo_world rows atts files st cl\<lparr>pw_closed := cl'\<rparr> = demo_world rows atts files st cl'"
  by (simp_all add: demo_world_def)



lemma demo_moved [simp]:
  "moved (demo_world rows atts files st cl) xs (demo_attempt snap ph' fs) ys ph =
     demo_world rows (xs @ demo_attempt snap ph fs # ys) files st cl"
  by (simp add: moved_def)

lemma demo_tick: "demo_step (demo_world [owed_row demo_publication] [] {} {''tok''} {})
    (demo_world [claimed_once] [demo_attempt claimed_once Taken {}] {} {''tok''} {})"
  using pub_step.tick [where w = "demo_world [owed_row demo_publication] [] {} {''tok''} {}" and
    s = demo_publisher and mounts = "(=)" and r = "''a''" and now = 0 and locked = "{}",
    simplified, OF claim_demo] by simp

lemma demo_enter: "demo_step (demo_world [claimed_once] [demo_attempt claimed_once Taken {}] {} {''tok''} {})
    (demo_world [claimed_once] [demo_attempt claimed_once Entered {}] {} {''tok''} {})"
  using pub_step.enter [where w = "demo_world [claimed_once] [demo_attempt claimed_once Taken {}] {} {''tok''} {}" and
    xs = "[]" and a = "demo_attempt claimed_once Taken {}" and ys = "[]" and s = demo_publisher and mounts = "(=)"]
  by (simp add: is_foreign_and_absent_def claims_spent_def demo_publisher_def claim_budget_def)

lemma demo_inline: "demo_step (demo_world [claimed_once] [a] {} {''tok''} {})
    (demo_world [claimed_twice] [a, demo_attempt claimed_twice Entered {}] {} {''tok''} {})"
  using pub_step.inline [where w = "demo_world [claimed_once] [a] {} {''tok''} {}" and
    s = demo_publisher and mounts = "(=)" and r = "''a''" and now = 0 and locked = "{}" and pid = "''tok''",
    simplified, OF inline_demo] by simp

text \<open>The steps of one attempt in such a world, the other attempts standing by.\<close>

abbreviation demo_snap :: "run_publication \<Rightarrow> bool" where
  "demo_snap snap \<equiv> snap \<in> {claimed_once, claimed_twice}"

lemma demo_begin: "demo_snap snap \<Longrightarrow>
    demo_step (demo_world rows (xs @ demo_attempt snap Entered {} # ys) files {''tok''} cl)
      (demo_world rows (xs @ demo_attempt snap Uploading {} # ys) files {''tok''} cl)"
  using pub_step.begin_upload [where w = "demo_world rows (xs @ demo_attempt snap Entered {} # ys) files {''tok''} cl" and
    xs = xs and a = "demo_attempt snap Entered {}" and ys = ys and s = demo_publisher and mounts = "(=)"]
  by (auto simp: on_disk_def)

lemma demo_put: "demo_snap snap \<Longrightarrow> f \<in> demo_files \<Longrightarrow>
    demo_step (demo_world rows (xs @ demo_attempt snap Uploading fs # ys) files {''tok''} cl)
      (demo_world rows (xs @ demo_attempt snap Uploading (insert f fs) # ys) (insert f files) {''tok''} cl)"
  using pub_step.put_file [where w = "demo_world rows (xs @ demo_attempt snap Uploading fs # ys) files {''tok''} cl" and
    xs = xs and a = "demo_attempt snap Uploading fs" and ys = ys and f = f and s = demo_publisher and mounts = "(=)"]
  by (auto simp: on_disk_def demo_world_def insert_Times_insert)

lemma demo_uploaded: "demo_snap snap \<Longrightarrow> demo_files \<subseteq> fs \<Longrightarrow> rp_publication_id row = ''tok'' \<Longrightarrow>
    demo_step (demo_world [row] (xs @ demo_attempt snap Uploading fs # ys) files {''tok''} cl)
      (demo_world [row\<lparr>rp_stored_at := Some 1, rp_updated_at := 1\<rparr>] (xs @ demo_attempt snap Stored fs # ys) files {''tok''} cl)"
  using pub_step.uploaded [where w = "demo_world [row] (xs @ demo_attempt snap Uploading fs # ys) files {''tok''} cl" and
    xs = xs and a = "demo_attempt snap Uploading fs" and ys = ys and s = demo_publisher and mounts = "(=)" and now = 1]
  by (auto simp: mark_stored_def row_get_def put_pub_def row_put_def)

lemma demo_promote: "demo_snap snap \<Longrightarrow>
    demo_step (demo_world rows (xs @ demo_attempt snap Stored fs # ys) files {''tok''} cl)
      (demo_world rows (xs @ demo_attempt snap Published fs # ys) files {} cl)"
  using pub_step.promote [where w = "demo_world rows (xs @ demo_attempt snap Stored fs # ys) files {''tok''} cl" and
    xs = xs and a = "demo_attempt snap Stored fs" and ys = ys and s = demo_publisher and mounts = "(=)"]
  by (auto simp: on_disk_def)

lemma demo_succeed: "demo_snap snap \<Longrightarrow> rp_publication_id row = ''tok'' \<Longrightarrow>
    demo_step (demo_world [row] (xs @ demo_attempt snap Published fs # ys) files {} {})
      (demo_world [] (xs @ ys) files {} {''tok''})"
  using pub_step.succeed [where w = "demo_world [row] (xs @ demo_attempt snap Published fs # ys) files {} {}" and
    xs = xs and a = "demo_attempt snap Published fs" and ys = ys and s = demo_publisher and mounts = "(=)"]
  by (auto simp: ended_def record_success_def delete_pub_def row_get_def)

lemma demo_retreat: "demo_step
    (demo_world [claimed_twice] [a, demo_attempt claimed_twice Uploading {f}] files {''tok''} {})
    (demo_world [claimed_twice] [a, demo_attempt claimed_twice Retreating {f}] files {''tok''} {})"
  using pub_step.retreat [where w = "demo_world [claimed_twice] [a, demo_attempt claimed_twice Uploading {f}] files {''tok''} {}" and
    xs = "[a]" and a = "demo_attempt claimed_twice Uploading {f}" and ys = "[]" and s = demo_publisher and mounts = "(=)"]
  by (simp add: may_take_back_def row_get_def)

lemma times_without: "{r} \<times> files - {(r, f)} = {r} \<times> (files - {f})"
  by auto

lemma demo_take_back: "demo_step
    (demo_world [claimed_twice] [a, demo_attempt claimed_twice Retreating {f}] files {''tok''} {})
    (demo_world [claimed_twice] [a, demo_attempt claimed_twice Failed {f}] (files - {f}) {''tok''} {})"
  using pub_step.take_back [where w = "demo_world [claimed_twice] [a, demo_attempt claimed_twice Retreating {f}] files {''tok''} {}" and
    xs = "[a]" and a = "demo_attempt claimed_twice Retreating {f}" and ys = "[]" and s = demo_publisher and mounts = "(=)" and
    removed = "{f}"]
  by (simp add: demo_world_def moved_def times_without)

text \<open>
  A tick claims the row between the commit of the acceptance and the inline call, which then
  claims it a second time: attempt 1 uploads everything, attempt 2 is refused after its first file.
\<close>

definition both_uploading :: pub_world where
  "both_uploading = demo_world [claimed_twice]
     [demo_attempt claimed_once Uploading {}, demo_attempt claimed_twice Uploading {}] {} {''tok''} {}"

lemma claimed_twice_reachable: "demo_reachable both_uploading"
proof -
  let ?w = "\<lambda>rows atts. demo_world rows atts {} {''tok''} {}"
  let ?a = "demo_attempt claimed_once" and ?b = "demo_attempt claimed_twice"
  have "demo_reachable (?w [owed_row demo_publication] [])"
    using pub_reachable.start demo_accept by (rule pub_reachable.step)
  then have "demo_reachable (?w [claimed_once] [?a Taken {}])" using demo_tick by (rule pub_reachable.step)
  then have "demo_reachable (?w [claimed_once] [?a Entered {}])" using demo_enter by (rule pub_reachable.step)
  then have "demo_reachable (?w [claimed_twice] [?a Entered {}, ?b Entered {}])"
    using demo_inline by (rule pub_reachable.step)
  moreover have "demo_step (?w [claimed_twice] [?a Entered {}, ?b Entered {}])
      (?w [claimed_twice] [?a Uploading {}, ?b Entered {}])"
    using demo_begin [where xs = "[]" and snap = claimed_once] by simp
  ultimately have "demo_reachable (?w [claimed_twice] [?a Uploading {}, ?b Entered {}])" by (rule pub_reachable.step)
  moreover have "demo_step (?w [claimed_twice] [?a Uploading {}, ?b Entered {}]) both_uploading"
    using demo_begin [where xs = "[?a Uploading {}]" and ys = "[]" and snap = claimed_twice]
    by (simp add: both_uploading_def)
  ultimately show ?thesis by (rule pub_reachable.step)
qed

text \<open>
  The rollback of attempt 2 takes back a key of attempt 1, which then marks the tree as stored and
  closes the row.
\<close>

definition spoiled_world :: pub_world where
  "spoiled_world = demo_world [] [demo_attempt claimed_twice Failed {''tenant.json''}] {''summary.json''} {} {''tok''}"

lemma spoiled_reachable: "demo_reachable spoiled_world"
proof -
  let ?t = "''tenant.json''" and ?u = "''summary.json''" and ?row = "claimed_twice"
  let ?a = "demo_attempt claimed_once" and ?b = "demo_attempt claimed_twice"
  let ?w = "\<lambda>atts files. demo_world [?row] atts files {''tok''} {}"
  have f: "?t \<in> demo_files" "?u \<in> demo_files" "demo_files \<subseteq> {?u, ?t}" by (simp_all add: demo_files_def)
  have "demo_reachable (?w [?a Uploading {}, ?b Uploading {}] {})"
    using claimed_twice_reachable by (simp add: both_uploading_def)
  moreover have "demo_step (?w [?a Uploading {}, ?b Uploading {}] {}) (?w [?a Uploading {?t}, ?b Uploading {}] {?t})"
    using demo_put [where xs = "[]" and snap = claimed_once and fs = "{}" and f = ?t] f by simp
  ultimately have "demo_reachable (?w [?a Uploading {?t}, ?b Uploading {}] {?t})" by (rule pub_reachable.step)
  moreover have "demo_step (?w [?a Uploading {?t}, ?b Uploading {}] {?t}) (?w [?a Uploading {?u, ?t}, ?b Uploading {}] {?u, ?t})"
    using demo_put [where xs = "[]" and snap = claimed_once and fs = "{?t}" and f = ?u] f by simp
  ultimately have "demo_reachable (?w [?a Uploading {?u, ?t}, ?b Uploading {}] {?u, ?t})" by (rule pub_reachable.step)
  moreover have "demo_step (?w [?a Uploading {?u, ?t}, ?b Uploading {}] {?u, ?t})
      (?w [?a Uploading {?u, ?t}, ?b Uploading {?t}] {?u, ?t})"
    using demo_put [where xs = "[?a Uploading {?u, ?t}]" and ys = "[]" and snap = claimed_twice and fs = "{}" and
      f = ?t and files = "{?u, ?t}"] f by (simp add: insert_absorb)
  ultimately have "demo_reachable (?w [?a Uploading {?u, ?t}, ?b Uploading {?t}] {?u, ?t})" by (rule pub_reachable.step)
  then have "demo_reachable (?w [?a Uploading {?u, ?t}, ?b Retreating {?t}] {?u, ?t})"
    using demo_retreat by (rule pub_reachable.step)
  then have "demo_reachable (?w [?a Uploading {?u, ?t}, ?b Failed {?t}] ({?u, ?t} - {?t}))"
    using demo_take_back by (rule pub_reachable.step)
  then have "demo_reachable (?w [?a Uploading {?u, ?t}, ?b Failed {?t}] {?u})" by (simp add: insert_Diff_if)
  moreover let ?v = "\<lambda>st atts. demo_world [?row\<lparr>rp_stored_at := Some 1, rp_updated_at := 1\<rparr>] atts {?u} st {}"
  have "demo_step (?w [?a Uploading {?u, ?t}, ?b Failed {?t}] {?u}) (?v {''tok''} [?a Stored {?u, ?t}, ?b Failed {?t}])"
    using demo_uploaded [where xs = "[]" and snap = claimed_once and fs = "{?u, ?t}" and row = ?row] f by simp
  ultimately have "demo_reachable (?v {''tok''} [?a Stored {?u, ?t}, ?b Failed {?t}])" by (rule pub_reachable.step)
  moreover have "demo_step (?v {''tok''} [?a Stored {?u, ?t}, ?b Failed {?t}]) (?v {} [?a Published {?u, ?t}, ?b Failed {?t}])"
    using demo_promote [where xs = "[]" and snap = claimed_once] by simp
  ultimately have "demo_reachable (?v {} [?a Published {?u, ?t}, ?b Failed {?t}])" by (rule pub_reachable.step)
  moreover have "demo_step (?v {} [?a Published {?u, ?t}, ?b Failed {?t}]) spoiled_world"
    using demo_succeed [where xs = "[]" and snap = claimed_once] by (simp add: spoiled_world_def)
  ultimately show ?thesis by (rule pub_reachable.step)
qed
text \<open>The ordinary run: one tick, one attempt, everything in the store and the row closed.\<close>

definition published_world :: pub_world where
  "published_world = demo_world [] [] demo_files {} {''tok''}"

lemma published_reachable: "orderly_reachable demo_publisher (=) published_world"
proof -
  let ?t = "''tenant.json''" and ?u = "''summary.json''"
  let ?a = "demo_attempt claimed_once" and ?row = "claimed_once\<lparr>rp_stored_at := Some 1, rp_updated_at := 1\<rparr>"
  let ?w = "\<lambda>a files. demo_world [claimed_once] [a] files {''tok''} {}"
  let ?ok = "orderly_reachable demo_publisher (=)"
  have f: "?t \<in> demo_files" "?u \<in> demo_files" "demo_files \<subseteq> {?u, ?t}" "{?u, ?t} = demo_files"
    by (auto simp: demo_files_def)
  have o: "?ok w'" if "?ok w" and "demo_step w w'" and "length (pw_attempts w') \<le> 1"
      and "pw_accepted w' = [owed_row demo_publication]" for w w'
    using that by (intro orderly_reachable.orderly_step [OF that(1,2)]) (cases "pw_attempts w'"; simp add: orderly_def)
  have acc: "pw_accepted (demo_world rows atts files st cl) = [owed_row demo_publication]" for rows atts files st cl
    by (simp add: demo_world_def)
  have "?ok (demo_world [owed_row demo_publication] [] {} {''tok''} {})"
    by (rule o [OF orderly_reachable.orderly_start demo_accept]) (simp_all add: acc)
  then have "?ok (?w (?a Taken {}) {})" by (rule o [OF _ demo_tick]) (simp_all add: acc)
  then have "?ok (?w (?a Entered {}) {})" by (rule o [OF _ demo_enter]) (simp_all add: acc)
  then have "?ok (?w (?a Uploading {}) {})"
    by (rule o [OF _ demo_begin [where xs = "[]" and ys = "[]", simplified]]) (simp_all add: acc)
  then have "?ok (?w (?a Uploading {?t}) {?t})"
    by (rule o [OF _ demo_put [where xs = "[]" and ys = "[]", simplified]]) (simp_all add: acc f)
  then have "?ok (?w (?a Uploading {?u, ?t}) {?u, ?t})"
    by (rule o [OF _ demo_put [where xs = "[]" and ys = "[]", simplified]]) (simp_all add: acc f)
  then have "?ok (demo_world [?row] [?a Stored {?u, ?t}] {?u, ?t} {''tok''} {})"
    by (rule o [OF _ demo_uploaded [where xs = "[]" and ys = "[]", simplified]]) (simp_all add: acc f)
  then have "?ok (demo_world [?row] [?a Published {?u, ?t}] {?u, ?t} {} {})"
    by (rule o [OF _ demo_promote [where xs = "[]" and ys = "[]", simplified]]) (simp_all add: acc f)
  then have "?ok (demo_world [] [] {?u, ?t} {} {''tok''})"
    by (rule o [OF _ demo_succeed [where xs = "[]" and ys = "[]", simplified]]) (simp_all add: acc f)
  then show ?thesis by (simp add: published_world_def f(4))
qed

text \<open>Attempt 1 renews its hold, and attempt 2 ends the row beside it.\<close>

definition renewed_twice :: run_publication where
  "renewed_twice = renewed_row demo_publisher 0 0 1 claimed_twice"

definition dead_row :: run_publication where
  "dead_row = failed_row demo_publisher 1 ''refused'' False renewed_twice"

definition dead_world :: pub_world where
  "dead_world = demo_world [dead_row] [demo_attempt claimed_once Uploading {}] {} {''tok''} {}"

lemma renewed_ids [simp]:
  "rp_publication_id renewed_twice = ''tok''" "rp_publication_id dead_row = ''tok''"
  "rp_status dead_row = STATUS_DEAD"
  by (simp_all add: renewed_twice_def dead_row_def renewed_row_def Let_def failed_row_def demo_publisher_def
      claimed_twice_def claimed_once_def hold_def owed_row_def demo_publication_def)

lemma demo_horizon: "seconds (lease_horizon_seconds demo_publisher) = 60000000"
  by (simp add: lease_horizon_seconds_def demo_publisher_def seconds_def)

lemma demo_renewal:
  "renewal demo_publisher 0 0 claimed_once new_lease \<lparr>pd_rows = [claimed_twice], pd_audit = []\<rparr> =
     (\<lparr>pd_rows = [renewed_twice], pd_audit = []\<rparr>,
      new_lease\<lparr>ls_held_until := Some 60000000, ls_superseded := True\<rparr>)"
  using renewed_ids(1) unfolding renewed_twice_def
  by (simp add: renewal_def row_get_def new_lease_def Let_def put_pub_def row_put_def demo_horizon)

lemma dead_beside_attempt:
  "(pub_step demo_publisher (=))\<^sup>*\<^sup>* (both_uploading\<lparr>pw_db := \<lparr>pd_rows = [renewed_twice], pd_audit = []\<rparr>\<rparr>) dead_world"
proof -
  let ?a = "demo_attempt claimed_once Uploading {}" and ?b = "demo_attempt claimed_twice"
  let ?w = "\<lambda>b. demo_world [renewed_twice] [?a, b] {} {''tok''} {}"
  have "demo_step (?w (?b Uploading {})) (?w (?b Failed {}))"
    using pub_step.refused [where w = "?w (?b Uploading {})" and xs = "[?a]" and a = "?b Uploading {}" and
      ys = "[]" and s = demo_publisher and mounts = "(=)"] by simp
  moreover have "demo_step (?w (?b Failed {})) dead_world"
    using pub_step.fail [where w = "?w (?b Failed {})" and xs = "[?a]" and a = "?b Failed {}" and
      ys = "[]" and s = demo_publisher and mounts = "(=)" and now = 1 and reason = "''refused''"]
    by (simp add: dead_world_def ended_def record_failure_def row_get_def put_pub_def row_put_def dead_row_def)
  ultimately show ?thesis by (simp add: both_uploading_def)
qed

end
