(* ===== verification/Pub_Properties.thy ===== *)
theory Pub_Properties
  imports Pub_Demo
begin

text \<open>
  Properties of the publisher. The fence: every claim of a publication carries a higher number
  than the claims before it, so an attempt that another one has succeeded takes no key back.
  The durable intent: where the attempts at one publication do not overlap, an accepted run is
  owed, discarded by an operator, or published whole. A run shows what the fence does not cover.
  The operator's buttons wait for an attempt that has renewed its hold.
\<close>

section \<open>The fence\<close>

definition older_claim :: "run_publication \<Rightarrow> run_publication \<Rightarrow> bool" where
  "older_claim a b = (rp_publication_id a = rp_publication_id b \<longrightarrow> rp_fence a < rp_fence b)"

definition fenced :: "pub_db \<Rightarrow> string set \<Rightarrow> run_publication list \<Rightarrow> bool" where
  "fenced d ids ss \<longleftrightarrow> wf_pubs d \<and> (\<forall>k r. get_pub d k = Some r \<longrightarrow> k \<in> ids) \<and>
     (\<forall>s\<in>set ss. rp_publication_id s \<in> ids \<and>
        (\<forall>r. get_pub d (rp_publication_id s) = Some r \<longrightarrow> rp_fence s \<le> rp_fence r)) \<and>
     sorted_wrt older_claim ss"

lemma subseq_set: "subseq xs ys \<Longrightarrow> set xs \<subseteq> set ys"
  by (induction rule: list_emb.induct) auto

lemma sorted_wrt_subseq: "subseq xs ys \<Longrightarrow> sorted_wrt P ys \<Longrightarrow> sorted_wrt P xs"
  by (induction rule: list_emb.induct) (auto dest: subseq_set)

lemma fenced_goes_on:
  assumes f: "fenced d ids ss" and e: "pubs_evolve d d'" and wf: "wf_pubs d'" and sub: "subseq ss' ss"
  shows "fenced d' ids ss'"
proof -
  have "rp_fence s \<le> rp_fence r'" if s: "s \<in> set ss'" and g: "get_pub d' (rp_publication_id s) = Some r'" for s r'
  proof -
    obtain r where "get_pub d (rp_publication_id s) = Some r" "rp_fence r \<le> rp_fence r'"
      using e g by (rule pubs_evolveD) (simp add: row_evolves_def)
    with f subseq_set [OF sub] s show ?thesis by (force simp: fenced_def)
  qed
  moreover have "k \<in> ids" if k: "get_pub d' k = Some r" for k r
    using e k by (rule pubs_evolveD) (use f in \<open>auto simp: fenced_def\<close>)
  ultimately show ?thesis
    using f wf subseq_set [OF sub] sorted_wrt_subseq [OF sub] by (auto simp: fenced_def)
qed

lemma fenced_claims:
  assumes f: "fenced d ids ss" and c: "claims_rows d held d'" and e: "pubs_evolve d d'" and wf: "wf_pubs d'"
  shows "fenced d' ids (ss @ held)"
proof -
  have new: "older_claim s h" if s: "s \<in> set ss" and h: "h \<in> set held" for s h
  proof -
    obtain r where r: "get_pub d (rp_publication_id h) = Some r" "rp_fence h = rp_fence r + 1"
      using c h by (auto simp: claims_rows_def)
    with f s show ?thesis by (fastforce simp: fenced_def older_claim_def)
  qed
  have "sorted_wrt older_claim held"
    using c by (auto simp: claims_rows_def older_claim_def distinct_map sorted_wrt_iff_nth_less
        distinct_conv_nth)
  moreover have "fenced d' ids ss" using f e wf by (rule fenced_goes_on) simp
  moreover have "rp_publication_id h \<in> ids \<and>
      (\<forall>r. get_pub d' (rp_publication_id h) = Some r \<longrightarrow> rp_fence h \<le> rp_fence r)" if "h \<in> set held" for h
    using that c f by (fastforce simp: claims_rows_def fenced_def)
  ultimately show ?thesis using new by (auto simp: fenced_def sorted_wrt_append)
qed

lemma fenced_accepts:
  assumes f: "fenced d ids ss" and k: "rp_publication_id row \<notin> ids" and i: "insert_pub d row = Some d'"
  shows "fenced d' (insert (rp_publication_id row) ids) ss"
proof -
  have "rp_publication_id s \<noteq> rp_publication_id row" if "s \<in> set ss" for s
    using f k that by (auto simp: fenced_def)
  with f show ?thesis
    by (auto simp: fenced_def get_insert_pub [OF i] intro: wf_insert_pub [OF _ i] split: if_splits)
qed

lemma accepted_world_simps [simp]:
  "pw_db (accepted_world w row files d) = d" "pw_attempts (accepted_world w row files d) = pw_attempts w"
  "accepted_ids (accepted_world w row files d) = insert (rp_publication_id row) (accepted_ids w)"
  "pw_accepted (accepted_world w row files d) = pw_accepted w @ [row]"
  "pw_keys (accepted_world w row files d) = pw_keys w"
  "pw_closed (accepted_world w row files d) = pw_closed w"
  "pw_discarded (accepted_world w row files d) = pw_discarded w"
  "pw_trees (accepted_world w row files d) = (pw_trees w)(rp_publication_id row := files)"
  "pw_staged (accepted_world w row files d) = insert (rp_publication_id row) (pw_staged w)"
  by (simp_all add: accepted_world_def accepted_ids_def)

abbreviation world_fenced :: "pub_world \<Rightarrow> bool" where
  "world_fenced w \<equiv> fenced (pw_db w) (accepted_ids w) (snaps w)"

lemma fenced_step:
  assumes f: "world_fenced w" and s: "pub_step s mounts w w'"
  shows "world_fenced w'"
proof -
  have wf: "wf_pubs (pw_db w)" using f by (simp add: fenced_def)
  show ?thesis using s wf
  proof (cases rule: pub_step_shape)
    case (accepts row files d)
    then show ?thesis using fenced_accepts [OF f] by simp
  next
    case (claims r ph held d)
    then show ?thesis using fenced_claims [OF f] by (simp add: accepted_ids_def)
  next
    case goes_on
    then show ?thesis using fenced_goes_on [OF f] by (simp add: accepted_ids_def)
  qed
qed

lemma reachable_fenced: "pub_reachable s mounts w \<Longrightarrow> world_fenced w"
proof (induction rule: pub_reachable.induct)
  case start
  show ?case by (simp add: fenced_def start_world_def wf_pubs_def row_get_def)
next
  case (step w w')
  then show ?case by (blast intro: fenced_step)
qed



section \<open>The durable intent\<close>

definition home :: "pub_world \<Rightarrow> string \<Rightarrow> run_ref option" where
  "home w k = map_option run_ref_of (row_get rp_publication_id (pw_accepted w) k)"

text \<open>A run is published whole when every file of its tree is a key below its run.\<close>

definition published_whole :: "pub_world \<Rightarrow> string \<Rightarrow> bool" where
  "published_whole w k \<longleftrightarrow>
     (\<exists>ref. home w k = Some ref \<and> (\<forall>f\<in>pw_trees w k. (ref, f) \<in> pw_keys w))"

definition row_sound :: "pub_world \<Rightarrow> string \<Rightarrow> run_publication \<Rightarrow> bool" where
  "row_sound w k r \<longleftrightarrow> home w k = Some (run_ref_of r) \<and> (rp_stored_at r \<noteq> None \<longrightarrow> published_whole w k)"

definition mark_free :: "pub_world \<Rightarrow> string \<Rightarrow> bool" where
  "mark_free w k \<longleftrightarrow> (\<forall>r. get_pub (pw_db w) k = Some r \<longrightarrow> rp_stored_at r = None)"

definition attempt_sound :: "(string \<Rightarrow> string \<Rightarrow> bool) \<Rightarrow> pub_world \<Rightarrow> attempt \<Rightarrow> bool" where
  "attempt_sound mounts w a \<longleftrightarrow>
     home w (am_id a) = Some (run_ref_of (am_snap a)) \<and>
     (rp_stored_at (am_snap a) \<noteq> None \<longrightarrow> published_whole w (am_id a) \<and>
        (\<forall>r. get_pub (pw_db w) (am_id a) = Some r \<longrightarrow> rp_stored_at r \<noteq> None)) \<and>
     (am_phase a = Uploading \<longrightarrow>
        on_disk mounts w a \<and> {run_ref_of (am_snap a)} \<times> am_written a \<subseteq> pw_keys w) \<and>
     (am_phase a = Retreating \<longrightarrow> rp_stored_at (am_snap a) = None \<and> mark_free w (am_id a)) \<and>
     (am_phase a \<in> {Stored, Published} \<longrightarrow> published_whole w (am_id a))"

definition durable :: "(string \<Rightarrow> string \<Rightarrow> bool) \<Rightarrow> pub_world \<Rightarrow> bool" where
  "durable mounts w \<longleftrightarrow> wf_pubs (pw_db w) \<and>
     (\<forall>k r. get_pub (pw_db w) k = Some r \<longrightarrow> row_sound w k r) \<and>
     (\<forall>a\<in>set (pw_attempts w). attempt_sound mounts w a) \<and>
     (\<forall>k\<in>pw_closed w. published_whole w k \<and> get_pub (pw_db w) k = None \<and> k \<notin> am_id ` set (pw_attempts w)) \<and>
     (\<forall>k\<in>accepted_ids w. get_pub (pw_db w) k \<noteq> None \<or> k \<in> pw_closed w \<or> k \<in> pw_discarded w)"

text \<open>Transactions that keep every row, its run and its mark.\<close>

definition row_kept :: "run_publication \<Rightarrow> run_publication \<Rightarrow> bool" where
  "row_kept r r' \<longleftrightarrow> rp_publication_id r' = rp_publication_id r \<and> run_ref_of r' = run_ref_of r \<and>
     rp_stored_at r' = rp_stored_at r"

definition pubs_kept :: "pub_db \<Rightarrow> pub_db \<Rightarrow> bool" where
  "pubs_kept d d' \<longleftrightarrow> wf_pubs d' \<and> (\<forall>k. rel_option row_kept (get_pub d k) (get_pub d' k))"

named_theorems kept

lemma row_kept_refl [simp]: "row_kept r r"
  by (simp add: row_kept_def)

lemma rel_option_kept_refl [simp]: "rel_option row_kept x x"
  by (cases x) simp_all

lemma pubs_kept_refl [kept]: "wf_pubs d \<Longrightarrow> pubs_kept d d"
  by (simp add: pubs_kept_def)

lemma pubs_kept_audit [simp]: "pubs_kept d (d'\<lparr>pd_audit := a\<rparr>) = pubs_kept d d'"
  by (simp add: pubs_kept_def)

lemma pubs_kept_put:
  "wf_pubs d \<Longrightarrow> get_pub d k = Some r \<Longrightarrow> row_kept r r' \<Longrightarrow> pubs_kept d (put_pub d r')"
  using row_get_key [of rp_publication_id "pd_rows d" k r]
  by (cases "get_pub d k") (auto simp: pubs_kept_def row_kept_def intro: pub_table.wf_put)

lemma hold_kept: "row_kept r (hold s now n r)"
  by (simp add: row_kept_def run_ref_of_def)

lemma claim_due_kept [kept]: "wf_pubs d \<Longrightarrow> claim_due s now n lk d = (d', held) \<Longrightarrow> pubs_kept d d'"
  by (erule (1) claim_dueE) (auto simp: pubs_kept_def hold_kept option_rel_Some1 option.rel_map
      split: if_splits intro!: option.rel_refl)

lemma publish_now_kept [kept]:
  "wf_pubs d \<Longrightarrow> publish_now_claim s now k lk d = Some (d', row) \<Longrightarrow> pubs_kept d d'"
  by (auto simp: publish_now_claim_def Let_def split: option.splits if_splits intro: pubs_kept_put hold_kept)

lemma failed_row_kept: "row_kept r (failed_row s now why fin r)"
  by (simp add: row_kept_def run_ref_of_def)

lemma record_failure_kept [kept]: "wf_pubs d \<Longrightarrow> pubs_kept d (record_failure s now why fin snap d)"
  by (auto simp: record_failure_def split: option.split intro: pubs_kept_refl pubs_kept_put failed_row_kept)

lemma give_back_kept [kept]:
  "wf_pubs d \<Longrightarrow> give_back s now snap d = (d', b) \<Longrightarrow> pubs_kept d d'"
  by (auto simp: give_back_def row_kept_def run_ref_of_def split: option.splits if_splits
      intro: kept intro!: pubs_kept_put)

lemma renewed_row_kept: "row_kept r (renewed_row s now db_now n r)"
  by (simp add: renewed_row_def row_kept_def run_ref_of_def Let_def)

lemma renewal_kept [kept]:
  "wf_pubs d \<Longrightarrow> renewal s now db_now snap ls d = (d', ls') \<Longrightarrow> pubs_kept d d'"
  by (auto simp: renewal_def Let_def split: option.splits intro: pubs_kept_refl pubs_kept_put renewed_row_kept)

lemma requeued_row_kept: "row_kept r (requeued_row now r)"
  by (simp add: requeued_row_def row_kept_def run_ref_of_def)

lemma requeue_kept [kept]:
  "wf_pubs d \<Longrightarrow> requeue_publication now db_now d k job tenant = Ok (d', row) \<Longrightarrow> pubs_kept d d'"
  by (erule requeue_cases) (auto intro: pubs_kept_refl pubs_kept_put requeued_row_kept)

text \<open>Frames: what the soundness of an attempt and of a world depends on.\<close>

lemma published_whole_cong:
  "pw_accepted w' = pw_accepted w \<Longrightarrow> pw_trees w' = pw_trees w \<Longrightarrow> pw_keys w' = pw_keys w \<Longrightarrow>
    published_whole w' k = published_whole w k"
  by (simp add: published_whole_def home_def)

lemma published_whole_mono:
  "published_whole w k \<Longrightarrow> pw_accepted w' = pw_accepted w \<Longrightarrow> pw_trees w' = pw_trees w \<Longrightarrow>
    pw_keys w \<subseteq> pw_keys w' \<Longrightarrow> published_whole w' k"
  by (auto simp: published_whole_def home_def)

definition same_world :: "pub_world \<Rightarrow> pub_world \<Rightarrow> bool" where
  "same_world w w' \<longleftrightarrow> pw_accepted w' = pw_accepted w \<and> pw_trees w' = pw_trees w \<and> pw_keys w' = pw_keys w \<and>
     pw_staged w' = pw_staged w \<and> pw_closed w' = pw_closed w \<and> pw_discarded w' = pw_discarded w \<and>
     pubs_kept (pw_db w) (pw_db w')"

lemma kept_row:
  assumes "pubs_kept d d'" and "get_pub d' k = Some r'"
  obtains r where "get_pub d k = Some r" "row_kept r r'"
  using assms unfolding pubs_kept_def by (metis option_rel_Some2)

lemma attempt_sound_same:
  assumes a: "attempt_sound mounts w a" and same: "same_world w w'"
  shows "attempt_sound mounts w' a"
proof -
  have p: "published_whole w' k = published_whole w k" and h: "home w' k = home w k" for k
    using same by (auto simp: same_world_def published_whole_def home_def)
  have "rp_stored_at r' = None \<longleftrightarrow> rp_stored_at r = None"
    if "get_pub (pw_db w') k = Some r'" "get_pub (pw_db w) k = Some r" for k r r'
    using same that by (auto simp: same_world_def elim!: kept_row simp: row_kept_def)
  moreover have "get_pub (pw_db w') k = Some r' \<Longrightarrow> \<exists>r. get_pub (pw_db w) k = Some r" for k r'
    using same by (auto simp: same_world_def elim!: kept_row)
  ultimately show ?thesis
    using a same p h unfolding attempt_sound_def mark_free_def on_disk_def same_world_def by metis
qed

lemma durable_same:
  assumes d: "durable mounts w" and same: "same_world w w'"
    and att: "\<And>a. a \<in> set (pw_attempts w') \<Longrightarrow> attempt_sound mounts w' a"
    and ids: "am_id ` set (pw_attempts w') \<subseteq> am_id ` set (pw_attempts w) \<union> {k. get_pub (pw_db w) k \<noteq> None}"
  shows "durable mounts w'"
proof -
  have p: "published_whole w' k = published_whole w k" and h: "home w' k = home w k" for k
    using same by (auto simp: same_world_def published_whole_def home_def)
  have k: "pubs_kept (pw_db w) (pw_db w')" using same by (simp add: same_world_def)
  have none: "get_pub (pw_db w') k = None \<longleftrightarrow> get_pub (pw_db w) k = None" for k
    using k unfolding pubs_kept_def by (metis option.rel_distinct(1) option.rel_distinct(2) option.exhaust)
  have "row_sound w' k r'" if g: "get_pub (pw_db w') k = Some r'" for k r'
    using k g by (rule kept_row) (use d in \<open>auto simp: durable_def row_sound_def row_kept_def p h\<close>)
  moreover have "wf_pubs (pw_db w')" using k by (simp add: pubs_kept_def)
  moreover have "accepted_ids w' = accepted_ids w" "pw_closed w' = pw_closed w" "pw_discarded w' = pw_discarded w"
    using same by (simp_all add: same_world_def accepted_ids_def)
  moreover have "k \<notin> am_id ` set (pw_attempts w')" if "k \<in> pw_closed w" for k
  proof
    assume "k \<in> am_id ` set (pw_attempts w')"
    then have "k \<in> am_id ` set (pw_attempts w) \<union> {k. get_pub (pw_db w) k \<noteq> None}" using ids by (rule subsetD [rotated])
    with d that show False by (auto simp: durable_def)
  qed
  ultimately show ?thesis using d att none by (simp add: durable_def p)
qed

lemma on_disk_same: "pw_staged w' = pw_staged w \<Longrightarrow> am_snap a' = am_snap a \<Longrightarrow> am_replica a' = am_replica a \<Longrightarrow>
    on_disk mounts w' a' = on_disk mounts w a"
  by (simp add: on_disk_def split: option.split)

lemma durable_parts:
  assumes "durable mounts w"
  shows "wf_pubs (pw_db w)" and "get_pub (pw_db w) k = Some r \<Longrightarrow> row_sound w k r"
    and "a \<in> set (pw_attempts w) \<Longrightarrow> attempt_sound mounts w a"
    and "k \<in> pw_closed w \<Longrightarrow> published_whole w k"
    and "k \<in> pw_closed w \<Longrightarrow> get_pub (pw_db w) k = None"
    and "k \<in> pw_closed w \<Longrightarrow> k \<notin> am_id ` set (pw_attempts w)"
  using assms by (simp_all add: durable_def)

lemma durable_attempt:
  "durable mounts w \<Longrightarrow> pw_attempts w = xs @ a # ys \<Longrightarrow> attempt_sound mounts w a"
  by (simp add: durable_def)

lemma durable_moved:
  assumes d: "durable mounts w" and at: "pw_attempts w = xs @ a # ys" and same: "same_world w w'"
    and at': "pw_attempts w' = xs @ a' # ys" and id: "am_id a' = am_id a" and a': "attempt_sound mounts w' a'"
  shows "durable mounts w'"
  using d same
proof (rule durable_same)
  show "attempt_sound mounts w' b" if "b \<in> set (pw_attempts w')" for b
    using that a' d at by (auto simp: at' durable_def intro: attempt_sound_same [OF _ same])
  show "am_id ` set (pw_attempts w') \<subseteq> am_id ` set (pw_attempts w) \<union> {k. get_pub (pw_db w) k \<noteq> None}"
    using at at' id by auto
qed

lemma durable_ended:
  assumes d: "durable mounts w" and at: "pw_attempts w = xs @ a # ys"
    and k: "pubs_kept (pw_db w) d'"
  shows "durable mounts (ended w xs ys d')"
  using d
proof (rule durable_same)
  show same: "same_world w (ended w xs ys d')" using k by (simp add: same_world_def)
  show "attempt_sound mounts (ended w xs ys d') b" if "b \<in> set (pw_attempts (ended w xs ys d'))" for b
    using that d at by (auto simp: durable_def intro: attempt_sound_same [OF _ same])
  show "am_id ` set (pw_attempts (ended w xs ys d')) \<subseteq>
      am_id ` set (pw_attempts w) \<union> {k. get_pub (pw_db w) k \<noteq> None}"
    using at by auto
qed

lemma durable_claims:
  assumes d: "durable mounts w" and c: "claims_rows (pw_db w) held d'" and k: "pubs_kept (pw_db w) d'"
    and ph: "ph \<in> {Taken, Entered}"
  shows "durable mounts (w\<lparr>pw_db := d', pw_attempts := pw_attempts w @ map (attempt_on r ph) held\<rparr>)"
    (is "durable mounts ?w")
  using d
proof (rule durable_same)
  show same: "same_world w ?w" using k by (simp add: same_world_def)
  show "attempt_sound mounts ?w b" if b: "b \<in> set (pw_attempts ?w)" for b
  proof (cases "b \<in> set (pw_attempts w)")
    case True
    with d show ?thesis by (auto simp: durable_def intro: attempt_sound_same [OF _ same])
  next
    case False
    with b obtain h where h: "h \<in> set held" "b = attempt_on r ph h" by auto
    then obtain old where "get_pub (pw_db w) (rp_publication_id h) = Some old" "row_evolves old h"
        "rp_stored_at h = rp_stored_at old" "get_pub d' (rp_publication_id h) = Some h"
      using c by (auto simp: claims_rows_def)
    with d h ph show ?thesis
      by (auto simp: attempt_sound_def durable_def row_sound_def row_evolves_def home_def
          published_whole_def run_ref_of_def)
  qed
  show "am_id ` set (pw_attempts ?w) \<subseteq> am_id ` set (pw_attempts w) \<union> {k. get_pub (pw_db w) k \<noteq> None}"
    using c by (auto simp: claims_rows_def)
qed

text \<open>What another attempt's step must leave alone.\<close>

lemma attempt_sound_other:
  assumes "attempt_sound mounts w b" and "home w' (am_id b) = home w (am_id b)"
    and "published_whole w (am_id b) \<Longrightarrow> published_whole w' (am_id b)"
    and "get_pub (pw_db w') (am_id b) \<in> {None, get_pub (pw_db w) (am_id b)}"
    and "am_id b \<in> pw_staged w \<Longrightarrow> am_id b \<in> pw_staged w'"
    and "\<And>f. (run_ref_of (am_snap b), f) \<in> pw_keys w \<Longrightarrow> (run_ref_of (am_snap b), f) \<in> pw_keys w'"
  shows "attempt_sound mounts w' b"
  using assms unfolding attempt_sound_def mark_free_def on_disk_def by auto

lemma orderly_others:
  "orderly w \<Longrightarrow> pw_attempts w = xs @ a # ys \<Longrightarrow> b \<in> set xs \<union> set ys \<Longrightarrow> am_id b \<noteq> am_id a"
  by (force simp: orderly_def image_iff)

lemma home_inj:
  assumes "distinct (map run_ref_of (pw_accepted w))" and "home w k = Some ref" and "home w j = Some ref"
  shows "k = j"
proof -
  obtain p q where "row_get rp_publication_id (pw_accepted w) k = Some p" "run_ref_of p = ref"
      "row_get rp_publication_id (pw_accepted w) j = Some q" "run_ref_of q = ref"
    using assms by (auto simp: home_def)
  moreover from this have "p = q"
    using assms(1) by (auto simp: distinct_map inj_on_def dest!: row_get_mem)
  ultimately show ?thesis by (metis row_get_key)
qed

text \<open>
  A step of the attempt \<open>a\<close> that touches the store, the disk and the table at its own publication
  only. The runs of the others are other runs.
\<close>

lemma other_ref:
  assumes "durable mounts w" and o: "orderly w" and at: "pw_attempts w = xs @ a # ys"
    and k: "home w k = Some ref" "k \<noteq> am_id a"
  shows "ref \<noteq> run_ref_of (am_snap a)"
proof
  assume "ref = run_ref_of (am_snap a)"
  then have "home w (am_id a) = Some ref"
    using durable_attempt [OF assms(1) at] by (simp add: attempt_sound_def)
  with o k(1) have "k = am_id a" by (intro home_inj) (simp_all add: orderly_def)
  with k(2) show False by simp
qed

lemma durable_own_step:
  assumes d: "durable mounts w" and o: "orderly w" and at: "pw_attempts w = xs @ a # ys"
    and at': "pw_attempts w' = xs @ a' # ys" and id: "am_id a' = am_id a"
    and acc: "pw_accepted w' = pw_accepted w" and tr: "pw_trees w' = pw_trees w"
    and cl: "pw_closed w' = pw_closed w" and di: "pw_discarded w' = pw_discarded w"
    and wf: "wf_pubs (pw_db w')"
    and none: "\<And>k. get_pub (pw_db w') k = None \<longleftrightarrow> get_pub (pw_db w) k = None"
    and db: "\<And>k. k \<noteq> am_id a \<Longrightarrow> get_pub (pw_db w') k = get_pub (pw_db w) k"
    and st: "\<And>k. k \<noteq> am_id a \<Longrightarrow> k \<in> pw_staged w \<Longrightarrow> k \<in> pw_staged w'"
    and keys: "\<And>ref f. ref \<noteq> run_ref_of (am_snap a) \<Longrightarrow> (ref, f) \<in> pw_keys w \<Longrightarrow> (ref, f) \<in> pw_keys w'"
    and own: "attempt_sound mounts w' a'"
    and row: "\<And>r. get_pub (pw_db w') (am_id a) = Some r \<Longrightarrow> row_sound w' (am_id a) r"
  shows "durable mounts w'"
proof -
  have h: "home w' k = home w k" for k using acc by (simp add: home_def)
  have p: "published_whole w' k" if w: "published_whole w k" and k: "k \<noteq> am_id a" for k
  proof -
    obtain ref where r: "home w k = Some ref" "\<forall>f\<in>pw_trees w k. (ref, f) \<in> pw_keys w"
      using w by (auto simp: published_whole_def)
    moreover have "ref \<noteq> run_ref_of (am_snap a)" using d o at r(1) k by (rule other_ref)
    ultimately show ?thesis using keys by (auto simp: published_whole_def h tr)
  qed
  have others: "attempt_sound mounts w' b" if b: "b \<in> set xs \<union> set ys" for b
  proof -
    have s: "attempt_sound mounts w b" using d at b by (auto simp: durable_def)
    have n: "am_id b \<noteq> am_id a" using o at b by (rule orderly_others)
    have "home w (am_id b) = Some (run_ref_of (am_snap b))" using s by (simp add: attempt_sound_def)
    then have r: "run_ref_of (am_snap b) \<noteq> run_ref_of (am_snap a)" using n by (rule other_ref [OF d o at])
    from s h show ?thesis
      by (rule attempt_sound_other) (use p n db st keys r in auto)
  qed
  have atts: "\<forall>b\<in>set (pw_attempts w'). attempt_sound mounts w' b" using others own at' by auto
  have ids: "am_id ` set (pw_attempts w') = am_id ` set (pw_attempts w)" using at at' id by simp
  have rows: "row_sound w' k r" if g: "get_pub (pw_db w') k = Some r" for k r
  proof (cases "k = am_id a")
    case True with row g show ?thesis by simp
  next
    case False
    with g db d have "row_sound w k r" by (simp add: durable_def)
    with False p show ?thesis by (simp add: row_sound_def h)
  qed
  have closed: "published_whole w' k \<and> get_pub (pw_db w') k = None \<and> k \<notin> am_id ` set (pw_attempts w')"
    if "k \<in> pw_closed w" for k
  proof -
    have k: "published_whole w k" "get_pub (pw_db w) k = None" "k \<notin> am_id ` set (pw_attempts w)"
      using d that by (simp_all add: durable_def)
    moreover from this have "k \<noteq> am_id a" using at by auto
    ultimately show ?thesis using p ids none by simp
  qed
  have "accepted_ids w' = accepted_ids w" using acc by (simp add: accepted_ids_def)
  with d wf atts rows closed none show ?thesis by (simp add: durable_def cl di)
qed

text \<open>The steps that write to the store, mark the row, or move the tree.\<close>

lemma durable_put_file:
  assumes d: "durable mounts w" and o: "orderly w" and at: "pw_attempts w = xs @ a # ys"
    and ph: "am_phase a = Uploading" and disk: "on_disk mounts w a"
  shows "durable mounts (w\<lparr>pw_keys := insert (run_ref_of (am_snap a), f) (pw_keys w),
           pw_attempts := xs @ a\<lparr>am_written := insert f (am_written a)\<rparr> # ys\<rparr>)"
    (is "durable mounts ?w")
proof -
  have a: "attempt_sound mounts w a" using d at by (rule durable_attempt)
  have mono: "published_whole w k \<Longrightarrow> published_whole ?w k" for k
    by (erule published_whole_mono) auto
  have "attempt_sound mounts ?w (a\<lparr>am_written := insert f (am_written a)\<rparr>)"
    using a ph disk mono [of "am_id a"] on_disk_same [of ?w w "a\<lparr>am_written := insert f (am_written a)\<rparr>" a]
    by (auto simp: attempt_sound_def home_def)
  moreover have "row_sound ?w (am_id a) r" if "get_pub (pw_db w) (am_id a) = Some r" for r
    using d that mono [of "am_id a"] by (auto simp: durable_def row_sound_def home_def)
  ultimately show ?thesis using d by (intro durable_own_step [OF d o at]) (auto simp: durable_def)
qed

lemma mark_stored_get:
  "get_pub (mark_stored now snap d) k =
    (if k = rp_publication_id snap
     then map_option (\<lambda>r. r\<lparr>rp_stored_at := Some now, rp_updated_at := now\<rparr>) (get_pub d k) else get_pub d k)"
proof (cases "get_pub d (rp_publication_id snap)")
  case (Some r)
  moreover from this have "rp_publication_id r = rp_publication_id snap" by (rule row_get_key)
  ultimately show ?thesis by (simp add: mark_stored_def)
qed (simp add: mark_stored_def)

lemma durable_marked:
  assumes d: "durable mounts w" and o: "orderly w" and at: "pw_attempts w = xs @ a # ys"
    and whole: "published_whole w (am_id a)"
  shows "durable mounts ((moved w xs a ys Stored)\<lparr>pw_db := mark_stored now (am_snap a) (pw_db w)\<rparr>)"
    (is "durable mounts ?w")
proof -
  have a: "attempt_sound mounts w a" using d at by (rule durable_attempt)
  have p: "published_whole ?w k = published_whole w k" for k by (simp add: published_whole_def home_def)
  have "attempt_sound mounts ?w (a\<lparr>am_phase := Stored\<rparr>)"
    using a whole p by (auto simp: attempt_sound_def home_def mark_stored_get)
  moreover have "row_sound ?w (am_id a) r" if g: "get_pub (pw_db ?w) (am_id a) = Some r" for r
  proof -
    obtain q where "get_pub (pw_db w) (am_id a) = Some q" "run_ref_of r = run_ref_of q"
      using g by (auto simp: mark_stored_get run_ref_of_def)
    with d whole p show ?thesis by (auto simp: durable_def row_sound_def home_def)
  qed
  ultimately show ?thesis using d
    by (intro durable_own_step [OF d o at]) (simp_all add: durable_def mark_stored_get wf_mark_stored)
qed

lemma durable_taken_back:
  assumes d: "durable mounts w" and o: "orderly w" and at: "pw_attempts w = xs @ a # ys"
    and ph: "am_phase a = Retreating"
  shows "durable mounts ((moved w xs a ys Failed)\<lparr>pw_keys := pw_keys w - {run_ref_of (am_snap a)} \<times> gone\<rparr>)"
    (is "durable mounts ?w")
proof -
  have a: "attempt_sound mounts w a" using d at by (rule durable_attempt)
  have "attempt_sound mounts ?w (a\<lparr>am_phase := Failed\<rparr>)"
    using a ph by (simp add: attempt_sound_def home_def)
  moreover have "row_sound ?w (am_id a) r" if "get_pub (pw_db w) (am_id a) = Some r" for r
    using d a ph that by (auto simp: durable_def row_sound_def home_def attempt_sound_def mark_free_def)
  ultimately show ?thesis using d by (intro durable_own_step [OF d o at]) (auto simp: durable_def)
qed

lemma durable_promoted:
  assumes d: "durable mounts w" and o: "orderly w" and at: "pw_attempts w = xs @ a # ys"
    and ph: "am_phase a = Stored"
  shows "durable mounts ((moved w xs a ys Published)\<lparr>pw_staged := pw_staged w - {am_id a}\<rparr>)"
    (is "durable mounts ?w")
proof -
  have a: "attempt_sound mounts w a" using d at by (rule durable_attempt)
  have p: "published_whole ?w k = published_whole w k" for k by (simp add: published_whole_def home_def)
  have "attempt_sound mounts ?w (a\<lparr>am_phase := Published\<rparr>)"
    using a ph p by (auto simp: attempt_sound_def home_def)
  moreover have "row_sound ?w (am_id a) r" if "get_pub (pw_db w) (am_id a) = Some r" for r
    using d that p by (auto simp: durable_def row_sound_def home_def)
  ultimately show ?thesis using d by (intro durable_own_step [OF d o at]) (auto simp: durable_def)
qed

text \<open>The steps that take a row away, or bring one.\<close>

lemma durable_without_row:
  assumes d: "durable mounts w" and same: "pw_accepted w' = pw_accepted w" "pw_trees w' = pw_trees w"
      "pw_keys w' = pw_keys w" "pw_staged w' = pw_staged w"
    and db: "pw_db w' = delete_pub (pw_db w) k\<lparr>pd_audit := au\<rparr>"
    and att: "set (pw_attempts w') \<subseteq> set (pw_attempts w)"
    and cl: "pw_closed w \<subseteq> pw_closed w'" "pw_closed w' \<subseteq> insert k (pw_closed w)"
      "k \<in> pw_closed w' \<Longrightarrow> published_whole w k \<and> k \<notin> am_id ` set (pw_attempts w')"
    and di: "pw_discarded w \<subseteq> pw_discarded w'"
    and over: "get_pub (pw_db w) k \<noteq> None \<Longrightarrow> k \<in> pw_closed w' \<or> k \<in> pw_discarded w'"
  shows "durable mounts w'"
proof -
  have h: "home w' j = home w j" and p: "published_whole w' j = published_whole w j" for j
    using same by (simp_all add: home_def published_whole_def)
  have g: "get_pub (pw_db w') j = (if j = k then None else get_pub (pw_db w) j)" for j
    by (simp add: db)
  have "attempt_sound mounts w' b" if "b \<in> set (pw_attempts w')" for b
    by (rule attempt_sound_other [OF durable_parts(3) [OF d]])
      (use att that h p g same in \<open>simp_all add: subset_iff\<close>)
  moreover have "row_sound w' j r" if "get_pub (pw_db w') j = Some r" for j r
    using that durable_parts(2) [OF d, of j r] by (simp add: row_sound_def h p g split: if_splits)
  moreover have "published_whole w' j \<and> get_pub (pw_db w') j = None \<and> j \<notin> am_id ` set (pw_attempts w')"
    if j: "j \<in> pw_closed w'" for j
  proof (cases "j = k")
    case True with j cl(3) show ?thesis by (simp add: p g)
  next
    case False
    with j cl(2) have "j \<in> pw_closed w" by auto
    from durable_parts(4-6) [OF d this] att show ?thesis by (auto simp: p g)
  qed
  moreover have "get_pub (pw_db w') j \<noteq> None \<or> j \<in> pw_closed w' \<or> j \<in> pw_discarded w'"
    if j: "j \<in> accepted_ids w'" for j
  proof (cases "j = k \<and> get_pub (pw_db w) k \<noteq> None")
    case True with over show ?thesis by simp
  next
    case False
    have "j \<in> accepted_ids w" using j same by (simp add: accepted_ids_def)
    with d have "get_pub (pw_db w) j \<noteq> None \<or> j \<in> pw_closed w \<or> j \<in> pw_discarded w" by (simp add: durable_def)
    with False cl(1) di show ?thesis by (auto simp: g)
  qed
  moreover have "wf_pubs (pw_db w')" using d by (simp add: db durable_def wf_delete_pub)
  ultimately show ?thesis by (simp add: durable_def)
qed

lemma durable_succeeded:
  assumes d: "durable mounts w" and o: "orderly w" and at: "pw_attempts w = xs @ a # ys"
    and ph: "am_phase a = Published"
  shows "durable mounts ((ended w xs ys (record_success (am_snap a) (pw_db w)))
           \<lparr>pw_closed := (if get_pub (pw_db w) (am_id a) = None then pw_closed w
                          else insert (am_id a) (pw_closed w))\<rparr>)"
proof (rule durable_without_row [OF d, where k = "am_id a" and au = "pd_audit (pw_db w)"], simp_all)
  show "record_success (am_snap a) (pw_db w) = delete_pub (pw_db w) (am_id a)\<lparr>pd_audit := pd_audit (pw_db w)\<rparr>"
    by (simp add: record_success_def delete_pub_def)
  show "set xs \<subseteq> set (pw_attempts w) \<and> set ys \<subseteq> set (pw_attempts w)" using at by auto
  have "published_whole w (am_id a)"
    using durable_attempt [OF d at] ph by (simp add: attempt_sound_def)
  moreover have "am_id a \<notin> am_id ` (set xs \<union> set ys)" using orderly_others [OF o at] by fastforce
  ultimately show "published_whole w (am_id a) \<and> am_id a \<notin> am_id ` (set xs \<union> set ys)" by simp
qed auto

lemma durable_swept:
  assumes d: "durable mounts w" and k: "k \<notin> am_id ` set (pw_attempts w)"
  shows "durable mounts (w\<lparr>pw_staged := pw_staged w - {k}\<rparr>)" (is "durable mounts ?w")
proof -
  have h: "home ?w j = home w j" and p: "published_whole ?w j = published_whole w j" for j
    by (simp_all add: home_def published_whole_def)
  have "attempt_sound mounts ?w b" if "b \<in> set (pw_attempts w)" for b
    by (rule attempt_sound_other [OF durable_parts(3) [OF d]]) (use k that in \<open>auto simp: h p\<close>)
  moreover have "row_sound ?w j r" if "get_pub (pw_db w) j = Some r" for j r
    using durable_parts(2) [OF d that] by (simp add: row_sound_def h p)
  ultimately show ?thesis using d by (simp add: durable_def accepted_ids_def p)
qed

lemma durable_accepted:
  assumes d: "durable mounts w" and k: "rp_publication_id row \<notin> accepted_ids w"
    and i: "insert_pub (pw_db w) row = Some d'" and s: "rp_stored_at row = None"
  shows "durable mounts (accepted_world w row files d')" (is "durable mounts ?w")
proof -
  let ?k = "rp_publication_id row"
  have new: "row_get rp_publication_id (pw_accepted w) ?k = None"
  proof (cases "row_get rp_publication_id (pw_accepted w) ?k")
    case (Some q)
    with k show ?thesis using row_get_mem row_get_key unfolding accepted_ids_def by (metis imageI)
  qed
  have none: "home w ?k = None" using new by (simp add: home_def)
  have h: "home ?w j = (if j = ?k then Some (run_ref_of row) else home w j)" for j
    using new by (auto simp: home_def row_get_append row_get_single split: option.split)
  have p: "published_whole w j \<Longrightarrow> published_whole ?w j" for j
    using none by (auto simp: published_whole_def h)
  have no: "\<not> published_whole w ?k" using none by (simp add: published_whole_def)
  have at: "?k \<notin> am_id ` set (pw_attempts w)"
    using durable_parts(3) [OF d] none by (auto simp: attempt_sound_def)
  have "attempt_sound mounts ?w b" if "b \<in> set (pw_attempts w)" for b
    by (rule attempt_sound_other [OF durable_parts(3) [OF d that]])
      (use imageI [OF that, of am_id] at p in \<open>auto simp: h get_insert_pub [OF i]\<close>)
  moreover have "row_sound ?w j r" if "get_pub d' j = Some r" for j r
    using that s p durable_parts(2) [OF d, of j r]
    by (auto simp: row_sound_def h get_insert_pub [OF i] split: if_splits)
  moreover have "published_whole ?w j \<and> get_pub d' j = None \<and> j \<notin> am_id ` set (pw_attempts w)"
    if "j \<in> pw_closed w" for j
    using durable_parts(4-6) [OF d that] no p by (auto simp: get_insert_pub [OF i])
  moreover have "get_pub d' j \<noteq> None \<or> j \<in> pw_closed w \<or> j \<in> pw_discarded w"
    if "j \<in> insert ?k (accepted_ids w)" for j
    using that d by (auto simp: get_insert_pub [OF i] durable_def)
  moreover have "wf_pubs d'" using durable_parts(1) [OF d] i by (rule wf_insert_pub)
  ultimately show ?thesis by (simp add: durable_def)
qed

lemma new_row_unstored:
  "rp_stored_at (owed_row p) = None"
  "rp_stored_at (new_local_publication s now job run tenant jstatus exit err surf src) = None"
  by (simp_all add: owed_row_def new_local_publication_def)

lemma durable_phase:
  assumes d: "durable mounts w" and at: "pw_attempts w = xs @ a # ys"
    and s: "attempt_sound mounts w (a\<lparr>am_phase := ph\<rparr>)"
  shows "durable mounts (moved w xs a ys ph)"
proof -
  have same: "same_world w (moved w xs a ys ph)"
    using durable_parts(1) [OF d] by (simp add: same_world_def pubs_kept_refl)
  show ?thesis
    using d at same moved_simps(3) _ attempt_sound_same [OF s same] by (rule durable_moved) simp
qed

lemma durable_lease:
  assumes d: "durable mounts w" and at: "pw_attempts w = xs @ a # ys" and k: "pubs_kept (pw_db w) d'"
  shows "durable mounts (w\<lparr>pw_db := d', pw_attempts := xs @ a\<lparr>am_lease := ls\<rparr> # ys\<rparr>)" (is "durable mounts ?w")
proof -
  have same: "same_world w ?w" using k by (simp add: same_world_def)
  have "on_disk mounts w (a\<lparr>am_lease := ls\<rparr>) = on_disk mounts w a" by (rule on_disk_same) simp_all
  then have "attempt_sound mounts w (a\<lparr>am_lease := ls\<rparr>)"
    using durable_attempt [OF d at] by (simp add: attempt_sound_def)
  from attempt_sound_same [OF this same] show ?thesis
    by (intro durable_moved [OF d at same]) simp_all
qed

lemma durable_step:
  assumes d: "durable mounts w" and o: "orderly w" and st: "pub_step s mounts w w'"
  shows "durable mounts w'"
proof -
  have wf: "wf_pubs (pw_db w)" using d by (rule durable_parts)
  show ?thesis using st
  proof cases
    case accept_upload
    then show ?thesis using durable_accepted [OF d] new_row_unstored by simp
  next
    case accept_local
    then show ?thesis using durable_accepted [OF d] new_row_unstored by simp
  next
    case (tick r now locked d' held)
    with wf show ?thesis by (simp add: durable_claims [OF d claim_due_claims claim_due_kept])
  next
    case (inline r now pid locked d' row)
    with wf show ?thesis
      using durable_claims [OF d publish_now_claims [OF inline(2)] publish_now_kept [OF wf inline(2)], of Entered r]
      by simp
  next
    case (hand_back xs a ys now d' owed)
    show ?thesis unfolding hand_back(1) using hand_back(2) give_back_kept [OF wf hand_back(5)]
      by (rule durable_ended [OF d])
  next
    case (write_off xs a ys now)
    show ?thesis unfolding write_off(1) using write_off(2) record_failure_kept [OF wf] by (rule durable_ended [OF d])
  next
    case (gone xs a ys now)
    show ?thesis unfolding gone(1) using gone(2) record_failure_kept [OF wf] by (rule durable_ended [OF d])
  next
    case (archive_gone xs a ys now)
    show ?thesis unfolding archive_gone(1) using archive_gone(2) record_failure_kept [OF wf]
      by (rule durable_ended [OF d])
  next
    case (fail xs a ys now reason)
    show ?thesis unfolding fail(1) using fail(2) record_failure_kept [OF wf] by (rule durable_ended [OF d])
  next
    case (die xs a ys)
    show ?thesis unfolding die(1) using die(2) pubs_kept_refl [OF wf] by (rule durable_ended [OF d])
  next
    case (put_file xs a ys f)
    then show ?thesis using durable_put_file [OF d o] by simp
  next
    case (uploaded xs a ys now)
    then have "published_whole w (am_id a)"
      using durable_attempt [OF d uploaded(2)] by (auto simp: attempt_sound_def published_whole_def)
    then show ?thesis unfolding uploaded(1) by (rule durable_marked [OF d o uploaded(2)])
  next
    case (missed xs a ys now)
    then show ?thesis using durable_attempt [OF d missed(2)] by (simp add: attempt_sound_def)
  next
    case (take_back xs a ys removed)
    then show ?thesis using durable_taken_back [OF d o] by simp
  next
    case (promote xs a ys)
    then show ?thesis using durable_promoted [OF d o] by simp
  next
    case (succeed xs a ys)
    then show ?thesis using durable_succeeded [OF d o] by simp
  next
    case (sweep pid)
    then show ?thesis using durable_swept [OF d] by simp
  next
    case (requeue now db_now pid job tenant d' answer)
    have same: "same_world w w'" using requeue_kept [OF wf requeue(2)] requeue(1) by (simp add: same_world_def)
    with d show ?thesis
      by (rule durable_same) (use requeue(1) durable_parts(3) [OF d] attempt_sound_same [OF _ same] in auto)
  next
    case (discard db_now pid job tenant d' found)
    from discard(2) show ?thesis
    proof (cases rule: discard_cases)
      case 1
      with d discard(1) show ?thesis by simp
    next
      case (2 r au)
      then show ?thesis using discard(1) durable_parts(4-6) [OF d, of pid]
        by (intro durable_without_row [OF d, where k = pid and au = au]) auto
    qed
  next
    case (renew xs a ys now db_now d' ls)
    show ?thesis unfolding renew(1) using renew(2) renewal_kept [OF wf renew(5)] by (rule durable_lease [OF d])
  next
    case (renewal_refused xs a ys)
    then show ?thesis using durable_lease [OF d renewal_refused(2) pubs_kept_refl [OF wf]] by simp
  next
    case (enter xs a ys)
    show ?thesis unfolding enter(1) using d enter(2)
      by (rule durable_phase) (use durable_attempt [OF d enter(2)] in \<open>simp add: attempt_sound_def\<close>)
  next
    case (begin_upload xs a ys)
    have same: "same_world w w'" using begin_upload(1) wf by (simp add: same_world_def pubs_kept_refl)
    have "on_disk mounts w (a\<lparr>am_written := {}, am_phase := Uploading\<rparr>)"
      using begin_upload(4) on_disk_same [of w w "a\<lparr>am_written := {}, am_phase := Uploading\<rparr>" a] by simp
    then have "attempt_sound mounts w (a\<lparr>am_written := {}, am_phase := Uploading\<rparr>)"
      using durable_attempt [OF d begin_upload(2)] begin_upload(3) by (simp add: attempt_sound_def)
    from attempt_sound_same [OF this same] show ?thesis
      by (intro durable_moved [OF d begin_upload(2) same]) (simp_all add: begin_upload(1))
  next
    case (resume xs a ys)
    show ?thesis unfolding resume(1) using d resume(2)
      by (rule durable_phase)
        (use durable_attempt [OF d resume(2)] resume(5) in \<open>simp add: attempt_sound_def tree_is_stored_def\<close>)
  next
    case (unmarked xs a ys)
    show ?thesis unfolding unmarked(1) using d unmarked(2)
      by (rule durable_phase) (use durable_attempt [OF d unmarked(2)] in \<open>simp add: attempt_sound_def\<close>)
  next
    case (refused xs a ys)
    show ?thesis unfolding refused(1) using d refused(2)
      by (rule durable_phase) (use durable_attempt [OF d refused(2)] in \<open>simp add: attempt_sound_def\<close>)
  next
    case (retreat xs a ys)
    show ?thesis unfolding retreat(1) using d retreat(2)
      by (rule durable_phase) (use durable_attempt [OF d retreat(2)] retreat(5) in
        \<open>auto simp: attempt_sound_def may_take_back_def mark_free_def split: option.splits\<close>)
  next
    case (stumble xs a ys)
    show ?thesis unfolding stumble(1) using d stumble(2)
      by (rule durable_phase) (use durable_attempt [OF d stumble(2)] in \<open>simp add: attempt_sound_def\<close>)
  qed
qed

lemma orderly_durable: "orderly_reachable s mounts w \<Longrightarrow> durable mounts w \<and> orderly w"
proof (induction rule: orderly_reachable.induct)
  case orderly_start
  show ?case
    by (simp add: durable_def orderly_def start_world_def wf_pubs_def row_get_def accepted_ids_def)
next
  case (orderly_step w w')
  then show ?case by (blast intro: durable_step)
qed

lemma accepted_once: "orderly_reachable s mounts w \<Longrightarrow> distinct (map rp_publication_id (pw_accepted w))"
proof (induction rule: orderly_reachable.induct)
  case orderly_start
  show ?case by (simp add: start_world_def)
next
  case (orderly_step w w')
  have "wf_pubs (pw_db w)" using orderly_durable [OF orderly_step(1)] by (auto dest: durable_parts(1))
  with orderly_step(2) show ?case
    by (cases rule: pub_step_shape) (use orderly_step(4) in \<open>auto simp: accepted_ids_def\<close>)
qed

lemma home_of_accepted:
  "orderly_reachable s mounts w \<Longrightarrow> row \<in> set (pw_accepted w) \<Longrightarrow>
    home w (rp_publication_id row) = Some (run_ref_of row)"
  by (auto simp: home_def row_get_Some_iff [OF accepted_once])



section \<open>Where two attempts overlap\<close>

text \<open>
  C38. Where attempts do overlap the fence protects the newer one only. A tick and the inline call
  of the accepting request hold the row of one upload at once, each claim inside the other's
  hold; the newer attempt is refused after its first file and takes that key back, although the
  older one has written it as well. The older attempt finds its own upload complete, marks the
  row as stored and closes it: the run is published without its tenant marker, and nothing owes it.
\<close>

theorem newest_rollback_spoils_older_upload:
  "\<exists>w. pub_reachable demo_publisher (=) w \<and> ''tok'' \<in> pw_closed w \<and> ''tok'' \<notin> pw_discarded w \<and>
     get_pub (pw_db w) ''tok'' = None \<and> pw_staged w = {} \<and>
     ''tenant.json'' \<in> pw_trees w ''tok'' \<and> ((''t'', ''r''), ''tenant.json'') \<notin> pw_keys w \<and>
     ((''t'', ''r''), ''summary.json'') \<in> pw_keys w"
  using spoiled_reachable
  by (intro exI [of _ spoiled_world]) (simp add: spoiled_world_def demo_files_def row_get_def demo_world_def)

section \<open>The operator's buttons\<close>

text \<open>A hold on a row, once stamped, is in force for as long as the row is there.\<close>

definition held_to :: "time \<Rightarrow> string \<Rightarrow> pub_db \<Rightarrow> bool" where
  "held_to t k d \<longleftrightarrow> (\<forall>r. get_pub d k = Some r \<longrightarrow> lease_forward (Some t) (rp_leased_until r))"

lemma held_to_evolves: "held_to t k d \<Longrightarrow> pubs_evolve d d' \<Longrightarrow> held_to t k d'"
  unfolding held_to_def
  by (intro allI impI, erule (1) pubs_evolveD) (force simp: row_evolves_def lease_forward_def)

lemma renewal_holds:
  assumes "renewal s now db_now snap ls d = (d', ls')"
  shows "held_to (db_now + seconds (lease_horizon_seconds s)) (rp_publication_id snap) d'"
proof (cases "get_pub d (rp_publication_id snap)")
  case (Some r)
  moreover from this have "rp_publication_id r = rp_publication_id snap" by (rule row_get_key)
  ultimately show ?thesis using assms
    by (auto simp: renewal_def held_to_def renewed_row_def lease_forward_def Let_def split: option.splits if_splits)
qed (use assms in \<open>simp add: renewal_def held_to_def\<close>)

lemma held_to_step:
  assumes f: "world_fenced w" and k: "k \<in> accepted_ids w" and h: "held_to t k (pw_db w)"
    and s: "pub_step s mounts w w'"
  shows "world_fenced w' \<and> k \<in> accepted_ids w' \<and> held_to t k (pw_db w')"
proof -
  have wf: "wf_pubs (pw_db w)" using f by (simp add: fenced_def)
  from s wf have "k \<in> accepted_ids w' \<and> held_to t k (pw_db w')"
  proof (cases rule: pub_step_shape)
    case (accepts row files d)
    with k h show ?thesis by (auto simp: held_to_def get_insert_pub)
  next
    case (claims r ph held d)
    with k h show ?thesis by (auto simp: accepted_ids_def intro: held_to_evolves)
  next
    case goes_on
    with k h show ?thesis by (auto simp: accepted_ids_def intro: held_to_evolves)
  qed
  with fenced_step [OF f s] show ?thesis by simp
qed

lemma held_to_run:
  assumes "(pub_step s mounts)\<^sup>*\<^sup>* w w'" and "world_fenced w" and "k \<in> accepted_ids w" and "held_to t k (pw_db w)"
  shows "held_to t k (pw_db w')"
proof -
  from assms(1) have "world_fenced w' \<and> k \<in> accepted_ids w' \<and> held_to t k (pw_db w')"
    by (induction rule: rtranclp_induct) (use assms(2-4) held_to_step in blast)+
  then show ?thesis by simp
qed

text \<open>
  C20. The buttons wait for the work: an attempt has renewed its hold on a row; whatever the
  publisher does afterwards, another attempt ending the row as dead included, an operator who
  requeues or discards it before that hold runs out on the database's clock is told that the
  publication is in flight, and until when.
\<close>

theorem operator_waits_for_running_attempt:
  assumes "pub_reachable s mounts w" and "pw_attempts w = xs @ a # ys"
    and "renewal s now db_now (am_snap a) ls (pw_db w) = (d, ls')"
    and "(pub_step s mounts)\<^sup>*\<^sup>* (w\<lparr>pw_db := d\<rparr>) w'"
    and "operator_row (pw_db w') (am_id a) job tenant = Some r" and "rp_status r = STATUS_DEAD"
    and "db_later < db_now + seconds (lease_horizon_seconds s)"
  shows "\<exists>u \<ge> db_now + seconds (lease_horizon_seconds s).
    requeue_publication later db_later (pw_db w') (am_id a) job tenant = Err (PublicationInFlight u) \<and>
    discard_publication db_later (pw_db w') (am_id a) job tenant = Err (PublicationInFlight u)"
proof -
  let ?t = "db_now + seconds (lease_horizon_seconds s)"
  have f: "world_fenced w" using assms(1) by (rule reachable_fenced)
  then have wf: "wf_pubs (pw_db w)" by (simp add: fenced_def)
  have "fenced d (accepted_ids w) (snaps w)"
    using f renewal_evolves [OF assms(3)] wf_renewal [OF assms(3) wf] by (rule fenced_goes_on) simp
  then have "world_fenced (w\<lparr>pw_db := d\<rparr>)" by (simp add: accepted_ids_def)
  moreover have "am_id a \<in> accepted_ids (w\<lparr>pw_db := d\<rparr>)"
    using f assms(2) by (simp add: fenced_def accepted_ids_def)
  moreover have "held_to ?t (am_id a) (pw_db (w\<lparr>pw_db := d\<rparr>))"
    using renewal_holds [OF assms(3)] by simp
  ultimately have "held_to ?t (am_id a) (pw_db w')" by (rule held_to_run [OF assms(4)])
  with operator_row_Some [OF assms(5)] obtain u where u: "rp_leased_until r = Some u" "?t \<le> u"
    by (auto simp: held_to_def lease_forward_def)
  then have "refuse_while_leased db_later r = Err (PublicationInFlight u)"
    using assms(6,7) by (simp add: refuse_while_leased_def is_leased_def)
  with assms(5,6) u(2) show ?thesis
    by (intro exI [of _ u]) (simp add: requeue_publication_def discard_publication_def)
qed

theorem operator_waits_for_running_attempt_witness:
  "\<exists>u \<ge> 60000000. requeue_publication 1 1 (pw_db dead_world) ''tok'' None None = Err (PublicationInFlight u) \<and>
    discard_publication 1 (pw_db dead_world) ''tok'' None None = Err (PublicationInFlight u)"
  using operator_waits_for_running_attempt [OF claimed_twice_reachable, where xs = "[]" and
    a = "demo_attempt claimed_once Uploading {}" and ys = "[demo_attempt claimed_twice Uploading {}]" and
    now = 0 and db_now = 0 and ls = new_lease and d = "\<lparr>pd_rows = [renewed_twice], pd_audit = []\<rparr>" and
    w' = dead_world and r = dead_row and job = None and tenant = None and db_later = 1 and later = 1,
    OF _ _ dead_beside_attempt]
  by (simp add: both_uploading_def demo_renewal demo_horizon dead_world_def operator_row_def row_get_def)

end
